(* ===== verification/Prelude.thy ===== *)
theory Prelude
  imports Complex_Main "HOL-Library.Sublist" "HOL-Library.Char_ord" "HOL-Library.List_Lexorder"
    "HOL-Library.Product_Lexorder"
begin

text \<open>
  What every component of the development shares.

  \<^item> Python exceptions as the datatype \<open>py_error\<close>; a call that may raise returns
    \<open>py_error + 'a\<close> (\<open>Inl\<close> the exception); a call that also changes state is a function
    \<open>'s \<Rightarrow> (py_error + 'a) \<times> 's\<close>, because in Python a state change made before the
    raise stays.
  \<^item> Dynamically typed values (\<open>Any\<close>, decoded JSON and YAML) as the datatype \<open>json\<close>,
    dictionaries as association lists in insertion order, with Python's \<open>d[k] = v\<close>,
    \<open>d.update\<close>, \<open>d.get\<close> and \<open>d.pop\<close>.
  \<^item> Python's string functions on \<open>string\<close>. A Python string is represented by its UTF-8
    bytes, so concatenation, equality, \<open>startswith\<close>, \<open>endswith\<close>, \<open>in\<close>, \<open>split\<close> and
    \<open>partition\<close> on an ASCII separator agree with the code; \<open>lower\<close>, \<open>casefold\<close> and
    \<open>strip\<close> are modelled on the ASCII range.
  \<^item> Python floats as exact rationals (\<open>rat\<close>): comparison of finite floats agrees, the
    rounding of additions is not modelled.
\<close>

subsection \<open>Collections of the library\<close>

named_theorems eff_simps "evaluation of the effect combinators"
named_theorems preserves_intros "rules that build preservation of an invariant by an operation"
named_theorems triple_intros "Hoare rules for the effect combinators"
named_theorems err_keeps_intros "rules that show that a raising operation leaves the state alone"
named_theorems dict_simps "lookups after Python dictionary updates"

subsection \<open>Exceptions and effects\<close>

datatype py_error =
    NotFoundError string
  | StateError string
  | ApprovalRequiredError string string string
  | ValidationError string
  | ValueError string
  | TypeError string
  | KeyError string
  | IntegrityError string
  | AttributeError string
  | NotImplementedError string
  | ConversationNotFoundError string
  | ConversationAlreadyExistsError string
  | NameAlreadyExistsError string
  | OmnigentError string
  | ElicitationDeclinedError string "string option"
  | PermissionError string
  | TimeoutError
  | OSError string
  | SubprocessError string
  | OtherError string

type_synonym 'a res = "py_error + 'a"
type_synonym ('s, 'a) eff = "'s \<Rightarrow> 'a res \<times> 's"

definition res_bind :: "'a res \<Rightarrow> ('a \<Rightarrow> 'b res) \<Rightarrow> 'b res" where
  "res_bind r f = (case r of Inl e \<Rightarrow> Inl e | Inr x \<Rightarrow> f x)"

definition eff_return :: "'a \<Rightarrow> ('s, 'a) eff" where
  "eff_return x = (\<lambda>s. (Inr x, s))"

definition eff_raise :: "py_error \<Rightarrow> ('s, 'a) eff" where
  "eff_raise e = (\<lambda>s. (Inl e, s))"

definition eff_bind :: "('s, 'a) eff \<Rightarrow> ('a \<Rightarrow> ('s, 'b) eff) \<Rightarrow> ('s, 'b) eff" where
  "eff_bind m k = (\<lambda>s. case m s of (Inl e, s') \<Rightarrow> (Inl e, s') | (Inr x, s') \<Rightarrow> k x s')"

definition eff_lift :: "('s \<Rightarrow> 'a res) \<Rightarrow> ('s, 'a) eff" where
  "eff_lift f = (\<lambda>s. (f s, s))"

text \<open>\<open>try: m\<close> with the handler \<open>h\<close>; what \<open>m\<close> did before the exception stays.\<close>

definition eff_try :: "('s, 'a) eff \<Rightarrow> (py_error \<Rightarrow> ('s, 'a) eff) \<Rightarrow> ('s, 'a) eff" where
  "eff_try m h = (\<lambda>s. case m s of (Inl e, s') \<Rightarrow> h e s' | (Inr x, s') \<Rightarrow> (Inr x, s'))"

text \<open>\<open>for x in xs: body(x)\<close>: the first exception ends the loop.\<close>

primrec eff_for :: "'a list \<Rightarrow> ('a \<Rightarrow> ('s, 'b) eff) \<Rightarrow> ('s, unit) eff" where
  "eff_for [] body = eff_return ()"
| "eff_for (x # xs) body = eff_bind (body x) (\<lambda>_. eff_for xs body)"

primrec res_map :: "('a \<Rightarrow> 'b res) \<Rightarrow> 'a list \<Rightarrow> 'b list res" where
  "res_map f [] = Inr []"
| "res_map f (x # xs) = res_bind (f x) (\<lambda>y. res_bind (res_map f xs) (\<lambda>ys. Inr (y # ys)))"

definition is_ok :: "'a res \<Rightarrow> bool" where
  "is_ok r = (case r of Inl _ \<Rightarrow> False | Inr _ \<Rightarrow> True)"

text \<open>An operation preserves a predicate of the state whatever it returns or raises.\<close>

definition preserves :: "('s \<Rightarrow> bool) \<Rightarrow> ('s, 'a) eff \<Rightarrow> bool" where
  "preserves P m \<longleftrightarrow> (\<forall>s. P s \<longrightarrow> P (snd (m s)))"

text \<open>
  \<open>triple P m Q E\<close>: from a state with \<open>P\<close>, a returning call ends with \<open>Q\<close> of its result and
  state, a raising one in a state with \<open>E\<close>.
\<close>

definition triple :: "('s \<Rightarrow> bool) \<Rightarrow> ('s, 'a) eff \<Rightarrow> ('a \<Rightarrow> 's \<Rightarrow> bool) \<Rightarrow> ('s \<Rightarrow> bool) \<Rightarrow> bool" where
  "triple P m Q E \<longleftrightarrow>
     (\<forall>s. P s \<longrightarrow> (case m s of (Inl e, t) \<Rightarrow> E t | (Inr x, t) \<Rightarrow> Q x t))"

text \<open>An operation that raises leaves the state as it was.\<close>

definition err_keeps :: "('s, 'a) eff \<Rightarrow> bool" where
  "err_keeps m \<longleftrightarrow> (\<forall>s e s'. m s = (Inl e, s') \<longrightarrow> s' = s)"

subsection \<open>Dynamically typed values\<close>

datatype json =
    JNull
  | JBool bool
  | JInt int
  | JFloat rat
  | JStr string
  | JList "json list"
  | JDict "(string \<times> json) list"

type_synonym 'v dict = "(string \<times> 'v) list"

text \<open>Truth value testing of the Python reference: \<open>None\<close>, \<open>False\<close>, zero and empty containers.\<close>

fun truthy :: "json \<Rightarrow> bool" where
  "truthy JNull = False"
| "truthy (JBool b) = b"
| "truthy (JInt i) = (i \<noteq> 0)"
| "truthy (JFloat q) = (q \<noteq> 0)"
| "truthy (JStr s) = (s \<noteq> [])"
| "truthy (JList xs) = (xs \<noteq> [])"
| "truthy (JDict d) = (d \<noteq> [])"

fun dict_set :: "string \<Rightarrow> 'v \<Rightarrow> 'v dict \<Rightarrow> 'v dict" where
  "dict_set k v [] = [(k, v)]"
| "dict_set k v ((k', v') # d) = (if k' = k then (k, v) # d else (k', v') # dict_set k v d)"

definition dict_get :: "'v dict \<Rightarrow> string \<Rightarrow> 'v option" where
  "dict_get d k = map_of d k"

definition dict_get_or :: "'v dict \<Rightarrow> string \<Rightarrow> 'v \<Rightarrow> 'v" where
  "dict_get_or d k v = (case map_of d k of None \<Rightarrow> v | Some w \<Rightarrow> w)"

definition dict_has :: "'v dict \<Rightarrow> string \<Rightarrow> bool" where
  "dict_has d k = (map_of d k \<noteq> None)"

definition dict_pop :: "string \<Rightarrow> 'v dict \<Rightarrow> 'v dict" where
  "dict_pop k d = filter (\<lambda>(k', _). k' \<noteq> k) d"

definition dict_update :: "'v dict \<Rightarrow> 'v dict \<Rightarrow> 'v dict" where
  "dict_update d upd = fold (\<lambda>(k, v) acc. dict_set k v acc) upd d"

text \<open>\<open>x or y\<close> on an optional string, and on an optional list.\<close>

definition str_or :: "string option \<Rightarrow> string \<Rightarrow> string" where
  "str_or x y = (case x of None \<Rightarrow> y | Some s \<Rightarrow> if s = [] then y else s)"

definition opt_str_or :: "string option \<Rightarrow> string option \<Rightarrow> string option" where
  "opt_str_or x y = (case x of None \<Rightarrow> y | Some s \<Rightarrow> if s = [] then y else Some s)"

definition list_or :: "'a list option \<Rightarrow> 'a list" where
  "list_or x = (case x of None \<Rightarrow> [] | Some xs \<Rightarrow> xs)"

definition str_truthy :: "string option \<Rightarrow> bool" where
  "str_truthy x = (case x of None \<Rightarrow> False | Some s \<Rightarrow> s \<noteq> [])"

subsection \<open>Strings\<close>

definition startswith :: "string \<Rightarrow> string \<Rightarrow> bool" where
  "startswith s p = prefix p s"

definition endswith :: "string \<Rightarrow> string \<Rightarrow> bool" where
  "endswith s p = suffix p s"

text \<open>\<open>sub in s\<close>.\<close>

fun str_in :: "string \<Rightarrow> string \<Rightarrow> bool" where
  "str_in sub [] = (sub = [])"
| "str_in sub (c # cs) = (prefix sub (c # cs) \<or> str_in sub cs)"

definition lower_char :: "char \<Rightarrow> char" where
  "lower_char c = (let n = (of_char c :: nat) in if 65 \<le> n \<and> n \<le> 90 then char_of (n + 32) else c)"

definition upper_char :: "char \<Rightarrow> char" where
  "upper_char c = (let n = (of_char c :: nat) in if 97 \<le> n \<and> n \<le> 122 then char_of (n - 32) else c)"

definition lower :: "string \<Rightarrow> string" where
  "lower s = map lower_char s"

definition upper :: "string \<Rightarrow> string" where
  "upper s = map upper_char s"

definition is_space :: "char \<Rightarrow> bool" where
  "is_space c = (let n = (of_char c :: nat) in (9 \<le> n \<and> n \<le> 13) \<or> (28 \<le> n \<and> n \<le> 32))"

definition lstrip :: "string \<Rightarrow> string" where
  "lstrip s = dropWhile is_space s"

definition strip :: "string \<Rightarrow> string" where
  "strip s = rev (dropWhile is_space (rev (dropWhile is_space s)))"

text \<open>\<open>s.partition(c)\<close> for a one-character separator; the middle part says if it was found.\<close>

fun partition_char :: "char \<Rightarrow> string \<Rightarrow> string \<times> bool \<times> string" where
  "partition_char c [] = ([], False, [])"
| "partition_char c (x # xs) =
     (if x = c then ([], True, xs)
      else (let (a, f, b) = partition_char c xs in (x # a, f, b)))"

text \<open>\<open>s.split(c)\<close> for a one-character separator.\<close>

fun split_char :: "char \<Rightarrow> string \<Rightarrow> string list" where
  "split_char c [] = [[]]"
| "split_char c (x # xs) =
     (if x = c then [] # split_char c xs
      else (case split_char c xs of [] \<Rightarrow> [[x]] | w # ws \<Rightarrow> (x # w) # ws))"

text \<open>\<open>s.split(sep, 1)\<close> for a longer separator: \<open>None\<close> when it does not occur.\<close>

fun split_once :: "string \<Rightarrow> string \<Rightarrow> (string \<times> string) option" where
  "split_once sep [] = (if sep = [] then Some ([], []) else None)"
| "split_once sep (c # cs) =
     (if prefix sep (c # cs) then Some ([], drop (length sep) (c # cs))
      else map_option (\<lambda>(a, b). (c # a, b)) (split_once sep cs))"

fun join :: "string \<Rightarrow> string list \<Rightarrow> string" where
  "join sep [] = []"
| "join sep [x] = x"
| "join sep (x # y # ys) = x @ sep @ join sep (y # ys)"

text \<open>A text between single quotes, as f-strings put it into messages.\<close>

definition sq :: "string \<Rightarrow> string" where
  "sq x = [CHR 0x27] @ x @ [CHR 0x27]"

subsection \<open>Lemmas: effects\<close>

lemma res_bind_simps [simp, eff_simps]:
  "res_bind (Inl e) f = Inl e"
  "res_bind (Inr x) f = f x"
  by (simp_all add: res_bind_def)

lemma res_bind_Inr_iff:
  "res_bind r f = Inr y \<longleftrightarrow> (\<exists>x. r = Inr x \<and> f x = Inr y)"
  by (cases r) simp_all

lemma eff_return_run [simp, eff_simps]: "eff_return x s = (Inr x, s)"
  by (simp add: eff_return_def)

lemma eff_raise_run [simp, eff_simps]: "eff_raise e s = (Inl e, s)"
  by (simp add: eff_raise_def)

lemma eff_lift_run [simp, eff_simps]: "eff_lift f s = (f s, s)"
  by (simp add: eff_lift_def)

lemma eff_bind_Inl: "m s = (Inl e, s') \<Longrightarrow> eff_bind m k s = (Inl e, s')"
  by (simp add: eff_bind_def)

lemma eff_bind_Inr: "m s = (Inr x, s') \<Longrightarrow> eff_bind m k s = k x s'"
  by (simp add: eff_bind_def)

lemma eff_bind_return [simp, eff_simps]: "eff_bind (eff_return x) k = k x"
  by (simp add: eff_bind_def eff_return_def)

lemma eff_bind_raise [simp, eff_simps]: "eff_bind (eff_raise e) k = eff_raise e"
  by (simp add: eff_bind_def eff_raise_def)

lemma eff_bind_assoc: "eff_bind (eff_bind m f) g = eff_bind m (\<lambda>x. eff_bind (f x) g)"
  by (rule ext) (simp add: eff_bind_def split: prod.splits sum.splits)

text \<open>A successful composed call is a successful first call and a successful second one.\<close>

lemma eff_bind_ok_iff:
  "eff_bind m k s = (Inr y, t) \<longleftrightarrow> (\<exists>x s'. m s = (Inr x, s') \<and> k x s' = (Inr y, t))"
  by (auto simp: eff_bind_def split: prod.splits sum.splits)

lemma eff_bind_err_iff:
  "eff_bind m k s = (Inl e, t) \<longleftrightarrow>
     m s = (Inl e, t) \<or> (\<exists>x s'. m s = (Inr x, s') \<and> k x s' = (Inl e, t))"
  by (auto simp: eff_bind_def split: prod.splits sum.splits)

lemma eff_bind_okE:
  assumes "eff_bind m k s = (Inr y, t)"
  obtains x s' where "m s = (Inr x, s')" and "k x s' = (Inr y, t)"
  using assms by (auto simp: eff_bind_ok_iff)

lemma is_ok_simps [simp]: "\<not> is_ok (Inl e)" "is_ok (Inr x)"
  by (simp_all add: is_ok_def)

lemma is_ok_iff: "is_ok r \<longleftrightarrow> (\<exists>x. r = Inr x)"
  by (cases r) simp_all

subsection \<open>Lemmas: preservation\<close>

lemma preservesD: "preserves P m \<Longrightarrow> P s \<Longrightarrow> m s = (r, t) \<Longrightarrow> P t"
  unfolding preserves_def by (metis snd_conv)

lemma preserves_return [simp, preserves_intros]: "preserves P (eff_return x)"
  by (simp add: preserves_def)

lemma preserves_raise [simp, preserves_intros]: "preserves P (eff_raise e)"
  by (simp add: preserves_def)

lemma preserves_lift [simp, preserves_intros]: "preserves P (eff_lift f)"
  by (simp add: preserves_def)

lemma preserves_bind [preserves_intros]:
  assumes "preserves P m" and "\<And>x. preserves P (k x)"
  shows "preserves P (eff_bind m k)"
  unfolding preserves_def
proof (intro allI impI)
  fix s assume "P s"
  obtain r t where m: "m s = (r, t)" by (cases "m s") auto
  have "P t" by (rule preservesD [OF assms(1) \<open>P s\<close> m])
  then show "P (snd (eff_bind m k s))"
    using assms(2) m by (cases r) (simp_all add: eff_bind_def preserves_def)
qed

text \<open>What the first call returned is known in the rest.\<close>

lemma preserves_bind_result:
  assumes "preserves P m" and "\<And>x s t. m s = (Inr x, t) \<Longrightarrow> preserves P (k x)"
  shows "preserves P (eff_bind m k)"
  unfolding preserves_def
proof (intro allI impI)
  fix s assume "P s"
  obtain r t where m: "m s = (r, t)" by (cases "m s") auto
  have "P t" by (rule preservesD [OF assms(1) \<open>P s\<close> m])
  then show "P (snd (eff_bind m k s))"
    using assms(2) m by (cases r) (auto simp: eff_bind_def preserves_def)
qed

lemma preserves_try [preserves_intros]:
  assumes "preserves P m" and "\<And>e. preserves P (h e)"
  shows "preserves P (eff_try m h)"
  unfolding preserves_def
proof (intro allI impI)
  fix s assume "P s"
  obtain r t where m: "m s = (r, t)" by (cases "m s") auto
  have "P t" by (rule preservesD [OF assms(1) \<open>P s\<close> m])
  then show "P (snd (eff_try m h s))"
    using assms(2) m by (cases r) (simp_all add: eff_try_def preserves_def)
qed

lemma preserves_bind_pure:
  "(\<And>x. v = Inr x \<Longrightarrow> preserves P (k x)) \<Longrightarrow> preserves P (eff_bind (eff_lift (\<lambda>_. v)) k)"
  by (cases v) (simp_all add: preserves_def eff_bind_def)

lemma preserves_for [preserves_intros]:
  "(\<And>x. preserves P (body x)) \<Longrightarrow> preserves P (eff_for xs body)"
  by (induction xs) (auto intro: preserves_bind)

lemma preserves_if [preserves_intros]:
  "(b \<Longrightarrow> preserves P m) \<Longrightarrow> (\<not> b \<Longrightarrow> preserves P n) \<Longrightarrow> preserves P (if b then m else n)"
  by simp

lemma preserves_conj:
  "preserves P m \<Longrightarrow> preserves Q m \<Longrightarrow> preserves (\<lambda>s. P s \<and> Q s) m"
  by (simp add: preserves_def)

lemma tripleI:
  assumes "\<And>s x t. P s \<Longrightarrow> m s = (Inr x, t) \<Longrightarrow> Q x t" and "\<And>s e t. P s \<Longrightarrow> m s = (Inl e, t) \<Longrightarrow> E t"
  shows "triple P m Q E"
  unfolding triple_def
proof (intro allI impI)
  fix s assume "P s"
  then show "case m s of (Inl e, t) \<Rightarrow> E t | (Inr x, t) \<Rightarrow> Q x t"
    using assms by (cases "m s"; cases "fst (m s)") auto
qed

lemma triple_okD: "triple P m Q E \<Longrightarrow> P s \<Longrightarrow> m s = (Inr x, t) \<Longrightarrow> Q x t"
  unfolding triple_def by fastforce

lemma triple_errD: "triple P m Q E \<Longrightarrow> P s \<Longrightarrow> m s = (Inl e, t) \<Longrightarrow> E t"
  unfolding triple_def by fastforce

lemma triple_preserves: "triple P m (\<lambda>_. P) P \<longleftrightarrow> preserves P m"
  unfolding triple_def preserves_def by (simp add: case_prod_beta split: sum.splits)

lemma triple_weaken:
  "triple P m Q E \<Longrightarrow> (\<And>s. P' s \<Longrightarrow> P s) \<Longrightarrow> (\<And>x s. Q x s \<Longrightarrow> Q' x s) \<Longrightarrow> (\<And>s. E s \<Longrightarrow> E' s) \<Longrightarrow> triple P' m Q' E'"
  by (rule tripleI) (blast dest: triple_okD triple_errD)+

lemma triple_bind [triple_intros]:
  assumes "triple P m R E" and "\<And>x. triple (R x) (k x) Q E"
  shows "triple P (eff_bind m k) Q E"
proof (rule tripleI)
  fix s x t assume "P s" "eff_bind m k s = (Inr x, t)"
  then show "Q x t" using assms by (auto simp: eff_bind_ok_iff dest: triple_okD)
next
  fix s e t assume "P s" "eff_bind m k s = (Inl e, t)"
  then show "E t" using assms by (auto simp: eff_bind_err_iff dest: triple_errD triple_okD)
qed

lemma triple_return [triple_intros]: "(\<And>s. P s \<Longrightarrow> Q x s) \<Longrightarrow> triple P (eff_return x) Q E"
  by (simp add: triple_def)

lemma triple_raise [triple_intros]: "(\<And>s. P s \<Longrightarrow> E s) \<Longrightarrow> triple P (eff_raise e) Q E"
  by (simp add: triple_def)

lemma triple_lift [triple_intros]:
  "(\<And>s e. P s \<Longrightarrow> E s) \<Longrightarrow> triple P (eff_lift f) (\<lambda>x s. P s \<and> f s = Inr x) E"
  by (auto simp: triple_def split: sum.splits)

lemma err_keepsD: "err_keeps m \<Longrightarrow> m s = (Inl e, s') \<Longrightarrow> s' = s"
  by (simp add: err_keeps_def)

lemma err_keeps_basic [err_keeps_intros]:
  "err_keeps (eff_return x)"
  "err_keeps (eff_raise e)"
  "err_keeps (eff_lift f)"
  by (simp_all add: err_keeps_def)

lemma err_keeps_bind_lift [err_keeps_intros]:
  "(\<And>x. err_keeps (k x)) \<Longrightarrow> err_keeps (eff_bind (eff_lift f) k)"
  by (auto simp: err_keeps_def eff_bind_err_iff)

lemma err_keeps_bind_return [err_keeps_intros]:
  "err_keeps m \<Longrightarrow> err_keeps (eff_bind m (\<lambda>x. eff_return (f x)))"
  by (auto simp: err_keeps_def eff_bind_err_iff)

lemma err_keeps_if [err_keeps_intros]:
  "err_keeps m \<Longrightarrow> err_keeps n \<Longrightarrow> err_keeps (if b then m else n)"
  by simp

lemma err_keeps_option [err_keeps_intros]:
  "err_keeps m \<Longrightarrow> (\<And>x. err_keeps (k x)) \<Longrightarrow>
     err_keeps (case v of None \<Rightarrow> m | Some x \<Rightarrow> k x)"
  by (cases v) simp_all

lemma err_keeps_sum [err_keeps_intros]:
  "(\<And>e. err_keeps (m e)) \<Longrightarrow> (\<And>x. err_keeps (k x)) \<Longrightarrow>
     err_keeps (case v of Inl e \<Rightarrow> m e | Inr x \<Rightarrow> k x)"
  by (cases v) simp_all

subsection \<open>Lemmas: dictionaries\<close>

lemma dict_get_or_Nil [simp]: "dict_get_or [] k v = v"
  by (simp add: dict_get_or_def)

lemma map_of_dict_set [simp, dict_simps]:
  "map_of (dict_set k v d) j = (if j = k then Some v else map_of d j)"
  by (induction k v d rule: dict_set.induct) auto

lemma dict_set_keys: "fst ` set (dict_set k v d) = insert k (fst ` set d)"
  by (induction k v d rule: dict_set.induct) auto

lemma distinct_dict_set: "distinct (map fst d) \<Longrightarrow> distinct (map fst (dict_set k v d))"
  by (induction k v d rule: dict_set.induct) (auto simp: dict_set_keys)

lemma map_of_dict_pop [simp, dict_simps]:
  "map_of (dict_pop k d) j = (if j = k then None else map_of d j)"
  unfolding dict_pop_def by (induction d) auto

lemma map_of_dict_update [simp, dict_simps]:
  "distinct (map fst upd) \<Longrightarrow>
     map_of (dict_update d upd) j = (case map_of upd j of None \<Rightarrow> map_of d j | Some v \<Rightarrow> Some v)"
proof (induction upd arbitrary: d)
  case Nil
  then show ?case by (simp add: dict_update_def)
next
  case (Cons kv upd)
  obtain k v where kv: "kv = (k, v)" by (cases kv)
  have step: "dict_update d ((k, v) # upd) = dict_update (dict_set k v d) upd"
    by (simp add: dict_update_def)
  have "map_of upd k = None" using Cons.prems kv by (simp add: map_of_eq_None_iff)
  then show ?case using Cons kv by (auto simp: step split: option.splits)
qed

lemma dict_update_Nil [simp]: "dict_update d [] = d"
  by (simp add: dict_update_def)

lemma distinct_dict_update: "distinct (map fst d) \<Longrightarrow> distinct (map fst (dict_update d upd))"
  unfolding dict_update_def
  by (induction upd arbitrary: d) (auto simp: distinct_dict_set)

subsection \<open>Lemmas: strings\<close>

lemma startswith_append [simp]: "startswith (p @ s) p"
  by (simp add: startswith_def)

lemma startswith_iff: "startswith s p \<longleftrightarrow> (\<exists>t. s = p @ t)"
  by (auto simp: startswith_def prefix_def)

lemma startswith_trans: "startswith s p \<Longrightarrow> startswith p q \<Longrightarrow> startswith s q"
  by (auto simp: startswith_def)

lemma str_in_iff: "str_in sub s \<longleftrightarrow> (\<exists>a b. s = a @ sub @ b)"
proof (induction sub s rule: str_in.induct)
  case (1 sub)
  then show ?case by auto
next
  case (2 sub c cs)
  show ?case
  proof
    assume "str_in sub (c # cs)"
    then consider "prefix sub (c # cs)" | "str_in sub cs" by auto
    then show "\<exists>a b. c # cs = a @ sub @ b"
    proof cases
      case 1
      then obtain b where "c # cs = [] @ sub @ b" by (auto simp: prefix_def)
      then show ?thesis by blast
    next
      case 2
      then obtain a b where "cs = a @ sub @ b" using "2.IH" by blast
      then have "c # cs = (c # a) @ sub @ b" by simp
      then show ?thesis by blast
    qed
  next
    assume "\<exists>a b. c # cs = a @ sub @ b"
    then obtain a b where eq: "c # cs = a @ sub @ b" by blast
    show "str_in sub (c # cs)"
    proof (cases a)
      case Nil
      then have "prefix sub (c # cs)" using eq by (auto simp: prefix_def)
      then show ?thesis by simp
    next
      case (Cons x a')
      then have "cs = a' @ sub @ b" using eq by simp
      then show ?thesis using "2.IH" by auto
    qed
  qed
qed

lemma partition_char_eq:
  "partition_char c s =
     (if c \<in> set s then (takeWhile (\<lambda>x. x \<noteq> c) s, True, tl (dropWhile (\<lambda>x. x \<noteq> c) s))
      else (s, False, []))"
  by (induction s) auto

lemma partition_char_append:
  "c \<notin> set a \<Longrightarrow> partition_char c (a @ c # b) = (a, True, b)"
  by (induction a) auto

lemma partition_char_none [simp]: "c \<notin> set s \<Longrightarrow> partition_char c s = (s, False, [])"
  by (simp add: partition_char_eq)

lemma partition_char_foundD:
  "partition_char c s = (a, True, b) \<Longrightarrow> s = a @ c # b \<and> c \<notin> set a"
proof (induction s arbitrary: a)
  case Nil
  then show ?case by simp
next
  case (Cons x xs)
  then show ?case by (auto split: if_splits prod.splits)
qed

lemma partition_char_missingD:
  "partition_char c s = (a, False, b) \<Longrightarrow> s = a \<and> b = [] \<and> c \<notin> set s"
  by (auto simp: partition_char_eq split: if_splits)

lemma split_once_Some:
  "split_once sep s = Some (a, b) \<Longrightarrow> s = a @ sep @ b"
proof (induction s arbitrary: a)
  case Nil
  then show ?case by (simp split: if_splits)
next
  case (Cons c cs)
  show ?case
  proof (cases "prefix sep (c # cs)")
    case True
    then have "a = []" and "b = drop (length sep) (c # cs)" using Cons.prems by auto
    moreover have "c # cs = sep @ drop (length sep) (c # cs)"
      using True by (metis append_eq_conv_conj prefix_def)
    ultimately show ?thesis by simp
  next
    case False
    then obtain a' where "split_once sep cs = Some (a', b)" and "a = c # a'"
      using Cons.prems by auto
    then show ?thesis using Cons.IH by simp
  qed
qed

lemma split_once_None: "split_once sep s = None \<longleftrightarrow> \<not> str_in sep s"
  by (induction sep s rule: split_once.induct) auto

lemma str_truthy_simps [simp]: "\<not> str_truthy None" "str_truthy (Some x) \<longleftrightarrow> x \<noteq> []"
  by (simp_all add: str_truthy_def)

lemma list_or_simps [simp]: "list_or None = []" "list_or (Some xs) = xs"
  by (simp_all add: list_or_def)

end
