(* ===== verification/Schemas.thy ===== *)
theory Schemas
  imports Prelude
begin

text \<open>
  The domain objects of \<open>science/omnisci/domain/schemas.py\<close>: the five \<open>str\<close> enums with
  their wire values (\<open>X_value\<close> is \<open>.value\<close>, \<open>X_of\<close> is the enum call, which raises
  \<open>ValueError\<close> on an unknown value), the seven durable record types with the source's fields
  (prefixed by the record), and the shared exceptions' JSON payload of
  \<open>science/omnisci/errors.py\<close>. \<open>Field(default_factory=...)\<close> draws (\<open>new_id\<close>,
  \<open>utcnow\<close>) are arguments of the operations that construct a record.
\<close>

subsection \<open>Enums\<close>

datatype task_status = TS_PENDING | TS_IN_PROGRESS | TS_BLOCKED | TS_DONE | TS_CANCELLED

fun task_status_value :: "task_status \<Rightarrow> string" where
  "task_status_value TS_PENDING = ''pending''"
| "task_status_value TS_IN_PROGRESS = ''in_progress''"
| "task_status_value TS_BLOCKED = ''blocked''"
| "task_status_value TS_DONE = ''done''"
| "task_status_value TS_CANCELLED = ''cancelled''"

datatype run_state = QUEUED | RUNNING | SUCCEEDED | FAILED | CANCELLED | TIMEOUT

fun run_state_value :: "run_state \<Rightarrow> string" where
  "run_state_value QUEUED = ''queued''"
| "run_state_value RUNNING = ''running''"
| "run_state_value SUCCEEDED = ''succeeded''"
| "run_state_value FAILED = ''failed''"
| "run_state_value CANCELLED = ''cancelled''"
| "run_state_value TIMEOUT = ''timeout''"

datatype issue_status = IS_OPEN | IS_RESOLVED | IS_DISMISSED

fun issue_status_value :: "issue_status \<Rightarrow> string" where
  "issue_status_value IS_OPEN = ''open''"
| "issue_status_value IS_RESOLVED = ''resolved''"
| "issue_status_value IS_DISMISSED = ''dismissed''"

datatype issue_severity = INFO | CONCERN | MAJOR | CRITICAL

fun issue_severity_value :: "issue_severity \<Rightarrow> string" where
  "issue_severity_value INFO = ''info''"
| "issue_severity_value CONCERN = ''concern''"
| "issue_severity_value MAJOR = ''major''"
| "issue_severity_value CRITICAL = ''critical''"

datatype approval_decision = AD_PENDING | AD_APPROVED | AD_DENIED | AD_REVOKED

fun approval_decision_value :: "approval_decision \<Rightarrow> string" where
  "approval_decision_value AD_PENDING = ''pending''"
| "approval_decision_value AD_APPROVED = ''approved''"
| "approval_decision_value AD_DENIED = ''denied''"
| "approval_decision_value AD_REVOKED = ''revoked''"

text \<open>\<open>Literal["one_time", "prefix", "project"]\<close>.\<close>

datatype scope_kind = SK_ONE_TIME | SK_PREFIX | SK_PROJECT

fun scope_kind_value :: "scope_kind \<Rightarrow> string" where
  "scope_kind_value SK_ONE_TIME = ''one_time''"
| "scope_kind_value SK_PREFIX = ''prefix''"
| "scope_kind_value SK_PROJECT = ''project''"

text \<open>
  The call \<open>Enum(value)\<close>: search the members in declaration order, \<open>ValueError\<close> when none
  has the value.
\<close>

definition enum_of :: "('e \<Rightarrow> string) \<Rightarrow> 'e list \<Rightarrow> string \<Rightarrow> 'e res" where
  "enum_of val members s =
     (case find (\<lambda>e. val e = s) members of
        None \<Rightarrow> Inl (ValueError (s @ '' is not a valid member''))
      | Some e \<Rightarrow> Inr e)"

definition task_statuses :: "task_status list" where
  "task_statuses = [TS_PENDING, TS_IN_PROGRESS, TS_BLOCKED, TS_DONE, TS_CANCELLED]"

definition run_states :: "run_state list" where
  "run_states = [QUEUED, RUNNING, SUCCEEDED, FAILED, CANCELLED, TIMEOUT]"

definition issue_statuses :: "issue_status list" where
  "issue_statuses = [IS_OPEN, IS_RESOLVED, IS_DISMISSED]"

definition issue_severities :: "issue_severity list" where
  "issue_severities = [INFO, CONCERN, MAJOR, CRITICAL]"

definition approval_decisions :: "approval_decision list" where
  "approval_decisions = [AD_PENDING, AD_APPROVED, AD_DENIED, AD_REVOKED]"

definition scope_kinds :: "scope_kind list" where
  "scope_kinds = [SK_ONE_TIME, SK_PREFIX, SK_PROJECT]"

definition task_status_of :: "string \<Rightarrow> task_status res" where
  "task_status_of = enum_of task_status_value task_statuses"

definition run_state_of :: "string \<Rightarrow> run_state res" where
  "run_state_of = enum_of run_state_value run_states"

definition issue_status_of :: "string \<Rightarrow> issue_status res" where
  "issue_status_of = enum_of issue_status_value issue_statuses"

definition issue_severity_of :: "string \<Rightarrow> issue_severity res" where
  "issue_severity_of = enum_of issue_severity_value issue_severities"

definition approval_decision_of :: "string \<Rightarrow> approval_decision res" where
  "approval_decision_of = enum_of approval_decision_value approval_decisions"

subsection \<open>Records\<close>

record workspace =
  ws_name :: string
  ws_directory :: string

record task =
  t_id :: string
  t_title :: string
  t_instructions :: string
  t_status :: task_status
  t_parent_id :: "string option"
  t_depends_on :: "string list"
  t_assigned_agent :: "string option"
  t_assigned_session :: "string option"
  t_expected_outputs :: "string list"
  t_created_at :: string
  t_updated_at :: string

record research_log_entry =
  l_id :: string
  l_task_id :: "string option"
  l_agent :: "string option"
  l_session :: "string option"
  l_summary :: string
  l_files_changed :: "string list"
  l_run_ids :: "string list"
  l_artifact_ids :: "string list"
  l_sources :: "string list"
  l_assumptions :: "string list"
  l_limitations :: "string list"
  l_uncertainties :: "string list"
  l_requested_next_step :: "string option"
  l_created_at :: string

record run =
  r_id :: string
  r_provider :: string
  r_provider_run_id :: "string option"
  r_spec_hash :: string
  r_idempotency_key :: "string option"
  r_command :: "string list"
  r_environment :: json
  r_inputs :: "json list"
  r_resources :: "json option"
  r_status :: run_state
  r_queued_at :: string
  r_started_at :: "string option"
  r_finished_at :: "string option"
  r_exit_code :: "int option"
  r_logs_path :: "string option"
  r_cost_usd :: "rat option"
  r_output_artifact_ids :: "string list"
  r_execution_spec :: json
  r_created_at :: string

record artifact =
  a_id :: string
  a_path :: "string option"
  a_uri :: "string option"
  a_type :: string
  a_mime :: "string option"
  a_size_bytes :: "int option"
  a_checksum_sha256 :: "string option"
  a_run_id :: "string option"
  a_task_id :: "string option"
  a_research_log_id :: "string option"
  a_viewer :: "json dict"
  a_created_at :: string

record issue =
  i_id :: string
  i_session_id :: "string option"
  i_task_id :: "string option"
  i_research_log_id :: "string option"
  i_category :: string
  i_severity :: issue_severity
  i_status :: issue_status
  i_title :: string
  i_description :: string
  i_evidence_refs :: "string list"
  i_verification_question :: string
  i_confidence :: rat
  i_fingerprint :: "string option"
  i_raised_by :: "string option"
  i_resolution :: "string option"
  i_resolved_by :: "string option"
  i_created_at :: string
  i_updated_at :: string

record review =
  rv_id :: string
  rv_session_id :: "string option"
  rv_reviewer_agent :: "string option"
  rv_reviewer_session :: "string option"
  rv_reviewer_model :: "string option"
  rv_reviewer_harness :: "string option"
  rv_reviewed_through :: "string option"
  rv_summary :: string
  rv_issue_ids :: "string list"
  rv_created_at :: string

record approval =
  ap_id :: string
  ap_action :: string
  ap_scope :: "string option"
  ap_requesting_session :: "string option"
  ap_requesting_agent :: "string option"
  ap_requesting_task :: "string option"
  ap_decision :: approval_decision
  ap_actor :: "string option"
  ap_decided_at :: "string option"
  ap_reason :: "string option"
  ap_expires_at :: "string option"
  ap_consumed_at :: "string option"
  ap_revoked_at :: "string option"
  ap_revoked_by :: "string option"
  ap_revocation_reason :: "string option"
  ap_scope_kind :: scope_kind
  ap_created_at :: string

text \<open>\<open>new_id(prefix)\<close>: the first twelve hex digits of a fresh UUID, which is the argument.\<close>

definition new_id :: "string \<Rightarrow> string \<Rightarrow> string" where
  "new_id pre uuid_hex = pre @ ''_'' @ take 12 uuid_hex"

text \<open>\<open>ApprovalRequiredError.payload\<close>; other exceptions have no payload.\<close>

fun approval_payload :: "py_error \<Rightarrow> string dict option" where
  "approval_payload (ApprovalRequiredError aid act msg) =
     Some [(''status'', ''approval_required''), (''approval_id'', aid),
           (''action'', act), (''message'', msg)]"
| "approval_payload _ = None"

subsection \<open>The contract of a wire enum\<close>

text \<open>
  What the code relies on when it stores \<open>.value\<close> and reads it back with \<open>Enum(value)\<close>: the
  values are distinct and every member is listed. The laws give the round trip in both
  directions.
\<close>

locale wire_enum =
  fixes val :: "'e \<Rightarrow> string" and members :: "'e list"
  assumes val_eq: "val a = val b \<longleftrightarrow> a = b"
    and all_members: "e \<in> set members"
begin

lemma of_value: "enum_of val members (val e) = Inr e"
proof -
  have "find (\<lambda>d. val d = val e) members = Some e" if "e \<in> set members"
    using that by (induction members) (auto simp: val_eq)
  then show ?thesis using all_members by (simp add: enum_of_def)
qed

lemma of_Inr_iff: "enum_of val members s = Inr e \<longleftrightarrow> val e = s"
proof
  assume "enum_of val members s = Inr e"
  then show "val e = s" by (auto simp: enum_of_def find_Some_iff split: option.splits)
next
  assume "val e = s"
  then show "enum_of val members s = Inr e" using of_value by blast
qed

lemma of_error: "s \<notin> range val \<Longrightarrow> \<exists>msg. enum_of val members s = Inl (ValueError msg)"
proof -
  assume "s \<notin> range val"
  then have "find (\<lambda>d. val d = s) members = None" by (auto simp: find_None_iff)
  then show ?thesis by (simp add: enum_of_def)
qed

end

interpretation task_status: wire_enum task_status_value task_statuses
proof
  show "task_status_value a = task_status_value b \<longleftrightarrow> a = b" for a b by (cases a; cases b) simp_all
  show "e \<in> set task_statuses" for e by (cases e) (simp_all add: task_statuses_def)
qed

interpretation run_state: wire_enum run_state_value run_states
proof
  show "run_state_value a = run_state_value b \<longleftrightarrow> a = b" for a b by (cases a; cases b) simp_all
  show "e \<in> set run_states" for e by (cases e) (simp_all add: run_states_def)
qed

interpretation issue_status: wire_enum issue_status_value issue_statuses
proof
  show "issue_status_value a = issue_status_value b \<longleftrightarrow> a = b" for a b by (cases a; cases b) simp_all
  show "e \<in> set issue_statuses" for e by (cases e) (simp_all add: issue_statuses_def)
qed

interpretation issue_severity: wire_enum issue_severity_value issue_severities
proof
  show "issue_severity_value a = issue_severity_value b \<longleftrightarrow> a = b" for a b
    by (cases a; cases b) simp_all
  show "e \<in> set issue_severities" for e by (cases e) (simp_all add: issue_severities_def)
qed

interpretation approval_decision: wire_enum approval_decision_value approval_decisions
proof
  show "approval_decision_value a = approval_decision_value b \<longleftrightarrow> a = b" for a b
    by (cases a; cases b) simp_all
  show "e \<in> set approval_decisions" for e by (cases e) (simp_all add: approval_decisions_def)
qed

interpretation scope_kind: wire_enum scope_kind_value scope_kinds
proof
  show "scope_kind_value a = scope_kind_value b \<longleftrightarrow> a = b" for a b by (cases a; cases b) simp_all
  show "e \<in> set scope_kinds" for e by (cases e) (simp_all add: scope_kinds_def)
qed

lemma task_status_of_value [simp]: "task_status_of (task_status_value e) = Inr e"
  by (simp add: task_status_of_def task_status.of_value)

lemma task_status_of_Inr [simp]: "task_status_of s = Inr e \<longleftrightarrow> task_status_value e = s"
  by (simp add: task_status_of_def task_status.of_Inr_iff)

lemma issue_status_of_value [simp]: "issue_status_of (issue_status_value e) = Inr e"
  by (simp add: issue_status_of_def issue_status.of_value)

lemma issue_status_of_Inr [simp]: "issue_status_of s = Inr e \<longleftrightarrow> issue_status_value e = s"
  by (simp add: issue_status_of_def issue_status.of_Inr_iff)

lemma issue_severity_of_value [simp]: "issue_severity_of (issue_severity_value e) = Inr e"
  by (simp add: issue_severity_of_def issue_severity.of_value)

lemma approval_decision_of_value [simp]: "approval_decision_of (approval_decision_value e) = Inr e"
  by (simp add: approval_decision_of_def approval_decision.of_value)

lemma approval_decision_of_Inr [simp]:
  "approval_decision_of s = Inr e \<longleftrightarrow> approval_decision_value e = s"
  by (simp add: approval_decision_of_def approval_decision.of_Inr_iff)

lemma run_state_of_value [simp]: "run_state_of (run_state_value e) = Inr e"
  by (simp add: run_state_of_def run_state.of_value)

end
