(* ===== verification/Repository.thy ===== *)
theory Repository
  imports Schemas
begin

text \<open>
  CRUD over the workspace database: \<open>science/omnisci/domain/repository.py\<close>.

  A table is the list of its rows in rowid order. A row has the columns of the DDL: the primary
  key, \<open>created_at\<close>, the extra columns of the table (\<open>idempotency_key\<close> for \<open>runs\<close>,
  \<open>status\<close>/\<open>session_id\<close>/\<open>fingerprint\<close> for \<open>issues\<close>) and the \<open>data\<close>
  column, which holds the record itself (the JSON text is \<open>model_dump\<close> of the record).
  Reading a row goes through \<open>_decode\<close>, that is \<open>model_validate\<close>: \<open>tb_valid\<close> is what
  the model class checks beyond the field types (only \<open>Issue.confidence\<close> has such a
  constraint); writing does not check it. \<open>TABLE_MODELS\<close> is the seven \<open>tbl\<close> constants: how a
  table is read from and written to the database record and which columns \<open>INSERT\<close> and
  \<open>UPDATE\<close> write. Text comparison of \<open>ORDER BY\<close> is SQLite's BINARY collation, the
  lexicographic order on bytes.
\<close>

subsection \<open>Rows, tables and the database\<close>

record ('h, 'a) row =
  row_id :: string
  row_created_at :: string
  row_cols :: 'h
  row_data :: 'a

record science_db =
  db_tasks :: "(unit, task) row list"
  db_research_log :: "(unit, research_log_entry) row list"
  db_runs :: "(string option, run) row list"
  db_artifacts :: "(unit, artifact) row list"
  db_reviews :: "(unit, review) row list"
  db_issues :: "(string \<times> string option \<times> string option, issue) row list"
  db_approvals :: "(unit, approval) row list"
  db_settings :: "json dict"

record ('s, 'h, 'a) tbl =
  tb_name :: string
  tb_rows :: "'s \<Rightarrow> ('h, 'a) row list"
  tb_put :: "('h, 'a) row list \<Rightarrow> 's \<Rightarrow> 's"
  tb_oid :: "'a \<Rightarrow> string"
  tb_created :: "'a \<Rightarrow> string"
  tb_cols :: "'a \<Rightarrow> 'h"
  tb_ucols :: "'a \<Rightarrow> 'h \<Rightarrow> 'h"
  tb_valid :: "'a \<Rightarrow> bool"

definition tasks :: "('z science_db_scheme, unit, task) tbl" where
  "tasks = \<lparr>tb_name = ''tasks'', tb_rows = db_tasks, tb_put = (\<lambda>rs. db_tasks_update (\<lambda>_. rs)),
            tb_oid = t_id, tb_created = t_created_at, tb_cols = (\<lambda>_. ()), tb_ucols = (\<lambda>_ h. h),
      tb_valid = (\<lambda>_. True)\<rparr>"

definition research_log :: "('z science_db_scheme, unit, research_log_entry) tbl" where
  "research_log =
     \<lparr>tb_name = ''research_log'', tb_rows = db_research_log,
      tb_put = (\<lambda>rs. db_research_log_update (\<lambda>_. rs)),
      tb_oid = l_id, tb_created = l_created_at, tb_cols = (\<lambda>_. ()), tb_ucols = (\<lambda>_ h. h),
      tb_valid = (\<lambda>_. True)\<rparr>"

definition runs :: "('z science_db_scheme, string option, run) tbl" where
  "runs = \<lparr>tb_name = ''runs'', tb_rows = db_runs, tb_put = (\<lambda>rs. db_runs_update (\<lambda>_. rs)),
           tb_oid = r_id, tb_created = r_created_at, tb_cols = r_idempotency_key, tb_ucols = (\<lambda>_ h. h),
      tb_valid = (\<lambda>_. True)\<rparr>"

definition artifacts :: "('z science_db_scheme, unit, artifact) tbl" where
  "artifacts =
     \<lparr>tb_name = ''artifacts'', tb_rows = db_artifacts,
      tb_put = (\<lambda>rs. db_artifacts_update (\<lambda>_. rs)),
      tb_oid = a_id, tb_created = a_created_at, tb_cols = (\<lambda>_. ()), tb_ucols = (\<lambda>_ h. h),
      tb_valid = (\<lambda>_. True)\<rparr>"

definition reviews :: "('z science_db_scheme, unit, review) tbl" where
  "reviews =
     \<lparr>tb_name = ''reviews'', tb_rows = db_reviews, tb_put = (\<lambda>rs. db_reviews_update (\<lambda>_. rs)),
      tb_oid = rv_id, tb_created = rv_created_at, tb_cols = (\<lambda>_. ()), tb_ucols = (\<lambda>_ h. h),
      tb_valid = (\<lambda>_. True)\<rparr>"

definition issue_cols :: "issue \<Rightarrow> string \<times> string option \<times> string option" where
  "issue_cols i = (issue_status_value (i_status i), i_session_id i, i_fingerprint i)"

definition issues ::
    "('z science_db_scheme, string \<times> string option \<times> string option, issue) tbl" where
  "issues =
     \<lparr>tb_name = ''issues'', tb_rows = db_issues, tb_put = (\<lambda>rs. db_issues_update (\<lambda>_. rs)),
      tb_oid = i_id, tb_created = i_created_at, tb_cols = issue_cols,
      tb_ucols = (\<lambda>i _. issue_cols i),
      tb_valid = (\<lambda>i. 0 \<le> i_confidence i \<and> i_confidence i \<le> 1)\<rparr>"

definition approvals :: "('z science_db_scheme, unit, approval) tbl" where
  "approvals =
     \<lparr>tb_name = ''approvals'', tb_rows = db_approvals,
      tb_put = (\<lambda>rs. db_approvals_update (\<lambda>_. rs)),
      tb_oid = ap_id, tb_created = ap_created_at, tb_cols = (\<lambda>_. ()), tb_ucols = (\<lambda>_ h. h),
      tb_valid = (\<lambda>_. True)\<rparr>"

text \<open>The database right after the migrations have created it: every table empty.\<close>

definition empty_db :: science_db where
  "empty_db = \<lparr>db_tasks = [], db_research_log = [], db_runs = [], db_artifacts = [], db_reviews = [],
               db_issues = [], db_approvals = [], db_settings = []\<rparr>"

subsection \<open>CRUD\<close>

definition repo_add :: "('s, 'h, 'a) tbl \<Rightarrow> 'a \<Rightarrow> ('s, 'a) eff" where
  "repo_add T obj s =
     (if tb_oid T obj \<in> row_id ` set (tb_rows T s)
      then (Inl (IntegrityError (''UNIQUE constraint failed: '' @ tb_name T @ ''.id'')), s)
      else (Inr obj,
            tb_put T (tb_rows T s @ [\<lparr>row_id = tb_oid T obj, row_created_at = tb_created T obj,
                                      row_cols = tb_cols T obj, row_data = obj\<rparr>]) s))"

fun find_row :: "string \<Rightarrow> ('h, 'a) row list \<Rightarrow> ('h, 'a) row option" where
  "find_row i [] = None"
| "find_row i (r # rs) = (if row_id r = i then Some r else find_row i rs)"

definition repo_decode :: "('s, 'h, 'a) tbl \<Rightarrow> ('h, 'a) row \<Rightarrow> 'a res" where
  "repo_decode T r =
     (if tb_valid T (row_data r) then Inr (row_data r) else Inl (ValidationError (tb_name T)))"

definition repo_get :: "('s, 'h, 'a) tbl \<Rightarrow> string \<Rightarrow> 's \<Rightarrow> 'a res" where
  "repo_get T oid s =
     (case find_row oid (tb_rows T s) of
        None \<Rightarrow> Inl (NotFoundError (butlast (tb_name T) @ '' not found: '' @ oid))
      | Some r \<Rightarrow> repo_decode T r)"

definition repo_get_or_none :: "('s, 'h, 'a) tbl \<Rightarrow> string \<Rightarrow> 's \<Rightarrow> 'a option res" where
  "repo_get_or_none T oid s =
     (case repo_get T oid s of
        Inr x \<Rightarrow> Inr (Some x)
      | Inl (NotFoundError _) \<Rightarrow> Inr None
      | Inl e \<Rightarrow> Inl e)"

definition repo_list :: "('s, 'h, 'a) tbl \<Rightarrow> 's \<Rightarrow> 'a list res" where
  "repo_list T s =
     res_map (repo_decode T) (sort_key (\<lambda>r. (row_created_at r, row_id r)) (tb_rows T s))"

definition upd_row :: "('s, 'h, 'a) tbl \<Rightarrow> 'a \<Rightarrow> ('h, 'a) row \<Rightarrow> ('h, 'a) row" where
  "upd_row T obj r =
     (if row_id r = tb_oid T obj
      then r\<lparr>row_data := obj, row_cols := tb_ucols T obj (row_cols r)\<rparr> else r)"

definition repo_update :: "('s, 'h, 'a) tbl \<Rightarrow> 'a \<Rightarrow> ('s, 'a) eff" where
  "repo_update T obj s =
     (if tb_oid T obj \<in> row_id ` set (tb_rows T s)
      then (Inr obj, tb_put T (map (upd_row T obj) (tb_rows T s)) s)
      else (Inl (NotFoundError (butlast (tb_name T) @ '' not found: '' @ tb_oid T obj)), s))"

definition find_run_by_idempotency_key :: "string \<Rightarrow> 'z science_db_scheme \<Rightarrow> run option res" where
  "find_run_by_idempotency_key key s =
     (case sort_key row_created_at (filter (\<lambda>r. row_cols r = Some key) (tb_rows runs s)) of
        [] \<Rightarrow> Inr None
      | r # _ \<Rightarrow> res_bind (repo_decode (runs :: ('z science_db_scheme, string option, run) tbl) r) (\<lambda>x. Inr (Some x)))"

definition find_issue_by_fingerprint ::
    "string \<Rightarrow> string option \<Rightarrow> 'z science_db_scheme \<Rightarrow> issue option res" where
  "find_issue_by_fingerprint fp session s =
     (case sort_key row_created_at
             (filter (\<lambda>r. snd (snd (row_cols r)) = Some fp
                         \<and> (session = None \<or> fst (snd (row_cols r)) = session)) (tb_rows issues s)) of
        [] \<Rightarrow> Inr None
      | r # _ \<Rightarrow> res_bind (repo_decode (issues :: ('z science_db_scheme, _, issue) tbl) r) (\<lambda>x. Inr (Some x)))"

definition get_setting :: "string \<Rightarrow> json \<Rightarrow> 'z science_db_scheme \<Rightarrow> json" where
  "get_setting k dflt s = dict_get_or (db_settings s) k dflt"

definition set_setting :: "string \<Rightarrow> json \<Rightarrow> ('z science_db_scheme, unit) eff" where
  "set_setting k v s = (Inr (), s\<lparr>db_settings := dict_set k v (db_settings s)\<rparr>)"

subsection \<open>Well-formed tables\<close>

definition tbl_ok :: "('s, 'h, 'a) tbl \<Rightarrow> 's \<Rightarrow> bool" where
  "tbl_ok T s \<longleftrightarrow>
     distinct (map row_id (tb_rows T s)) \<and> (\<forall>r \<in> set (tb_rows T s). tb_oid T (row_data r) = row_id r \<and> tb_valid T (row_data r))"

definition tbl_ids :: "('s, 'h, 'a) tbl \<Rightarrow> 's \<Rightarrow> string set" where
  "tbl_ids T s = row_id ` set (tb_rows T s)"

definition tbl_objs :: "('s, 'h, 'a) tbl \<Rightarrow> 's \<Rightarrow> 'a set" where
  "tbl_objs T s = row_data ` set (tb_rows T s)"

subsection \<open>Lemmas on one table\<close>

lemma row_id_upd_row [simp]: "row_id (upd_row T x r) = row_id r"
  by (simp add: upd_row_def)

lemma map_row_id_upd_row [simp]: "map (row_id \<circ> upd_row T x) rs = map row_id rs"
  by simp

lemma find_row_None: "find_row i rs = None \<longleftrightarrow> i \<notin> row_id ` set rs"
  by (induction rs) auto

lemma find_row_Some: "find_row i rs = Some r \<Longrightarrow> r \<in> set rs \<and> row_id r = i"
  by (induction rs) (auto split: if_splits)

lemma find_row_known: "i \<in> row_id ` set rs \<Longrightarrow> \<exists>r. find_row i rs = Some r"
  using find_row_None [of i rs] by auto

lemma find_row_append:
  "find_row i (xs @ ys) = (case find_row i xs of None \<Rightarrow> find_row i ys | Some r \<Rightarrow> Some r)"
  by (induction xs) auto

lemma find_row_upd: "find_row i (map (upd_row T x) rs) = map_option (upd_row T x) (find_row i rs)"
  by (induction rs) auto

lemma find_row_distinct: "r \<in> set rs \<Longrightarrow> distinct (map row_id rs) \<Longrightarrow> find_row (row_id r) rs = Some r"
  by (induction rs) auto

lemma repo_decode_Inr: "repo_decode T r = Inr x \<longleftrightarrow> x = row_data r \<and> tb_valid T x"
  by (auto simp: repo_decode_def)

lemma repo_get_Inr_mem: "repo_get T oid s = Inr x \<Longrightarrow> x \<in> tbl_objs T s \<and> oid \<in> tbl_ids T s"
  by (auto simp: repo_get_def tbl_objs_def tbl_ids_def repo_decode_Inr dest!: find_row_Some
      split: option.splits)

lemma repo_get_Inl:
  "oid \<notin> tbl_ids T s \<Longrightarrow>
     repo_get T oid s = Inl (NotFoundError (butlast (tb_name T) @ '' not found: '' @ oid))"
  by (simp add: repo_get_def tbl_ids_def find_row_None [symmetric])

lemma repo_get_known: "tbl_ok T s \<Longrightarrow> oid \<in> tbl_ids T s \<Longrightarrow> \<exists>x. repo_get T oid s = Inr x"
  by (auto simp: repo_get_def tbl_ids_def tbl_ok_def repo_decode_def
      dest!: find_row_known dest: find_row_Some split: option.splits)

lemma repo_get_ok_iff: "tbl_ok T s \<Longrightarrow> is_ok (repo_get T oid s) \<longleftrightarrow> oid \<in> tbl_ids T s"
  by (metis is_ok_iff repo_get_Inr_mem repo_get_known)

lemma repo_get_err:
  "tbl_ok T s \<Longrightarrow> repo_get T oid s = Inl e \<Longrightarrow>
     e = NotFoundError (butlast (tb_name T) @ '' not found: '' @ oid) \<and> oid \<notin> tbl_ids T s"
  by (metis is_ok_simps(1) repo_get_Inl repo_get_ok_iff sum.sel(1))

lemma repo_get_oid: "tbl_ok T s \<Longrightarrow> repo_get T oid s = Inr x \<Longrightarrow> tb_oid T x = oid"
  by (auto simp: repo_get_def tbl_ok_def repo_decode_Inr dest!: find_row_Some split: option.splits)

lemma res_map_ok: "(\<And>x. x \<in> set xs \<Longrightarrow> f x = Inr (g x)) \<Longrightarrow> res_map f xs = Inr (map g xs)"
  by (induction xs) auto

lemma res_map_InrD: "res_map f xs = Inr ys \<Longrightarrow> list_all2 (\<lambda>x y. f x = Inr y) xs ys"
  by (induction xs arbitrary: ys) (auto simp: res_bind_Inr_iff)

lemma res_map_Inr_set: "res_map f xs = Inr ys \<Longrightarrow> y \<in> set ys \<Longrightarrow> \<exists>x \<in> set xs. f x = Inr y"
  by (induction xs arbitrary: ys) (auto simp: res_bind_Inr_iff)

lemma res_map_err: "x \<in> set xs \<Longrightarrow> f x = Inl e \<Longrightarrow> \<not> is_ok (res_map f xs)"
proof (induction xs)
  case Nil
  then show ?case by simp
next
  case (Cons y ys)
  then show ?case by (cases "f y"; cases "res_map f ys") auto
qed

lemma repo_list_ok:
  "tbl_ok T s \<Longrightarrow>
     repo_list T s = Inr (map row_data (sort_key (\<lambda>r. (row_created_at r, row_id r)) (tb_rows T s)))"
  unfolding repo_list_def by (rule res_map_ok) (simp add: tbl_ok_def repo_decode_def)

lemma repo_list_invalid:
  assumes "x \<in> tbl_objs T s" and "\<not> tb_valid T x"
  shows "\<not> is_ok (repo_list T s)"
proof -
  obtain r where r: "r \<in> set (tb_rows T s)" "x = row_data r"
    using assms(1) by (auto simp: tbl_objs_def)
  then have "repo_decode T r = Inl (ValidationError (tb_name T))"
    using assms(2) by (simp add: repo_decode_def)
  then show ?thesis using r(1) unfolding repo_list_def by (intro res_map_err [of r]) simp_all
qed

lemma repo_list_valid: "repo_list T s = Inr xs \<Longrightarrow> x \<in> tbl_objs T s \<Longrightarrow> tb_valid T x"
  using repo_list_invalid by (metis is_ok_simps(2))

lemma repo_list_set: "repo_list T s = Inr xs \<Longrightarrow> set xs = tbl_objs T s"
proof -
  assume xs: "repo_list T s = Inr xs"
  then have "\<forall>r \<in> set (tb_rows T s). tb_valid T (row_data r)"
    using repo_list_valid [OF xs] by (auto simp: tbl_objs_def)
  then have "repo_list T s = Inr (map row_data (sort_key (\<lambda>r. (row_created_at r, row_id r)) (tb_rows T s)))"
    unfolding repo_list_def by (intro res_map_ok) (simp add: repo_decode_def)
  with xs show ?thesis by (auto simp: tbl_objs_def)
qed

lemma repo_get_objs:
  assumes "tbl_ok T s" and "x \<in> tbl_objs T s"
  shows "repo_get T (tb_oid T x) s = Inr x"
proof -
  from assms(2) obtain r where r: "r \<in> set (tb_rows T s)" and x: "x = row_data r"
    by (auto simp: tbl_objs_def)
  have "row_id r = tb_oid T x" and "tb_valid T x" using assms(1) r x by (auto simp: tbl_ok_def)
  moreover have "find_row (row_id r) (tb_rows T s) = Some r"
    using assms(1) r by (simp add: tbl_ok_def find_row_distinct)
  ultimately show ?thesis using x by (simp add: repo_get_def repo_decode_def)
qed

lemma tbl_objs_oid: "tbl_ok T s \<Longrightarrow> x \<in> tbl_objs T s \<Longrightarrow> tb_oid T x \<in> tbl_ids T s"
  by (auto simp: tbl_ok_def tbl_objs_def tbl_ids_def)

subsection \<open>The contract of a repository table\<close>

text \<open>
  What the service relies on: a table is read back as it was put (the lens laws), and an
  \<open>UPDATE\<close> leaves the primary key alone. Everything the service's proofs use about
  \<open>get\<close>, \<open>add\<close>, \<open>update\<close> and \<open>list\<close> is proved here once.
\<close>

locale repo_table =
  fixes T :: "('s, 'h, 'a) tbl"
  assumes rows_put [simp]: "tb_rows T (tb_put T rs s) = rs"
begin

lemma add_fresh:
  "tb_oid T x \<notin> tbl_ids T s \<Longrightarrow> \<exists>s'. repo_add T x s = (Inr x, s')"
  by (simp add: repo_add_def tbl_ids_def)

lemma add_ok_iff: "is_ok (fst (repo_add T x s)) \<longleftrightarrow> tb_oid T x \<notin> tbl_ids T s"
  by (simp add: repo_add_def tbl_ids_def)

lemma add_Inr_value: "repo_add T x s = (Inr y, s') \<Longrightarrow> y = x"
  by (simp add: repo_add_def split: if_splits)

lemma add_err: "repo_add T x s = (Inl e, s') \<Longrightarrow> s' = s"
  by (simp add: repo_add_def split: if_splits)

lemma add_ids: "repo_add T x s = (Inr y, s') \<Longrightarrow> tbl_ids T s' = insert (tb_oid T x) (tbl_ids T s)"
  by (auto simp: repo_add_def tbl_ids_def split: if_splits)

lemma add_objs: "repo_add T x s = (Inr y, s') \<Longrightarrow> tbl_objs T s' = insert x (tbl_objs T s)"
  by (auto simp: repo_add_def tbl_objs_def split: if_splits)

lemma add_get:
  assumes "repo_add T x s = (Inr y, s')" and "tb_valid T x"
  shows "repo_get T i s' = (if i = tb_oid T x then Inr x else repo_get T i s)"
proof -
  have "find_row (tb_oid T x) (tb_rows T s) = None"
    using assms(1) by (simp add: repo_add_def find_row_None split: if_splits)
  then show ?thesis using assms
    by (auto simp: repo_add_def repo_get_def repo_decode_def find_row_append
        split: if_splits option.splits)
qed

lemma add_preserves_ok: "tbl_ok T s \<Longrightarrow> tb_valid T x \<Longrightarrow> tbl_ok T (snd (repo_add T x s))"
  by (auto simp: repo_add_def tbl_ok_def)

lemma add_rows_length:
  "repo_add T x s = (Inr y, s') \<Longrightarrow> length (tb_rows T s') = Suc (length (tb_rows T s))"
  by (auto simp: repo_add_def split: if_splits)

lemma update_ok_iff: "is_ok (fst (repo_update T x s)) \<longleftrightarrow> tb_oid T x \<in> tbl_ids T s"
  by (simp add: repo_update_def tbl_ids_def)

lemma update_known: "tb_oid T x \<in> tbl_ids T s \<Longrightarrow> \<exists>s'. repo_update T x s = (Inr x, s')"
  by (simp add: repo_update_def tbl_ids_def)

lemma update_Inr_value: "repo_update T x s = (Inr y, s') \<Longrightarrow> y = x"
  by (simp add: repo_update_def split: if_splits)

lemma update_err: "repo_update T x s = (Inl e, s') \<Longrightarrow> s' = s"
  by (simp add: repo_update_def split: if_splits)

lemma update_ids [simp]: "tbl_ids T (snd (repo_update T x s)) = tbl_ids T s"
  by (simp add: repo_update_def tbl_ids_def image_image)

lemma update_get:
  assumes "repo_update T x s = (Inr y, s')" and "tb_valid T x"
  shows "repo_get T i s' = (if i = tb_oid T x then Inr x else repo_get T i s)"
proof -
  have rows: "tb_rows T s' = map (upd_row T x) (tb_rows T s)"
    and known: "tb_oid T x \<in> row_id ` set (tb_rows T s)"
    using assms(1) by (auto simp: repo_update_def split: if_splits)
  show ?thesis
  proof (cases "i = tb_oid T x")
    case True
    then obtain r where "find_row i (tb_rows T s) = Some r" and "row_id r = i"
      using find_row_known known by (metis find_row_Some)
    with True assms(2) show ?thesis
      by (simp add: repo_get_def repo_decode_def rows find_row_upd upd_row_def)
  next
    case False
    then show ?thesis
      by (auto simp: repo_get_def rows find_row_upd upd_row_def dest!: find_row_Some split: option.split)
  qed
qed

lemma update_preserves_ok: "tbl_ok T s \<Longrightarrow> tb_valid T x \<Longrightarrow> tbl_ok T (snd (repo_update T x s))"
  by (auto simp: repo_update_def tbl_ok_def upd_row_def)

lemma update_obj_mem:
  assumes "repo_update T x s = (Inr y, s')"
  shows "x \<in> tbl_objs T s'"
proof -
  obtain r where r: "r \<in> set (tb_rows T s)" "row_id r = tb_oid T x"
    and rows: "tb_rows T s' = map (upd_row T x) (tb_rows T s)"
    using assms by (auto simp: repo_update_def image_iff split: if_splits)
  have "row_data (upd_row T x r) = x" using r(2) by (simp add: upd_row_def)
  then show ?thesis using r(1) unfolding tbl_objs_def rows by (metis image_eqI list.set_map)
qed

lemma update_objs:
  assumes "tbl_ok T s" and "repo_update T x s = (Inr y, s')"
  shows "tbl_objs T s' = insert x {z \<in> tbl_objs T s. tb_oid T z \<noteq> tb_oid T x}"
proof -
  have rows: "tb_rows T s' = map (upd_row T x) (tb_rows T s)"
    using assms(2) by (auto simp: repo_update_def split: if_splits)
  have "x \<in> tbl_objs T s'" by (rule update_obj_mem [OF assms(2)])
  moreover have "z \<in> tbl_objs T s' \<longleftrightarrow> z \<in> tbl_objs T s \<and> tb_oid T z \<noteq> tb_oid T x" if "z \<noteq> x" for z
    using assms(1) that by (force simp: tbl_objs_def rows upd_row_def tbl_ok_def image_iff split: if_splits)
  ultimately show ?thesis
    by (intro set_eqI) (metis (mono_tags, lifting) insert_iff mem_Collect_eq)
qed

lemma update_rows_length:
  "length (tb_rows T (snd (repo_update T x s))) = length (tb_rows T s)"
  by (simp add: repo_update_def)

end

lemmas tbl_defs = tasks_def research_log_def runs_def artifacts_def reviews_def issues_def approvals_def

interpretation tasks: repo_table "tasks :: ('z science_db_scheme, unit, task) tbl"
  by unfold_locales (simp add: tasks_def)

interpretation research_log:
  repo_table "research_log :: ('z science_db_scheme, unit, research_log_entry) tbl"
  by unfold_locales (simp add: research_log_def)

interpretation runs: repo_table "runs :: ('z science_db_scheme, string option, run) tbl"
  by unfold_locales (simp add: runs_def)

interpretation artifacts: repo_table "artifacts :: ('z science_db_scheme, unit, artifact) tbl"
  by unfold_locales (simp add: artifacts_def)

interpretation reviews: repo_table "reviews :: ('z science_db_scheme, unit, review) tbl"
  by unfold_locales (simp add: reviews_def)

interpretation issues:
  repo_table "issues :: ('z science_db_scheme, string \<times> string option \<times> string option, issue) tbl"
  by unfold_locales (simp add: issues_def)

interpretation approvals: repo_table "approvals :: ('z science_db_scheme, unit, approval) tbl"
  by unfold_locales (simp add: approvals_def)

lemma tbl_oids [simp]:
  "tb_oid tasks = t_id"
  "tb_oid research_log = l_id"
  "tb_oid runs = r_id"
  "tb_oid artifacts = a_id"
  "tb_oid reviews = rv_id"
  "tb_oid issues = i_id"
  "tb_oid approvals = ap_id"
  by (simp_all add: tbl_defs)

lemma tbl_valids [simp]:
  "tb_valid tasks x0"
  "tb_valid research_log x1"
  "tb_valid runs x2"
  "tb_valid artifacts x3"
  "tb_valid reviews x4"
  "tb_valid approvals x6"
  by (simp_all add: tbl_defs)

lemma issues_valid [simp]: "tb_valid issues i \<longleftrightarrow> 0 \<le> i_confidence i \<and> i_confidence i \<le> 1"
  by (simp add: issues_def)

subsection \<open>Operations on one table leave the others alone\<close>

lemma rows_frame [simp]:
  "tb_rows tasks (tb_put research_log rs1 s) = tb_rows tasks s"
  "tb_rows tasks (tb_put runs rs2 s) = tb_rows tasks s"
  "tb_rows tasks (tb_put artifacts rs3 s) = tb_rows tasks s"
  "tb_rows tasks (tb_put reviews rs4 s) = tb_rows tasks s"
  "tb_rows tasks (tb_put issues rs5 s) = tb_rows tasks s"
  "tb_rows tasks (tb_put approvals rs6 s) = tb_rows tasks s"
  "tb_rows research_log (tb_put tasks rs0 s) = tb_rows research_log s"
  "tb_rows research_log (tb_put runs rs2 s) = tb_rows research_log s"
  "tb_rows research_log (tb_put artifacts rs3 s) = tb_rows research_log s"
  "tb_rows research_log (tb_put reviews rs4 s) = tb_rows research_log s"
  "tb_rows research_log (tb_put issues rs5 s) = tb_rows research_log s"
  "tb_rows research_log (tb_put approvals rs6 s) = tb_rows research_log s"
  "tb_rows runs (tb_put tasks rs0 s) = tb_rows runs s"
  "tb_rows runs (tb_put research_log rs1 s) = tb_rows runs s"
  "tb_rows runs (tb_put artifacts rs3 s) = tb_rows runs s"
  "tb_rows runs (tb_put reviews rs4 s) = tb_rows runs s"
  "tb_rows runs (tb_put issues rs5 s) = tb_rows runs s"
  "tb_rows runs (tb_put approvals rs6 s) = tb_rows runs s"
  "tb_rows artifacts (tb_put tasks rs0 s) = tb_rows artifacts s"
  "tb_rows artifacts (tb_put research_log rs1 s) = tb_rows artifacts s"
  "tb_rows artifacts (tb_put runs rs2 s) = tb_rows artifacts s"
  "tb_rows artifacts (tb_put reviews rs4 s) = tb_rows artifacts s"
  "tb_rows artifacts (tb_put issues rs5 s) = tb_rows artifacts s"
  "tb_rows artifacts (tb_put approvals rs6 s) = tb_rows artifacts s"
  "tb_rows reviews (tb_put tasks rs0 s) = tb_rows reviews s"
  "tb_rows reviews (tb_put research_log rs1 s) = tb_rows reviews s"
  "tb_rows reviews (tb_put runs rs2 s) = tb_rows reviews s"
  "tb_rows reviews (tb_put artifacts rs3 s) = tb_rows reviews s"
  "tb_rows reviews (tb_put issues rs5 s) = tb_rows reviews s"
  "tb_rows reviews (tb_put approvals rs6 s) = tb_rows reviews s"
  "tb_rows issues (tb_put tasks rs0 s) = tb_rows issues s"
  "tb_rows issues (tb_put research_log rs1 s) = tb_rows issues s"
  "tb_rows issues (tb_put runs rs2 s) = tb_rows issues s"
  "tb_rows issues (tb_put artifacts rs3 s) = tb_rows issues s"
  "tb_rows issues (tb_put reviews rs4 s) = tb_rows issues s"
  "tb_rows issues (tb_put approvals rs6 s) = tb_rows issues s"
  "tb_rows approvals (tb_put tasks rs0 s) = tb_rows approvals s"
  "tb_rows approvals (tb_put research_log rs1 s) = tb_rows approvals s"
  "tb_rows approvals (tb_put runs rs2 s) = tb_rows approvals s"
  "tb_rows approvals (tb_put artifacts rs3 s) = tb_rows approvals s"
  "tb_rows approvals (tb_put reviews rs4 s) = tb_rows approvals s"
  "tb_rows approvals (tb_put issues rs5 s) = tb_rows approvals s"
  by (simp_all add: tbl_defs)

lemma add_frame:
  assumes "\<And>rs s. tb_rows U (tb_put T rs s) = tb_rows U s"
  shows "tb_rows U (snd (repo_add T x s)) = tb_rows U s"
  using assms by (simp add: repo_add_def)

lemma update_frame:
  assumes "\<And>rs s. tb_rows U (tb_put T rs s) = tb_rows U s"
  shows "tb_rows U (snd (repo_update T x s)) = tb_rows U s"
  using assms by (simp add: repo_update_def)

lemma tbl_ok_cong: "tb_rows T s' = tb_rows T s \<Longrightarrow> tbl_ok T s' = tbl_ok T s"
  by (simp add: tbl_ok_def)

lemma tbl_ids_cong: "tb_rows T s' = tb_rows T s \<Longrightarrow> tbl_ids T s' = tbl_ids T s"
  by (simp add: tbl_ids_def)

lemma tbl_objs_cong: "tb_rows T s' = tb_rows T s \<Longrightarrow> tbl_objs T s' = tbl_objs T s"
  by (simp add: tbl_objs_def)

lemma repo_get_cong: "tb_rows T s' = tb_rows T s \<Longrightarrow> repo_get T i s' = repo_get T i s"
  by (simp add: repo_get_def)

lemma repo_list_cong: "tb_rows T s' = tb_rows T s \<Longrightarrow> repo_list T s' = repo_list T s"
  by (simp add: repo_list_def)

lemma add_frame_ok [simp]:
  "(\<And>rs s. tb_rows U (tb_put T rs s) = tb_rows U s) \<Longrightarrow>
     tbl_ok U (snd (repo_add T x s)) = tbl_ok U s"
  by (rule tbl_ok_cong) (rule add_frame)

lemma add_frame_ids [simp]:
  "(\<And>rs s. tb_rows U (tb_put T rs s) = tb_rows U s) \<Longrightarrow>
     tbl_ids U (snd (repo_add T x s)) = tbl_ids U s"
  by (rule tbl_ids_cong) (rule add_frame)

lemma add_frame_objs [simp]:
  "(\<And>rs s. tb_rows U (tb_put T rs s) = tb_rows U s) \<Longrightarrow>
     tbl_objs U (snd (repo_add T x s)) = tbl_objs U s"
  by (rule tbl_objs_cong) (rule add_frame)

lemma update_frame_ok [simp]:
  "(\<And>rs s. tb_rows U (tb_put T rs s) = tb_rows U s) \<Longrightarrow>
     tbl_ok U (snd (repo_update T x s)) = tbl_ok U s"
  by (rule tbl_ok_cong) (rule update_frame)

lemma update_frame_ids [simp]:
  "(\<And>rs s. tb_rows U (tb_put T rs s) = tb_rows U s) \<Longrightarrow>
     tbl_ids U (snd (repo_update T x s)) = tbl_ids U s"
  by (rule tbl_ids_cong) (rule update_frame)

lemma update_frame_objs [simp]:
  "(\<And>rs s. tb_rows U (tb_put T rs s) = tb_rows U s) \<Longrightarrow>
     tbl_objs U (snd (repo_update T x s)) = tbl_objs U s"
  by (rule tbl_objs_cong) (rule update_frame)

lemma repo_add_err: "repo_add T x s = (Inl e, s') \<Longrightarrow> s' = s"
  by (simp add: repo_add_def split: if_splits)

lemma repo_update_err: "repo_update T x s = (Inl e, s') \<Longrightarrow> s' = s"
  by (simp add: repo_update_def split: if_splits)

lemma repo_err_keeps [err_keeps_intros]:
  "err_keeps (repo_add T x)"
  "err_keeps (repo_update T x)"
  by (auto simp: err_keeps_def dest: repo_add_err repo_update_err)

subsection \<open>The database invariant\<close>

definition db_ok :: "'z science_db_scheme \<Rightarrow> bool" where
  "db_ok s \<longleftrightarrow> tbl_ok tasks s \<and> tbl_ok research_log s \<and> tbl_ok runs s \<and> tbl_ok artifacts s
     \<and> tbl_ok reviews s \<and> tbl_ok issues s \<and> tbl_ok approvals s"

lemma add_tasks_db_ok [preserves_intros]: "preserves db_ok (repo_add tasks x)"
  by (auto simp: preserves_def db_ok_def intro: tasks.add_preserves_ok)

lemma update_tasks_db_ok [preserves_intros]: "preserves db_ok (repo_update tasks x)"
  by (auto simp: preserves_def db_ok_def intro: tasks.update_preserves_ok)

lemma add_research_log_db_ok [preserves_intros]: "preserves db_ok (repo_add research_log x)"
  by (auto simp: preserves_def db_ok_def intro: research_log.add_preserves_ok)

lemma update_research_log_db_ok [preserves_intros]: "preserves db_ok (repo_update research_log x)"
  by (auto simp: preserves_def db_ok_def intro: research_log.update_preserves_ok)

lemma add_runs_db_ok [preserves_intros]: "preserves db_ok (repo_add runs x)"
  by (auto simp: preserves_def db_ok_def intro: runs.add_preserves_ok)

lemma update_runs_db_ok [preserves_intros]: "preserves db_ok (repo_update runs x)"
  by (auto simp: preserves_def db_ok_def intro: runs.update_preserves_ok)

lemma add_artifacts_db_ok [preserves_intros]: "preserves db_ok (repo_add artifacts x)"
  by (auto simp: preserves_def db_ok_def intro: artifacts.add_preserves_ok)

lemma update_artifacts_db_ok [preserves_intros]: "preserves db_ok (repo_update artifacts x)"
  by (auto simp: preserves_def db_ok_def intro: artifacts.update_preserves_ok)

lemma add_reviews_db_ok [preserves_intros]: "preserves db_ok (repo_add reviews x)"
  by (auto simp: preserves_def db_ok_def intro: reviews.add_preserves_ok)

lemma update_reviews_db_ok [preserves_intros]: "preserves db_ok (repo_update reviews x)"
  by (auto simp: preserves_def db_ok_def intro: reviews.update_preserves_ok)

lemma add_issues_db_ok [preserves_intros]: "tb_valid issues x \<Longrightarrow> preserves db_ok (repo_add issues x)"
  by (auto simp: preserves_def db_ok_def intro: issues.add_preserves_ok)

lemma update_issues_db_ok [preserves_intros]: "tb_valid issues x \<Longrightarrow> preserves db_ok (repo_update issues x)"
  by (auto simp: preserves_def db_ok_def intro: issues.update_preserves_ok)

lemma add_approvals_db_ok [preserves_intros]: "preserves db_ok (repo_add approvals x)"
  by (auto simp: preserves_def db_ok_def intro: approvals.add_preserves_ok)

lemma update_approvals_db_ok [preserves_intros]: "preserves db_ok (repo_update approvals x)"
  by (auto simp: preserves_def db_ok_def intro: approvals.update_preserves_ok)

lemma empty_tables [simp]:
  "tb_rows tasks empty_db = []"
  "tb_rows research_log empty_db = []"
  "tb_rows runs empty_db = []"
  "tb_rows artifacts empty_db = []"
  "tb_rows reviews empty_db = []"
  "tb_rows issues empty_db = []"
  "tb_rows approvals empty_db = []"
  by (simp_all add: tbl_defs empty_db_def)

lemma empty_db_ok [simp]: "db_ok empty_db"
  by (simp add: db_ok_def tbl_ok_def)

end
