(* ===== verification/Records.thy ===== *)
theory Records
  imports Repository
begin

text \<open>
  The durable scientific records of \<open>science/omnisci/service.py\<close>: tasks, the append-only
  research log, reviews and the reviewer issue checklist (\<open>create_task\<close> to
  \<open>update_issue\<close>, \<open>status\<close>). Each operation of the class \<open>ScienceService\<close> is a
  function of the database with the Python parameters in the Python order; the draws of
  \<open>uuid4\<close> and \<open>utcnow\<close> it makes come first, in the order of the calls. Keyword
  arguments (\<open>**fields\<close>) are a dictionary of dynamically typed values, and assigning one to a
  field performs the type check of the model class (\<open>ValidationError\<close>).
\<close>

subsection \<open>Tasks\<close>

definition require_opt :: "('s, 'h, 'a) tbl \<Rightarrow> string option \<Rightarrow> ('s, unit) eff" where
  "require_opt T x =
     (case x of
        None \<Rightarrow> eff_return ()
      | Some i \<Rightarrow> eff_bind (eff_lift (repo_get T i)) (\<lambda>_. eff_return ()))"

definition create_task ::
    "string \<Rightarrow> string \<Rightarrow> string \<Rightarrow> string \<Rightarrow> string \<Rightarrow> string option \<Rightarrow> string list option \<Rightarrow>
     string list option \<Rightarrow> string option \<Rightarrow> string option \<Rightarrow> ('z science_db_scheme, task) eff" where
  "create_task uuid now1 now2 title instructions parent_id depends_on expected_outputs
       assigned_agent assigned_session =
     eff_bind (require_opt tasks parent_id) (\<lambda>_.
     eff_bind (eff_for (list_or depends_on) (\<lambda>dep. eff_lift (repo_get tasks dep))) (\<lambda>_.
     repo_add tasks
       \<lparr>t_id = new_id ''task'' uuid, t_title = title, t_instructions = instructions,
        t_status = TS_PENDING, t_parent_id = parent_id, t_depends_on = list_or depends_on,
        t_assigned_agent = assigned_agent, t_assigned_session = assigned_session,
        t_expected_outputs = list_or expected_outputs, t_created_at = now1, t_updated_at = now2\<rparr>))"

definition get_task :: "string \<Rightarrow> ('z science_db_scheme, task) eff" where
  "get_task i = eff_lift (repo_get tasks i)"

definition list_tasks :: "string option \<Rightarrow> ('z science_db_scheme, task list) eff" where
  "list_tasks status =
     eff_bind (eff_lift (repo_list tasks)) (\<lambda>ts.
     eff_return (case status of
                   None \<Rightarrow> ts
                 | Some v \<Rightarrow> filter (\<lambda>t. task_status_value (t_status t) = v) ts))"

text \<open>Type checks of the model class on a JSON-typed value.\<close>

definition as_str :: "string \<Rightarrow> json \<Rightarrow> string res" where
  "as_str k v = (case v of JStr s \<Rightarrow> Inr s | _ \<Rightarrow> Inl (ValidationError k))"

definition as_str_list :: "string \<Rightarrow> json \<Rightarrow> string list res" where
  "as_str_list k v = (case v of JList vs \<Rightarrow> res_map (as_str k) vs | _ \<Rightarrow> Inl (ValidationError k))"

definition as_enum :: "string \<Rightarrow> (string \<Rightarrow> 'e res) \<Rightarrow> json \<Rightarrow> 'e res" where
  "as_enum k of_value v =
     (case v of
        JStr s \<Rightarrow> (case of_value s of Inl _ \<Rightarrow> Inl (ValidationError k) | Inr e \<Rightarrow> Inr e)
      | _ \<Rightarrow> Inl (ValidationError k))"

text \<open>
  One turn of the field loop of \<open>update_task\<close>: a \<open>None\<close> value, a key that is no field of
  \<open>Task\<close>, \<open>id\<close> and \<open>created_at\<close> are skipped; \<open>updated_at\<close> is overwritten after the
  loop, before the record is validated.
\<close>

definition task_assign :: "string \<Rightarrow> json \<Rightarrow> task \<Rightarrow> task res" where
  "task_assign k v t =
     (if v = JNull \<or> k = ''id'' \<or> k = ''created_at'' then Inr t
      else if k = ''title'' then res_bind (as_str k v) (\<lambda>x. Inr (t\<lparr>t_title := x\<rparr>))
      else if k = ''instructions'' then res_bind (as_str k v) (\<lambda>x. Inr (t\<lparr>t_instructions := x\<rparr>))
      else if k = ''status'' then res_bind (as_enum k task_status_of v) (\<lambda>x. Inr (t\<lparr>t_status := x\<rparr>))
      else if k = ''parent_id'' then res_bind (as_str k v) (\<lambda>x. Inr (t\<lparr>t_parent_id := Some x\<rparr>))
      else if k = ''depends_on'' then res_bind (as_str_list k v) (\<lambda>x. Inr (t\<lparr>t_depends_on := x\<rparr>))
      else if k = ''assigned_agent'' then res_bind (as_str k v) (\<lambda>x. Inr (t\<lparr>t_assigned_agent := Some x\<rparr>))
      else if k = ''assigned_session''
        then res_bind (as_str k v) (\<lambda>x. Inr (t\<lparr>t_assigned_session := Some x\<rparr>))
      else if k = ''expected_outputs''
        then res_bind (as_str_list k v) (\<lambda>x. Inr (t\<lparr>t_expected_outputs := x\<rparr>))
      else Inr t)"

primrec task_assign_all :: "json dict \<Rightarrow> task \<Rightarrow> task res" where
  "task_assign_all [] t = Inr t"
| "task_assign_all (kv # kwargs) t =
     res_bind (task_assign (fst kv) (snd kv) t) (task_assign_all kwargs)"

definition update_task ::
    "string \<Rightarrow> string \<Rightarrow> json dict \<Rightarrow> ('z science_db_scheme, task) eff" where
  "update_task now task_id kwargs =
     eff_bind (eff_lift (repo_get tasks task_id)) (\<lambda>task.
     eff_bind
       (if dict_get kwargs ''status'' = Some (JStr ''done'') \<and> t_status task \<noteq> TS_DONE
        then eff_bind (eff_lift (repo_list research_log)) (\<lambda>entries.
               if filter (\<lambda>e. l_task_id e = Some (t_id task)) entries = []
               then eff_raise (StateError (''task '' @ t_id task
                      @ '' cannot be marked done without a research-log entry''))
               else eff_return ())
        else eff_return ()) (\<lambda>_.
     eff_bind (eff_lift (\<lambda>_. task_assign_all kwargs task)) (\<lambda>task'.
     repo_update tasks (task'\<lparr>t_updated_at := now\<rparr>))))"

subsection \<open>Research log\<close>

definition create_research_log ::
    "string \<Rightarrow> string \<Rightarrow> string \<Rightarrow> string option \<Rightarrow> string option \<Rightarrow> string option \<Rightarrow>
     string list option \<Rightarrow> string list option \<Rightarrow> string list option \<Rightarrow> string list option \<Rightarrow>
     string list option \<Rightarrow> string list option \<Rightarrow> string list option \<Rightarrow> string option \<Rightarrow>
     ('z science_db_scheme, research_log_entry) eff" where
  "create_research_log uuid now summary task_id agent session files_changed run_ids artifact_ids
       sources assumptions limitations uncertainties requested_next_step =
     eff_bind (require_opt tasks task_id) (\<lambda>_.
     eff_bind (eff_for (list_or run_ids) (\<lambda>i. eff_lift (repo_get runs i))) (\<lambda>_.
     eff_bind (eff_for (list_or artifact_ids) (\<lambda>i. eff_lift (repo_get artifacts i))) (\<lambda>_.
     repo_add research_log
       \<lparr>l_id = new_id ''log'' uuid, l_task_id = task_id, l_agent = agent, l_session = session,
        l_summary = summary, l_files_changed = list_or files_changed,
        l_run_ids = list_or run_ids, l_artifact_ids = list_or artifact_ids,
        l_sources = list_or sources, l_assumptions = list_or assumptions,
        l_limitations = list_or limitations, l_uncertainties = list_or uncertainties,
        l_requested_next_step = requested_next_step, l_created_at = now\<rparr>)))"

definition get_research_log :: "string \<Rightarrow> ('z science_db_scheme, research_log_entry) eff" where
  "get_research_log i = eff_lift (repo_get research_log i)"

definition list_research_log ::
    "string option \<Rightarrow> string option \<Rightarrow> ('z science_db_scheme, research_log_entry list) eff" where
  "list_research_log task_id session =
     eff_bind (eff_lift (repo_list research_log)) (\<lambda>es.
     let es1 = (if task_id \<noteq> None then filter (\<lambda>e. l_task_id e = task_id) es else es);
         es2 = (if session \<noteq> None then filter (\<lambda>e. l_session e = session) es1 else es1)
     in eff_return es2)"

subsection \<open>Reviews\<close>

definition record_review ::
    "string \<Rightarrow> string \<Rightarrow> string \<Rightarrow> string option \<Rightarrow> string option \<Rightarrow> string option \<Rightarrow>
     string option \<Rightarrow> string option \<Rightarrow> string option \<Rightarrow> string list option \<Rightarrow>
     ('z science_db_scheme, review) eff" where
  "record_review uuid now summary session_id reviewer_agent reviewer_session reviewer_model
       reviewer_harness reviewed_through issue_ids =
     eff_bind (eff_for (list_or issue_ids) (\<lambda>i. eff_lift (repo_get issues i))) (\<lambda>_.
     repo_add reviews
       \<lparr>rv_id = new_id ''rev'' uuid, rv_session_id = session_id,
        rv_reviewer_agent = reviewer_agent, rv_reviewer_session = reviewer_session,
        rv_reviewer_model = reviewer_model, rv_reviewer_harness = reviewer_harness,
        rv_reviewed_through = reviewed_through, rv_summary = summary,
        rv_issue_ids = list_or issue_ids, rv_created_at = now\<rparr>)"

definition get_review :: "string \<Rightarrow> ('z science_db_scheme, review) eff" where
  "get_review i = eff_lift (repo_get reviews i)"

definition list_reviews :: "string option \<Rightarrow> ('z science_db_scheme, review list) eff" where
  "list_reviews session_id =
     eff_bind (eff_lift (repo_list reviews)) (\<lambda>rs.
     eff_return (if session_id \<noteq> None then filter (\<lambda>r. rv_session_id r = session_id) rs else rs))"

subsection \<open>Issues\<close>

text \<open>
  \<open>_issue_fingerprint\<close>: \<open>digest\<close> is the SHA-256 hex digest of the canonical (key-sorted)
  JSON text of a value.
\<close>

definition issue_fingerprint ::
    "(json \<Rightarrow> string) \<Rightarrow> string option \<Rightarrow> string \<Rightarrow> string \<Rightarrow> string list \<Rightarrow> string" where
  "issue_fingerprint digest session_id category title evidence_refs =
     digest (JDict
       [(''category'', JStr (strip (lower category))),
        (''evidence_refs'', JList (map JStr (sort evidence_refs))),
        (''session_id'', (case session_id of None \<Rightarrow> JNull | Some s \<Rightarrow> JStr s)),
        (''title'', JStr (strip (lower title)))])"

definition create_issue ::
    "(json \<Rightarrow> string) \<Rightarrow> string \<Rightarrow> string \<Rightarrow> string \<Rightarrow> string \<Rightarrow> string \<Rightarrow> string \<Rightarrow> string option \<Rightarrow>
     string option \<Rightarrow> string option \<Rightarrow> string \<Rightarrow> string \<Rightarrow> string list option \<Rightarrow> rat \<Rightarrow>
     string option \<Rightarrow> string option \<Rightarrow> ('z science_db_scheme, issue) eff" where
  "create_issue digest uuid now1 now2 title description verification_question session_id task_id
       research_log_id category severity evidence_refs confidence fingerprint raised_by =
     eff_bind (require_opt tasks task_id) (\<lambda>_.
     eff_bind (require_opt research_log research_log_id) (\<lambda>_.
     let fp = str_or fingerprint
                (issue_fingerprint digest session_id category title (list_or evidence_refs)) in
     eff_bind (eff_lift (find_issue_by_fingerprint fp session_id)) (\<lambda>found.
     eff_bind (eff_lift (\<lambda>_. issue_severity_of severity)) (\<lambda>sev.
     case found of
       Some existing \<Rightarrow>
         repo_update issues
           (existing\<lparr>i_title := title, i_description := description,
             i_verification_question := verification_question, i_category := category,
             i_severity := sev, i_evidence_refs := list_or evidence_refs,
             i_confidence := confidence, i_task_id := task_id,
             i_research_log_id := research_log_id,
             i_raised_by := opt_str_or raised_by (i_raised_by existing),
             i_status := IS_OPEN, i_resolution := None, i_resolved_by := None,
             i_updated_at := now1\<rparr>)
     | None \<Rightarrow>
         if 0 \<le> confidence \<and> confidence \<le> 1
         then repo_add issues
                \<lparr>i_id = new_id ''issue'' uuid, i_session_id = session_id, i_task_id = task_id,
                 i_research_log_id = research_log_id, i_category = category, i_severity = sev,
                 i_status = IS_OPEN, i_title = title, i_description = description,
                 i_evidence_refs = list_or evidence_refs,
                 i_verification_question = verification_question, i_confidence = confidence,
                 i_fingerprint = Some fp, i_raised_by = raised_by, i_resolution = None,
                 i_resolved_by = None, i_created_at = now1, i_updated_at = now2\<rparr>
         else eff_raise (ValidationError ''confidence'')))))"

definition get_issue :: "string \<Rightarrow> ('z science_db_scheme, issue) eff" where
  "get_issue i = eff_lift (repo_get issues i)"

definition list_issues ::
    "string option \<Rightarrow> string option \<Rightarrow> ('z science_db_scheme, issue list) eff" where
  "list_issues status session_id =
     eff_bind (eff_lift (repo_list issues)) (\<lambda>is0.
     eff_bind (case status of
                 None \<Rightarrow> eff_return is0
               | Some v \<Rightarrow> eff_bind (eff_lift (\<lambda>_. issue_status_of v)) (\<lambda>expected.
                             eff_return (filter (\<lambda>i. i_status i = expected) is0))) (\<lambda>is1.
     eff_return (if session_id \<noteq> None then filter (\<lambda>i. i_session_id i = session_id) is1 else is1)))"

text \<open>
  The field loop of \<open>update_issue\<close>; \<open>confidence\<close> goes through the numeric coercion of the
  model class (\<open>num\<close>, which reads an int, a float, a bool or a numeric text) and its bounds.
\<close>

definition issue_assign :: "(json \<Rightarrow> rat option) \<Rightarrow> string \<Rightarrow> json \<Rightarrow> issue \<Rightarrow> issue res" where
  "issue_assign num k v i =
     (if v = JNull \<or> k = ''id'' \<or> k = ''created_at'' \<or> k = ''fingerprint'' then Inr i
      else if k = ''session_id'' then res_bind (as_str k v) (\<lambda>x. Inr (i\<lparr>i_session_id := Some x\<rparr>))
      else if k = ''task_id'' then res_bind (as_str k v) (\<lambda>x. Inr (i\<lparr>i_task_id := Some x\<rparr>))
      else if k = ''research_log_id''
        then res_bind (as_str k v) (\<lambda>x. Inr (i\<lparr>i_research_log_id := Some x\<rparr>))
      else if k = ''category'' then res_bind (as_str k v) (\<lambda>x. Inr (i\<lparr>i_category := x\<rparr>))
      else if k = ''severity'' then res_bind (as_enum k issue_severity_of v) (\<lambda>x. Inr (i\<lparr>i_severity := x\<rparr>))
      else if k = ''status'' then res_bind (as_enum k issue_status_of v) (\<lambda>x. Inr (i\<lparr>i_status := x\<rparr>))
      else if k = ''title'' then res_bind (as_str k v) (\<lambda>x. Inr (i\<lparr>i_title := x\<rparr>))
      else if k = ''description'' then res_bind (as_str k v) (\<lambda>x. Inr (i\<lparr>i_description := x\<rparr>))
      else if k = ''evidence_refs'' then res_bind (as_str_list k v) (\<lambda>x. Inr (i\<lparr>i_evidence_refs := x\<rparr>))
      else if k = ''verification_question''
        then res_bind (as_str k v) (\<lambda>x. Inr (i\<lparr>i_verification_question := x\<rparr>))
      else if k = ''confidence'' then
        (case num v of
           None \<Rightarrow> Inl (ValidationError k)
         | Some q \<Rightarrow> if 0 \<le> q \<and> q \<le> 1 then Inr (i\<lparr>i_confidence := q\<rparr>) else Inl (ValidationError k))
      else if k = ''raised_by'' then res_bind (as_str k v) (\<lambda>x. Inr (i\<lparr>i_raised_by := Some x\<rparr>))
      else if k = ''resolution'' then res_bind (as_str k v) (\<lambda>x. Inr (i\<lparr>i_resolution := Some x\<rparr>))
      else if k = ''resolved_by'' then res_bind (as_str k v) (\<lambda>x. Inr (i\<lparr>i_resolved_by := Some x\<rparr>))
      else Inr i)"

primrec issue_assign_all :: "(json \<Rightarrow> rat option) \<Rightarrow> json dict \<Rightarrow> issue \<Rightarrow> issue res" where
  "issue_assign_all num [] i = Inr i"
| "issue_assign_all num (kv # kwargs) i =
     res_bind (issue_assign num (fst kv) (snd kv) i) (issue_assign_all num kwargs)"

text \<open>
  \<open>update_issue\<close>. The status is read first (\<open>IssueStatus(data["status"])\<close> raises
  \<open>ValueError\<close> on an unknown value), then the resolution note is required, then the whole
  record is validated.
\<close>

definition raw_field :: "json dict \<Rightarrow> string \<Rightarrow> json \<Rightarrow> json" where
  "raw_field kwargs k old = (case dict_get kwargs k of None \<Rightarrow> old | Some JNull \<Rightarrow> old | Some v \<Rightarrow> v)"

definition update_issue ::
    "(json \<Rightarrow> rat option) \<Rightarrow> string \<Rightarrow> string \<Rightarrow> json dict \<Rightarrow> ('z science_db_scheme, issue) eff" where
  "update_issue num now issue_id kwargs =
     eff_bind (eff_lift (repo_get issues issue_id)) (\<lambda>issue.
     eff_bind (eff_lift (\<lambda>_.
        case raw_field kwargs ''status'' (JStr (issue_status_value (i_status issue))) of
          JStr v \<Rightarrow> issue_status_of v
        | _ \<Rightarrow> Inl (ValueError ''status''))) (\<lambda>status.
     if status \<noteq> IS_OPEN
        \<and> \<not> truthy (raw_field kwargs ''resolution''
                       (case i_resolution issue of None \<Rightarrow> JNull | Some r \<Rightarrow> JStr r))
     then eff_raise (StateError ''resolving or dismissing an issue requires a resolution note'')
     else
       eff_bind (eff_lift (\<lambda>_. issue_assign_all num kwargs issue)) (\<lambda>issue'.
       repo_update issues (issue'\<lparr>i_updated_at := now\<rparr>))))"

subsection \<open>Status counters\<close>

definition count_by :: "('a \<Rightarrow> string) \<Rightarrow> 'a list \<Rightarrow> int dict" where
  "count_by f xs = fold (\<lambda>x d. dict_set (f x) (dict_get_or d (f x) 0 + 1) d) xs []"

record status_counts =
  sc_tasks :: nat
  sc_tasks_by_status :: "int dict"
  sc_research_log :: nat
  sc_reviews :: nat
  sc_issues :: nat
  sc_open_issues :: nat
  sc_runs :: nat
  sc_artifacts :: nat
  sc_approvals :: nat

definition status :: "('z science_db_scheme, status_counts) eff" where
  "status =
     eff_bind (eff_lift (repo_list tasks)) (\<lambda>ts.
     eff_bind (eff_lift (repo_list runs)) (\<lambda>rs.
     eff_bind (eff_lift (repo_list research_log)) (\<lambda>ls.
     eff_bind (eff_lift (repo_list reviews)) (\<lambda>rvs.
     eff_bind (eff_lift (repo_list issues)) (\<lambda>is0.
     eff_bind (eff_lift (repo_list artifacts)) (\<lambda>as.
     eff_bind (eff_lift (repo_list approvals)) (\<lambda>aps.
     eff_return
       \<lparr>sc_tasks = length ts,
        sc_tasks_by_status = count_by (\<lambda>t. task_status_value (t_status t)) ts,
        sc_research_log = length ls, sc_reviews = length rvs, sc_issues = length is0,
        sc_open_issues = length (filter (\<lambda>i. i_status i = IS_OPEN) is0),
        sc_runs = length rs, sc_artifacts = length as, sc_approvals = length aps\<rparr>)))))))"

subsection \<open>Invariants of the records\<close>

text \<open>A done task has a research-log entry that names it.\<close>

definition done_ok :: "'z science_db_scheme \<Rightarrow> bool" where
  "done_ok s \<longleftrightarrow> (\<forall>t \<in> tbl_objs tasks s. t_status t = TS_DONE \<longrightarrow>
                  (\<exists>e \<in> tbl_objs research_log s. l_task_id e = Some (t_id t)))"

text \<open>Research-log entries and reviews only refer to records that exist.\<close>

definition refs_ok :: "'z science_db_scheme \<Rightarrow> bool" where
  "refs_ok s \<longleftrightarrow>
     (\<forall>e \<in> tbl_objs research_log s.
        (\<forall>i. l_task_id e = Some i \<longrightarrow> i \<in> tbl_ids tasks s)
        \<and> set (l_run_ids e) \<subseteq> tbl_ids runs s \<and> set (l_artifact_ids e) \<subseteq> tbl_ids artifacts s)
     \<and> (\<forall>r \<in> tbl_objs reviews s. set (rv_issue_ids r) \<subseteq> tbl_ids issues s)"

text \<open>A resolved or dismissed issue carries a non-empty resolution note.\<close>

definition resolution_ok :: "'z science_db_scheme \<Rightarrow> bool" where
  "resolution_ok s \<longleftrightarrow>
     (\<forall>i \<in> tbl_objs issues s. i_status i \<noteq> IS_OPEN \<longrightarrow> str_truthy (i_resolution i))"

definition records_inv :: "'z science_db_scheme \<Rightarrow> bool" where
  "records_inv s \<longleftrightarrow> db_ok s \<and> done_ok s \<and> refs_ok s \<and> resolution_ok s"

subsection \<open>Guards\<close>

lemma require_opt_run:
  "require_opt T x s =
     (case x of None \<Rightarrow> (Inr (), s)
      | Some i \<Rightarrow> (case repo_get T i s of Inl e \<Rightarrow> (Inl e, s) | Inr _ \<Rightarrow> (Inr (), s)))"
  by (simp add: require_opt_def eff_bind_def split: option.split sum.split)

lemma require_opt_ok:
  "require_opt T x s = (Inr u, s') \<Longrightarrow> s' = s \<and> (\<forall>i. x = Some i \<longrightarrow> i \<in> tbl_ids T s)"
  by (auto simp: require_opt_run dest: repo_get_Inr_mem split: option.splits sum.splits)

lemma require_opt_err: "require_opt T x s = (Inl e, s') \<Longrightarrow> s' = s"
  by (auto simp: require_opt_run split: option.splits sum.splits)

lemma for_lift_ok:
  "eff_for xs (\<lambda>i. eff_lift (repo_get T i)) s = (Inr u, s') \<Longrightarrow> s' = s \<and> set xs \<subseteq> tbl_ids T s"
  by (induction xs) (auto simp: eff_bind_ok_iff dest: repo_get_Inr_mem)

lemma for_lift_err:
  "eff_for xs (\<lambda>i. eff_lift (f i)) s = (Inl e, s') \<Longrightarrow> s' = s"
  by (induction xs) (auto simp: eff_bind_err_iff)

lemma lift_ok: "eff_lift f s = (Inr x, s') \<longleftrightarrow> s' = s \<and> f s = Inr x"
  by auto

lemma lift_err: "eff_lift f s = (Inl e, s') \<longleftrightarrow> s' = s \<and> f s = Inl e"
  by auto

lemmas guard_dests = require_opt_ok require_opt_err for_lift_ok for_lift_err

subsection \<open>What each operation writes\<close>

lemma create_task_ok:
  assumes "create_task u n1 n2 title instr parent deps outs agent sess s = (Inr t, s')"
  shows "repo_add tasks t s = (Inr t, s')" and "t_status t = TS_PENDING"
    and "t_id t = new_id ''task'' u" and "\<forall>p. parent = Some p \<longrightarrow> p \<in> tbl_ids tasks s"
    and "t_parent_id t = parent" and "t_depends_on t = list_or deps"
    and "set (list_or deps) \<subseteq> tbl_ids tasks s"
  using assms unfolding create_task_def
  by (auto simp: eff_bind_ok_iff dest!: guard_dests dest: tasks.add_Inr_value)

lemma create_task_err:
  "create_task u n1 n2 title instr parent deps outs agent sess s = (Inl e, s') \<Longrightarrow> s' = s"
  unfolding create_task_def
  by (auto simp: eff_bind_err_iff dest!: guard_dests dest: repo_add_err)

lemma create_research_log_ok:
  assumes "create_research_log u n summ tid ag se fc rids aids so asm lims unc nxt s = (Inr e, s')"
  shows "repo_add research_log e s = (Inr e, s')" and "l_task_id e = tid"
    and "\<forall>i. tid = Some i \<longrightarrow> i \<in> tbl_ids tasks s"
    and "set (l_run_ids e) \<subseteq> tbl_ids runs s" and "set (l_artifact_ids e) \<subseteq> tbl_ids artifacts s"
proof -
  obtain x where x: "repo_add research_log x s = (Inr e, s')" "l_task_id x = tid"
      "\<forall>i. tid = Some i \<longrightarrow> i \<in> tbl_ids tasks s"
      "set (l_run_ids x) \<subseteq> tbl_ids runs s" "set (l_artifact_ids x) \<subseteq> tbl_ids artifacts s"
    using assms unfolding create_research_log_def by (auto simp: eff_bind_ok_iff dest!: guard_dests)
  moreover have "e = x" by (rule research_log.add_Inr_value [OF x(1)])
  ultimately show "repo_add research_log e s = (Inr e, s')" and "l_task_id e = tid"
    and "\<forall>i. tid = Some i \<longrightarrow> i \<in> tbl_ids tasks s"
    and "set (l_run_ids e) \<subseteq> tbl_ids runs s" and "set (l_artifact_ids e) \<subseteq> tbl_ids artifacts s"
    by simp_all
qed

lemma create_research_log_err:
  "create_research_log u n summ tid ag se fc rids aids so asm lims unc nxt s = (Inl e, s') \<Longrightarrow> s' = s"
  unfolding create_research_log_def
  by (auto simp: eff_bind_err_iff dest!: guard_dests dest: repo_add_err)

lemma record_review_ok:
  assumes "record_review u n summ se ra rs rm rh rt iids s = (Inr r, s')"
  shows "repo_add reviews r s = (Inr r, s')" and "set (rv_issue_ids r) \<subseteq> tbl_ids issues s"
proof -
  obtain x where x: "repo_add reviews x s = (Inr r, s')" "set (rv_issue_ids x) \<subseteq> tbl_ids issues s"
    using assms unfolding record_review_def by (auto simp: eff_bind_ok_iff dest!: guard_dests)
  moreover have "r = x" by (rule reviews.add_Inr_value [OF x(1)])
  ultimately show "repo_add reviews r s = (Inr r, s')" and "set (rv_issue_ids r) \<subseteq> tbl_ids issues s"
    by simp_all
qed

lemma record_review_err:
  "record_review u n summ se ra rs rm rh rt iids s = (Inl e, s') \<Longrightarrow> s' = s"
  unfolding record_review_def
  by (auto simp: eff_bind_err_iff dest!: guard_dests dest: repo_add_err)

subsection \<open>The field loops\<close>

lemma as_enum_Inr: "as_enum k f v = Inr e \<Longrightarrow> \<exists>s. v = JStr s \<and> f s = Inr e"
  by (auto simp: as_enum_def split: json.splits sum.splits)

lemma task_assign_keeps:
  assumes "task_assign k v t = Inr t'"
  shows "t_id t' = t_id t" and "t_created_at t' = t_created_at t"
    and "t_status t' = TS_DONE \<Longrightarrow> t_status t = TS_DONE \<or> (k = ''status'' \<and> v = JStr ''done'')"
  using assms unfolding task_assign_def
  by (auto simp: res_bind_Inr_iff dest!: as_enum_Inr split: if_splits)

lemma task_assign_all_keeps:
  assumes "task_assign_all kw t = Inr t'"
  shows "t_id t' = t_id t \<and> t_created_at t' = t_created_at t
    \<and> (t_status t' = TS_DONE \<longrightarrow> t_status t = TS_DONE \<or> (''status'', JStr ''done'') \<in> set kw)"
  using assms
proof (induction kw arbitrary: t)
  case Nil
  then show ?case by simp
next
  case (Cons kv kw)
  obtain k v where kv: "kv = (k, v)" by (cases kv)
  from Cons.prems kv obtain t1 where t1: "task_assign k v t = Inr t1" "task_assign_all kw t1 = Inr t'"
    by (auto simp: res_bind_Inr_iff)
  show ?case using Cons.IH [OF t1(2)] task_assign_keeps [OF t1(1)] kv by auto
qed

lemma update_task_ok:
  assumes "update_task now i kw s = (Inr t', s')" and "distinct (map fst kw)"
  obtains t where "repo_get tasks i s = Inr t" and "t_id t' = t_id t"
    and "repo_update tasks t' s = (Inr t', s')"
    and "t_status t' = TS_DONE \<Longrightarrow> t_status t \<noteq> TS_DONE \<Longrightarrow>
           \<exists>e \<in> tbl_objs research_log s. l_task_id e = Some (t_id t)"
proof -
  from assms(1) obtain t t1 s1 u where get: "repo_get tasks i s = Inr t"
    and chk: "(if dict_get kw ''status'' = Some (JStr ''done'') \<and> t_status t \<noteq> TS_DONE
        then eff_bind (eff_lift (repo_list research_log)) (\<lambda>entries.
               if filter (\<lambda>e. l_task_id e = Some (t_id t)) entries = []
               then eff_raise (StateError (''task '' @ t_id t
                      @ '' cannot be marked done without a research-log entry''))
               else eff_return ())
        else eff_return ()) s = (Inr u, s1)"
    and assign: "task_assign_all kw t = Inr t1"
    and upd1: "repo_update tasks (t1\<lparr>t_updated_at := now\<rparr>) s1 = (Inr t', s')"
    unfolding update_task_def eff_bind_ok_iff lift_ok by blast
  have s1: "s1 = s" using chk by (auto simp: eff_bind_ok_iff split: if_splits)
  have guard: "\<exists>e \<in> tbl_objs research_log s. l_task_id e = Some (t_id t)"
    if fresh: "dict_get kw ''status'' = Some (JStr ''done'')" "t_status t \<noteq> TS_DONE"
  proof -
    obtain es where es: "repo_list research_log s = Inr es"
        "filter (\<lambda>e. l_task_id e = Some (t_id t)) es \<noteq> []"
      using chk fresh by (auto simp: eff_bind_ok_iff split: if_splits)
    then obtain e where "e \<in> set es" "l_task_id e = Some (t_id t)" by (auto simp: filter_empty_conv)
    then show ?thesis using repo_list_set [OF es(1)] by blast
  qed
  note upd = upd1 [unfolded s1]
  have t': "t' = t1\<lparr>t_updated_at := now\<rparr>" using upd by (rule tasks.update_Inr_value)
  note keeps = task_assign_all_keeps [OF assign]
  have "\<exists>e \<in> tbl_objs research_log s. l_task_id e = Some (t_id t)"
    if "t_status t' = TS_DONE" "t_status t \<noteq> TS_DONE"
  proof -
    have "(''status'', JStr ''done'') \<in> set kw" using that keeps t' by simp
    then have "dict_get kw ''status'' = Some (JStr ''done'')"
      using assms(2) by (simp add: dict_get_def)
    then show ?thesis using guard that(2) by blast
  qed
  then show thesis using that get upd keeps t' by simp
qed

lemma raw_field_Cons:
  "raw_field ((k, v) # kw) f old =
     (if k = f then (if v = JNull then old else v) else raw_field kw f old)"
  by (simp add: raw_field_def dict_get_def split: json.split)

lemma raw_field_absent: "f \<notin> fst ` set kw \<Longrightarrow> raw_field kw f old = old"
  by (auto simp: raw_field_def dict_get_def map_of_eq_None_iff [THEN iffD2] split: option.split)

definition opt_json :: "string option \<Rightarrow> json" where
  "opt_json x = (case x of None \<Rightarrow> JNull | Some r \<Rightarrow> JStr r)"

lemma as_str_Inr: "as_str k v = Inr x \<longleftrightarrow> v = JStr x"
  by (auto simp: as_str_def split: json.splits)

text \<open>One turn of the loop: the fields that matter for the invariants.\<close>

lemma issue_assign_keeps:
  assumes "issue_assign num k v i = Inr i'"
  shows "i_id i' = i_id i \<and> i_created_at i' = i_created_at i \<and> i_fingerprint i' = i_fingerprint i"
    and "0 \<le> i_confidence i \<and> i_confidence i \<le> 1 \<Longrightarrow> 0 \<le> i_confidence i' \<and> i_confidence i' \<le> 1"
    and "JStr (issue_status_value (i_status i')) =
           (if k = ''status'' \<and> v \<noteq> JNull then v else JStr (issue_status_value (i_status i)))"
    and "opt_json (i_resolution i') =
           (if k = ''resolution'' \<and> v \<noteq> JNull then v else opt_json (i_resolution i))"
  using assms unfolding issue_assign_def opt_json_def
  by (auto simp: res_bind_Inr_iff as_str_Inr dest!: as_enum_Inr split: if_splits option.splits)

lemma issue_assign_all_keeps:
  assumes "issue_assign_all num kw i = Inr i'" and "distinct (map fst kw)"
  shows "i_id i' = i_id i \<and> i_created_at i' = i_created_at i \<and> i_fingerprint i' = i_fingerprint i
    \<and> (0 \<le> i_confidence i \<and> i_confidence i \<le> 1 \<longrightarrow> 0 \<le> i_confidence i' \<and> i_confidence i' \<le> 1)
    \<and> JStr (issue_status_value (i_status i')) =
        raw_field kw ''status'' (JStr (issue_status_value (i_status i)))
    \<and> opt_json (i_resolution i') = raw_field kw ''resolution'' (opt_json (i_resolution i))"
  using assms
proof (induction kw arbitrary: i)
  case Nil
  then show ?case by (simp add: raw_field_def dict_get_def)
next
  case (Cons kv kw)
  obtain k v where kv: "kv = (k, v)" by (cases kv)
  from Cons.prems kv obtain i1 where
      i1: "issue_assign num k v i = Inr i1" and rest: "issue_assign_all num kw i1 = Inr i'"
    by (auto simp: res_bind_Inr_iff)
  have "k \<notin> fst ` set kw" and "distinct (map fst kw)" using Cons.prems(2) kv by auto
  note IH = Cons.IH [OF rest this(2)]
  note one = issue_assign_keeps [OF i1]
  have st: "raw_field kw ''status'' (JStr (issue_status_value (i_status i1))) =
      raw_field ((k, v) # kw) ''status'' (JStr (issue_status_value (i_status i)))"
    using one(3) \<open>k \<notin> fst ` set kw\<close> by (auto simp: raw_field_Cons raw_field_absent split: if_splits)
  have re: "raw_field kw ''resolution'' (opt_json (i_resolution i1)) =
      raw_field ((k, v) # kw) ''resolution'' (opt_json (i_resolution i))"
    using one(4) \<open>k \<notin> fst ` set kw\<close> by (auto simp: raw_field_Cons raw_field_absent split: if_splits)
  show ?case using IH one(1,2) st re kv by auto
qed

lemma update_issue_ok:
  assumes "update_issue num now k kw s = (Inr i', s')" and "distinct (map fst kw)"
  obtains i where "repo_get issues k s = Inr i" and "i_id i' = i_id i"
    and "repo_update issues i' s = (Inr i', s')"
    and "i_fingerprint i' = i_fingerprint i"
    and "0 \<le> i_confidence i \<and> i_confidence i \<le> 1 \<Longrightarrow> 0 \<le> i_confidence i' \<and> i_confidence i' \<le> 1"
    and "i_status i' \<noteq> IS_OPEN \<Longrightarrow> str_truthy (i_resolution i')"
proof -
  from assms(1) obtain i st i1 where get: "repo_get issues k s = Inr i"
    and st: "(case raw_field kw ''status'' (JStr (issue_status_value (i_status i))) of
          JStr v \<Rightarrow> issue_status_of v | _ \<Rightarrow> Inl (ValueError ''status'')) = Inr st"
    and note_ok: "\<not> (st \<noteq> IS_OPEN \<and> \<not> truthy (raw_field kw ''resolution'' (opt_json (i_resolution i))))"
    and assign: "issue_assign_all num kw i = Inr i1"
    and upd: "repo_update issues (i1\<lparr>i_updated_at := now\<rparr>) s = (Inr i', s')"
    unfolding update_issue_def opt_json_def by (auto simp: eff_bind_ok_iff split: if_splits)
  have i': "i' = i1\<lparr>i_updated_at := now\<rparr>" by (rule issues.update_Inr_value [OF upd])
  note keeps = issue_assign_all_keeps [OF assign assms(2)]
  have "raw_field kw ''status'' (JStr (issue_status_value (i_status i))) =
      JStr (issue_status_value (i_status i1))" using keeps by simp
  then have "st = i_status i1" using st by simp
  moreover have "truthy (opt_json r) = str_truthy r" for r
    by (simp add: opt_json_def str_truthy_def split: option.split)
  ultimately have "i_status i1 \<noteq> IS_OPEN \<Longrightarrow> str_truthy (i_resolution i1)"
    using note_ok keeps by metis
  then show thesis using that get upd keeps i' by simp
qed

lemma update_issue_err: "update_issue num now k kw s = (Inl e, s') \<Longrightarrow> s' = s"
  unfolding update_issue_def
  by (auto simp: eff_bind_err_iff dest: repo_update_err split: if_splits)

lemma update_task_err: "update_task now k kw s = (Inl e, s') \<Longrightarrow> s' = s"
  unfolding update_task_def
  by (auto simp: eff_bind_err_iff eff_bind_ok_iff dest: repo_update_err split: if_splits)

lemma find_issue_Some:
  assumes "find_issue_by_fingerprint fp se s = Inr (Some i)"
  shows "i \<in> tbl_objs issues s"
proof -
  let ?rs = "sort_key row_created_at (filter (\<lambda>r. snd (snd (row_cols r)) = Some fp
      \<and> (se = None \<or> fst (snd (row_cols r)) = se)) (tb_rows issues s))"
  obtain r rs where "?rs = r # rs" and "i = row_data r"
    using assms by (auto simp: find_issue_by_fingerprint_def res_bind_Inr_iff repo_decode_Inr
        split: list.splits)
  moreover have "set ?rs \<subseteq> set (tb_rows issues s)" by auto
  ultimately show ?thesis by (auto simp: tbl_objs_def)
qed

lemma create_issue_ok:
  assumes "create_issue dg u n1 n2 ti de vq se tid lid ca sev ev conf fpr rb s = (Inr i, s')"
  defines "fp \<equiv> str_or fpr (issue_fingerprint dg se ca ti (list_or ev))"
  shows "(find_issue_by_fingerprint fp se s = Inr None \<and> repo_add issues i s = (Inr i, s')
            \<and> 0 \<le> conf \<and> conf \<le> 1 \<and> i_fingerprint i = Some fp \<and> i_session_id i = se \<or>
          (\<exists>old. find_issue_by_fingerprint fp se s = Inr (Some old) \<and> i_id i = i_id old
            \<and> i_fingerprint i = i_fingerprint old \<and> i_session_id i = i_session_id old
            \<and> repo_update issues i s = (Inr i, s')))
         \<and> i_status i = IS_OPEN \<and> i_confidence i = conf \<and> i_title i = ti"
proof -
  let ?fp = "str_or fpr (issue_fingerprint dg se ca ti (list_or ev))"
  from assms obtain fnd v where fnd: "find_issue_by_fingerprint ?fp se s = Inr fnd"
    and body: "(case fnd of
       Some existing \<Rightarrow>
         repo_update issues
           (existing\<lparr>i_title := ti, i_description := de,
             i_verification_question := vq, i_category := ca,
             i_severity := v, i_evidence_refs := list_or ev,
             i_confidence := conf, i_task_id := tid,
             i_research_log_id := lid,
             i_raised_by := opt_str_or rb (i_raised_by existing),
             i_status := IS_OPEN, i_resolution := None, i_resolved_by := None,
             i_updated_at := n1\<rparr>)
     | None \<Rightarrow>
         if 0 \<le> conf \<and> conf \<le> 1
         then repo_add issues
                \<lparr>i_id = new_id ''issue'' u, i_session_id = se, i_task_id = tid,
                 i_research_log_id = lid, i_category = ca, i_severity = v,
                 i_status = IS_OPEN, i_title = ti, i_description = de,
                 i_evidence_refs = list_or ev,
                 i_verification_question = vq, i_confidence = conf,
                 i_fingerprint = Some ?fp, i_raised_by = rb, i_resolution = None,
                 i_resolved_by = None, i_created_at = n1, i_updated_at = n2\<rparr>
         else eff_raise (ValidationError ''confidence'')) s = (Inr i, s')"
    unfolding create_issue_def Let_def eff_bind_ok_iff lift_ok by (auto dest!: guard_dests)
  show ?thesis
  proof (cases fnd)
    case None
    then have "0 \<le> conf \<and> conf \<le> 1" using body by (auto split: if_splits)
    with None body fnd show ?thesis using issues.add_Inr_value unfolding fp_def by fastforce
  next
    case (Some existing)
    with body fnd show ?thesis using issues.update_Inr_value unfolding fp_def by fastforce
  qed
qed

lemma create_issue_err:
  "create_issue dg u n1 n2 ti de vq se tid lid ca sev ev conf fpr rb s = (Inl e, s') \<Longrightarrow> s' = s"
  unfolding create_issue_def Let_def
  by (auto simp: eff_bind_err_iff eff_bind_ok_iff dest!: guard_dests
      dest: repo_update_err repo_add_err split: option.splits if_splits)

subsection \<open>The invariants are kept\<close>

lemma snd_eq: "f s = (r, t) \<Longrightarrow> t = snd (f s)"
  by simp

lemma done_ok_mono:
  assumes "done_ok s" and "tbl_objs tasks s' = tbl_objs tasks s"
    and "tbl_objs research_log s \<subseteq> tbl_objs research_log s'"
  shows "done_ok s'"
  using assms unfolding done_ok_def by blast

lemma refs_ok_mono:
  assumes "refs_ok s" and "tbl_objs research_log s' = tbl_objs research_log s"
    and "tbl_objs reviews s' = tbl_objs reviews s" and "tbl_ids tasks s \<subseteq> tbl_ids tasks s'"
    and "tbl_ids runs s \<subseteq> tbl_ids runs s'" and "tbl_ids artifacts s \<subseteq> tbl_ids artifacts s'"
    and "tbl_ids issues s \<subseteq> tbl_ids issues s'"
  shows "refs_ok s'"
  using assms unfolding refs_ok_def by (simp only:) (meson subset_iff)

lemma resolution_ok_cong: "tbl_objs issues s' = tbl_objs issues s \<Longrightarrow> resolution_ok s' = resolution_ok s"
  by (simp add: resolution_ok_def)

lemma add_task_inv:
  assumes "records_inv s" and add: "repo_add tasks t s = (Inr t', s')" and "t_status t \<noteq> TS_DONE"
  shows "records_inv s'"
proof -
  have s': "s' = snd (repo_add tasks t s)" by (rule snd_eq [where f = "repo_add tasks t", OF add])
  have "db_ok s'"
    using assms(1) by (intro preservesD [OF add_tasks_db_ok _ add]) (simp add: records_inv_def)
  moreover have "done_ok s'"
    using assms(1,3) tasks.add_objs [OF add] by (auto simp: records_inv_def done_ok_def s')
  moreover have "refs_ok s'"
    by (rule refs_ok_mono [where s = s])
      (use assms(1) tasks.add_ids [OF add] in \<open>auto simp: records_inv_def s'\<close>)
  moreover have "resolution_ok s'"
    using assms(1) resolution_ok_cong [of s' s] by (simp add: records_inv_def s')
  ultimately show ?thesis by (simp add: records_inv_def)
qed

lemma update_task_inv:
  assumes "records_inv s" and upd: "repo_update tasks t s = (Inr t', s')"
    and "t_status t = TS_DONE \<Longrightarrow> \<exists>e \<in> tbl_objs research_log s. l_task_id e = Some (t_id t)"
  shows "records_inv s'"
proof -
  have s': "s' = snd (repo_update tasks t s)" by (rule snd_eq [where f = "repo_update tasks t", OF upd])
  have ok: "tbl_ok tasks s" using assms(1) by (simp add: records_inv_def db_ok_def)
  have "db_ok s'"
    using assms(1) by (intro preservesD [OF update_tasks_db_ok _ upd]) (simp add: records_inv_def)
  moreover have "done_ok s'"
    using assms(1,3) tasks.update_objs [OF ok upd] by (auto simp: records_inv_def done_ok_def s')
  moreover have "refs_ok s'"
    by (rule refs_ok_mono [where s = s]) (use assms(1) in \<open>auto simp: records_inv_def s'\<close>)
  moreover have "resolution_ok s'"
    using assms(1) resolution_ok_cong [of s' s] by (simp add: records_inv_def s')
  ultimately show ?thesis by (simp add: records_inv_def)
qed

lemma add_log_inv:
  assumes "records_inv s" and add: "repo_add research_log e s = (Inr e', s')"
    and "\<forall>i. l_task_id e = Some i \<longrightarrow> i \<in> tbl_ids tasks s"
    and "set (l_run_ids e) \<subseteq> tbl_ids runs s" and "set (l_artifact_ids e) \<subseteq> tbl_ids artifacts s"
  shows "records_inv s'"
proof -
  have s': "s' = snd (repo_add research_log e s)"
    by (rule snd_eq [where f = "repo_add research_log e", OF add])
  note objs = research_log.add_objs [OF add]
  have "db_ok s'"
    using assms(1) by (intro preservesD [OF add_research_log_db_ok _ add]) (simp add: records_inv_def)
  moreover have "done_ok s'"
    by (rule done_ok_mono [where s = s]) (use assms(1) objs in \<open>auto simp: records_inv_def s'\<close>)
  moreover have "refs_ok s'"
    using assms objs by (auto simp: records_inv_def refs_ok_def s')
  moreover have "resolution_ok s'"
    using assms(1) resolution_ok_cong [of s' s] by (simp add: records_inv_def s')
  ultimately show ?thesis by (simp add: records_inv_def)
qed

lemma add_review_inv:
  assumes "records_inv s" and add: "repo_add reviews r s = (Inr r', s')"
    and "set (rv_issue_ids r) \<subseteq> tbl_ids issues s"
  shows "records_inv s'"
proof -
  have s': "s' = snd (repo_add reviews r s)" by (rule snd_eq [where f = "repo_add reviews r", OF add])
  have "db_ok s'"
    using assms(1) by (intro preservesD [OF add_reviews_db_ok _ add]) (simp add: records_inv_def)
  moreover have "done_ok s'"
    by (rule done_ok_mono [where s = s]) (use assms(1) in \<open>auto simp: records_inv_def s'\<close>)
  moreover have "refs_ok s'"
    using assms reviews.add_objs [OF add] by (auto simp: records_inv_def refs_ok_def s')
  moreover have "resolution_ok s'"
    using assms(1) resolution_ok_cong [of s' s] by (simp add: records_inv_def s')
  ultimately show ?thesis by (simp add: records_inv_def)
qed

lemma add_issue_inv:
  assumes "records_inv s" and add: "repo_add issues i s = (Inr i', s')"
    and "i_status i = IS_OPEN" and "tb_valid issues i"
  shows "records_inv s'"
proof -
  have s': "s' = snd (repo_add issues i s)" by (rule snd_eq [where f = "repo_add issues i", OF add])
  have "db_ok s'"
    using assms(1) by (intro preservesD [OF add_issues_db_ok [OF assms(4)] _ add]) (simp add: records_inv_def)
  moreover have "done_ok s'"
    by (rule done_ok_mono [where s = s]) (use assms(1) in \<open>auto simp: records_inv_def s'\<close>)
  moreover have "refs_ok s'"
    by (rule refs_ok_mono [where s = s])
      (use assms(1) issues.add_ids [OF add] in \<open>auto simp: records_inv_def s'\<close>)
  moreover have "resolution_ok s'"
    using assms(1,3) issues.add_objs [OF add] by (simp add: records_inv_def resolution_ok_def)
  ultimately show ?thesis by (simp add: records_inv_def)
qed

lemma update_issue_inv:
  assumes "records_inv s" and upd: "repo_update issues i s = (Inr i', s')"
    and "i_status i \<noteq> IS_OPEN \<Longrightarrow> str_truthy (i_resolution i)" and "tb_valid issues i"
  shows "records_inv s'"
proof -
  have s': "s' = snd (repo_update issues i s)" by (rule snd_eq [where f = "repo_update issues i", OF upd])
  have ok: "tbl_ok issues s" using assms(1) by (simp add: records_inv_def db_ok_def)
  have "db_ok s'"
    using assms(1) by (intro preservesD [OF update_issues_db_ok [OF assms(4)] _ upd]) (simp add: records_inv_def)
  moreover have "done_ok s'"
    by (rule done_ok_mono [where s = s]) (use assms(1) in \<open>auto simp: records_inv_def s'\<close>)
  moreover have "refs_ok s'"
    by (rule refs_ok_mono [where s = s]) (use assms(1) in \<open>auto simp: records_inv_def s'\<close>)
  moreover have "resolution_ok s'"
    using assms(1,3) issues.update_objs [OF ok upd] by (auto simp: records_inv_def resolution_ok_def)
  ultimately show ?thesis by (simp add: records_inv_def)
qed

lemma preserves_okI:
  assumes "\<And>s e s'. m s = (Inl e, s') \<Longrightarrow> s' = s"
    and "\<And>s x s'. P s \<Longrightarrow> m s = (Inr x, s') \<Longrightarrow> P s'"
  shows "preserves P m"
  unfolding preserves_def
proof (intro allI impI)
  fix s assume "P s"
  obtain r t where m: "m s = (r, t)" by (cases "m s")
  show "P (snd (m s))"
    using assms(1) [of s _ t] assms(2) [OF \<open>P s\<close>, of _ t] \<open>P s\<close> m by (cases r) auto
qed

lemma create_task_inv:
  "preserves records_inv (create_task u n1 n2 title instr parent deps outs agent sess)"
proof (rule preserves_okI [OF create_task_err])
  fix s :: "'a science_db_scheme" and t s'
  assume inv: "records_inv s"
    and run: "create_task u n1 n2 title instr parent deps outs agent sess s = (Inr t, s')"
  show "records_inv s'"
    by (rule add_task_inv [OF inv create_task_ok(1) [OF run]]) (simp add: create_task_ok(2) [OF run])
qed

lemma update_task_keeps_inv:
  assumes "distinct (map fst kw)"
  shows "preserves records_inv (update_task now i kw)"
proof (rule preserves_okI [OF update_task_err])
  fix s :: "'a science_db_scheme" and t' s'
  assume inv: "records_inv s" and run: "update_task now i kw s = (Inr t', s')"
  obtain t where t: "repo_get tasks i s = Inr t" "t_id t' = t_id t"
      "repo_update tasks t' s = (Inr t', s')"
      "t_status t' = TS_DONE \<Longrightarrow> t_status t \<noteq> TS_DONE \<Longrightarrow>
         \<exists>e \<in> tbl_objs research_log s. l_task_id e = Some (t_id t)"
    using update_task_ok [OF run assms] by blast
  have "t \<in> tbl_objs tasks s" using repo_get_Inr_mem [OF t(1)] by simp
  then have "\<exists>e \<in> tbl_objs research_log s. l_task_id e = Some (t_id t')" if "t_status t' = TS_DONE"
    using t(2,4) inv that by (cases "t_status t = TS_DONE") (auto simp: records_inv_def done_ok_def)
  then show "records_inv s'" by (rule update_task_inv [OF inv t(3)])
qed

lemma create_research_log_inv:
  "preserves records_inv (create_research_log u n summ tid ag se fc rids aids so asm lims unc nxt)"
proof (rule preserves_okI [OF create_research_log_err])
  fix s :: "'a science_db_scheme" and e s'
  assume inv: "records_inv s"
    and run: "create_research_log u n summ tid ag se fc rids aids so asm lims unc nxt s = (Inr e, s')"
  note ok = create_research_log_ok [OF run]
  show "records_inv s'" by (rule add_log_inv [OF inv ok(1)]) (use ok(2-5) in simp_all)
qed

lemma record_review_inv:
  "preserves records_inv (record_review u n summ se ra rs rm rh rt iids)"
proof (rule preserves_okI [OF record_review_err])
  fix s :: "'a science_db_scheme" and r s'
  assume inv: "records_inv s"
    and run: "record_review u n summ se ra rs rm rh rt iids s = (Inr r, s')"
  show "records_inv s'" by (rule add_review_inv [OF inv record_review_ok [OF run]])
qed

lemma create_issue_inv:
  assumes "0 \<le> conf" and "conf \<le> 1"
  shows "preserves records_inv (create_issue dg u n1 n2 ti de vq se tid lid ca sev ev conf fpr rb)"
proof (rule preserves_okI [OF create_issue_err])
  fix s :: "'a science_db_scheme" and i s'
  assume inv: "records_inv s"
    and run: "create_issue dg u n1 n2 ti de vq se tid lid ca sev ev conf fpr rb s = (Inr i, s')"
  note ok = create_issue_ok [OF run]
  have val: "tb_valid issues i" and st: "i_status i = IS_OPEN" using ok assms by simp_all
  from ok consider "repo_add issues i s = (Inr i, s')" | "repo_update issues i s = (Inr i, s')" by blast
  then show "records_inv s'"
    by cases (use add_issue_inv [OF inv _ st val] update_issue_inv [OF inv _ _ val] st in blast)+
qed

lemma update_issue_keeps_inv:
  assumes "distinct (map fst kw)"
  shows "preserves records_inv (update_issue num now k kw)"
proof (rule preserves_okI [OF update_issue_err])
  fix s :: "'a science_db_scheme" and i' s'
  assume inv: "records_inv s" and run: "update_issue num now k kw s = (Inr i', s')"
  obtain i where i: "repo_get issues k s = Inr i" "repo_update issues i' s = (Inr i', s')"
      "0 \<le> i_confidence i \<and> i_confidence i \<le> 1 \<Longrightarrow> 0 \<le> i_confidence i' \<and> i_confidence i' \<le> 1"
      "i_status i' \<noteq> IS_OPEN \<Longrightarrow> str_truthy (i_resolution i')"
    using update_issue_ok [OF run assms] by blast
  have "tb_valid (issues :: ('a science_db_scheme, _, issue) tbl) i"
    using i(1) by (auto simp: repo_get_def repo_decode_Inr split: option.splits)
  then show "records_inv s'" using i(3) by (intro update_issue_inv [OF inv i(2) i(4)]) simp_all
qed

subsection \<open>Reporting an issue twice\<close>

lemma insort_key_map: "insort_key f (g x) (map g xs) = map g (insort_key (\<lambda>y. f (g y)) x xs)"
  by (induction xs) auto

lemma sort_key_map: "sort_key f (map g xs) = map g (sort_key (\<lambda>y. f (g y)) xs)"
  by (induction xs) (simp_all add: insort_key_map)

text \<open>The columns the lookup reads are the record's own fields.\<close>

definition issue_cols_ok :: "'z science_db_scheme \<Rightarrow> bool" where
  "issue_cols_ok s \<longleftrightarrow> (\<forall>r \<in> set (tb_rows issues s). row_cols r = issue_cols (row_data r))"

lemma add_issue_cols: "issue_cols_ok s \<Longrightarrow> issue_cols_ok (snd (repo_add issues i s))"
  by (auto simp: issue_cols_ok_def repo_add_def issues_def)

lemma update_issue_cols: "issue_cols_ok s \<Longrightarrow> issue_cols_ok (snd (repo_update issues i s))"
  by (auto simp: issue_cols_ok_def repo_update_def issues_def upd_row_def)

definition fp_rows ::
    "string \<Rightarrow> string option \<Rightarrow> (string \<times> string option \<times> string option, issue) row list \<Rightarrow>
     (string \<times> string option \<times> string option, issue) row list" where
  "fp_rows fp session rs =
     sort_key row_created_at
       (filter (\<lambda>r. snd (snd (row_cols r)) = Some fp \<and> (session = None \<or> fst (snd (row_cols r)) = session)) rs)"

lemma sort_key_Nil_iff: "sort_key f xs = [] \<longleftrightarrow> xs = []"
  by (metis length_0_conv length_sort)

lemma fp_rows_subset: "set (fp_rows fp se rs) \<subseteq> set rs"
  by (auto simp: fp_rows_def)

lemma find_issue_fp_rows:
  "find_issue_by_fingerprint fp se s =
     (case fp_rows fp se (tb_rows issues s) of
        [] \<Rightarrow> Inr None
      | r # _ \<Rightarrow> if 0 \<le> i_confidence (row_data r) \<and> i_confidence (row_data r) \<le> 1
                 then Inr (Some (row_data r)) else Inl (ValidationError ''issues''))"
  by (simp add: find_issue_by_fingerprint_def fp_rows_def repo_decode_def issues_def split: list.split)

lemma find_after_add:
  assumes none: "find_issue_by_fingerprint fp se s = Inr None"
    and add: "repo_add issues i s = (Inr i, s')" and valid: "tb_valid issues i"
    and "i_fingerprint i = Some fp" and "i_session_id i = se"
  shows "find_issue_by_fingerprint fp se s' = Inr (Some i)"
proof -
  have "fp_rows fp se (tb_rows issues s) = []"
    using none by (auto simp: find_issue_fp_rows split: list.splits if_splits)
  then have empty: "filter (\<lambda>r. snd (snd (row_cols r)) = Some fp
      \<and> (se = None \<or> fst (snd (row_cols r)) = se)) (tb_rows issues s) = []"
    by (simp only: fp_rows_def sort_key_Nil_iff)
  have "tb_rows issues s' = tb_rows issues s @ [\<lparr>row_id = i_id i, row_created_at = i_created_at i,
      row_cols = issue_cols i, row_data = i\<rparr>]"
    using add by (auto simp: repo_add_def issues_def split: if_splits)
  then show ?thesis
    using empty assms(4,5) valid by (simp add: find_issue_fp_rows fp_rows_def issue_cols_def)
qed

lemma find_after_update:
  assumes ok: "tbl_ok issues s" and cols: "issue_cols_ok s"
    and old: "find_issue_by_fingerprint fp se s = Inr (Some old)"
    and upd: "repo_update issues i s = (Inr i, s')" and valid: "tb_valid issues i"
    and "i_id i = i_id old" "i_fingerprint i = i_fingerprint old" "i_session_id i = i_session_id old"
  shows "find_issue_by_fingerprint fp se s' = Inr (Some i)"
proof -
  let ?T = "issues :: ('a science_db_scheme, string \<times> string option \<times> string option, issue) tbl"
  let ?P = "\<lambda>r. snd (snd (row_cols r)) = Some fp \<and> (se = None \<or> fst (snd (row_cols r)) = se)"
  obtain r rs where r: "fp_rows fp se (tb_rows issues s) = r # rs" "row_data r = old"
    using old by (auto simp: find_issue_fp_rows split: list.splits if_splits)
  have mem: "r \<in> set (tb_rows issues s)" using fp_rows_subset [of fp se "tb_rows issues s"] by (simp add: r(1))
  have rid: "row_id r = i_id i" using ok mem r(2) assms(6) by (auto simp: tbl_ok_def)
  have same: "?P (upd_row ?T i q) = ?P q" if q: "q \<in> set (tb_rows issues s)" for q
  proof (cases "row_id q = i_id i")
    case True
    then have "q = r"
      using ok rid q mem unfolding tbl_ok_def by (metis (no_types, lifting) distinct_map inj_onD)
    then show ?thesis using cols mem r(2) assms(7,8)
      by (auto simp: upd_row_def issues_def issue_cols_ok_def issue_cols_def)
  next
    case False
    then show ?thesis by (simp add: upd_row_def)
  qed
  have created: "row_created_at (upd_row ?T i q) = row_created_at q" for q
    by (simp add: upd_row_def)
  have "filter (?P \<circ> upd_row ?T i) (tb_rows issues s) = filter ?P (tb_rows issues s)"
    by (rule filter_cong) (simp_all add: same)
  then have "fp_rows fp se (map (upd_row ?T i) (tb_rows issues s)) =
      map (upd_row ?T i) (fp_rows fp se (tb_rows issues s))"
    by (simp add: fp_rows_def filter_map sort_key_map created)
  moreover have "tb_rows issues s' = map (upd_row ?T i) (tb_rows issues s)"
    using upd by (auto simp: repo_update_def split: if_splits)
  ultimately show ?thesis using r(1) rid valid by (simp add: find_issue_fp_rows upd_row_def)
qed

lemma create_issue_found:
  assumes run: "create_issue dg u n1 n2 ti de vq se tid lid ca sev ev conf fpr rb s = (Inr i, s')"
    and "db_ok s" "issue_cols_ok s" "0 \<le> conf" "conf \<le> 1"
  shows "find_issue_by_fingerprint (str_or fpr (issue_fingerprint dg se ca ti (list_or ev))) se s' =
    Inr (Some i)"
proof -
  note ok = create_issue_ok [OF run]
  have val: "tb_valid issues i" and tok: "tbl_ok issues s" using ok assms by (simp_all add: db_ok_def)
  show ?thesis
    using ok find_after_add [OF _ _ val] find_after_update [OF tok \<open>issue_cols_ok s\<close> _ _ val] by blast
qed

lemma create_issue_guards:
  assumes "create_issue dg u n1 n2 ti de vq se tid lid ca sev ev conf fpr rb s = (Inr i, s')"
  shows "require_opt tasks tid s = (Inr (), s)" and "require_opt research_log lid s = (Inr (), s)"
    and "\<exists>v. issue_severity_of sev = Inr v"
  using assms unfolding create_issue_def Let_def eff_bind_ok_iff lift_ok
  by (auto dest: guard_dests)

lemma require_opt_cong:
  "tb_rows T s' = tb_rows T s \<Longrightarrow> require_opt T x s = (Inr (), s) \<Longrightarrow> require_opt T x s' = (Inr (), s')"
  using repo_get_cong [of T s' s] by (cases x) (simp_all add: require_opt_run split: sum.splits)

text \<open>A report whose fingerprint is on file reopens that issue.\<close>

lemma create_issue_reopens:
  assumes "require_opt tasks tid s = (Inr (), s)" and "require_opt research_log lid s = (Inr (), s)"
    and "issue_severity_of sev = Inr v" and "i_id old \<in> tbl_ids issues s"
    and "find_issue_by_fingerprint (str_or fpr (issue_fingerprint dg se ca ti (list_or ev))) se s =
           Inr (Some old)"
  shows "\<exists>i s'. create_issue dg u n1 n2 ti de vq se tid lid ca sev ev conf fpr rb s = (Inr i, s')
    \<and> repo_update issues i s = (Inr i, s') \<and> i_id i = i_id old \<and> i_status i = IS_OPEN
    \<and> i_confidence i = conf"
  using assms
  by (simp add: create_issue_def Let_def eff_bind_def repo_update_def tbl_ids_def)

lemma create_issue_rows:
  assumes "create_issue dg u n1 n2 ti de vq se tid lid ca sev ev conf fpr rb s = (Inr i, s')"
  shows "tb_rows tasks s' = tb_rows tasks s" and "tb_rows research_log s' = tb_rows research_log s"
    and "i_id i \<in> tbl_ids issues s'"
proof -
  from create_issue_ok [OF assms] consider (add) "repo_add issues i s = (Inr i, s')"
    | (upd) "repo_update issues i s = (Inr i, s')" by blast
  then show "tb_rows tasks s' = tb_rows tasks s" "tb_rows research_log s' = tb_rows research_log s"
    "i_id i \<in> tbl_ids issues s'"
    by (cases; auto simp: repo_add_def repo_update_def tbl_ids_def image_image split: if_splits)+
qed

lemma create_issue_again:
  assumes run: "create_issue dg u n1 n2 ti de vq se tid lid ca sev ev conf fpr rb s = (Inr i, s')"
    and "db_ok s" "issue_cols_ok s" "0 \<le> conf" "conf \<le> 1"
  shows "\<exists>i2 s2. create_issue dg u' n1' n2' ti de' vq' se tid lid ca sev ev conf' fpr rb' s' = (Inr i2, s2)
    \<and> repo_update issues i2 s' = (Inr i2, s2) \<and> i_id i2 = i_id i \<and> i_status i2 = IS_OPEN
    \<and> i_confidence i2 = conf'"
proof -
  note g = create_issue_guards [OF run] and rows = create_issue_rows [OF run]
  obtain v where v: "issue_severity_of sev = Inr v" using g(3) by blast
  show ?thesis
    by (rule create_issue_reopens [OF require_opt_cong [OF rows(1) g(1)] require_opt_cong [OF rows(2) g(2)]
        v rows(3) create_issue_found [OF assms]])
qed

subsection \<open>Properties\<close>

text \<open>
  Reporting the same concern again (same session, category, title and
  evidence, or the same explicit fingerprint) never files a second issue: the call succeeds,
  returns the issue that is already on file, reopened, and the set of issue ids is unchanged.
\<close>

theorem create_issue_idempotent:
  assumes "db_ok s" and "issue_cols_ok s" and "0 \<le> conf" and "conf \<le> 1"
    and "create_issue digest u n1 n2 title desc question session task_id log_id category severity
           evidence conf fingerprint raised_by s = (Inr i, s1)"
  shows "\<exists>i2 s2. create_issue digest u' n1' n2' title desc' question' session task_id log_id category
           severity evidence conf' fingerprint raised_by' s1 = (Inr i2, s2)
         \<and> i_id i2 = i_id i \<and> i_status i2 = IS_OPEN \<and> tbl_ids issues s2 = tbl_ids issues s1"
proof -
  obtain i2 s2 where run: "create_issue digest u' n1' n2' title desc' question' session task_id log_id
      category severity evidence conf' fingerprint raised_by' s1 = (Inr i2, s2)"
    and upd: "repo_update issues i2 s1 = (Inr i2, s2)" and ids: "i_id i2 = i_id i" "i_status i2 = IS_OPEN"
    using create_issue_again [OF assms(5,1-4)] by blast
  have "tbl_ids issues s2 = tbl_ids issues s1" using issues.update_ids [of i2 s1] upd by simp
  then show ?thesis using run ids by blast
qed

lemma first_issue_run:
  "\<exists>i s1. create_issue (\<lambda>_. ''f00d'') ''ab'' ''t0'' ''t1'' ''Leak'' ''d'' ''q?'' (Some ''s'') None None
     ''scientific'' ''major'' None (1/2) None None empty_db = (Inr i, s1)"
  by (simp add: create_issue_def require_opt_def eff_bind_def Let_def find_issue_fp_rows fp_rows_def
      issue_severity_of_def enum_of_def issue_severities_def repo_add_def)

lemma empty_issue_cols [simp]: "issue_cols_ok empty_db"
  by (simp add: issue_cols_ok_def)

theorem create_issue_idempotent_witness:
  "\<exists>i s1 i2 s2. create_issue (\<lambda>_. ''f00d'') ''ab'' ''t0'' ''t1'' ''Leak'' ''d'' ''q?'' (Some ''s'') None None
     ''scientific'' ''major'' None (1/2) None None empty_db = (Inr i, s1)
   \<and> create_issue (\<lambda>_. ''f00d'') ''cd'' ''t2'' ''t3'' ''Leak'' ''d2'' ''q2?'' (Some ''s'') None None
     ''scientific'' ''major'' None 1 None None s1 = (Inr i2, s2)
   \<and> i_id i2 = i_id i \<and> i_status i2 = IS_OPEN \<and> tbl_ids issues s2 = tbl_ids issues s1"
proof -
  obtain i s1 where run: "create_issue (\<lambda>_. ''f00d'') ''ab'' ''t0'' ''t1'' ''Leak'' ''d'' ''q?'' (Some ''s'')
      None None ''scientific'' ''major'' None (1/2) None None empty_db = (Inr i, s1)"
    using first_issue_run by blast
  show ?thesis
    using create_issue_idempotent [OF empty_db_ok empty_issue_cols _ _ run,
        of "''cd''" "''t2''" "''t3''" "''d2''" "''q2?''" 1 None] run by auto
qed

text \<open>
  The reopening branch of \<open>create_issue\<close> assigns
  \<open>confidence\<close> without the model class's bounds check: the call succeeds with a confidence
  outside [0, 1], and from then on listing the issues and the status summary raise.
\<close>

theorem create_issue_reopen_unchecked:
  assumes "db_ok s" and "issue_cols_ok s" and "0 \<le> conf" and "conf \<le> 1" and "1 < conf'"
    and "create_issue digest u n1 n2 title desc question session task_id log_id category severity
           evidence conf fingerprint raised_by s = (Inr i, s1)"
  shows "\<exists>i2 s2. create_issue digest u' n1' n2' title desc question session task_id log_id category
           severity evidence conf' fingerprint raised_by s1 = (Inr i2, s2)
         \<and> \<not> is_ok (fst (list_issues None None s2)) \<and> \<not> is_ok (fst (status s2))"
proof -
  obtain i2 s2 where run: "create_issue digest u' n1' n2' title desc question session task_id log_id
      category severity evidence conf' fingerprint raised_by s1 = (Inr i2, s2)"
    and upd: "repo_update issues i2 s1 = (Inr i2, s2)" and conf: "i_confidence i2 = conf'"
    using create_issue_again [OF assms(6,1-4)] by blast
  have "i2 \<in> tbl_objs issues s2" by (rule issues.update_obj_mem [OF upd])
  then have "\<not> is_ok (repo_list issues s2)"
    using conf \<open>1 < conf'\<close> by (intro repo_list_invalid) auto
  then obtain e where "repo_list issues s2 = Inl e" by (cases "repo_list issues s2") auto
  then have "\<not> is_ok (fst (list_issues None None s2))" "\<not> is_ok (fst (status s2))"
    by (auto simp: list_issues_def status_def eff_bind_def split: sum.splits)
  then show ?thesis using run by blast
qed

theorem create_issue_reopen_unchecked_witness:
  "\<exists>i s1 i2 s2. create_issue (\<lambda>_. ''f00d'') ''ab'' ''t0'' ''t1'' ''Leak'' ''d'' ''q?'' (Some ''s'') None None
     ''scientific'' ''major'' None (1/2) None None empty_db = (Inr i, s1)
   \<and> create_issue (\<lambda>_. ''f00d'') ''cd'' ''t2'' ''t3'' ''Leak'' ''d'' ''q?'' (Some ''s'') None None
     ''scientific'' ''major'' None 5 None None s1 = (Inr i2, s2)
   \<and> \<not> is_ok (fst (list_issues None None s2)) \<and> \<not> is_ok (fst (status s2))"
proof -
  obtain i s1 where run: "create_issue (\<lambda>_. ''f00d'') ''ab'' ''t0'' ''t1'' ''Leak'' ''d'' ''q?'' (Some ''s'')
      None None ''scientific'' ''major'' None (1/2) None None empty_db = (Inr i, s1)"
    using first_issue_run by blast
  show ?thesis
    using create_issue_reopen_unchecked [OF empty_db_ok empty_issue_cols _ _ _ run,
        of 5 "''cd''" "''t2''" "''t3''"] run by auto
qed

text \<open>
  A task that is not done cannot be marked done while no
  research-log entry names it: \<open>StateError\<close>, and the database is unchanged.
\<close>

theorem update_task_done_needs_log:
  assumes "db_ok s" and "repo_get tasks i s = Inr t" and "t_status t \<noteq> TS_DONE"
    and "dict_get kwargs ''status'' = Some (JStr ''done'')"
    and "\<forall>e \<in> tbl_objs research_log s. l_task_id e \<noteq> Some (t_id t)"
  shows "\<exists>msg. update_task now i kwargs s = (Inl (StateError msg), s)"
proof -
  obtain es where es: "repo_list research_log s = Inr es"
    using repo_list_ok [of research_log s] assms(1) by (auto simp: db_ok_def)
  have "filter (\<lambda>e. l_task_id e = Some (t_id t)) es = []"
    using repo_list_set [OF es] assms(5) by (auto simp: filter_empty_conv)
  then show ?thesis using assms(2-4) es by (simp add: update_task_def eff_bind_def)
qed

theorem update_task_done_needs_log_witness:
  "\<exists>t s1 msg. create_task ''ab'' ''t0'' ''t0'' ''Fit'' [] None None None None None empty_db = (Inr t, s1)
     \<and> update_task ''t1'' (t_id t) [(''status'', JStr ''done'')] s1 = (Inl (StateError msg), s1)"
proof -
  obtain t s1 where run:
    "create_task ''ab'' ''t0'' ''t0'' ''Fit'' [] None None None None None empty_db = (Inr t, s1)"
    by (simp add: create_task_def require_opt_def eff_bind_def repo_add_def)
  note add = create_task_ok(1) [OF run]
  have "db_ok s1" by (rule preservesD [OF add_tasks_db_ok empty_db_ok add])
  moreover have "repo_get tasks (t_id t) s1 = Inr t" using tasks.add_get [OF add] by simp
  moreover have "tbl_objs research_log s1 = {}"
    using add by (auto simp: repo_add_def tbl_objs_def split: if_splits)
  ultimately show ?thesis
    using update_task_done_needs_log [of s1 "t_id t" t "[(''status'', JStr ''done'')]" "''t1''"] run
      create_task_ok(2) [OF run] by (simp add: dict_get_def)
qed

text \<open>
  On a well-formed database \<open>create_task\<close> succeeds exactly when the
  parent and every dependency exist and the drawn id is new; the task it returns is pending and
  \<open>get_task\<close> reads it back unchanged, as it reads every other task; a failing call changes nothing.
\<close>

theorem create_task_total:
  assumes "db_ok s"
  shows "(is_ok (fst (create_task u n1 n2 title instr parent deps outs agent sess s)) \<longleftrightarrow>
           (\<forall>p. parent = Some p \<longrightarrow> p \<in> tbl_ids tasks s) \<and> set (list_or deps) \<subseteq> tbl_ids tasks s
           \<and> new_id ''task'' u \<notin> tbl_ids tasks s)
    \<and> (case create_task u n1 n2 title instr parent deps outs agent sess s of
         (Inr t, s') \<Rightarrow> t_status t = TS_PENDING \<and> get_task (t_id t) s' = (Inr t, s')
                         \<and> (\<forall>i. i \<noteq> t_id t \<longrightarrow> repo_get tasks i s' = repo_get tasks i s)
       | (Inl e, s') \<Rightarrow> s' = s)"
proof -
  have ok: "tbl_ok tasks s" using assms by (simp add: db_ok_def)
  let ?run = "create_task u n1 n2 title instr parent deps outs agent sess s"
  have par: "require_opt tasks parent s = (Inr (), s)" if "\<forall>p. parent = Some p \<longrightarrow> p \<in> tbl_ids tasks s"
    using that by (cases parent) (auto simp: require_opt_run dest!: repo_get_known [OF ok])
  have dep: "eff_for xs (\<lambda>d. eff_lift (repo_get tasks d)) s = (Inr (), s)"
    if "set xs \<subseteq> tbl_ids tasks s" for xs
    using that repo_get_known [OF ok] by (induction xs) (force simp: eff_bind_def)+
  have fwd: "is_ok (fst ?run)" if "\<forall>p. parent = Some p \<longrightarrow> p \<in> tbl_ids tasks s"
      "set (list_or deps) \<subseteq> tbl_ids tasks s" "new_id ''task'' u \<notin> tbl_ids tasks s"
    using par [OF that(1)] dep [OF that(2)] that(3)
    by (simp add: create_task_def eff_bind_def tasks.add_ok_iff)
  obtain r s' where run: "?run = (r, s')" by (cases ?run)
  show ?thesis
  proof (cases r)
    case (Inl e)
    then show ?thesis using run fwd create_task_err [of u n1 n2 title] by auto
  next
    case (Inr t)
    note okrun = run [unfolded Inr]
    show ?thesis
      using create_task_ok [OF okrun] tasks.add_ok_iff [of t s]
        tasks.add_get [OF create_task_ok(1) [OF okrun]] okrun by (simp add: get_task_def)
  qed
qed

theorem create_task_total_witness:
  "is_ok (fst (create_task ''ab'' ''t0'' ''t0'' ''Fit'' [] None None None None None empty_db))
   \<and> \<not> is_ok (fst (create_task ''ab'' ''t0'' ''t0'' ''Fit'' [] (Some ''task_x'') None None None None empty_db))"
  using create_task_total [OF empty_db_ok, of "''ab''" "''t0''" "''t0''" "''Fit''" "[]" None]
    create_task_total [OF empty_db_ok, of "''ab''" "''t0''" "''t0''" "''Fit''" "[]" "Some ''task_x''"]
  by (simp add: tbl_ids_def)

end
