(* ===== verification/Approvals.thy ===== *)
theory Approvals
  imports Records
begin

text \<open>
  Approvals of \<open>science/omnisci/service.py\<close>: \<open>request_skill\<close>, \<open>get_approval\<close>,
  \<open>list_approvals\<close>, \<open>resolve_approval\<close>, \<open>revoke_approval\<close> and the gate
  \<open>_require_approval\<close> that every protected action goes through. The gate's loop over the
  covering approvals, newest first, is \<open>approval_loop\<close>; \<open>decides\<close> and \<open>first_decider\<close> are
  its specification. The step relation \<open>approval_step\<close> and the trace theorems say what a
  sequence of these calls can do.
\<close>

subsection \<open>Operations\<close>

definition new_approval ::
    "string \<Rightarrow> string \<Rightarrow> string \<Rightarrow> string option \<Rightarrow> string option \<Rightarrow> string option \<Rightarrow> string option \<Rightarrow>
     string option \<Rightarrow> approval" where
  "new_approval uuid now action scope session agent task reason =
     \<lparr>ap_id = new_id ''approval'' uuid, ap_action = action, ap_scope = scope,
      ap_requesting_session = session, ap_requesting_agent = agent, ap_requesting_task = task,
      ap_decision = AD_PENDING, ap_actor = None, ap_decided_at = None, ap_reason = reason,
      ap_expires_at = None, ap_consumed_at = None, ap_revoked_at = None, ap_revoked_by = None,
      ap_revocation_reason = None, ap_scope_kind = SK_ONE_TIME, ap_created_at = now\<rparr>"

record skill_request_result =
  sq_status :: string
  sq_approval :: approval
  sq_message :: string

definition request_skill ::
    "string \<Rightarrow> string \<Rightarrow> string \<Rightarrow> string \<Rightarrow> string option \<Rightarrow> string option \<Rightarrow> string option \<Rightarrow>
     ('z science_db_scheme, skill_request_result) eff" where
  "request_skill uuid now skill_id reason requesting_agent requesting_session requesting_task =
     eff_bind
       (repo_add approvals
          (new_approval uuid now (''skill.enable:'' @ skill_id) (Some skill_id) requesting_session
             requesting_agent requesting_task (if reason = [] then None else Some reason)))
       (\<lambda>approval. eff_return
          \<lparr>sq_status = ''approval_required'', sq_approval = approval,
           sq_message = ''Skill '' @ sq skill_id @ '' requires approval; the request is recorded ''
             @ ''as a pending approval for an operator to resolve before install.''\<rparr>)"

definition get_approval :: "string \<Rightarrow> ('z science_db_scheme, approval) eff" where
  "get_approval i = eff_lift (repo_get approvals i)"

definition list_approvals :: "string option \<Rightarrow> ('z science_db_scheme, approval list) eff" where
  "list_approvals decision =
     eff_bind (eff_lift (repo_list approvals)) (\<lambda>aps.
     eff_return (case decision of
                   None \<Rightarrow> aps
                 | Some d \<Rightarrow> filter (\<lambda>a. approval_decision_value (ap_decision a) = d) aps))"

definition resolve_approval ::
    "string \<Rightarrow> string \<Rightarrow> string \<Rightarrow> string \<Rightarrow> string option \<Rightarrow> string option \<Rightarrow>
     ('z science_db_scheme, approval) eff" where
  "resolve_approval now approval_id decision actor reason scope_kind =
     eff_bind (eff_lift (repo_get approvals approval_id)) (\<lambda>approval.
     if ap_decision approval \<noteq> AD_PENDING
     then eff_raise (StateError (''approval '' @ approval_id @ '' is already ''
                                  @ approval_decision_value (ap_decision approval)))
     else
       eff_bind (eff_lift (\<lambda>_. approval_decision_of decision)) (\<lambda>resolved.
       if resolved = AD_PENDING
       then eff_raise (StateError ''approval resolution must be approved or denied'')
       else if resolved = AD_REVOKED
       then eff_raise (StateError ''use revoke_approval to revoke an approved permission'')
       else
         let approval1 = approval\<lparr>ap_decision := resolved, ap_actor := Some actor,
                           ap_decided_at := Some now,
                           ap_reason := opt_str_or reason (ap_reason approval)\<rparr> in
         case scope_kind of
           None \<Rightarrow> repo_update approvals approval1
         | Some k \<Rightarrow>
             (case enum_of scope_kind_value scope_kinds k of
                Inl _ \<Rightarrow> eff_raise (StateError (''invalid approval scope kind: '' @ k))
              | Inr kind \<Rightarrow> repo_update approvals (approval1\<lparr>ap_scope_kind := kind\<rparr>))))"

definition revoke_approval ::
    "string \<Rightarrow> string \<Rightarrow> string \<Rightarrow> string option \<Rightarrow> ('z science_db_scheme, approval) eff" where
  "revoke_approval now approval_id actor reason =
     eff_bind (eff_lift (repo_get approvals approval_id)) (\<lambda>approval.
     if ap_decision approval \<noteq> AD_APPROVED
     then eff_raise (StateError (''approval '' @ approval_id @ '' is ''
            @ approval_decision_value (ap_decision approval)
            @ ''; only approved permissions can be revoked''))
     else if ap_scope_kind approval = SK_ONE_TIME \<and> ap_consumed_at approval \<noteq> None
     then eff_raise (StateError (''approval '' @ approval_id
            @ '' was already consumed; the completed action cannot be revoked''))
     else repo_update approvals
            (approval\<lparr>ap_decision := AD_REVOKED, ap_revoked_at := Some now,
              ap_revoked_by := Some actor, ap_revocation_reason := reason\<rparr>))"

subsection \<open>The gate\<close>

text \<open>The filter of \<open>_require_approval\<close>: the approvals that cover an action on a scope.\<close>

definition covers :: "string \<Rightarrow> string \<Rightarrow> approval \<Rightarrow> bool" where
  "covers action scope a \<longleftrightarrow>
     ap_action a = action
     \<and> (ap_scope a = Some scope \<or> ap_scope_kind a = SK_PROJECT
        \<or> (ap_scope_kind a = SK_PREFIX
            \<and> (case ap_scope a of None \<Rightarrow> False | Some p \<Rightarrow> startswith scope p)))"

text \<open>The loop; the result says whether it returned from the method.\<close>

fun approval_loop ::
    "string \<Rightarrow> string \<Rightarrow> string \<Rightarrow> string \<Rightarrow> approval list \<Rightarrow> ('z science_db_scheme, bool) eff" where
  "approval_loop now action scope message [] = eff_return False"
| "approval_loop now action scope message (a # as) =
     (if ap_decision a = AD_PENDING \<and> ap_scope a = Some scope
      then eff_raise (ApprovalRequiredError (ap_id a) action message)
      else if ap_decision a = AD_APPROVED \<and> ap_scope_kind a \<in> {SK_PREFIX, SK_PROJECT}
      then eff_return True
      else if ap_decision a = AD_APPROVED \<and> ap_scope a = Some scope \<and> ap_consumed_at a = None
      then eff_bind (repo_update approvals (a\<lparr>ap_consumed_at := Some now\<rparr>)) (\<lambda>_. eff_return True)
      else if ap_decision a = AD_DENIED \<and> ap_scope a = Some scope
      then eff_raise (StateError (''approval denied for '' @ action @ '' ('' @ scope @ '')''))
      else approval_loop now action scope message as)"

definition require_approval ::
    "string \<Rightarrow> string \<Rightarrow> string \<Rightarrow> string \<Rightarrow> string \<Rightarrow> string \<Rightarrow> string \<Rightarrow> ('z science_db_scheme, unit) eff" where
  "require_approval now_consumed uuid now_created action scope message reason =
     eff_bind (eff_lift (repo_list approvals)) (\<lambda>aps.
     eff_bind (approval_loop now_consumed action scope message (filter (covers action scope) (rev aps)))
       (\<lambda>returned.
     if returned then eff_return ()
     else
       eff_bind
         (repo_add approvals
            (new_approval uuid now_created action (Some scope) None None None (Some reason)))
         (\<lambda>a. eff_raise (ApprovalRequiredError (ap_id a) action message))))"

subsection \<open>Specification of the gate\<close>

text \<open>An approval that settles a call, and one that grants it.\<close>

definition standing :: "approval \<Rightarrow> bool" where
  "standing a \<longleftrightarrow> ap_decision a = AD_APPROVED \<and> ap_scope_kind a \<in> {SK_PREFIX, SK_PROJECT}"

definition spendable :: "string \<Rightarrow> approval \<Rightarrow> bool" where
  "spendable scope a \<longleftrightarrow>
     ap_decision a = AD_APPROVED \<and> ap_scope_kind a = SK_ONE_TIME \<and> ap_scope a = Some scope
     \<and> ap_consumed_at a = None"

definition decides :: "string \<Rightarrow> approval \<Rightarrow> bool" where
  "decides scope a \<longleftrightarrow>
     standing a \<or> spendable scope a
     \<or> (ap_decision a \<in> {AD_PENDING, AD_DENIED} \<and> ap_scope a = Some scope)"

definition settle :: "string \<Rightarrow> string \<Rightarrow> string \<Rightarrow> string \<Rightarrow> approval \<Rightarrow> ('z science_db_scheme, bool) eff" where
  "settle now action scope message a =
     (if standing a then eff_return True
      else if ap_decision a = AD_PENDING then eff_raise (ApprovalRequiredError (ap_id a) action message)
      else if ap_decision a = AD_DENIED
      then eff_raise (StateError (''approval denied for '' @ action @ '' ('' @ scope @ '')''))
      else eff_bind (repo_update approvals (a\<lparr>ap_consumed_at := Some now\<rparr>)) (\<lambda>_. eff_return True))"

lemma approval_loop_find:
  "approval_loop now action scope message as =
     (case find (decides scope) as of
        None \<Rightarrow> eff_return False
      | Some a \<Rightarrow> settle now action scope message a)"
proof (induction as)
  case Nil
  then show ?case by simp
next
  case (Cons a as)
  show ?case
    by (rule ext, cases "ap_decision a"; cases "ap_scope_kind a")
      (simp_all add: Cons.IH decides_def settle_def standing_def spendable_def)
qed

lemma settle_bind:
  "eff_bind (settle now action scope message a) (\<lambda>returned. if returned then eff_return () else m) =
   eff_bind (settle now action scope message a) (\<lambda>_. eff_return ())"
  by (rule ext) (simp add: eff_bind_def settle_def repo_update_def)

text \<open>The result of the gate depends on the covering approvals as a set when one settles it.\<close>

lemma find_unique:
  assumes "a \<in> set as" and "P a" and "\<And>b. b \<in> set as \<Longrightarrow> P b \<Longrightarrow> b = a"
  shows "find P as = Some a"
proof (cases "find P as")
  case None
  then show ?thesis using assms(1,2) by (simp add: find_None_iff)
next
  case (Some b)
  then have "b \<in> set as" and "P b" by (auto simp: find_Some_iff)
  then show ?thesis using Some assms(3) by simp
qed

lemma find_none: "(\<And>b. b \<in> set as \<Longrightarrow> \<not> P b) \<Longrightarrow> find P as = None"
  by (simp add: find_None_iff)

text \<open>No approval on file settles the call.\<close>

definition unsettled :: "string \<Rightarrow> string \<Rightarrow> 'z science_db_scheme \<Rightarrow> bool" where
  "unsettled action scope s \<longleftrightarrow>
     (\<forall>a \<in> tbl_objs approvals s. covers action scope a \<longrightarrow> \<not> decides scope a)"

lemma lift_list: "repo_list T s = Inr xs \<Longrightarrow> eff_lift (repo_list T) s = (Inr xs, s)"
  by simp

lemma require_settled:
  assumes "tbl_ok approvals s" and "a \<in> tbl_objs approvals s" and "covers action scope a" "decides scope a"
    and "\<And>b. b \<in> tbl_objs approvals s \<Longrightarrow> covers action scope b \<Longrightarrow> decides scope b \<Longrightarrow> b = a"
  shows "require_approval n u n' action scope message reason s =
    eff_bind (settle n action scope message a) (\<lambda>_. eff_return ()) s"
proof -
  obtain aps where aps: "repo_list approvals s = Inr aps" using repo_list_ok [OF assms(1)] by blast
  have set: "set (filter (covers action scope) (rev aps)) = {b \<in> tbl_objs approvals s. covers action scope b}"
    using repo_list_set [OF aps] by simp
  have "find (decides scope) (filter (covers action scope) (rev aps)) = Some a"
  proof (rule find_unique, unfold set)
  qed (use assms(2-5) in blast)+
  then show ?thesis
    using aps by (simp add: require_approval_def eff_bind_Inr [OF lift_list] approval_loop_find settle_bind)
qed

lemma require_unsettled:
  assumes "tbl_ok approvals s" and "unsettled action scope s"
  shows "require_approval n u n' action scope message reason s =
    eff_bind (repo_add approvals (new_approval u n' action (Some scope) None None None (Some reason)))
      (\<lambda>a. eff_raise (ApprovalRequiredError (ap_id a) action message)) s"
proof -
  obtain aps where aps: "repo_list approvals s = Inr aps" using repo_list_ok [OF assms(1)] by blast
  have "find (decides scope) (filter (covers action scope) (rev aps)) = None"
    by (rule find_none) (use assms(2) repo_list_set [OF aps] in \<open>auto simp: unsettled_def\<close>)
  then show ?thesis
    using aps by (simp add: require_approval_def eff_bind_Inr [OF lift_list] approval_loop_find)
qed

text \<open>Every run of the gate is one of these two cases, for the newest settling approval.\<close>

lemma require_cases:
  assumes "tbl_ok approvals s"
  obtains (settled) a where "a \<in> tbl_objs approvals s" "covers action scope a" "decides scope a"
      "require_approval n u n' action scope message reason s =
        eff_bind (settle n action scope message a) (\<lambda>_. eff_return ()) s"
  | (unsettled) "unsettled action scope s"
proof -
  obtain aps where aps: "repo_list approvals s = Inr aps" using repo_list_ok [OF assms(1)] by blast
  show thesis
  proof (cases "find (decides scope) (filter (covers action scope) (rev aps))")
    case None
    then show thesis using unsettled repo_list_set [OF aps] by (auto simp: find_None_iff unsettled_def)
  next
    case (Some a)
    then have mem: "a \<in> set (filter (covers action scope) (rev aps)) \<and> decides scope a"
      by (metis find_Some_iff nth_mem)
    have "require_approval n u n' action scope message reason s =
        eff_bind (settle n action scope message a) (\<lambda>_. eff_return ()) s"
      using aps Some
      by (simp add: require_approval_def eff_bind_Inr [OF lift_list] approval_loop_find settle_bind)
    then show thesis using settled mem repo_list_set [OF aps] by auto
  qed
qed

subsection \<open>What each operation writes\<close>

lemma settle_ok:
  assumes "decides scope a" and run: "settle n action scope message a s = (Inr x, s')"
  shows "(standing a \<and> s' = s) \<or> (spendable scope a \<and>
    repo_update approvals (a\<lparr>ap_consumed_at := Some n\<rparr>) s = (Inr (a\<lparr>ap_consumed_at := Some n\<rparr>), s'))"
proof (cases "standing a")
  case True
  then show ?thesis using run by (simp add: settle_def)
next
  case False
  then have sp: "spendable scope a" using assms(1) run by (auto simp: decides_def settle_def)
  then have dec: "ap_decision a = AD_APPROVED" by (simp add: spendable_def)
  obtain y where upd: "repo_update approvals (a\<lparr>ap_consumed_at := Some n\<rparr>) s = (Inr y, s')"
    using run False dec by (auto simp: settle_def eff_bind_ok_iff)
  show ?thesis using sp upd approvals.update_Inr_value [OF upd] by simp
qed

lemma require_ok:
  assumes ok: "tbl_ok approvals s"
    and run: "require_approval n u n' action scope message reason s = (Inr x, s')"
  shows "\<exists>a \<in> tbl_objs approvals s. covers action scope a \<and> ((standing a \<and> s' = s) \<or> (spendable scope a \<and>
    repo_update approvals (a\<lparr>ap_consumed_at := Some n\<rparr>) s = (Inr (a\<lparr>ap_consumed_at := Some n\<rparr>), s')))"
proof (rule require_cases [OF ok, of action scope n u n' message reason])
  fix a
  assume a: "a \<in> tbl_objs approvals s" "covers action scope a" "decides scope a"
    and eq: "require_approval n u n' action scope message reason s =
        eff_bind (settle n action scope message a) (\<lambda>_. eff_return ()) s"
  obtain y where "settle n action scope message a s = (Inr y, s')"
    using run [unfolded eq] by (auto simp: eff_bind_ok_iff)
  from settle_ok [OF a(3) this] show ?thesis using a(1,2) by blast
next
  assume "unsettled action scope s"
  from run [unfolded require_unsettled [OF ok this]] show ?thesis by (auto simp: eff_bind_ok_iff)
qed

lemma settle_err: "settle n action scope message a s = (Inl e, s') \<Longrightarrow> s' = s"
  by (rule err_keepsD [where m = "settle n action scope message a"])
    (auto simp: settle_def intro!: err_keeps_intros)

lemma require_err:
  assumes ok: "tbl_ok approvals s"
    and run: "require_approval n u n' action scope message reason s = (Inl e, s')"
  defines "a0 \<equiv> new_approval u n' action (Some scope) None None None (Some reason)"
  shows "s' = s \<or> (unsettled action scope s \<and> repo_add approvals a0 s = (Inr a0, s')
    \<and> e = ApprovalRequiredError (ap_id a0) action message)"
proof (rule require_cases [OF ok, of action scope n u n' message reason])
  fix a
  assume eq: "require_approval n u n' action scope message reason s =
        eff_bind (settle n action scope message a) (\<lambda>_. eff_return ()) s"
  have "settle n action scope message a s = (Inl e, s')"
    using run [unfolded eq] by (auto simp: eff_bind_err_iff)
  then show ?thesis using settle_err by blast
next
  assume un: "unsettled action scope s"
  note body = run [unfolded require_unsettled [OF ok un], folded a0_def]
  obtain r t where add: "repo_add approvals a0 s = (r, t)" by (cases "repo_add approvals a0 s")
  show ?thesis
  proof (cases r)
    case (Inl e')
    have "t = s" by (rule repo_add_err [OF add [unfolded Inl]])
    then show ?thesis using body add Inl by (simp add: eff_bind_def)
  next
    case (Inr a)
    have "a = a0" by (rule approvals.add_Inr_value [OF add [unfolded Inr]])
    then show ?thesis using body add Inr un by (simp add: eff_bind_def)
  qed
qed

lemma request_skill_ok:
  assumes "request_skill u n skill reason ag se ta s = (Inr x, s')"
  shows "repo_add approvals (sq_approval x) s = (Inr (sq_approval x), s')"
    and "ap_decision (sq_approval x) = AD_PENDING \<and> ap_consumed_at (sq_approval x) = None"
    and "\<exists>u n a se ag ta r. sq_approval x = new_approval u n a (Some skill) se ag ta r"
proof -
  obtain u' n' act sc se' ag' ta' r a where
    add: "repo_add approvals (new_approval u' n' act (Some skill) se' ag' ta' r) s = (Inr a, s')"
    and x: "sq_approval x = a"
    using assms unfolding request_skill_def eff_bind_ok_iff by auto
  note a = approvals.add_Inr_value [OF add]
  show "repo_add approvals (sq_approval x) s = (Inr (sq_approval x), s')"
    "ap_decision (sq_approval x) = AD_PENDING \<and> ap_consumed_at (sq_approval x) = None"
    using add x a by (simp_all add: new_approval_def)
  show "\<exists>u n a se ag ta r. sq_approval x = new_approval u n a (Some skill) se ag ta r"
    using x a by blast
qed

lemma request_skill_err: "request_skill u n skill reason ag se ta s = (Inl e, s') \<Longrightarrow> s' = s"
  by (erule err_keepsD [rotated]) (auto simp: request_skill_def intro!: err_keeps_intros)

lemma resolve_ok:
  assumes "resolve_approval now i decision actor reason kind s = (Inr a', s')"
  obtains a where "repo_get approvals i s = Inr a" and "ap_decision a = AD_PENDING"
    and "repo_update approvals a' s = (Inr a', s')"
    and "approval_decision_value (ap_decision a') = decision"
    and "ap_decision a' \<in> {AD_APPROVED, AD_DENIED}"
    and "\<exists>k. a' = a\<lparr>ap_decision := ap_decision a', ap_actor := Some actor, ap_decided_at := Some now,
                   ap_reason := opt_str_or reason (ap_reason a), ap_scope_kind := k\<rparr>
             \<and> (case kind of None \<Rightarrow> k = ap_scope_kind a | Some v \<Rightarrow> scope_kind_value k = v)"
proof -
  obtain a where get: "repo_get approvals i s = Inr a"
    using assms by (cases "repo_get approvals i s") (simp_all add: resolve_approval_def eff_bind_def)
  have pend: "ap_decision a = AD_PENDING"
    by (rule ccontr) (use assms get in \<open>simp add: resolve_approval_def eff_bind_def\<close>)
  obtain d where d: "approval_decision_of decision = Inr d"
    using assms get pend
    by (cases "approval_decision_of decision") (simp_all add: resolve_approval_def eff_bind_def)
  have d12: "d \<noteq> AD_PENDING" "d \<noteq> AD_REVOKED"
    using assms get pend d by (auto simp: resolve_approval_def eff_bind_def simp del: approval_decision_of_Inr)
  let ?a1 = "a\<lparr>ap_decision := d, ap_actor := Some actor, ap_decided_at := Some now,
      ap_reason := opt_str_or reason (ap_reason a)\<rparr>"
  have body: "(case kind of
       None \<Rightarrow> repo_update approvals ?a1
     | Some k \<Rightarrow>
         (case enum_of scope_kind_value scope_kinds k of
            Inl _ \<Rightarrow> eff_raise (StateError (''invalid approval scope kind: '' @ k))
          | Inr kind \<Rightarrow> repo_update approvals (?a1\<lparr>ap_scope_kind := kind\<rparr>))) s = (Inr a', s')"
    using assms get pend d d12
    by (simp add: resolve_approval_def eff_bind_def Let_def del: approval_decision_of_Inr)
  obtain k where upd: "repo_update approvals (a\<lparr>ap_decision := d, ap_actor := Some actor,
        ap_decided_at := Some now, ap_reason := opt_str_or reason (ap_reason a), ap_scope_kind := k\<rparr>) s = (Inr a', s')"
    and k: "case kind of None \<Rightarrow> k = ap_scope_kind a | Some v \<Rightarrow> scope_kind_value k = v"
  proof (cases kind)
    case None
    then show thesis using that [of "ap_scope_kind a"] body by simp
  next
    case (Some v)
    then obtain k where k: "enum_of scope_kind_value scope_kinds v = Inr k"
      using body by (cases "enum_of scope_kind_value scope_kinds v") simp_all
    then have "scope_kind_value k = v" by (simp add: scope_kind.of_Inr_iff)
    then show thesis using that [of k] body Some k by simp
  qed
  note a' = approvals.update_Inr_value [OF upd]
  have dec: "ap_decision a' = d" by (simp add: a')
  show thesis
  proof (rule that [OF get pend])
    show "repo_update approvals a' s = (Inr a', s')" using upd a' by simp
    show "approval_decision_value (ap_decision a') = decision" using d dec by simp
    show "ap_decision a' \<in> {AD_APPROVED, AD_DENIED}" using d12 dec by (cases d) simp_all
    show "\<exists>k. a' = a\<lparr>ap_decision := ap_decision a', ap_actor := Some actor, ap_decided_at := Some now,
                   ap_reason := opt_str_or reason (ap_reason a), ap_scope_kind := k\<rparr>
             \<and> (case kind of None \<Rightarrow> k = ap_scope_kind a | Some v \<Rightarrow> scope_kind_value k = v)"
      by (rule exI [of _ k]) (use k dec in \<open>simp add: a'\<close>)
  qed
qed

lemma resolve_err: "resolve_approval now i decision actor reason kind s = (Inl e, s') \<Longrightarrow> s' = s"
  by (erule err_keepsD [rotated]) (unfold resolve_approval_def Let_def, intro err_keeps_intros)

lemma revoke_ok:
  assumes "revoke_approval now i actor reason s = (Inr a', s')"
  obtains a where "repo_get approvals i s = Inr a" and "ap_decision a = AD_APPROVED"
    and "\<not> (ap_scope_kind a = SK_ONE_TIME \<and> ap_consumed_at a \<noteq> None)"
    and "a' = a\<lparr>ap_decision := AD_REVOKED, ap_revoked_at := Some now, ap_revoked_by := Some actor,
               ap_revocation_reason := reason\<rparr>"
    and "repo_update approvals a' s = (Inr a', s')"
proof -
  from assms obtain a where a: "repo_get approvals i s = Inr a" "ap_decision a = AD_APPROVED"
      "\<not> (ap_scope_kind a = SK_ONE_TIME \<and> ap_consumed_at a \<noteq> None)"
    and upd: "repo_update approvals (a\<lparr>ap_decision := AD_REVOKED, ap_revoked_at := Some now,
        ap_revoked_by := Some actor, ap_revocation_reason := reason\<rparr>) s = (Inr a', s')"
    unfolding revoke_approval_def by (auto simp: eff_bind_ok_iff split: if_splits)
  then show thesis using that approvals.update_Inr_value [OF upd] by simp
qed

lemma revoke_err: "revoke_approval now i actor reason s = (Inl e, s') \<Longrightarrow> s' = s"
  by (erule err_keepsD [rotated]) (unfold revoke_approval_def, intro err_keeps_intros)

subsection \<open>The state machine of one approval\<close>

inductive approval_trans :: "approval \<Rightarrow> approval \<Rightarrow> bool" where
  keep: "approval_trans a a"
| resolve: "ap_decision a = AD_PENDING \<Longrightarrow> d \<in> {AD_APPROVED, AD_DENIED} \<Longrightarrow>
    approval_trans a (a\<lparr>ap_decision := d, ap_actor := Some actor, ap_decided_at := Some now,
      ap_reason := r, ap_scope_kind := k\<rparr>)"
| revoke: "ap_decision a = AD_APPROVED \<Longrightarrow> \<not> (ap_scope_kind a = SK_ONE_TIME \<and> ap_consumed_at a \<noteq> None) \<Longrightarrow>
    approval_trans a (a\<lparr>ap_decision := AD_REVOKED, ap_revoked_at := Some now,
      ap_revoked_by := Some actor, ap_revocation_reason := r\<rparr>)"
| spend: "spendable scope a \<Longrightarrow> approval_trans a (a\<lparr>ap_consumed_at := Some now\<rparr>)"

text \<open>The fields of an approval agree with its decision.\<close>

definition approval_wf :: "approval \<Rightarrow> bool" where
  "approval_wf a \<longleftrightarrow>
     (ap_decision a = AD_PENDING \<longleftrightarrow> ap_decided_at a = None) \<and> (ap_decided_at a = None \<longleftrightarrow> ap_actor a = None)
     \<and> (ap_decision a = AD_REVOKED \<longleftrightarrow> ap_revoked_at a \<noteq> None) \<and> (ap_revoked_at a = None \<longleftrightarrow> ap_revoked_by a = None)
     \<and> (ap_consumed_at a \<noteq> None \<longrightarrow> ap_decision a = AD_APPROVED \<and> ap_scope_kind a = SK_ONE_TIME)"

lemma trans_id: "approval_trans a a' \<Longrightarrow> ap_id a' = ap_id a"
  by (auto elim: approval_trans.cases)

lemma trans_target:
  "approval_trans a a' \<Longrightarrow> ap_action a' = ap_action a \<and> ap_scope a' = ap_scope a \<and> ap_created_at a' = ap_created_at a"
  by (auto elim: approval_trans.cases)

lemma trans_wf: "approval_trans a a' \<Longrightarrow> approval_wf a \<Longrightarrow> approval_wf a'"
  by (induction rule: approval_trans.induct) (auto simp: approval_wf_def spendable_def)

lemma trans_final:
  assumes "approval_trans a a'" and "approval_wf a"
    and "ap_decision a \<in> {AD_DENIED, AD_REVOKED} \<or> ap_consumed_at a \<noteq> None"
  shows "a' = a"
  using assms by (induction rule: approval_trans.induct) (auto simp: approval_wf_def spendable_def)

lemma trans_consumed: "approval_trans a a' \<Longrightarrow> ap_consumed_at a \<noteq> None \<Longrightarrow> ap_consumed_at a' \<noteq> None"
  by (auto elim: approval_trans.cases)

lemma new_approval_wf [simp]: "approval_wf (new_approval u n a sc se ag ta r)"
  by (simp add: approval_wf_def new_approval_def)

subsection \<open>Steps of the approvals component\<close>

inductive approval_step :: "'z science_db_scheme \<Rightarrow> 'z science_db_scheme \<Rightarrow> bool" where
  request: "request_skill u n skill reason ag se ta s = (r, s') \<Longrightarrow> approval_step s s'"
| resolve: "resolve_approval now i decision actor reason kind s = (r, s') \<Longrightarrow> approval_step s s'"
| revoke: "revoke_approval now i actor reason s = (r, s') \<Longrightarrow> approval_step s s'"
| gate: "require_approval n u n' action scope message reason s = (r, s') \<Longrightarrow> approval_step s s'"

text \<open>Every step leaves the table alone, moves one approval along its machine or adds one.\<close>

definition approvals_evolve :: "'z science_db_scheme \<Rightarrow> 'z science_db_scheme \<Rightarrow> bool" where
  "approvals_evolve s s' \<longleftrightarrow>
     s' = s
     \<or> (\<exists>a a'. a \<in> tbl_objs approvals s \<and> approval_trans a a' \<and> repo_update approvals a' s = (Inr a', s'))
     \<or> (\<exists>u n act sc se ag ta r. let a = new_approval u n act sc se ag ta r in repo_add approvals a s = (Inr a, s'))"

lemma evolve_refl: "s' = s \<Longrightarrow> approvals_evolve s s'"
  by (simp add: approvals_evolve_def)

lemma evolve_update:
  "a \<in> tbl_objs approvals s \<Longrightarrow> approval_trans a a' \<Longrightarrow> repo_update approvals a' s = (Inr a', s') \<Longrightarrow>
     approvals_evolve s s'"
  unfolding approvals_evolve_def by blast

lemma evolve_add: "repo_add approvals (new_approval u n act sc se ag ta r) s = (Inr b, s') \<Longrightarrow> approvals_evolve s s'"
  using approvals.add_Inr_value unfolding approvals_evolve_def Let_def by metis

lemma request_evolves:
  assumes "request_skill u n skill reason ag se ta s = (r, s')"
  shows "approvals_evolve s s'"
proof (cases r)
  case (Inl e)
  show ?thesis by (rule evolve_refl [OF request_skill_err [OF assms [unfolded Inl]]])
next
  case (Inr x)
  note run = assms [unfolded Inr]
  obtain u1 n1 a1 se1 ag1 ta1 r1 where x: "sq_approval x = new_approval u1 n1 a1 (Some skill) se1 ag1 ta1 r1"
    using request_skill_ok(3) [OF run] by blast
  show ?thesis using request_skill_ok(1) [OF run] unfolding x by (rule evolve_add)
qed

lemma resolve_evolves:
  assumes "resolve_approval now i decision actor reason kind s = (r, s')"
  shows "approvals_evolve s s'"
proof (cases r)
  case (Inl e)
  show ?thesis by (rule evolve_refl [OF resolve_err [OF assms [unfolded Inl]]])
next
  case (Inr a')
  show ?thesis
  proof (rule resolve_ok [OF assms [unfolded Inr]])
    fix a
    assume a: "repo_get approvals i s = Inr a" "ap_decision a = AD_PENDING"
      and upd: "repo_update approvals a' s = (Inr a', s')"
      and dec: "ap_decision a' \<in> {AD_APPROVED, AD_DENIED}"
      and ex: "\<exists>k. a' = a\<lparr>ap_decision := ap_decision a', ap_actor := Some actor, ap_decided_at := Some now,
                   ap_reason := opt_str_or reason (ap_reason a), ap_scope_kind := k\<rparr>
             \<and> (case kind of None \<Rightarrow> k = ap_scope_kind a | Some v \<Rightarrow> scope_kind_value k = v)"
    have "approval_trans a a'" using ex approval_trans.resolve [OF a(2) dec] by metis
    then show ?thesis using evolve_update [OF _ _ upd] repo_get_Inr_mem [OF a(1)] by blast
  qed
qed

lemma revoke_evolves:
  assumes "revoke_approval now i actor reason s = (r, s')"
  shows "approvals_evolve s s'"
proof (cases r)
  case (Inl e)
  show ?thesis by (rule evolve_refl [OF revoke_err [OF assms [unfolded Inl]]])
next
  case (Inr a')
  obtain a where a: "repo_get approvals i s = Inr a" "ap_decision a = AD_APPROVED"
      "\<not> (ap_scope_kind a = SK_ONE_TIME \<and> ap_consumed_at a \<noteq> None)"
    and a': "a' = a\<lparr>ap_decision := AD_REVOKED, ap_revoked_at := Some now, ap_revoked_by := Some actor,
               ap_revocation_reason := reason\<rparr>"
    and upd: "repo_update approvals a' s = (Inr a', s')"
    using revoke_ok [OF assms [unfolded Inr]] by blast
  have "approval_trans a a'" unfolding a' by (rule approval_trans.revoke [OF a(2,3)])
  then show ?thesis using evolve_update [OF _ _ upd] repo_get_Inr_mem [OF a(1)] by blast
qed

lemma gate_evolves:
  assumes "tbl_ok approvals s" and run: "require_approval n u n' action scope message reason s = (r, s')"
  shows "approvals_evolve s s'"
proof (cases r)
  case (Inl e)
  from require_err [OF assms(1) run [unfolded Inl]] show ?thesis
    by (elim disjE conjE) (erule evolve_refl, erule evolve_add)
next
  case (Inr x)
  from require_ok [OF assms(1) run [unfolded Inr]] obtain a where a: "a \<in> tbl_objs approvals s"
    and or: "(standing a \<and> s' = s) \<or> (spendable scope a \<and>
      repo_update approvals (a\<lparr>ap_consumed_at := Some n\<rparr>) s = (Inr (a\<lparr>ap_consumed_at := Some n\<rparr>), s'))"
    by blast
  from or show ?thesis
    by (elim disjE conjE) (erule evolve_refl, erule evolve_update [OF a approval_trans.spend])
qed

lemma approval_step_evolves: "approval_step s s' \<Longrightarrow> tbl_ok approvals s \<Longrightarrow> approvals_evolve s s'"
  by (induction rule: approval_step.induct)
    (blast intro: request_evolves resolve_evolves revoke_evolves gate_evolves)+

lemma evolve_ok: "approvals_evolve s s' \<Longrightarrow> tbl_ok approvals s \<Longrightarrow> tbl_ok approvals s'"
  unfolding approvals_evolve_def Let_def
  using approvals.update_preserves_ok [of s] approvals.add_preserves_ok [of s] by (auto, metis snd_conv tbl_valids(6))+

lemma evolve_mem:
  assumes "approvals_evolve s s'" and "tbl_ok approvals s" and "a \<in> tbl_objs approvals s"
  shows "\<exists>a' \<in> tbl_objs approvals s'. approval_trans a a'"
proof -
  from assms(1) consider "s' = s"
    | b b' where "b \<in> tbl_objs approvals s" "approval_trans b b'" "repo_update approvals b' s = (Inr b', s')"
    | b where "repo_add approvals b s = (Inr b, s')"
    unfolding approvals_evolve_def Let_def by blast
  then show ?thesis
  proof cases
    case 1
    then show ?thesis using assms(3) approval_trans.keep by blast
  next
    case 2
    note objs = approvals.update_objs [OF assms(2) 2(3)]
    show ?thesis
    proof (cases "ap_id a = ap_id b'")
      case True
      then have "a = b" using repo_get_objs [OF assms(2,3)] repo_get_objs [OF assms(2) 2(1)] trans_id [OF 2(2)] by simp
      then show ?thesis using 2(2) objs by blast
    next
      case False
      then show ?thesis using objs assms(3) approval_trans.keep by auto
    qed
  next
    case 3
    then show ?thesis using approvals.add_objs [OF 3] assms(3) approval_trans.keep by blast
  qed
qed

lemma evolve_wf:
  assumes "approvals_evolve s s'" and ok: "tbl_ok approvals s" and wf: "\<forall>a \<in> tbl_objs approvals s. approval_wf a"
  shows "\<forall>a \<in> tbl_objs approvals s'. approval_wf a"
proof -
  from assms(1) consider "s' = s"
    | b b' where "b \<in> tbl_objs approvals s" "approval_trans b b'" "repo_update approvals b' s = (Inr b', s')"
    | u n act sc se ag ta r b where "repo_add approvals (new_approval u n act sc se ag ta r) s = (Inr b, s')"
    unfolding approvals_evolve_def Let_def by blast
  then show ?thesis
  proof cases
    case 2
    then show ?thesis using approvals.update_objs [OF ok 2(3)] wf trans_wf by auto
  next
    case 3
    then show ?thesis using approvals.add_objs [OF 3] wf by auto
  qed (use wf in simp)
qed

lemma approval_step_inv:
  assumes "approval_step\<^sup>*\<^sup>* s t" and "tbl_ok approvals s" and "\<forall>a \<in> tbl_objs approvals s. approval_wf a"
  shows "tbl_ok approvals t \<and> (\<forall>a \<in> tbl_objs approvals t. approval_wf a)"
  using assms
proof (induction rule: rtranclp_induct)
  case (step t u)
  then have "approvals_evolve t u" by (blast intro: approval_step_evolves)
  then show ?case using step evolve_ok evolve_wf by blast
qed simp

subsection \<open>Counting what one-time approvals let through\<close>

text \<open>
  A run of approval operations in which the gate was passed \<open>n\<close> times for one action and scope
  while no standing grant covered it.
\<close>

inductive approval_trace ::
    "string \<Rightarrow> string \<Rightarrow> nat \<Rightarrow> 'z science_db_scheme \<Rightarrow> 'z science_db_scheme \<Rightarrow> bool" for action scope where
  start: "approval_trace action scope 0 s s"
| other: "approval_trace action scope n s t \<Longrightarrow> approval_step t u \<Longrightarrow> approval_trace action scope n s u"
| pass: "approval_trace action scope n s t \<Longrightarrow>
    (\<forall>a \<in> tbl_objs approvals t. covers action scope a \<longrightarrow> \<not> standing a) \<Longrightarrow>
    require_approval now i now' action scope message reason t = (Inr (), u) \<Longrightarrow>
    approval_trace action scope (Suc n) s u"

definition spent :: "string \<Rightarrow> string \<Rightarrow> 'z science_db_scheme \<Rightarrow> approval set" where
  "spent action scope s =
     {a \<in> tbl_objs approvals s. ap_action a = action \<and> ap_scope a = Some scope \<and> ap_consumed_at a \<noteq> None}"

lemma finite_spent: "finite (spent action scope s)"
  by (simp add: spent_def tbl_objs_def)

lemma spent_mono:
  assumes "approvals_evolve s t" and "tbl_ok approvals s" and "\<forall>a \<in> tbl_objs approvals s. approval_wf a"
  shows "spent action scope s \<subseteq> spent action scope t"
proof
  fix a assume a: "a \<in> spent action scope s"
  then have mem: "a \<in> tbl_objs approvals s" and cons: "ap_consumed_at a \<noteq> None" by (simp_all add: spent_def)
  have wf: "approval_wf a" using assms(3) mem by simp
  obtain a' where "a' \<in> tbl_objs approvals t" "approval_trans a a'"
    using evolve_mem [OF assms(1,2) mem] by blast
  moreover have "a' = a" by (rule trans_final [OF calculation(2) wf disjI2 [OF cons]])
  ultimately show "a \<in> spent action scope t" using a by (simp add: spent_def)
qed

lemma spent_pass:
  assumes ok: "tbl_ok approvals s" and wf: "\<forall>a \<in> tbl_objs approvals s. approval_wf a"
    and nog: "\<forall>a \<in> tbl_objs approvals s. covers action scope a \<longrightarrow> \<not> standing a"
    and run: "require_approval now i now' action scope message reason s = (Inr (), t)"
  shows "card (spent action scope s) < card (spent action scope t)"
proof -
  from require_ok [OF ok run] obtain a where a: "a \<in> tbl_objs approvals s" "covers action scope a"
    and or: "(standing a \<and> t = s) \<or> (spendable scope a \<and>
      repo_update approvals (a\<lparr>ap_consumed_at := Some now\<rparr>) s = (Inr (a\<lparr>ap_consumed_at := Some now\<rparr>), t))"
    by (elim bexE conjE)
  have sp: "spendable scope a"
    and upd: "repo_update approvals (a\<lparr>ap_consumed_at := Some now\<rparr>) s = (Inr (a\<lparr>ap_consumed_at := Some now\<rparr>), t)"
    using or a nog by simp_all
  let ?a = "a\<lparr>ap_consumed_at := Some now\<rparr>"
  have "?a \<in> spent action scope t"
    using approvals.update_obj_mem [OF upd] a(2) sp by (simp add: spent_def covers_def spendable_def)
  moreover have "?a \<notin> tbl_objs approvals s"
  proof
    assume "?a \<in> tbl_objs approvals s"
    from repo_get_objs [OF ok this] repo_get_objs [OF ok a(1)] have "?a = a" by simp
    then have "ap_consumed_at ?a = ap_consumed_at a" by (rule arg_cong)
    then show False using sp by (simp add: spendable_def)
  qed
  ultimately have "spent action scope s \<subset> spent action scope t"
    using spent_mono [OF gate_evolves [OF ok run] ok wf] by (auto simp: spent_def)
  then show ?thesis by (rule psubset_card_mono [OF finite_spent])
qed

lemma approval_trace_bound:
  assumes "approval_trace action scope n s t" and "tbl_ok approvals s" and "\<forall>a \<in> tbl_objs approvals s. approval_wf a"
  shows "tbl_ok approvals t \<and> (\<forall>a \<in> tbl_objs approvals t. approval_wf a) \<and> n \<le> card (spent action scope t)"
  using assms
proof (induction rule: approval_trace.induct)
  case (other n s t u)
  then have ev: "approvals_evolve t u" by (blast intro: approval_step_evolves)
  have "card (spent action scope t) \<le> card (spent action scope u)"
    using other spent_mono [OF ev] by (intro card_mono finite_spent) blast
  then show ?case using other evolve_ok [OF ev] evolve_wf [OF ev] by simp
next
  case (pass n s t now i now' message reason u)
  then have IH: "tbl_ok approvals t" "\<forall>a \<in> tbl_objs approvals t. approval_wf a" "n \<le> card (spent action scope t)"
    by blast+
  note ev = gate_evolves [OF IH(1) pass(3)]
  show ?case using spent_pass [OF IH(1,2) pass(2,3)] IH evolve_ok [OF ev] evolve_wf [OF ev] by simp
qed simp

subsection \<open>One request from start to end\<close>

lemma require_only:
  assumes "tbl_ok approvals t" and "unsettled action scope s" and "tbl_objs approvals t \<subseteq> insert a (tbl_objs approvals s)"
    and "a \<in> tbl_objs approvals t" and "covers action scope a" and "decides scope a"
  shows "require_approval n u n' action scope message reason t =
    eff_bind (settle n action scope message a) (\<lambda>_. eff_return ()) t"
  by (rule require_settled [OF assms(1,4-6)]) (use assms(2,3) in \<open>auto simp: unsettled_def\<close>)

text \<open>The state after an unsettled call: the one request for it is on file and settles retries.\<close>

definition requested :: "string \<Rightarrow> string \<Rightarrow> approval \<Rightarrow> 'z science_db_scheme \<Rightarrow> 'z science_db_scheme \<Rightarrow> bool" where
  "requested action scope a s t \<longleftrightarrow>
     tbl_ok approvals t \<and> unsettled action scope s \<and> tbl_objs approvals t \<subseteq> insert a (tbl_objs approvals s)
     \<and> a \<in> tbl_objs approvals t \<and> ap_action a = action \<and> ap_scope a = Some scope \<and> ap_scope_kind a = SK_ONE_TIME
     \<and> ap_consumed_at a = None"

lemma request_run:
  fixes reason n' :: string
  assumes "tbl_ok approvals s" and "unsettled action scope s" and "new_id ''approval'' u \<notin> tbl_ids approvals s"
  defines "a \<equiv> new_approval u n' action (Some scope) None None None (Some reason)"
  obtains t where "require_approval n u n' action scope message reason s =
      (Inl (ApprovalRequiredError (new_id ''approval'' u) action message), t)"
    and "requested action scope a s t" and "tbl_ids approvals t = insert (new_id ''approval'' u) (tbl_ids approvals s)"
proof -
  obtain t where add: "repo_add approvals a s = (Inr a, t)"
    using approvals.add_fresh [of a s] assms(3) by (auto simp: a_def new_approval_def)
  have "tbl_ok approvals t" using approvals.add_preserves_ok [OF assms(1), of a] add by simp
  then have "requested action scope a s t"
    using approvals.add_objs [OF add] assms(2) by (auto simp: requested_def a_def new_approval_def)
  moreover have "ap_id a = new_id ''approval'' u" by (simp add: a_def new_approval_def)
  ultimately show thesis
    using that require_unsettled [OF assms(1,2), of n u n' message reason] approvals.add_ids [OF add] add
    by (simp add: a_def eff_bind_def)
qed

lemma requested_covers: "requested action scope a s t \<Longrightarrow> covers action scope a"
  by (simp add: requested_def covers_def)

lemma requested_require:
  assumes "requested action scope a s t" and "decides scope a"
  shows "require_approval n u n' action scope message reason t =
    eff_bind (settle n action scope message a) (\<lambda>_. eff_return ()) t"
  by (rule require_only) (use assms requested_covers in \<open>auto simp: requested_def\<close>)

lemma requested_update:
  assumes "requested action scope a s t" and "ap_id a' = ap_id a" and "ap_action a' = action"
    and "ap_scope a' = Some scope" and "ap_scope_kind a' = SK_ONE_TIME" and "ap_consumed_at a' = None"
  obtains t' where "repo_update approvals a' t = (Inr a', t')" and "requested action scope a' s t'"
    and "tbl_ids approvals t' = tbl_ids approvals t"
proof -
  have ok: "tbl_ok approvals t" and mem: "a \<in> tbl_objs approvals t" using assms(1) by (simp_all add: requested_def)
  have "ap_id a' \<in> tbl_ids approvals t" using tbl_objs_oid [OF ok mem] assms(2) by simp
  then obtain t' where upd: "repo_update approvals a' t = (Inr a', t')"
    using approvals.update_known [of a' t] by auto
  have "tbl_ok approvals t'" using approvals.update_preserves_ok [OF ok, of a'] upd by simp
  moreover have "tbl_objs approvals t' \<subseteq> insert a' (tbl_objs approvals s)"
    using approvals.update_objs [OF ok upd] assms(1,2) by (auto simp: requested_def)
  ultimately have "requested action scope a' s t'"
    using assms approvals.update_obj_mem [OF upd] by (simp add: requested_def)
  moreover have "tbl_ids approvals t' = tbl_ids approvals t"
    using approvals.update_ids [of a' t] upd by simp
  ultimately show thesis using that upd by blast
qed

lemma resolve_run:
  assumes "requested action scope a s t" and "ap_decision a = AD_PENDING" and "d \<in> {AD_APPROVED, AD_DENIED}"
  shows "\<exists>a' t'. resolve_approval now (ap_id a) (approval_decision_value d) actor reason None t = (Inr a', t')
    \<and> requested action scope a' s t' \<and> ap_decision a' = d \<and> ap_id a' = ap_id a
    \<and> tbl_ids approvals t' = tbl_ids approvals t"
proof -
  let ?a = "a\<lparr>ap_decision := d, ap_actor := Some actor, ap_decided_at := Some now,
      ap_reason := opt_str_or reason (ap_reason a)\<rparr>"
  have get: "repo_get approvals (ap_id a) t = Inr a"
    using repo_get_objs [of approvals t a] assms(1) by (simp add: requested_def)
  obtain t' where upd: "repo_update approvals ?a t = (Inr ?a, t')" "requested action scope ?a s t'"
      "tbl_ids approvals t' = tbl_ids approvals t"
    using requested_update [OF assms(1), of ?a] assms(1) by (auto simp: requested_def)
  have "resolve_approval now (ap_id a) (approval_decision_value d) actor reason None t = (Inr ?a, t')"
    using get assms(2,3) upd(1) by (auto simp: resolve_approval_def eff_bind_def)
  then show ?thesis using upd(2,3) by (intro exI [of _ ?a] exI [of _ t']) simp
qed

subsection \<open>A worked example\<close>

definition ex_pending :: science_db where
  "ex_pending = snd (require_approval ''t1'' ''aa'' ''t2'' ''compute.submit:modal'' ''k1'' ''m'' ''r'' empty_db)"

definition ex_resolved :: "string \<Rightarrow> science_db" where
  "ex_resolved d = snd (resolve_approval ''t3'' ''approval_aa'' d ''op'' None None ex_pending)"

definition ex_approval :: "approval_decision \<Rightarrow> approval" where
  "ex_approval d = (new_approval ''aa'' ''t2'' ''compute.submit:modal'' (Some ''k1'') None None None (Some ''r''))
     \<lparr>ap_decision := d, ap_actor := Some ''op'', ap_decided_at := Some ''t3''\<rparr>"

lemmas approval_eval =
  require_approval_def eff_bind_def repo_list_def repo_add_def repo_decode_def new_approval_def new_id_def
  resolve_approval_def repo_get_def repo_update_def upd_row_def approval_decision_of_def enum_of_def
  approval_decisions_def opt_str_or_def approvals_def covers_def empty_db_def

lemma ex_pending_eval:
  "ex_pending = empty_db\<lparr>db_approvals := [\<lparr>row_id = ''approval_aa'', row_created_at = ''t2'', row_cols = (),
     row_data = new_approval ''aa'' ''t2'' ''compute.submit:modal'' (Some ''k1'') None None None (Some ''r'')\<rparr>]\<rparr>"
  by (simp add: ex_pending_def approval_eval)

lemma ex_resolved_eval:
  assumes "d \<in> {AD_APPROVED, AD_DENIED}"
  shows "ex_resolved (approval_decision_value d) =
    empty_db\<lparr>db_approvals := [\<lparr>row_id = ''approval_aa'', row_created_at = ''t2'', row_cols = (),
      row_data = ex_approval d\<rparr>]\<rparr>"
  using assms by (elim insertE) (simp_all add: ex_resolved_def ex_pending_eval ex_approval_def approval_eval)

lemma ex_objs: "d \<in> {AD_APPROVED, AD_DENIED} \<Longrightarrow>
    tbl_objs approvals (ex_resolved (approval_decision_value d)) = {ex_approval d}"
  by (simp add: ex_resolved_eval tbl_objs_def approvals_def)

lemma ex_steps: "approval_step empty_db ex_pending" "approval_step ex_pending (ex_resolved d)"
  unfolding ex_pending_def ex_resolved_def by (rule approval_step.gate prod.collapse [symmetric])
    (rule approval_step.resolve prod.collapse [symmetric])+

lemma ex_reach: "approval_step\<^sup>*\<^sup>* empty_db (ex_resolved d)"
  using ex_steps by (meson rtranclp.rtrancl_refl rtranclp.rtrancl_into_rtrancl)

lemma ex_ok: "tbl_ok approvals (ex_resolved d)"
  using approval_step_inv [OF ex_reach] by (simp add: tbl_ok_def tbl_objs_def)

lemma ex_pass:
  "\<exists>s'. require_approval ''t4'' ''bb'' ''t5'' ''compute.submit:modal'' ''k1'' ''m'' ''r'' (ex_resolved ''approved'') = (Inr (), s')"
  using ex_resolved_eval [of AD_APPROVED] by (simp add: ex_approval_def approval_eval)

subsection \<open>Properties\<close>

text \<open>
  The gate lets an action through only on an operator's approval: when
  \<open>_require_approval\<close> returns, some approval on file covers the action and scope, was approved,
  and is either a standing (prefix or project) grant, in which case nothing is written, or a
  one-time approval for exactly this scope that had not been consumed and is consumed by the call.
\<close>

theorem approval_gate_sound:
  assumes "tbl_ok approvals s"
    and "require_approval now u now' action scope message reason s = (Inr (), s')"
  shows "\<exists>a \<in> tbl_objs approvals s. ap_action a = action \<and> ap_decision a = AD_APPROVED \<and>
    ((ap_scope_kind a = SK_PROJECT \<and> s' = s)
     \<or> (ap_scope_kind a = SK_PREFIX \<and> s' = s
         \<and> (ap_scope a = Some scope \<or> (\<exists>p. ap_scope a = Some p \<and> startswith scope p)))
     \<or> (ap_scope_kind a = SK_ONE_TIME \<and> ap_scope a = Some scope \<and> ap_consumed_at a = None
         \<and> repo_get approvals (ap_id a) s' = Inr (a\<lparr>ap_consumed_at := Some now\<rparr>)))"
proof -
  from require_ok [OF assms] obtain a where a: "a \<in> tbl_objs approvals s" "covers action scope a"
    and or: "(standing a \<and> s' = s) \<or> (spendable scope a \<and>
      repo_update approvals (a\<lparr>ap_consumed_at := Some now\<rparr>) s = (Inr (a\<lparr>ap_consumed_at := Some now\<rparr>), s'))"
    by blast
  have get: "repo_get approvals (ap_id a) s' = Inr (a\<lparr>ap_consumed_at := Some now\<rparr>)"
    if upd: "repo_update approvals (a\<lparr>ap_consumed_at := Some now\<rparr>) s = (Inr (a\<lparr>ap_consumed_at := Some now\<rparr>), s')"
    using approvals.update_get [OF upd, of "ap_id a"] by simp
  show ?thesis
    by (rule bexI [OF _ a(1)])
      (use or a(2) get in \<open>auto simp: covers_def standing_def spendable_def split: option.splits\<close>)
qed

theorem approval_gate_sound_witness:
  "\<exists>s'. require_approval ''t4'' ''bb'' ''t5'' ''compute.submit:modal'' ''k1'' ''m'' ''r'' (ex_resolved ''approved'') = (Inr (), s')
    \<and> repo_get approvals ''approval_aa'' s' = Inr ((ex_approval AD_APPROVED)\<lparr>ap_consumed_at := Some ''t4''\<rparr>)"
proof -
  obtain s' where run: "require_approval ''t4'' ''bb'' ''t5'' ''compute.submit:modal'' ''k1'' ''m'' ''r''
      (ex_resolved ''approved'') = (Inr (), s')" using ex_pass by blast
  show ?thesis
    using approval_gate_sound [OF ex_ok run] ex_objs [of AD_APPROVED] run
    by (simp add: ex_approval_def new_approval_def new_id_def)
qed

text \<open>
  In every state the approval operations can reach from a fresh
  database, the fields of each approval agree with its decision: pending exactly when nobody has
  decided, a decision time with an actor, revoked exactly when a revocation is recorded, and only
  an approved one-time approval is ever consumed.
\<close>

theorem approval_records_consistent:
  assumes "approval_step\<^sup>*\<^sup>* empty_db s" and "a \<in> tbl_objs approvals s"
  shows "approval_wf a"
  using approval_step_inv [OF assms(1)] assms(2) by (auto simp: tbl_ok_def tbl_objs_def)

theorem approval_records_consistent_witness:
  "approval_step\<^sup>*\<^sup>* empty_db (ex_resolved ''denied'') \<and> approval_wf (ex_approval AD_DENIED)"
  using approval_records_consistent [OF ex_reach, of "ex_approval AD_DENIED" "''denied''"] ex_reach
    ex_objs [of AD_DENIED] by simp

text \<open>
  A denial, a revocation and the consumption of a one-time approval are final:
  whatever approval operations follow, in whatever order, the record stays exactly as it is.
\<close>

theorem approval_final:
  assumes "approval_step\<^sup>*\<^sup>* empty_db s" and "approval_step\<^sup>*\<^sup>* s t" and "a \<in> tbl_objs approvals s"
    and "ap_decision a \<in> {AD_DENIED, AD_REVOKED} \<or> ap_consumed_at a \<noteq> None"
  shows "a \<in> tbl_objs approvals t"
proof -
  have init: "tbl_ok approvals s" "\<forall>a \<in> tbl_objs approvals s. approval_wf a"
    using approval_step_inv [OF assms(1)] by (simp_all add: tbl_ok_def tbl_objs_def)
  from assms(2) show ?thesis
  proof (induction rule: rtranclp_induct)
    case base
    show ?case by (rule assms(3))
  next
    case (step t u)
    have inv: "tbl_ok approvals t" "approval_wf a"
      using approval_step_inv [OF step(1) init] init(2) assms(3) by auto
    obtain a' where "a' \<in> tbl_objs approvals u" "approval_trans a a'"
      using evolve_mem [OF approval_step_evolves [OF step(2) inv(1)] inv(1) step.IH] by blast
    then show ?case using trans_final [OF _ inv(2) assms(4)] by auto
  qed
qed

theorem approval_final_witness:
  "ex_approval AD_DENIED \<in> tbl_objs approvals
     (snd (resolve_approval ''t9'' ''approval_aa'' ''approved'' ''op2'' None None (ex_resolved ''denied'')))"
proof -
  have "approval_step (ex_resolved ''denied'')
      (snd (resolve_approval ''t9'' ''approval_aa'' ''approved'' ''op2'' None None (ex_resolved ''denied'')))"
    by (rule approval_step.resolve) (rule prod.collapse [symmetric])
  then show ?thesis
    using approval_final [OF ex_reach r_into_rtranclp, of "''denied''" _ "ex_approval AD_DENIED"]
      ex_objs [of AD_DENIED] by (simp add: ex_approval_def)
qed

text \<open>
  C1. In any run of approval operations from a fresh database, the
  gate is passed for one action and scope, while no prefix or project grant covers it, at most
  as often as there are one-time approvals for exactly that action and scope that an actor has
  approved: each such approval lets one call through.
\<close>

theorem one_time_approvals_spent_once:
  assumes "approval_trace action scope n empty_db s"
  shows "n \<le> card {a \<in> tbl_objs approvals s. ap_action a = action \<and> ap_scope a = Some scope
                    \<and> ap_scope_kind a = SK_ONE_TIME \<and> ap_decision a = AD_APPROVED
                    \<and> ap_actor a \<noteq> None \<and> ap_consumed_at a \<noteq> None}"
proof -
  have b: "tbl_ok approvals s" "\<forall>a \<in> tbl_objs approvals s. approval_wf a" "n \<le> card (spent action scope s)"
    using approval_trace_bound [OF assms] by (simp_all add: tbl_ok_def tbl_objs_def)
  have "spent action scope s = {a \<in> tbl_objs approvals s. ap_action a = action \<and> ap_scope a = Some scope
      \<and> ap_scope_kind a = SK_ONE_TIME \<and> ap_decision a = AD_APPROVED \<and> ap_actor a \<noteq> None \<and> ap_consumed_at a \<noteq> None}"
    using b(2) unfolding spent_def approval_wf_def by (intro Collect_cong) (metis approval_decision.distinct(1))
  then show ?thesis using b(3) by simp
qed

theorem one_time_approvals_spent_once_witness:
  "\<exists>s. approval_trace ''compute.submit:modal'' ''k1'' 1 empty_db s
    \<and> 1 \<le> card {a \<in> tbl_objs approvals s. ap_action a = ''compute.submit:modal'' \<and> ap_scope a = Some ''k1''
         \<and> ap_scope_kind a = SK_ONE_TIME \<and> ap_decision a = AD_APPROVED \<and> ap_actor a \<noteq> None
         \<and> ap_consumed_at a \<noteq> None}"
proof -
  obtain s where run: "require_approval ''t4'' ''bb'' ''t5'' ''compute.submit:modal'' ''k1'' ''m'' ''r''
      (ex_resolved ''approved'') = (Inr (), s)" using ex_pass by blast
  have pre: "approval_trace ''compute.submit:modal'' ''k1'' 0 empty_db (ex_resolved ''approved'')"
    using ex_steps by (meson approval_trace.start approval_trace.other)
  have "\<forall>a \<in> tbl_objs approvals (ex_resolved ''approved''). covers ''compute.submit:modal'' ''k1'' a \<longrightarrow> \<not> standing a"
    using ex_objs [of AD_APPROVED] by (simp add: standing_def ex_approval_def new_approval_def)
  from approval_trace.pass [OF pre this run]
  have "approval_trace ''compute.submit:modal'' ''k1'' 1 empty_db s" by simp
  then show ?thesis using one_time_approvals_spent_once by blast
qed

text \<open>
  From a state where no approval settles an action on a scope: the first
  call files one pending request and raises its id; retries raise the same id and write nothing;
  once it is denied, retries raise \<open>StateError\<close> and write nothing; once it is approved (with no
  wider scope), the next call passes and the one after that files a new request.
\<close>

theorem approval_lifecycle:
  assumes "tbl_ok approvals s" and "unsettled action scope s" and "i = new_id ''approval'' u"
    and "j = new_id ''approval'' v" and "i \<notin> tbl_ids approvals s" and "j \<notin> insert i (tbl_ids approvals s)"
  shows "\<exists>s1. require_approval n u n' action scope msg why s = (Inl (ApprovalRequiredError i action msg), s1)
    \<and> require_approval n2 u2 n2' action scope msg why s1 = (Inl (ApprovalRequiredError i action msg), s1)
    \<and> (\<exists>d sd e. resolve_approval now i ''denied'' actor remark None s1 = (Inr d, sd)
          \<and> require_approval n3 u3 n3' action scope msg why sd = (Inl (StateError e), sd))
    \<and> (\<exists>a sa sb sc. resolve_approval now i ''approved'' actor remark None s1 = (Inr a, sa)
          \<and> require_approval n4 u4 n4' action scope msg why sa = (Inr (), sb)
          \<and> require_approval n5 v n5' action scope msg why sb = (Inl (ApprovalRequiredError j action msg), sc))"
proof -
  let ?p = "new_approval u n' action (Some scope) None None None (Some why)"
  have p: "ap_decision ?p = AD_PENDING" "ap_id ?p = i" "ap_scope ?p = Some scope"
    by (simp_all add: new_approval_def assms(3))
  obtain s1 where s1: "require_approval n u n' action scope msg why s =
      (Inl (ApprovalRequiredError i action msg), s1)" and rq: "requested action scope ?p s s1"
    and ids1: "tbl_ids approvals s1 = insert i (tbl_ids approvals s)"
    using request_run [OF assms(1,2), of u] assms(3,5) by metis
  have again: "require_approval n2 u2 n2' action scope msg why s1 = (Inl (ApprovalRequiredError i action msg), s1)"
    using requested_require [OF rq] p by (simp add: decides_def settle_def standing_def)
  obtain d sd where d: "resolve_approval now i ''denied'' actor remark None s1 = (Inr d, sd)"
      "requested action scope d s sd" "ap_decision d = AD_DENIED"
    using resolve_run [OF rq p(1), of AD_DENIED now actor remark] unfolding p(2) by auto
  then have "require_approval n3 u3 n3' action scope msg why sd =
      (Inl (StateError (''approval denied for '' @ action @ '' ('' @ scope @ '')'')), sd)"
    using requested_require [OF d(2)] by (simp add: decides_def settle_def standing_def requested_def)
  then have denied: "\<exists>e. require_approval n3 u3 n3' action scope msg why sd = (Inl (StateError e), sd)" by blast
  obtain a sa where a: "resolve_approval now i ''approved'' actor remark None s1 = (Inr a, sa)"
      "requested action scope a s sa" "ap_decision a = AD_APPROVED" "ap_id a = i"
      "tbl_ids approvals sa = tbl_ids approvals s1"
    using resolve_run [OF rq p(1), of AD_APPROVED now actor remark] unfolding p(2) by auto
  let ?a = "a\<lparr>ap_consumed_at := Some n4\<rparr>"
  have rqa: "tbl_ok approvals sa" "a \<in> tbl_objs approvals sa" "ap_scope a = Some scope"
      "ap_scope_kind a = SK_ONE_TIME" "ap_consumed_at a = None"
      "tbl_objs approvals sa \<subseteq> insert a (tbl_objs approvals s)" using a(2) by (simp_all add: requested_def)
  obtain sb where upd: "repo_update approvals ?a sa = (Inr ?a, sb)"
    using approvals.update_known [of ?a sa] a(4,5) ids1 by auto
  have pass: "require_approval n4 u4 n4' action scope msg why sa = (Inr (), sb)"
    using requested_require [OF a(2)] a(3) rqa upd
    by (simp add: decides_def settle_def standing_def spendable_def eff_bind_def)
  have okb: "tbl_ok approvals sb" using approvals.update_preserves_ok [OF rqa(1), of ?a] upd by simp
  have "tbl_objs approvals sb \<subseteq> insert ?a (tbl_objs approvals s)"
    using approvals.update_objs [OF rqa(1) upd] rqa(6) by auto
  moreover have "\<not> decides scope ?a" using a(3) rqa(4) by (simp add: decides_def standing_def spendable_def)
  ultimately have unb: "unsettled action scope sb" using assms(2) by (auto simp: unsettled_def)
  have "tbl_ids approvals sb = insert i (tbl_ids approvals s)"
    using approvals.update_ids [of ?a sa] upd a(5) ids1 by simp
  then obtain sc where "require_approval n5 v n5' action scope msg why sb =
      (Inl (ApprovalRequiredError j action msg), sc)"
    using request_run [OF okb unb, of v] assms(4,6) by metis
  then show ?thesis using s1 again d(1) denied a(1) pass by blast
qed

theorem approval_lifecycle_witness:
  "\<exists>s1 a sa sb. require_approval ''t1'' ''aa'' ''t2'' ''compute.submit:modal'' ''k1'' ''m'' ''r'' empty_db =
      (Inl (ApprovalRequiredError ''approval_aa'' ''compute.submit:modal'' ''m''), s1)
    \<and> resolve_approval ''t3'' ''approval_aa'' ''approved'' ''op'' None None s1 = (Inr a, sa)
    \<and> require_approval ''t4'' ''cc'' ''t5'' ''compute.submit:modal'' ''k1'' ''m'' ''r'' sa = (Inr (), sb)"
proof -
  have "tbl_ok approvals empty_db" and "unsettled ''compute.submit:modal'' ''k1'' empty_db"
    and "tbl_ids approvals empty_db = {}" by (simp_all add: tbl_ok_def tbl_objs_def tbl_ids_def unsettled_def)
  then show ?thesis
    using approval_lifecycle [of empty_db "''compute.submit:modal''" "''k1''" "''approval_aa''" "''aa''"
        "''approval_bb''" "''bb''" "''t1''" "''t2''" "''m''" "''r''" "[]" "[]" "[]" "''t3''" "''op''" None
        "[]" "[]" "[]" "''t4''" "''cc''" "''t5''" "[]" "[]"]
    by (simp add: new_id_def) blast
qed

end
