(* ===== verification/Py_Format.thy ===== *)
theory Py_Format
  imports Prelude
begin

text \<open>
  The format specifications the messages of the program use: \<open>str(int)\<close>, \<open>{x:.2f}\<close> and
  \<open>{x:g}\<close>. Both float formats round the exact value half to even, as CPython does on the
  exact binary value; \<open>:g\<close> keeps six significant digits, drops trailing zeros and switches to
  exponent notation below \<open>1e-4\<close> and from \<open>1e6\<close>.
\<close>

definition digit_char :: "nat \<Rightarrow> char" where
  "digit_char n = char_of (48 + n mod 10)"

fun nat_str :: "nat \<Rightarrow> string" where
  "nat_str n = (if n < 10 then [digit_char n] else nat_str (n div 10) @ [digit_char n])"

declare nat_str.simps [simp del]

definition int_str :: "int \<Rightarrow> string" where
  "int_str i = (if i < 0 then ''-'' @ nat_str (nat (- i)) else nat_str (nat i))"

definition round_half_even :: "rat \<Rightarrow> int" where
  "round_half_even q =
     (let f = \<lfloor>q\<rfloor>; d = q - of_int f
      in if d < 1 / 2 then f else if 1 / 2 < d then f + 1 else if even f then f else f + 1)"

text \<open>\<open>n\<close> padded with zeros on the left to \<open>w\<close> digits.\<close>

definition zfill :: "nat \<Rightarrow> string \<Rightarrow> string" where
  "zfill w s = replicate (w - length s) CHR ''0'' @ s"

text \<open>\<open>fmt_2f q\<close> is \<open>f"{q:.2f}"\<close>.\<close>

definition fmt_2f :: "rat \<Rightarrow> string" where
  "fmt_2f q =
     (let n = nat (round_half_even (\<bar>q\<bar> * 100))
      in (if q < 0 then ''-'' else []) @ nat_str (n div 100) @ ''.'' @ zfill 2 (nat_str (n mod 100)))"

definition rstrip_zeros :: "string \<Rightarrow> string" where
  "rstrip_zeros s = rev (dropWhile (\<lambda>c. c = CHR ''0'') (rev s))"

text \<open>The decimal exponent of a positive value.\<close>

definition dec_exp :: "rat \<Rightarrow> int" where
  "dec_exp q =
     (if 1 \<le> q then int (length (nat_str (nat \<lfloor>q\<rfloor>))) - 1
      else (case find (\<lambda>k. 1 \<le> q * 10 ^ k) [1..<length (nat_str (nat (snd (quotient_of q)))) + 2] of
              None \<Rightarrow> 0 | Some k \<Rightarrow> - int k))"

definition scale10 :: "rat \<Rightarrow> int \<Rightarrow> rat" where
  "scale10 q e = (if 0 \<le> e then q * 10 ^ nat e else q / 10 ^ nat (- e))"

text \<open>\<open>fmt_g q\<close> is \<open>f"{q:g}"\<close>.\<close>

definition fmt_g :: "rat \<Rightarrow> string" where
  "fmt_g q =
     (if q = 0 then ''0'' else
      let a = \<bar>q\<bar>;
          e0 = dec_exp a;
          m0 = round_half_even (scale10 a (5 - e0));
          e = (if m0 = 1000000 then e0 + 1 else e0);
          m = nat (if m0 = 1000000 then 100000 else m0);
          ds = nat_str m;
          sign = (if q < 0 then ''-'' else [])
      in if e < - 4 \<or> 6 \<le> e then
           (let frac = rstrip_zeros (tl ds)
            in sign @ take 1 ds @ (if frac = [] then [] else ''.'' @ frac)
               @ ''e'' @ (if e < 0 then ''-'' else ''+'') @ zfill 2 (nat_str (nat \<bar>e\<bar>)))
         else if 0 \<le> e then
           (let frac = rstrip_zeros (drop (nat e + 1) ds)
            in sign @ take (nat e + 1) ds @ (if frac = [] then [] else ''.'' @ frac))
         else
           (let frac = rstrip_zeros (replicate (nat (- e) - 1) CHR ''0'' @ ds)
            in sign @ ''0'' @ (if frac = [] then [] else ''.'' @ frac)))"

lemma nat_str_nonempty [simp]: "nat_str n \<noteq> []"
  by (subst nat_str.simps) simp

lemma round_half_even_nearest: "\<bar>of_int (round_half_even q) - q\<bar> \<le> 1 / 2"
proof -
  have "of_int \<lfloor>q\<rfloor> \<le> q" and "q < of_int \<lfloor>q\<rfloor> + 1" by linarith+
  then show ?thesis by (auto simp: round_half_even_def Let_def)
qed

end
