(* ===== verification/Compute.thy ===== *)
theory Compute
  imports Approvals Py_Format
begin

text \<open>
  The compute provider protocol of \<open>science/omnisci/compute/base.py\<close>: the execution
  specification with its canonical JSON form and hash, the plan, reference and status types, and
  \<open>ComputeProvider\<close> as a record of the operations the service calls. The service state is the
  database with the in-memory \<open>policies\<close> of \<open>ScienceService\<close>; a provider's own state (run
  records on disk, a remote queue) is an extension of it. The locale \<open>compute_provider\<close> is the
  contract the service relies on.
\<close>

subsection \<open>Execution specification\<close>

record execution_metadata =
  md_name :: string
  md_idempotency_key :: "string option"

record source_spec =
  src_working_directory :: string
  src_git_commit :: "string option"

record gpu_spec =
  gpu_type :: string
  gpu_count :: int

record resource_spec =
  res_cpu :: "int option"
  res_memory_gib :: "rat option"
  res_gpu :: "gpu_spec option"

record environment_spec =
  env_image :: "string option"
  env_lockfile :: "string option"

record input_spec =
  in_uri :: string
  in_path :: "string option"
  in_read_only :: bool

record output_spec =
  out_path :: "string option"
  out_destination :: "string option"
  out_files :: "string list"

record limit_spec =
  max_runtime_minutes :: "rat option"
  max_estimated_cost_usd :: "rat option"

datatype network_mode = NM_ALLOW | NM_DENY

record execution_details =
  ed_provider :: string
  ed_mode :: string
  ed_source :: source_spec
  ed_command :: "string list"
  ed_environment :: environment_spec
  ed_resources :: "resource_spec option"
  ed_inputs :: "input_spec list"
  ed_outputs :: "output_spec option"
  ed_limits :: limit_spec
  ed_network :: network_mode

record execution_spec =
  es_api_version :: string
  es_kind :: string
  es_metadata :: execution_metadata
  es_spec :: execution_details

subsection \<open>The canonical JSON form\<close>

text \<open>
  \<open>model_dump(by_alias=True, mode="json")\<close> with the keys in the sorted order of
  \<open>canonical_json\<close>.
\<close>

definition j_str :: "string option \<Rightarrow> json" where
  "j_str x = (case x of None \<Rightarrow> JNull | Some s \<Rightarrow> JStr s)"

definition j_int :: "int option \<Rightarrow> json" where
  "j_int x = (case x of None \<Rightarrow> JNull | Some i \<Rightarrow> JInt i)"

definition j_float :: "rat option \<Rightarrow> json" where
  "j_float x = (case x of None \<Rightarrow> JNull | Some q \<Rightarrow> JFloat q)"

definition j_opt :: "('a \<Rightarrow> json) \<Rightarrow> 'a option \<Rightarrow> json" where
  "j_opt f x = (case x of None \<Rightarrow> JNull | Some y \<Rightarrow> f y)"

definition metadata_json :: "execution_metadata \<Rightarrow> json" where
  "metadata_json m = JDict [(''idempotencyKey'', j_str (md_idempotency_key m)), (''name'', JStr (md_name m))]"

definition source_json :: "source_spec \<Rightarrow> json" where
  "source_json x = JDict [(''gitCommit'', j_str (src_git_commit x)),
                          (''workingDirectory'', JStr (src_working_directory x))]"

definition gpu_json :: "gpu_spec \<Rightarrow> json" where
  "gpu_json g = JDict [(''count'', JInt (gpu_count g)), (''type'', JStr (gpu_type g))]"

definition resource_json :: "resource_spec \<Rightarrow> json" where
  "resource_json r = JDict [(''cpu'', j_int (res_cpu r)), (''gpu'', j_opt gpu_json (res_gpu r)),
                            (''memoryGiB'', j_float (res_memory_gib r))]"

definition environment_json :: "environment_spec \<Rightarrow> json" where
  "environment_json e = JDict [(''image'', j_str (env_image e)), (''lockfile'', j_str (env_lockfile e))]"

definition input_json :: "input_spec \<Rightarrow> json" where
  "input_json i = JDict [(''path'', j_str (in_path i)), (''readOnly'', JBool (in_read_only i)),
                         (''uri'', JStr (in_uri i))]"

definition output_json :: "output_spec \<Rightarrow> json" where
  "output_json x = JDict [(''destination'', j_str (out_destination x)),
                          (''files'', JList (map JStr (out_files x))), (''path'', j_str (out_path x))]"

definition limit_json :: "limit_spec \<Rightarrow> json" where
  "limit_json l = JDict [(''maxEstimatedCostUsd'', j_float (max_estimated_cost_usd l)),
                         (''maxRuntimeMinutes'', j_float (max_runtime_minutes l))]"

fun network_value :: "network_mode \<Rightarrow> string" where
  "network_value NM_ALLOW = ''allow''"
| "network_value NM_DENY = ''deny''"

definition details_json :: "execution_details \<Rightarrow> json" where
  "details_json d = JDict
     [(''command'', JList (map JStr (ed_command d))), (''environment'', environment_json (ed_environment d)),
      (''inputs'', JList (map input_json (ed_inputs d))), (''limits'', limit_json (ed_limits d)),
      (''mode'', JStr (ed_mode d)), (''network'', JDict [(''mode'', JStr (network_value (ed_network d)))]),
      (''outputs'', j_opt output_json (ed_outputs d)), (''provider'', JStr (ed_provider d)),
      (''resources'', j_opt resource_json (ed_resources d)), (''source'', source_json (ed_source d))]"

definition spec_json :: "execution_spec \<Rightarrow> json" where
  "spec_json x = JDict [(''apiVersion'', JStr (es_api_version x)), (''kind'', JStr (es_kind x)),
                        (''metadata'', metadata_json (es_metadata x)), (''spec'', details_json (es_spec x))]"

text \<open>\<open>digest\<close> is the SHA-256 hex digest of the compact text of a JSON value.\<close>

definition spec_hash :: "(json \<Rightarrow> string) \<Rightarrow> execution_spec \<Rightarrow> string" where
  "spec_hash digest x = digest (spec_json x)"

subsection \<open>Provider contract types\<close>

record execution_plan =
  pl_provider :: string
  pl_spec :: execution_spec
  pl_spec_hash :: string
  pl_idempotency_key :: string
  pl_working_directory :: string
  pl_command :: "string list"
  pl_resolved_outputs :: "string list"

record run_reference =
  ref_provider :: string
  ref_provider_run_id :: string
  ref_run_id :: string

record run_status =
  rst_run_id :: string
  rst_status :: run_state
  rst_exit_code :: "int option"
  rst_queued_at :: "string option"
  rst_started_at :: "string option"
  rst_finished_at :: "string option"
  rst_detail :: string

record service_state = science_db +
  sv_policies :: "json dict"

record 's provider =
  p_validate :: "execution_spec \<Rightarrow> ('s, execution_plan) eff"
  p_submit :: "execution_plan \<Rightarrow> ('s, run_reference) eff"
  p_status :: "run_reference \<Rightarrow> ('s, run_status) eff"
  p_cancel :: "run_reference \<Rightarrow> ('s, unit) eff"
  p_collect :: "run_reference \<Rightarrow> ('s, artifact list) eff"

text \<open>The part of the state a provider must leave alone.\<close>

definition same_science :: "'z service_state_scheme \<Rightarrow> 'z service_state_scheme \<Rightarrow> bool" where
  "same_science s t \<longleftrightarrow> service_state.truncate t = service_state.truncate s"

subsection \<open>Lemmas: the canonical form determines the specification\<close>

lemma j_inj [simp]:
  "j_str x = j_str y \<longleftrightarrow> x = y"
  "j_int a = j_int b \<longleftrightarrow> a = b"
  "j_float p = j_float q \<longleftrightarrow> p = q"
  by (auto simp: j_str_def j_int_def j_float_def split: option.splits)

lemma j_opt_inj: "(\<And>x y. f x = f y \<longleftrightarrow> x = y) \<Longrightarrow> (\<And>x. f x \<noteq> JNull) \<Longrightarrow> j_opt f a = j_opt f b \<longleftrightarrow> a = b"
  by (cases a; cases b) (simp_all add: j_opt_def, metis)

lemma map_inj_iff: "(\<And>x y. f x = f y \<longleftrightarrow> x = y) \<Longrightarrow> map f xs = map f ys \<longleftrightarrow> xs = ys"
  by (meson inj_map_eq_map injI)

lemma gpu_json_inj [simp]: "gpu_json g = gpu_json h \<longleftrightarrow> g = h"
  by (cases g; cases h) (auto simp: gpu_json_def)

lemma opt_gpu_inj [simp]: "j_opt gpu_json a = j_opt gpu_json b \<longleftrightarrow> a = b"
  by (rule j_opt_inj) (simp, simp add: gpu_json_def)

lemma resource_json_inj [simp]: "resource_json r = resource_json q \<longleftrightarrow> r = q"
  by (cases r; cases q) (auto simp: resource_json_def)

lemma opt_resource_inj [simp]: "j_opt resource_json a = j_opt resource_json b \<longleftrightarrow> a = b"
  by (rule j_opt_inj) (simp, simp add: resource_json_def)

lemma input_json_inj [simp]: "input_json r = input_json q \<longleftrightarrow> r = q"
  by (cases r; cases q) (auto simp: input_json_def)

lemma map_input_json_inj [simp]: "map input_json xs = map input_json ys \<longleftrightarrow> xs = ys"
  by (rule map_inj_iff) simp

lemma map_JStr_inj [simp]: "map JStr xs = map JStr ys \<longleftrightarrow> xs = ys"
  by (rule map_inj_iff) simp

lemma output_json_inj [simp]: "output_json r = output_json q \<longleftrightarrow> r = q"
  by (cases r; cases q) (auto simp: output_json_def)

lemma opt_output_inj [simp]: "j_opt output_json a = j_opt output_json b \<longleftrightarrow> a = b"
  by (rule j_opt_inj) (simp, simp add: output_json_def)

lemma environment_json_inj [simp]: "environment_json r = environment_json q \<longleftrightarrow> r = q"
  by (cases r; cases q) (auto simp: environment_json_def)

lemma limit_json_inj [simp]: "limit_json r = limit_json q \<longleftrightarrow> r = q"
  by (cases r; cases q) (auto simp: limit_json_def)

lemma source_json_inj [simp]: "source_json r = source_json q \<longleftrightarrow> r = q"
  by (cases r; cases q) (auto simp: source_json_def)

lemma metadata_json_inj [simp]: "metadata_json r = metadata_json q \<longleftrightarrow> r = q"
  by (cases r; cases q) (auto simp: metadata_json_def)

lemma network_value_inj [simp]: "network_value a = network_value b \<longleftrightarrow> a = b"
  by (cases a; cases b) simp_all

lemma details_json_inj [simp]: "details_json r = details_json q \<longleftrightarrow> r = q"
  by (cases r; cases q) (auto simp: details_json_def)

lemma spec_json_inj [simp]: "spec_json r = spec_json q \<longleftrightarrow> r = q"
  by (cases r; cases q) (auto simp: spec_json_def)

subsection \<open>What the service relies on\<close>

lemma same_science_refl [simp]: "same_science s s"
  by (simp add: same_science_def)

lemma same_science_trans: "same_science s t \<Longrightarrow> same_science t u \<Longrightarrow> same_science s u"
  by (simp add: same_science_def)

lemma same_science_rows:
  assumes "same_science s t"
  shows "tb_rows tasks t = tb_rows tasks s" "tb_rows research_log t = tb_rows research_log s"
    "tb_rows runs t = tb_rows runs s" "tb_rows artifacts t = tb_rows artifacts s"
    "tb_rows reviews t = tb_rows reviews s" "tb_rows issues t = tb_rows issues s"
    "tb_rows approvals t = tb_rows approvals s" "db_settings t = db_settings s"
    "sv_policies t = sv_policies s"
  using assms by (simp_all add: same_science_def service_state.truncate_def tbl_defs)

text \<open>
  The contract of a provider: \<open>validate\<close> only computes (it returns \<open>plan_of spec\<close>), the plan is
  for the spec it was asked to validate, and no operation touches the service's own state.
\<close>

locale compute_provider =
  fixes P :: "('z service_state_scheme) provider" and plan_of :: "execution_spec \<Rightarrow> execution_plan res"
  assumes validate_pure: "p_validate P spec = eff_lift (\<lambda>_. plan_of spec)"
    and plan_spec: "plan_of spec = Inr plan \<Longrightarrow> pl_spec plan = spec \<and> pl_provider plan = ed_provider (es_spec spec)"
    and submit_frame: "p_submit P plan s = (r1, t) \<Longrightarrow> same_science s t"
    and status_frame: "p_status P ref s = (r2, t) \<Longrightarrow> same_science s t"
    and cancel_frame: "p_cancel P ref s = (r3, t) \<Longrightarrow> same_science s t"
    and collect_frame: "p_collect P ref s = (r4, t) \<Longrightarrow> same_science s t"

text \<open>
  The canonical JSON form the hash is taken of determines the
  specification: no two different execution specifications share a canonical form, so two jobs
  get the same default idempotency key only through a collision of the digest itself.
\<close>

theorem spec_json_determines: "spec_json x = spec_json y \<longleftrightarrow> x = y"
  by (rule spec_json_inj)

end
