(* ===== verification/Local_Compute.thy ===== *)
theory Local_Compute
  imports Compute
begin

text \<open>
  The local subprocess provider, \<open>science/omnisci/compute/local.py\<close>. A run directory holds
  \<open>run.json\<close>, \<open>execution_spec.json\<close>, the two logs and the outputs manifest; the directories
  are part of the state. What a call takes from the host is its environment \<open>local_env\<close>: path
  resolution, file tests and metadata, the digest, fresh ids and times, and how launching and
  waiting for the process went. \<open>submit\<close> is the sequence of its three writes of \<open>run.json\<close>
  (queued, running, finished); the step relation \<open>local_step\<close> interleaves them with the read and
  the write of a concurrent \<open>cancel\<close>.
\<close>

subsection \<open>State and environment\<close>

record run_record =
  rr_status :: run_state
  rr_queued_at :: string
  rr_started_at :: "string option"
  rr_finished_at :: "string option"
  rr_exit_code :: "int option"
  rr_pid :: "int option"
  rr_spec_hash :: string
  rr_idempotency_key :: string
  rr_command :: "string list"
  rr_working_directory :: string
  rr_network_mode :: network_mode
  rr_sandbox_enforced :: bool

record run_dir =
  rd_record :: "run_record option"
  rd_spec :: "execution_spec option"
  rd_stdout :: "string option"
  rd_stderr :: "string option"
  rd_manifest :: "(string option \<times> string option \<times> int option) list option"

record local_state = service_state +
  lc_dirs :: "run_dir dict"

datatype wait_result = Exited int | Expired

record local_env =
  le_project :: string
  le_resolve :: "string \<Rightarrow> string"
  le_is_dir :: "string \<Rightarrow> bool"
  le_is_file :: "string \<Rightarrow> bool"
  le_rglob :: "string \<Rightarrow> string list"
  le_mime :: "string \<Rightarrow> string option"
  le_size :: "string \<Rightarrow> int"
  le_sha :: "string \<Rightarrow> string"
  le_digest :: "json \<Rightarrow> string"
  le_sandbox :: bool
  le_uuid :: string
  le_now1 :: string
  le_now2 :: string
  le_now3 :: string
  le_launch :: "unit res"
  le_popen :: "int res"
  le_wait :: wait_result
  le_stdout :: string
  le_stderr :: string
  le_draw :: "nat \<Rightarrow> string \<times> string"

definition terminal :: "run_state \<Rightarrow> bool" where
  "terminal st \<longleftrightarrow> st \<in> {SUCCEEDED, FAILED, CANCELLED, TIMEOUT}"

text \<open>\<open>p == q or p.is_relative_to(q)\<close> on resolved paths.\<close>

definition is_within :: "string \<Rightarrow> string \<Rightarrow> bool" where
  "is_within q p \<longleftrightarrow> p = q \<or> startswith p (if q = ''/'' then q else q @ ''/'')"

subsection \<open>Validation\<close>

fun check_outputs :: "local_env \<Rightarrow> string list \<Rightarrow> string list res" where
  "check_outputs env [] = Inr []"
| "check_outputs env (rel # rels) =
     (if \<not> is_within (le_project env) (le_resolve env rel)
      then Inl (StateError (''declared output outside project: '' @ rel))
      else res_bind (check_outputs env rels) (\<lambda>out. Inr (rel # out)))"

definition output_candidates :: "execution_details \<Rightarrow> string list" where
  "output_candidates d =
     (case ed_outputs d of
        None \<Rightarrow> []
      | Some x \<Rightarrow> out_files x @ (case out_path x of None \<Rightarrow> [] | Some p \<Rightarrow> if p = [] then [] else [p]))"

definition local_validate :: "local_env \<Rightarrow> execution_spec \<Rightarrow> execution_plan res" where
  "local_validate env spec =
     (let d = es_spec spec; wd = le_resolve env (src_working_directory (ed_source d)) in
      if ed_provider d \<noteq> ''local''
      then Inl (StateError (''local provider cannot execute spec for provider '' @ sq (ed_provider d)))
      else if ed_command d = [] then Inl (StateError ''execution spec has an empty command'')
      else if ed_mode d \<notin> {''sandbox'', ''subprocess''}
      then Inl (StateError (''local provider does not support execution mode '' @ sq (ed_mode d)))
      else if ed_mode d = ''sandbox'' \<and> \<not> le_sandbox env
      then Inl (StateError (''sandbox mode requires OmniGent'' @ [CHR 0x27] @ ''s platform sandbox ''
              @ ''(sandbox-exec on macOS or bwrap on Linux)''))
      else if ed_mode d = ''subprocess'' \<and> ed_network d = NM_DENY
      then Inl (StateError (''network.mode=deny requires mode=sandbox; plain subprocess mode ''
              @ ''cannot enforce network isolation''))
      else if env_image (ed_environment d) \<notin> {None, Some ''local''}
      then Inl (StateError (''local provider cannot enforce container image ''
              @ sq (str_or (env_image (ed_environment d)) []) @ ''; use image '' @ sq ''local'' @ '' or omit it''))
      else if (case ed_resources d of None \<Rightarrow> False | Some r \<Rightarrow> res_gpu r \<noteq> None)
      then Inl (StateError ''local provider does not advertise GPU execution'')
      else if ed_inputs d \<noteq> [] then Inl (StateError (''local provider does not stage execution-spec inputs; ''
              @ ''stage them with '' @ sq ''science storage stage'' @ '' first''))
      else if (case ed_outputs d of None \<Rightarrow> False | Some x \<Rightarrow> str_truthy (out_destination x))
      then Inl (StateError (''local provider does not upload output destinations; ''
              @ ''collect locally and use '' @ sq ''science storage put''))
      else if \<not> is_within (le_project env) wd
      then Inl (StateError (''working directory outside project: '' @ src_working_directory (ed_source d)))
      else if \<not> le_is_dir env wd then Inl (StateError (''working directory does not exist: '' @ wd))
      else
        res_bind (check_outputs env (output_candidates d)) (\<lambda>outs.
        let h = spec_hash (le_digest env) spec in
        Inr \<lparr>pl_provider = ''local'', pl_spec = spec, pl_spec_hash = h,
             pl_idempotency_key = str_or (md_idempotency_key (es_metadata spec)) h,
             pl_working_directory = wd, pl_command = ed_command d, pl_resolved_outputs = outs\<rparr>))"

subsection \<open>Run records\<close>

definition read_record :: "string \<Rightarrow> 'z local_state_scheme \<Rightarrow> run_record res" where
  "read_record i s =
     (case dict_get (lc_dirs s) i of
        None \<Rightarrow> Inl (NotFoundError (''run not found: '' @ i))
      | Some d \<Rightarrow> (case rd_record d of
                    None \<Rightarrow> Inl (NotFoundError (''run not found: '' @ i))
                  | Some r \<Rightarrow> Inr r))"

definition with_dir :: "string \<Rightarrow> (run_dir \<Rightarrow> run_dir) \<Rightarrow> 'z local_state_scheme \<Rightarrow> 'z local_state_scheme" where
  "with_dir i f s =
     (case dict_get (lc_dirs s) i of
        None \<Rightarrow> s
      | Some d \<Rightarrow> s\<lparr>lc_dirs := dict_set i (f d) (lc_dirs s)\<rparr>)"

definition write_record :: "string \<Rightarrow> run_record \<Rightarrow> ('z local_state_scheme, unit) eff" where
  "write_record i r s = (Inr (), with_dir i (rd_record_update (\<lambda>_. Some r)) s)"

subsection \<open>Submission\<close>

definition queued_record :: "local_env \<Rightarrow> execution_plan \<Rightarrow> run_record" where
  "queued_record env plan =
     \<lparr>rr_status = QUEUED, rr_queued_at = le_now1 env, rr_started_at = None, rr_finished_at = None,
      rr_exit_code = None, rr_pid = None, rr_spec_hash = pl_spec_hash plan,
      rr_idempotency_key = pl_idempotency_key plan, rr_command = pl_command plan,
      rr_working_directory = pl_working_directory plan,
      rr_network_mode = ed_network (es_spec (pl_spec plan)),
      rr_sandbox_enforced = (ed_mode (es_spec (pl_spec plan)) = ''sandbox'')\<rparr>"

definition running_record :: "local_env \<Rightarrow> int \<Rightarrow> run_record \<Rightarrow> run_record" where
  "running_record env pid r = r\<lparr>rr_status := RUNNING, rr_pid := Some pid, rr_started_at := Some (le_now2 env)\<rparr>"

text \<open>
  The end of \<open>submit\<close>: on exit the record on disk is read again, because a concurrent
  \<open>cancel\<close> may have written it; what is written is the thread's own copy.
\<close>

definition final_status :: "wait_result \<Rightarrow> run_state \<Rightarrow> run_state" where
  "final_status w latest =
     (case w of
        Exited code \<Rightarrow> if latest = CANCELLED then CANCELLED else if code = 0 then SUCCEEDED else FAILED
      | Expired \<Rightarrow> TIMEOUT)"

definition finished_record :: "string \<Rightarrow> wait_result \<Rightarrow> run_state \<Rightarrow> run_record \<Rightarrow> run_record" where
  "finished_record now w latest r =
     r\<lparr>rr_status := final_status w latest,
       rr_exit_code := (case w of Exited code \<Rightarrow> Some code | Expired \<Rightarrow> None),
       rr_finished_at := Some now\<rparr>"

definition make_run_dir :: "string \<Rightarrow> ('z local_state_scheme, unit) eff" where
  "make_run_dir i s =
     (if dict_has (lc_dirs s) i then (Inl (OtherError ''FileExistsError''), s)
      else (Inr (), s\<lparr>lc_dirs := dict_set i \<lparr>rd_record = None, rd_spec = None, rd_stdout = None,
                        rd_stderr = None, rd_manifest = None\<rparr> (lc_dirs s)\<rparr>))"

definition set_dir :: "string \<Rightarrow> (run_dir \<Rightarrow> run_dir) \<Rightarrow> ('z local_state_scheme, unit) eff" where
  "set_dir i f s = (Inr (), with_dir i f s)"

definition local_submit :: "local_env \<Rightarrow> execution_plan \<Rightarrow> ('z local_state_scheme, run_reference) eff" where
  "local_submit env plan =
     (let i = new_id ''run'' (le_uuid env); q = queued_record env plan in
      eff_bind (make_run_dir i) (\<lambda>_.
      eff_bind (write_record i q) (\<lambda>_.
      eff_bind (set_dir i (rd_spec_update (\<lambda>_. Some (pl_spec plan)))) (\<lambda>_.
      eff_bind (set_dir i (rd_stdout_update (\<lambda>_. Some []) \<circ> rd_stderr_update (\<lambda>_. Some []))) (\<lambda>_.
      eff_bind (eff_lift (\<lambda>_. le_launch env)) (\<lambda>_.
      eff_bind (eff_lift (\<lambda>_. le_popen env)) (\<lambda>pid.
      let r = running_record env pid q in
      eff_bind (write_record i r) (\<lambda>_.
      eff_bind (set_dir i (rd_stdout_update (\<lambda>_. Some (le_stdout env))
                           \<circ> rd_stderr_update (\<lambda>_. Some (le_stderr env)))) (\<lambda>_.
      eff_bind (case le_wait env of
                  Exited code \<Rightarrow> eff_bind (eff_lift (read_record i)) (\<lambda>latest. eff_return (rr_status latest))
                | Expired \<Rightarrow> eff_return RUNNING) (\<lambda>latest.
      eff_bind (write_record i (finished_record (le_now3 env) (le_wait env) latest r)) (\<lambda>_.
      eff_return \<lparr>ref_provider = ''local'', ref_provider_run_id = int_str pid, ref_run_id = i\<rparr>)))))))))))"

subsection \<open>Status, logs, cancellation and collection\<close>

definition local_status :: "run_reference \<Rightarrow> ('z local_state_scheme, run_status) eff" where
  "local_status ref =
     eff_bind (eff_lift (read_record (ref_run_id ref))) (\<lambda>r.
     eff_return \<lparr>rst_run_id = ref_run_id ref, rst_status = rr_status r, rst_exit_code = rr_exit_code r,
                 rst_queued_at = Some (rr_queued_at r), rst_started_at = rr_started_at r,
                 rst_finished_at = rr_finished_at r, rst_detail = []\<rparr>)"

definition local_logs :: "run_reference \<Rightarrow> 'z local_state_scheme \<Rightarrow> (string \<times> string \<times> string option) res" where
  "local_logs ref s =
     (case dict_get (lc_dirs s) (ref_run_id ref) of
        None \<Rightarrow> Inl (NotFoundError (''run not found: '' @ ref_run_id ref))
      | Some d \<Rightarrow> (case (rd_stdout d, rd_stderr d) of
                    (Some a, Some b) \<Rightarrow> Inr (a, b, None)
                  | _ \<Rightarrow> Inl (OtherError ''FileNotFoundError'')))"

definition cancelled_record :: "string \<Rightarrow> run_record \<Rightarrow> run_record" where
  "cancelled_record now r = r\<lparr>rr_status := CANCELLED, rr_finished_at := Some now\<rparr>"

definition cancel_check :: "run_reference \<Rightarrow> run_record \<Rightarrow> unit res" where
  "cancel_check ref r =
     (if terminal (rr_status r)
      then Inl (StateError (''run '' @ ref_run_id ref @ '' already terminal (''
                            @ run_state_value (rr_status r) @ ''); cannot cancel''))
      else Inr ())"

definition local_cancel :: "local_env \<Rightarrow> run_reference \<Rightarrow> ('z local_state_scheme, unit) eff" where
  "local_cancel env ref =
     eff_bind (eff_lift (read_record (ref_run_id ref))) (\<lambda>r.
     eff_bind (eff_lift (\<lambda>_. cancel_check ref r)) (\<lambda>_.
     write_record (ref_run_id ref) (cancelled_record (le_now1 env) r)))"

definition collect_targets :: "local_env \<Rightarrow> execution_details \<Rightarrow> string list" where
  "collect_targets env d =
     concat (map (\<lambda>rel. let p = le_resolve env rel in
                        if le_is_dir env p then le_rglob env p
                        else if le_is_file env p then [p] else []) (output_candidates d))"

text \<open>\<open>path.relative_to(project_dir)\<close>, \<open>ValueError\<close> outside it.\<close>

definition relative_to :: "string \<Rightarrow> string \<Rightarrow> string res" where
  "relative_to q p =
     (if p = q then Inr ''.''
      else if is_within q p then Inr (drop (length (if q = ''/'' then q else q @ ''/'')) p)
      else Inl (ValueError (p @ '' is not in the subpath of '' @ q)))"

fun make_artifacts :: "local_env \<Rightarrow> string \<Rightarrow> nat \<Rightarrow> string list \<Rightarrow> artifact list res" where
  "make_artifacts env i n [] = Inr []"
| "make_artifacts env i n (p # ps) =
     res_bind (relative_to (le_project env) p) (\<lambda>rel.
     res_bind (make_artifacts env i (Suc n) ps) (\<lambda>as.
     Inr (\<lparr>a_id = new_id ''art'' (fst (le_draw env n)), a_path = Some rel, a_uri = Some (''file://'' @ p),
           a_type = ''result'', a_mime = le_mime env p, a_size_bytes = Some (le_size env p),
           a_checksum_sha256 = Some (le_sha env p), a_run_id = Some i, a_task_id = None,
           a_research_log_id = None, a_viewer = [], a_created_at = snd (le_draw env n)\<rparr> # as)))"

definition local_collect :: "local_env \<Rightarrow> run_reference \<Rightarrow> ('z local_state_scheme, artifact list) eff" where
  "local_collect env ref =
     eff_bind (eff_lift (read_record (ref_run_id ref))) (\<lambda>_.
     eff_bind (eff_lift (\<lambda>s. case dict_get (lc_dirs s) (ref_run_id ref) of
                               Some d \<Rightarrow> (case rd_spec d of Some x \<Rightarrow> Inr x | None \<Rightarrow> Inl (OtherError ''FileNotFoundError''))
                             | None \<Rightarrow> Inl (OtherError ''FileNotFoundError''))) (\<lambda>spec.
     eff_bind (eff_lift (\<lambda>_. make_artifacts env (ref_run_id ref) 0 (collect_targets env (es_spec spec)))) (\<lambda>as.
     eff_bind (set_dir (ref_run_id ref)
                (rd_manifest_update (\<lambda>_. Some (map (\<lambda>a. (a_path a, a_checksum_sha256 a, a_size_bytes a)) as)))) (\<lambda>_.
     eff_return as))))"

definition local_provider :: "local_env \<Rightarrow> ('z local_state_scheme) provider" where
  "local_provider env =
     \<lparr>p_validate = (\<lambda>spec. eff_lift (\<lambda>_. local_validate env spec)), p_submit = local_submit env,
      p_status = local_status, p_cancel = local_cancel env, p_collect = local_collect env\<rparr>"

subsection \<open>Lemmas\<close>

lemma same_science_dirs [simp]: "same_science s (s\<lparr>lc_dirs := d\<rparr>)"
  by (simp add: same_science_def service_state.truncate_def)

lemma same_science_with_dir [simp]: "same_science s (with_dir i f s)"
  by (simp add: with_dir_def split: option.split)

text \<open>Operations that only touch run directories.\<close>

definition dirs_only :: "('z local_state_scheme, 'a) eff \<Rightarrow> bool" where
  "dirs_only m \<longleftrightarrow> (\<forall>s. same_science s (snd (m s)))"

lemma dirs_onlyD: "dirs_only m \<Longrightarrow> m s = (r, t) \<Longrightarrow> same_science s t"
  unfolding dirs_only_def by (metis snd_conv)

lemma dirs_only_basic [simp]:
  "dirs_only (eff_return x)"
  "dirs_only (eff_lift f)"
  "dirs_only (write_record i r)"
  "dirs_only (set_dir i g)"
  "dirs_only (make_run_dir i)"
  by (simp_all add: dirs_only_def write_record_def set_dir_def make_run_dir_def)

lemma dirs_only_bind [intro]: "dirs_only m \<Longrightarrow> (\<And>x. dirs_only (k x)) \<Longrightarrow> dirs_only (eff_bind m k)"
  unfolding dirs_only_def eff_bind_def
  by (auto split: prod.splits sum.splits) (metis same_science_trans snd_conv)+

lemma local_submit_dirs: "dirs_only (local_submit env plan)"
  unfolding local_submit_def Let_def
  by (intro dirs_only_bind dirs_only_basic) (auto split: wait_result.split)

lemma local_status_dirs: "dirs_only (local_status ref)"
  unfolding local_status_def by (intro dirs_only_bind dirs_only_basic)

lemma local_cancel_dirs: "dirs_only (local_cancel env ref)"
  unfolding local_cancel_def by (intro dirs_only_bind dirs_only_basic)

lemma local_collect_dirs: "dirs_only (local_collect env ref)"
  unfolding local_collect_def by (intro dirs_only_bind dirs_only_basic)

lemma check_outputs_ok:
  "check_outputs env rels = Inr outs \<Longrightarrow> outs = rels \<and> (\<forall>rel \<in> set rels. is_within (le_project env) (le_resolve env rel))"
  by (induction env rels arbitrary: outs rule: check_outputs.induct)
    (auto simp: res_bind_Inr_iff split: if_splits)

lemma local_validate_ok:
  assumes "local_validate env spec = Inr plan"
  shows "pl_spec plan = spec" "pl_provider plan = ''local''" "ed_provider (es_spec spec) = ''local''"
    "is_within (le_project env) (pl_working_directory plan)" "le_is_dir env (pl_working_directory plan)"
    "pl_command plan = ed_command (es_spec spec)" "pl_command plan \<noteq> []"
    "pl_resolved_outputs plan = output_candidates (es_spec spec)"
    "\<forall>rel \<in> set (pl_resolved_outputs plan). is_within (le_project env) (le_resolve env rel)"
    "ed_network (es_spec spec) = NM_DENY \<Longrightarrow> ed_mode (es_spec spec) = ''sandbox'' \<and> le_sandbox env"
    "pl_idempotency_key plan = str_or (md_idempotency_key (es_metadata spec)) (spec_hash (le_digest env) spec)"
  using assms unfolding local_validate_def Let_def
  by (auto simp: res_bind_Inr_iff dest!: check_outputs_ok split: if_splits)

text \<open>The local provider meets the contract, whatever its environment.\<close>

interpretation local: compute_provider "local_provider env :: ('z local_state_scheme) provider" "local_validate env"
  for env
proof
  show "p_validate (local_provider env) spec = eff_lift (\<lambda>_. local_validate env spec)" for spec
    by (simp add: local_provider_def)
  show "pl_spec plan = spec \<and> pl_provider plan = ed_provider (es_spec spec)"
    if "local_validate env spec = Inr plan" for spec plan
    using local_validate_ok(1-3) [OF that] by simp
  show "same_science s t" if "p_submit (local_provider env) plan s = (r, t)" for plan r
    and s t :: "'z local_state_scheme"
    using that by (simp add: local_provider_def dirs_onlyD [OF local_submit_dirs])
  show "same_science s t" if "p_status (local_provider env) ref s = (r, t)" for ref r
    and s t :: "'z local_state_scheme"
    using that by (simp add: local_provider_def dirs_onlyD [OF local_status_dirs])
  show "same_science s t" if "p_cancel (local_provider env) ref s = (r, t)" for ref r
    and s t :: "'z local_state_scheme"
    using that by (simp add: local_provider_def dirs_onlyD [OF local_cancel_dirs])
  show "same_science s t" if "p_collect (local_provider env) ref s = (r, t)" for ref r
    and s t :: "'z local_state_scheme"
    using that by (simp add: local_provider_def dirs_onlyD [OF local_collect_dirs])
qed

subsection \<open>A submission with concurrent cancellations\<close>

text \<open>
  The submitting thread is before its first write, has written its copy of the record as queued
  or running, has seen the process end (with the status it then read from disk), or is done; a
  cancelling thread is idle or holds the record it read. Each step is one access to
  \<open>run.json\<close> with the code that follows it up to the next access.
\<close>

datatype submit_pc =
    SStart
  | SQueued run_record
  | SRunning run_record
  | SExited run_record wait_result run_state
  | SDone

datatype cancel_pc = CIdle | CRead run_record

record race =
  rc_file :: "run_record option"
  rc_submit :: submit_pc
  rc_cancel :: cancel_pc
  rc_acked :: bool

definition race_start :: race where
  "race_start = \<lparr>rc_file = None, rc_submit = SStart, rc_cancel = CIdle, rc_acked = False\<rparr>"

inductive local_step :: "local_env \<Rightarrow> execution_plan \<Rightarrow> race \<Rightarrow> race \<Rightarrow> bool" for env plan where
  queue: "rc_submit c = SStart \<Longrightarrow>
    local_step env plan c (c\<lparr>rc_file := Some (queued_record env plan), rc_submit := SQueued (queued_record env plan)\<rparr>)"
| start: "rc_submit c = SQueued q \<Longrightarrow>
    local_step env plan c (c\<lparr>rc_file := Some (running_record env pid q), rc_submit := SRunning (running_record env pid q)\<rparr>)"
| exit: "rc_submit c = SRunning r \<Longrightarrow> rc_file c = Some latest \<Longrightarrow>
    local_step env plan c (c\<lparr>rc_submit := SExited r (Exited code) (rr_status latest)\<rparr>)"
| expire: "rc_submit c = SRunning r \<Longrightarrow>
    local_step env plan c (c\<lparr>rc_submit := SExited r Expired RUNNING\<rparr>)"
| finish: "rc_submit c = SExited r w latest \<Longrightarrow>
    local_step env plan c (c\<lparr>rc_file := Some (finished_record now w latest r), rc_submit := SDone\<rparr>)"
| cancel_read: "rc_cancel c = CIdle \<Longrightarrow> rc_file c = Some r \<Longrightarrow> \<not> terminal (rr_status r) \<Longrightarrow>
    local_step env plan c (c\<lparr>rc_cancel := CRead r\<rparr>)"
| cancel_write: "rc_cancel c = CRead r \<Longrightarrow>
    local_step env plan c (c\<lparr>rc_file := Some (cancelled_record now r), rc_cancel := CIdle, rc_acked := True\<rparr>)"

lemma final_status_terminal [simp]: "terminal (final_status w latest)"
  by (simp add: final_status_def terminal_def split: wait_result.split)

lemma record_statuses [simp]:
  "rr_status (queued_record env plan) = QUEUED"
  "rr_status (running_record env pid q) = RUNNING"
  "rr_status (finished_record now w latest r) = final_status w latest"
  "rr_status (cancelled_record now r) = CANCELLED"
  "rr_exit_code (cancelled_record now r) = rr_exit_code r"
  by (simp_all add: queued_record_def running_record_def finished_record_def cancelled_record_def)

definition race_done_ok :: "race \<Rightarrow> bool" where
  "race_done_ok c \<longleftrightarrow> (rc_submit c = SDone \<longrightarrow> (\<exists>r. rc_file c = Some r \<and> terminal (rr_status r)))"

lemma race_done_step: "local_step env plan c d \<Longrightarrow> race_done_ok c \<Longrightarrow> race_done_ok d"
  by (induction rule: local_step.induct) (auto simp: race_done_ok_def terminal_def final_status_def split: wait_result.split)

text \<open>A cancellation on disk before the thread has seen the process end is honoured.\<close>

definition cancel_seen :: "race \<Rightarrow> bool" where
  "cancel_seen c \<longleftrightarrow>
     (case rc_submit c of
        SRunning r \<Rightarrow> (\<exists>f. rc_file c = Some f \<and> rr_status f = CANCELLED)
      | SExited r w latest \<Rightarrow> w = Expired \<or> latest = CANCELLED
      | SDone \<Rightarrow> (\<exists>f. rc_file c = Some f \<and> rr_status f \<in> {CANCELLED, TIMEOUT})
      | _ \<Rightarrow> False)"

lemma cancel_seen_step: "local_step env plan c d \<Longrightarrow> cancel_seen c \<Longrightarrow> cancel_seen d"
  by (induction rule: local_step.induct)
    (auto simp: cancel_seen_def final_status_def split: wait_result.splits submit_pc.splits)

subsection \<open>The sequential submission\<close>

lemma read_with_dir:
  "read_record i (with_dir i f s) =
     (case dict_get (lc_dirs s) i of
        None \<Rightarrow> Inl (NotFoundError (''run not found: '' @ i))
      | Some d \<Rightarrow> (case rd_record (f d) of None \<Rightarrow> Inl (NotFoundError (''run not found: '' @ i)) | Some r \<Rightarrow> Inr r))"
  by (simp add: read_record_def with_dir_def dict_get_def split: option.split)

lemma dict_get_with_dir: "dict_get (lc_dirs (with_dir i f s)) i = map_option f (dict_get (lc_dirs s) i)"
  by (simp add: with_dir_def dict_get_def split: option.split)

text \<open>With nobody else writing the record, the status read at the end is the running one.\<close>

lemma local_submit_run:
  assumes "\<not> dict_has (lc_dirs s) (new_id ''run'' (le_uuid env))" and "le_launch env = Inr ()"
    and "le_popen env = Inr pid"
  defines "i \<equiv> new_id ''run'' (le_uuid env)"
  shows "\<exists>t. local_submit env plan s =
      (Inr \<lparr>ref_provider = ''local'', ref_provider_run_id = int_str pid, ref_run_id = i\<rparr>, t)
    \<and> dict_get (lc_dirs t) i = Some \<lparr>rd_record = Some (finished_record (le_now3 env) (le_wait env) RUNNING
            (running_record env pid (queued_record env plan))), rd_spec = Some (pl_spec plan),
          rd_stdout = Some (le_stdout env), rd_stderr = Some (le_stderr env), rd_manifest = None\<rparr>"
proof -
  have fresh: "map_of (lc_dirs s) i = None" using assms(1) by (simp add: dict_has_def i_def)
  show ?thesis
    unfolding i_def [symmetric] local_submit_def Let_def
    using fresh assms(2,3)
    by (cases "le_wait env")
      (simp_all add: eff_bind_def make_run_dir_def dict_has_def write_record_def set_dir_def with_dir_def
        dict_get_def read_record_def)
qed

lemma local_submit_ok_launch:
  assumes "local_submit env plan s = (Inr ref, t)"
  shows "\<not> dict_has (lc_dirs s) (new_id ''run'' (le_uuid env))" "le_launch env = Inr ()"
    "\<exists>pid. le_popen env = Inr pid"
  using assms unfolding local_submit_def Let_def
  by (auto simp: eff_bind_ok_iff make_run_dir_def split: if_splits)

subsection \<open>An example environment\<close>

definition ex_env :: local_env where
  "ex_env =
     \<lparr>le_project = ''/p'', le_resolve = (\<lambda>rel. if rel = ''.'' then ''/p'' else ''/p/'' @ rel), le_is_dir = (\<lambda>p. p = ''/p''),
      le_is_file = (\<lambda>p. p = ''/p/out.csv''), le_rglob = (\<lambda>_. []), le_mime = (\<lambda>_. None), le_size = (\<lambda>_. 3),
      le_sha = (\<lambda>_. ''00''), le_digest = (\<lambda>_. ''hash''), le_sandbox = False, le_uuid = ''abc'', le_now1 = ''t1'',
      le_now2 = ''t2'', le_now3 = ''t3'', le_launch = Inr (), le_popen = Inr 7, le_wait = Exited 0, le_stdout = [],
      le_stderr = [], le_draw = (\<lambda>_. (''d0'', ''t4''))\<rparr>"

definition ex_spec :: execution_spec where
  "ex_spec =
     \<lparr>es_api_version = ''v1'', es_kind = ''Execution'', es_metadata = \<lparr>md_name = ''run'', md_idempotency_key = None\<rparr>,
      es_spec = \<lparr>ed_provider = ''local'', ed_mode = ''subprocess'',
        ed_source = \<lparr>src_working_directory = ''.'', src_git_commit = None\<rparr>, ed_command = [''true''],
        ed_environment = \<lparr>env_image = None, env_lockfile = None\<rparr>, ed_resources = None, ed_inputs = [],
        ed_outputs = Some \<lparr>out_path = Some ''out.csv'', out_destination = None, out_files = []\<rparr>,
        ed_limits = \<lparr>max_runtime_minutes = None, max_estimated_cost_usd = None\<rparr>, ed_network = NM_ALLOW\<rparr>\<rparr>"

definition ex_plan :: execution_plan where
  "ex_plan = \<lparr>pl_provider = ''local'', pl_spec = ex_spec, pl_spec_hash = ''hash'', pl_idempotency_key = ''hash'',
     pl_working_directory = ''/p'', pl_command = [''true''], pl_resolved_outputs = [''out.csv'']\<rparr>"

definition ex_state :: local_state where
  "ex_state = \<lparr>db_tasks = [], db_research_log = [], db_runs = [], db_artifacts = [], db_reviews = [],
     db_issues = [], db_approvals = [], db_settings = [], sv_policies = [], lc_dirs = []\<rparr>"

lemma ex_validate: "local_validate ex_env ex_spec = Inr ex_plan"
  by (simp add: local_validate_def Let_def ex_env_def ex_spec_def ex_plan_def is_within_def startswith_def
      output_candidates_def spec_hash_def str_or_def)

subsection \<open>Properties\<close>

text \<open>
  A plan the local provider accepts stays inside the project: the
  working directory and every declared output resolve to the project directory or below it, the
  working directory exists, the command is not empty, and a job that denies network access runs
  in the sandbox.
\<close>

theorem local_validate_confined:
  assumes "local_validate env spec = Inr plan"
  shows "is_within (le_project env) (pl_working_directory plan) \<and> le_is_dir env (pl_working_directory plan)
    \<and> (\<forall>rel \<in> set (pl_resolved_outputs plan). is_within (le_project env) (le_resolve env rel))
    \<and> pl_resolved_outputs plan = output_candidates (es_spec spec)
    \<and> pl_command plan = ed_command (es_spec spec) \<and> pl_command plan \<noteq> []
    \<and> (ed_network (es_spec spec) = NM_DENY \<longrightarrow> ed_mode (es_spec spec) = ''sandbox'' \<and> le_sandbox env)"
  using local_validate_ok [OF assms] by blast

theorem local_validate_confined_witness:
  "local_validate ex_env ex_spec = Inr ex_plan \<and> is_within ''/p'' (pl_working_directory ex_plan) \<and> pl_command ex_plan \<noteq> []"
proof -
  have "le_project ex_env = ''/p''" by (simp add: ex_env_def)
  then show ?thesis using local_validate_confined [OF ex_validate] ex_validate by metis
qed

text \<open>
  When \<open>submit\<close> returns and nobody else wrote the record, the run
  is in the terminal state its process ended in, \<open>status\<close> reports exactly that, the logs are
  readable, and a later \<open>cancel\<close> is refused and changes nothing.
\<close>

theorem local_submit_terminal:
  assumes "local_submit env plan s = (Inr ref, t)"
  shows "\<exists>st. local_status ref t = (Inr st, t)
    \<and> rst_status st = (case le_wait env of Exited code \<Rightarrow> if code = 0 then SUCCEEDED else FAILED | Expired \<Rightarrow> TIMEOUT)
    \<and> rst_exit_code st = (case le_wait env of Exited code \<Rightarrow> Some code | Expired \<Rightarrow> None)
    \<and> rst_finished_at st = Some (le_now3 env)
    \<and> local_logs ref t = Inr (le_stdout env, le_stderr env, None)
    \<and> (\<exists>msg. local_cancel env' ref t = (Inl (StateError msg), t))"
proof -
  obtain pid where pid: "le_popen env = Inr pid" using local_submit_ok_launch(3) [OF assms] by blast
  let ?rec = "finished_record (le_now3 env) (le_wait env) RUNNING (running_record env pid (queued_record env plan))"
  from local_submit_run [OF local_submit_ok_launch(1,2) [OF assms] pid, of plan] assms
  have dir: "dict_get (lc_dirs t) (ref_run_id ref) = Some \<lparr>rd_record = Some ?rec, rd_spec = Some (pl_spec plan),
      rd_stdout = Some (le_stdout env), rd_stderr = Some (le_stderr env), rd_manifest = None\<rparr>" by auto
  have rec: "read_record (ref_run_id ref) t = Inr ?rec" by (simp add: read_record_def dir)
  have "\<exists>msg. local_cancel env' ref t = (Inl (StateError msg), t)"
    by (simp add: local_cancel_def eff_bind_def rec cancel_check_def)
  moreover have "local_logs ref t = Inr (le_stdout env, le_stderr env, None)" by (simp add: local_logs_def dir)
  ultimately show ?thesis
    by (simp add: local_status_def eff_bind_def rec final_status_def)
      (simp add: finished_record_def split: wait_result.split)
qed

theorem local_submit_terminal_witness:
  "\<exists>ref t st. local_submit ex_env ex_plan ex_state = (Inr ref, t) \<and> local_status ref t = (Inr st, t)
     \<and> rst_status st = SUCCEEDED \<and> rst_exit_code st = Some 0"
proof -
  have "\<not> dict_has (lc_dirs ex_state) (new_id ''run'' (le_uuid ex_env))" by (simp add: ex_state_def dict_has_def)
  from local_submit_run [OF this, of 7 ex_plan] obtain ref t where run: "local_submit ex_env ex_plan ex_state = (Inr ref, t)"
    by (auto simp: ex_env_def)
  show ?thesis using local_submit_terminal [OF run] run by (auto simp: ex_env_def)
qed

text \<open>
  However cancellations interleave with a submission, once the submitting
  thread is done the record on disk is in a terminal state, and stays so.
\<close>

theorem race_done_terminal:
  assumes "(local_step env plan)\<^sup>*\<^sup>* race_start c" and "rc_submit c = SDone"
  shows "\<exists>r. rc_file c = Some r \<and> terminal (rr_status r)"
proof -
  have "race_done_ok c"
    using assms(1)
    by (induction rule: rtranclp_induct) (simp add: race_done_ok_def race_start_def, blast intro: race_done_step)
  then show ?thesis using assms(2) by (simp add: race_done_ok_def)
qed

lemma ex_race:
  "\<exists>c. (local_step env plan)\<^sup>*\<^sup>* race_start c \<and> rc_submit c = SDone \<and> rc_acked c
     \<and> (\<exists>r. rc_file c = Some r \<and> rr_status r = SUCCEEDED)"
proof -
  let ?q = "queued_record env plan"
  let ?r = "running_record env 7 ?q"
  define c1 where "c1 = race_start\<lparr>rc_file := Some ?q, rc_submit := SQueued ?q\<rparr>"
  define c2 where "c2 = c1\<lparr>rc_cancel := CRead ?q\<rparr>"
  define c3 where "c3 = c2\<lparr>rc_file := Some (cancelled_record ''t'' ?q), rc_cancel := CIdle, rc_acked := True\<rparr>"
  define c4 where "c4 = c3\<lparr>rc_file := Some ?r, rc_submit := SRunning ?r\<rparr>"
  define c5 where "c5 = c4\<lparr>rc_submit := SExited ?r (Exited 0) (rr_status ?r)\<rparr>"
  define c6 where "c6 = c5\<lparr>rc_file := Some (finished_record ''u'' (Exited 0) (rr_status ?r) ?r), rc_submit := SDone\<rparr>"
  have "local_step env plan race_start c1" unfolding c1_def by (rule local_step.queue) (simp add: race_start_def)
  moreover have "local_step env plan c1 c2"
    unfolding c2_def by (rule local_step.cancel_read) (simp_all add: c1_def race_start_def terminal_def)
  moreover have "local_step env plan c2 c3" unfolding c3_def by (rule local_step.cancel_write) (simp add: c2_def)
  moreover have "local_step env plan c3 c4"
    unfolding c4_def by (rule local_step.start) (simp add: c3_def c2_def c1_def)
  moreover have "local_step env plan c4 c5" unfolding c5_def by (rule local_step.exit) (simp_all add: c4_def)
  moreover have "local_step env plan c5 c6" unfolding c6_def by (rule local_step.finish) (simp add: c5_def)
  ultimately have "(local_step env plan)\<^sup>*\<^sup>* race_start c6"
    by (meson rtranclp.rtrancl_refl rtranclp.rtrancl_into_rtrancl)
  then show ?thesis
    by (intro exI [of _ c6]) (simp add: c6_def c5_def c4_def c3_def final_status_def)
qed

theorem race_done_terminal_witness:
  "\<exists>c. (local_step ex_env ex_plan)\<^sup>*\<^sup>* race_start c \<and> rc_submit c = SDone \<and> (\<exists>r. rc_file c = Some r \<and> terminal (rr_status r))"
  using ex_race [of ex_env ex_plan] race_done_terminal by blast

text \<open>
  A cancellation that is on disk while the submitting thread
  still waits for the process is honoured: however the run continues, it never ends as succeeded
  or failed, only as cancelled (or timed out, when the runtime limit struck).
\<close>

theorem cancel_while_running_honoured:
  assumes "rc_submit c = SRunning r" and "rc_file c = Some f" and "rr_status f = CANCELLED"
    and "(local_step env plan)\<^sup>*\<^sup>* c d" and "rc_submit d = SDone"
  shows "\<exists>g. rc_file d = Some g \<and> rr_status g \<in> {CANCELLED, TIMEOUT}"
proof -
  have "cancel_seen c" using assms(1-3) by (simp add: cancel_seen_def)
  with assms(4) have "cancel_seen d" by (induction rule: rtranclp_induct) (auto intro: cancel_seen_step)
  then show ?thesis using assms(5) by (simp add: cancel_seen_def)
qed

theorem cancel_while_running_honoured_witness:
  "let r = running_record ex_env 7 (queued_record ex_env ex_plan);
       d = \<lparr>rc_file = Some (finished_record ''u'' (Exited 137) CANCELLED r), rc_submit = SDone, rc_cancel = CIdle, rc_acked = True\<rparr>
   in \<exists>g. rc_file d = Some g \<and> rr_status g \<in> {CANCELLED, TIMEOUT}"
proof -
  let ?r = "running_record ex_env 7 (queued_record ex_env ex_plan)"
  let ?f = "cancelled_record ''t'' ?r"
  let ?c = "\<lparr>rc_file = Some ?f, rc_submit = SRunning ?r, rc_cancel = CIdle, rc_acked = True\<rparr>"
  let ?c1 = "?c\<lparr>rc_submit := SExited ?r (Exited 137) (rr_status ?f)\<rparr>"
  let ?d = "?c1\<lparr>rc_file := Some (finished_record ''u'' (Exited 137) CANCELLED ?r), rc_submit := SDone\<rparr>"
  have "local_step ex_env ex_plan ?c ?c1" by (rule local_step.exit) simp_all
  moreover have "local_step ex_env ex_plan ?c1 ?d" by (rule local_step.finish) simp
  ultimately have "(local_step ex_env ex_plan)\<^sup>*\<^sup>* ?c ?d" by (meson rtranclp.rtrancl_refl rtranclp.rtrancl_into_rtrancl)
  from cancel_while_running_honoured [OF _ _ _ this, of ?r ?f] show ?thesis by simp
qed

text \<open>
  A cancellation that arrives while the run is still queued is lost: for
  every environment and plan there is an interleaving in which \<open>cancel\<close> returns normally and the
  process nevertheless runs to completion and the run ends as succeeded.
\<close>

theorem queued_cancel_lost:
  "\<exists>c. (local_step env plan)\<^sup>*\<^sup>* race_start c \<and> rc_acked c \<and> rc_submit c = SDone
     \<and> (\<exists>r. rc_file c = Some r \<and> rr_status r = SUCCEEDED)"
  using ex_race [of env plan] by blast

end
