(* ===== verification/Jobs.thy ===== *)
theory Jobs
  imports Local_Compute
begin

text \<open>
  Managed jobs of \<open>science/omnisci/service.py\<close>: \<open>_compute_for\<close>, \<open>validate_job\<close>,
  \<open>submit_job\<close> with \<open>_enforce_compute_approval\<close>, the reconciliation \<open>_sync_run\<close> and
  \<open>_collect_run_outputs\<close>, \<open>get_run\<close>, \<open>list_runs\<close>, \<open>run_outputs\<close> and
  \<open>cancel_run\<close>. The configured providers are a map from names to provider records; their draws
  of ids, times and process outcomes are inside the records. The lemmas about one provider are
  proved from its contract, the locale \<open>compute_provider\<close>.
\<close>

subsection \<open>Provider lookup and validation\<close>

type_synonym 's providers = "string \<Rightarrow> 's provider option"

definition compute_for :: "'s providers \<Rightarrow> string \<Rightarrow> 's provider res" where
  "compute_for providers name =
     (case providers name of
        None \<Rightarrow> Inl (StateError (''compute provider is not configured: '' @ name))
      | Some p \<Rightarrow> Inr p)"

definition validate_job :: "'s providers \<Rightarrow> execution_spec \<Rightarrow> ('s, execution_plan) eff" where
  "validate_job providers spec =
     eff_bind (eff_lift (\<lambda>_. compute_for providers (ed_provider (es_spec spec)))) (\<lambda>provider.
     p_validate provider spec)"

subsection \<open>The approval policy of a job\<close>

text \<open>\<open>d.get(k) or {}\<close> followed by the \<open>isinstance(..., dict)\<close> check.\<close>

definition sub_mapping :: "string \<Rightarrow> json dict \<Rightarrow> string \<Rightarrow> json dict res" where
  "sub_mapping what d k =
     (case dict_get d k of
        None \<Rightarrow> Inr []
      | Some v \<Rightarrow>
          if \<not> truthy v then Inr []
          else (case v of JDict e \<Rightarrow> Inr e | _ \<Rightarrow> Inl (StateError (what @ '' must be a mapping''))))"

definition flag :: "json dict \<Rightarrow> string \<Rightarrow> bool" where
  "flag d k = truthy (dict_get_or d k (JBool False))"

text \<open>\<open>isinstance(v, (int, float))\<close>: a bool is an int in Python.\<close>

fun py_number :: "json \<Rightarrow> rat option" where
  "py_number (JBool b) = Some (if b then 1 else 0)"
| "py_number (JInt i) = Some (of_int i)"
| "py_number (JFloat q) = Some q"
| "py_number _ = None"

definition DEFAULT_TIMEOUT_MINUTES :: rat where
  "DEFAULT_TIMEOUT_MINUTES = 60"

definition remote_reason :: "execution_details \<Rightarrow> string" where
  "remote_reason d =
     ''remote provider execution''
     @ (case ed_resources d of
          None \<Rightarrow> []
        | Some r \<Rightarrow> (case res_gpu r of
                      None \<Rightarrow> []
                    | Some g \<Rightarrow> '' using '' @ int_str (gpu_count g) @ ''x '' @ gpu_type g @ '' GPU''))
     @ (case max_estimated_cost_usd (ed_limits d) of
          None \<Rightarrow> []
        | Some c \<Rightarrow> '' with $'' @ fmt_g c @ '' estimated cost cap'')"

definition runtime_limit :: "execution_details \<Rightarrow> rat" where
  "runtime_limit d =
     (case max_runtime_minutes (ed_limits d) of
        None \<Rightarrow> DEFAULT_TIMEOUT_MINUTES
      | Some q \<Rightarrow> if q = 0 then DEFAULT_TIMEOUT_MINUTES else q)"

definition approval_reasons :: "string \<Rightarrow> json dict \<Rightarrow> execution_details \<Rightarrow> rat \<Rightarrow> string list" where
  "approval_reasons prov config d normal_runtime =
     (if prov \<noteq> ''local'' \<and> \<not> flag config ''allow_unapproved_submit'' then [remote_reason d] else [])
     @ (if prov = ''local'' \<and> ed_mode d = ''subprocess'' \<and> \<not> flag config ''allow_unapproved_subprocess''
        then [''unsandboxed subprocess execution''] else [])
     @ (if ed_network d = NM_ALLOW \<and> \<not> flag config ''allow_unapproved_network''
        then [''unrestricted network access''] else [])
     @ (if normal_runtime < runtime_limit d
        then [''runtime limit '' @ fmt_g (runtime_limit d) @ ''m exceeds '' @ fmt_g normal_runtime @ ''m'']
        else [])"

definition compute_policy_reasons :: "json dict \<Rightarrow> execution_plan \<Rightarrow> string list res" where
  "compute_policy_reasons policies plan =
     res_bind (sub_mapping ''policies.compute'' policies ''compute'') (\<lambda>compute_policy.
     res_bind (sub_mapping (''policies.compute.'' @ pl_provider plan) compute_policy (pl_provider plan)) (\<lambda>config.
     case py_number (dict_get_or config ''max_runtime_minutes_without_approval'' (JInt 60)) of
       None \<Rightarrow> Inl (StateError (''policies.compute.'' @ pl_provider plan
                  @ ''.max_runtime_minutes_without_approval must be a positive number''))
     | Some q \<Rightarrow>
         if q \<le> 0
         then Inl (StateError (''policies.compute.'' @ pl_provider plan
                  @ ''.max_runtime_minutes_without_approval must be a positive number''))
         else Inr (approval_reasons (pl_provider plan) config (es_spec (pl_spec plan)) q)))"

definition enforce_compute_approval ::
    "string \<Rightarrow> string \<Rightarrow> string \<Rightarrow> execution_plan \<Rightarrow> ('z service_state_scheme, unit) eff" where
  "enforce_compute_approval now uuid now' plan =
     eff_bind (eff_lift (\<lambda>s. compute_policy_reasons (sv_policies s) plan)) (\<lambda>reasons.
     if reasons = [] then eff_return ()
     else require_approval now uuid now' (''compute.submit:'' @ pl_provider plan) (pl_idempotency_key plan)
            (''Approval required for '' @ pl_provider plan @ '' job: '' @ join ''; '' reasons)
            (join ''; '' reasons))"

subsection \<open>Runs\<close>

definition run_ref :: "run \<Rightarrow> run_reference" where
  "run_ref r = \<lparr>ref_provider = r_provider r, ref_provider_run_id = str_or (r_provider_run_id r) [],
                ref_run_id = r_id r\<rparr>"

text \<open>
  \<open>_collect_run_outputs\<close>: the loop adds an artifact and appends its id to the run object, which
  is written once at the end. The run object is returned as the caller sees it.
\<close>

primrec add_outputs :: "artifact list \<Rightarrow> run \<Rightarrow> ('z service_state_scheme, run) eff" where
  "add_outputs [] r = eff_return r"
| "add_outputs (a # as) r =
     eff_bind (repo_add artifacts a) (\<lambda>_.
     add_outputs as (r\<lparr>r_output_artifact_ids := r_output_artifact_ids r @ [a_id a]\<rparr>))"

definition collect_run_outputs ::
    "('z service_state_scheme) provider \<Rightarrow> run \<Rightarrow> ('z service_state_scheme, run) eff" where
  "collect_run_outputs provider r =
     eff_bind (p_collect provider (run_ref r)) (\<lambda>as.
     eff_bind (add_outputs as r) (\<lambda>r'. repo_update runs r'))"

text \<open>The \<open>Run\<close> of \<open>submit_job\<close> with the fields it has when it is stored.\<close>

definition submitted_run ::
    "string \<Rightarrow> string \<Rightarrow> string \<Rightarrow> execution_spec \<Rightarrow> execution_plan \<Rightarrow> run_reference \<Rightarrow> run_status \<Rightarrow> run" where
  "submitted_run state_dir_name queued_now created_now spec plan ref st =
     \<lparr>r_id = ref_run_id ref, r_provider = pl_provider plan,
      r_provider_run_id = Some (ref_provider_run_id ref), r_spec_hash = pl_spec_hash plan,
      r_idempotency_key = Some (pl_idempotency_key plan), r_command = pl_command plan,
      r_environment = environment_json (ed_environment (es_spec spec)),
      r_inputs = map input_json (ed_inputs (es_spec spec)),
      r_resources = map_option resource_json (ed_resources (es_spec spec)),
      r_status = rst_status st, r_queued_at = str_or (rst_queued_at st) queued_now,
      r_started_at = rst_started_at st, r_finished_at = rst_finished_at st,
      r_exit_code = rst_exit_code st,
      r_logs_path = Some (state_dir_name @ ''/runs/'' @ ref_run_id ref), r_cost_usd = None,
      r_output_artifact_ids = [], r_execution_spec = spec_json spec,
      r_created_at = created_now\<rparr>"

text \<open>From the provider's \<open>submit\<close> to the end of \<open>submit_job\<close>.\<close>

definition launch_job ::
    "('z service_state_scheme) provider \<Rightarrow> string \<Rightarrow> string \<Rightarrow> string \<Rightarrow> execution_spec \<Rightarrow> execution_plan \<Rightarrow>
     ('z service_state_scheme, run \<times> bool) eff" where
  "launch_job provider state_dir_name queued_now created_now spec plan =
     eff_bind (p_submit provider plan) (\<lambda>ref.
     eff_bind (p_status provider ref) (\<lambda>st.
     let r = submitted_run state_dir_name queued_now created_now spec plan ref st in
     eff_bind (repo_add runs r) (\<lambda>_.
     if r_status r = SUCCEEDED
     then eff_bind (collect_run_outputs provider r) (\<lambda>r'. eff_return (r', False))
     else eff_return (r, False))))"

definition submit_job ::
    "('z service_state_scheme) providers \<Rightarrow> string \<Rightarrow> string \<Rightarrow> string \<Rightarrow> string \<Rightarrow> string \<Rightarrow> string \<Rightarrow>
     execution_spec \<Rightarrow> ('z service_state_scheme, run \<times> bool) eff" where
  "submit_job providers state_dir_name ap_now ap_uuid ap_now' queued_now created_now spec =
     eff_bind (eff_lift (\<lambda>_. compute_for providers (ed_provider (es_spec spec)))) (\<lambda>provider.
     eff_bind (p_validate provider spec) (\<lambda>plan.
     eff_bind (eff_lift (find_run_by_idempotency_key (pl_idempotency_key plan))) (\<lambda>existing.
     case existing of
       Some r \<Rightarrow> eff_return (r, True)
     | None \<Rightarrow>
         eff_bind (enforce_compute_approval ap_now ap_uuid ap_now' plan) (\<lambda>_.
         launch_job provider state_dir_name queued_now created_now spec plan))))"

text \<open>The part of \<open>_sync_run\<close> after the provider has answered.\<close>

definition reconcile_run ::
    "('z service_state_scheme) provider \<Rightarrow> run \<Rightarrow> run_status \<Rightarrow> ('z service_state_scheme, run) eff" where
  "reconcile_run provider r st =
     (let changed = (r_status r \<noteq> rst_status st \<or> r_exit_code r \<noteq> rst_exit_code st
                     \<or> r_finished_at r \<noteq> rst_finished_at st);
          r1 = (if changed
                then r\<lparr>r_status := rst_status st, r_exit_code := rst_exit_code st,
                       r_started_at := rst_started_at st, r_finished_at := rst_finished_at st\<rparr>
                else r)
      in eff_bind (if changed then repo_update runs r1 else eff_return r1) (\<lambda>_.
         if r_status r1 = SUCCEEDED \<and> r_output_artifact_ids r1 = []
         then collect_run_outputs provider r1 else eff_return r1))"

definition sync_run ::
    "('z service_state_scheme) providers \<Rightarrow> run \<Rightarrow> ('z service_state_scheme, run) eff" where
  "sync_run providers r =
     (case providers (r_provider r) of
        None \<Rightarrow> eff_return r
      | Some provider \<Rightarrow> (\<lambda>s.
          case p_status provider (run_ref r) s of
            (Inl e, s1) \<Rightarrow> (case e of NotFoundError _ \<Rightarrow> (Inr r, s1) | _ \<Rightarrow> (Inl e, s1))
          | (Inr st, s1) \<Rightarrow> reconcile_run provider r st s1))"

definition get_run :: "('z service_state_scheme) providers \<Rightarrow> string \<Rightarrow> ('z service_state_scheme, run) eff" where
  "get_run providers i = eff_bind (eff_lift (repo_get runs i)) (sync_run providers)"

primrec sync_runs ::
    "('z service_state_scheme) providers \<Rightarrow> run list \<Rightarrow> ('z service_state_scheme, run list) eff" where
  "sync_runs providers [] = eff_return []"
| "sync_runs providers (r # rs) =
     eff_bind (sync_run providers r) (\<lambda>r'. eff_bind (sync_runs providers rs) (\<lambda>rs'. eff_return (r' # rs')))"

definition list_runs :: "('z service_state_scheme) providers \<Rightarrow> ('z service_state_scheme, run list) eff" where
  "list_runs providers = eff_bind (eff_lift (repo_list runs)) (sync_runs providers)"

definition run_outputs :: "string \<Rightarrow> ('z service_state_scheme, artifact list) eff" where
  "run_outputs i =
     eff_bind (eff_lift (repo_get runs i)) (\<lambda>r.
     eff_lift (\<lambda>s. res_map (\<lambda>a. repo_get artifacts a s) (r_output_artifact_ids r)))"

definition cancel_run :: "('z service_state_scheme) providers \<Rightarrow> string \<Rightarrow> ('z service_state_scheme, run) eff" where
  "cancel_run providers i =
     eff_bind (eff_lift (repo_get runs i)) (\<lambda>r.
     eff_bind (eff_lift (\<lambda>_. compute_for providers (r_provider r))) (\<lambda>provider.
     eff_bind (p_cancel provider (run_ref r)) (\<lambda>_.
     sync_run providers r)))"

subsection \<open>Which parts of the state an operation can change\<close>

text \<open>A predicate that only reads the service's own state.\<close>

definition science_pred :: "('z service_state_scheme \<Rightarrow> bool) \<Rightarrow> bool" where
  "science_pred Q \<longleftrightarrow> (\<forall>s t. same_science s t \<longrightarrow> Q s \<longrightarrow> Q t)"

lemma science_predI: "(\<And>s t. same_science s t \<Longrightarrow> Q s \<Longrightarrow> Q t) \<Longrightarrow> science_pred Q"
  by (auto simp: science_pred_def)

context compute_provider
begin

lemma submit_preserves: "science_pred Q \<Longrightarrow> preserves Q (p_submit P plan)"
  unfolding science_pred_def preserves_def by (metis prod.collapse submit_frame)

lemma status_preserves: "science_pred Q \<Longrightarrow> preserves Q (p_status P ref)"
  unfolding science_pred_def preserves_def by (metis prod.collapse status_frame)

lemma cancel_preserves: "science_pred Q \<Longrightarrow> preserves Q (p_cancel P ref)"
  unfolding science_pred_def preserves_def by (metis prod.collapse cancel_frame)

lemma collect_preserves: "science_pred Q \<Longrightarrow> preserves Q (p_collect P ref)"
  unfolding science_pred_def preserves_def by (metis prod.collapse collect_frame)

end

text \<open>Every configured provider meets the contract.\<close>

definition providers_ok :: "('z service_state_scheme) providers \<Rightarrow> bool" where
  "providers_ok providers \<longleftrightarrow> (\<forall>n P. providers n = Some P \<longrightarrow> (\<exists>plan_of. compute_provider P plan_of))"

lemma providers_okD: "providers_ok ps \<Longrightarrow> ps n = Some P \<Longrightarrow> \<exists>plan_of. compute_provider P plan_of"
  by (simp add: providers_ok_def)

lemma compute_for_Inr: "compute_for ps n = Inr P \<longleftrightarrow> ps n = Some P"
  by (simp add: compute_for_def split: option.split)

text \<open>
  The pattern of a predicate that polling and cancelling keep: it only reads the service's state and
  is kept when an artifact is added and a run row is updated.
\<close>

definition job_kept :: "('z service_state_scheme \<Rightarrow> bool) \<Rightarrow> bool" where
  "job_kept Q \<longleftrightarrow> science_pred Q \<and> (\<forall>a. preserves Q (repo_add artifacts a))
     \<and> (\<forall>r. preserves Q (repo_update runs r))"

lemma job_kept_science: "job_kept Q \<Longrightarrow> science_pred Q"
  by (simp add: job_kept_def)

text \<open>A predicate that adding and updating approvals keeps.\<close>

definition approvals_kept :: "('z science_db_scheme \<Rightarrow> bool) \<Rightarrow> bool" where
  "approvals_kept Q \<longleftrightarrow> (\<forall>a. preserves Q (repo_add approvals a)) \<and> (\<forall>a. preserves Q (repo_update approvals a))"

lemma approval_loop_kept: "approvals_kept Q \<Longrightarrow> preserves Q (approval_loop now action scope message as)"
  by (induction as) (auto simp: approvals_kept_def intro!: preserves_intros)

lemma require_approval_kept: "approvals_kept Q \<Longrightarrow> preserves Q (require_approval n u n' action scope message reason)"
  unfolding require_approval_def
  by (intro preserves_intros approval_loop_kept) (auto simp: approvals_kept_def)

lemma enforce_kept: "approvals_kept Q \<Longrightarrow> preserves Q (enforce_compute_approval n u n' plan)"
  unfolding enforce_compute_approval_def by (intro preserves_intros require_approval_kept)

lemma rows_approvals_kept: "approvals_kept (\<lambda>s. tb_rows runs s = R)"
  by (simp add: approvals_kept_def preserves_def add_frame update_frame)

lemma add_outputs_kept: "job_kept Q \<Longrightarrow> preserves Q (add_outputs as r)"
  by (induction as arbitrary: r) (auto simp: job_kept_def intro!: preserves_intros)

lemma collect_outputs_kept:
  assumes "job_kept Q" and "compute_provider P plan_of"
  shows "preserves Q (collect_run_outputs P r)"
  unfolding collect_run_outputs_def using assms
  by (intro preserves_intros add_outputs_kept) (auto simp: job_kept_def intro: compute_provider.collect_preserves)

lemma reconcile_kept:
  assumes "job_kept Q" and "compute_provider P plan_of"
  shows "preserves Q (reconcile_run P r st)"
  unfolding reconcile_run_def Let_def using assms(1)
  by (intro preserves_intros collect_outputs_kept [OF assms]) (auto simp: job_kept_def)

lemma sync_run_kept:
  assumes Q: "job_kept Q" and ps: "providers_ok ps"
  shows "preserves Q (sync_run ps r)"
proof (cases "ps (r_provider r)")
  case None
  then show ?thesis by (simp add: sync_run_def)
next
  case (Some P)
  obtain plan_of where P: "compute_provider P plan_of" using providers_okD [OF ps Some] by blast
  show ?thesis
    unfolding preserves_def
  proof (intro allI impI)
    fix s assume "Q s"
    obtain res s1 where st: "p_status P (run_ref r) s = (res, s1)" by (cases "p_status P (run_ref r) s")
    have s1: "Q s1"
      using Q compute_provider.status_preserves [OF P] \<open>Q s\<close> st by (auto simp: job_kept_def intro: preservesD)
    show "Q (snd (sync_run ps r s))"
    proof (cases res)
      case (Inl e)
      then show ?thesis using Some st s1 by (simp add: sync_run_def split: py_error.split)
    next
      case (Inr v)
      then show ?thesis
        using Some st reconcile_kept [OF Q P, of r v] s1 by (simp add: sync_run_def preserves_def)
    qed
  qed
qed

lemma sync_runs_kept: "job_kept Q \<Longrightarrow> providers_ok ps \<Longrightarrow> preserves Q (sync_runs ps rs)"
  by (induction rs) (auto intro!: preserves_intros sync_run_kept)

lemma get_run_kept: "job_kept Q \<Longrightarrow> providers_ok ps \<Longrightarrow> preserves Q (get_run ps i)"
  unfolding get_run_def by (intro preserves_intros sync_run_kept)

lemma list_runs_kept: "job_kept Q \<Longrightarrow> providers_ok ps \<Longrightarrow> preserves Q (list_runs ps)"
  unfolding list_runs_def by (intro preserves_intros sync_runs_kept)

lemma cancel_run_kept:
  assumes Q: "job_kept Q" and ps: "providers_ok ps"
  shows "preserves Q (cancel_run ps i)"
proof -
  have cancel: "preserves Q (p_cancel P (run_ref r))" if "ps n = Some P" for P n r
    using providers_okD [OF ps that] Q by (auto simp: job_kept_def intro: compute_provider.cancel_preserves)
  show ?thesis
    unfolding cancel_run_def
    by (intro preserves_bind [OF preserves_lift] preserves_bind_pure preserves_bind sync_run_kept [OF Q ps])
      (auto simp: compute_for_Inr intro: cancel)
qed

subsection \<open>At most one run per idempotency key\<close>

definition run_keys :: "'z science_db_scheme \<Rightarrow> string list" where
  "run_keys s = map the (filter (\<lambda>k. k \<noteq> None) (map row_cols (tb_rows runs s)))"

definition unique_keys :: "'z service_state_scheme \<Rightarrow> bool" where
  "unique_keys s \<longleftrightarrow> distinct (run_keys s)"

definition key_free :: "string \<Rightarrow> 'z service_state_scheme \<Rightarrow> bool" where
  "key_free k s \<longleftrightarrow> distinct (run_keys s) \<and> k \<notin> set (run_keys s)"

lemma upd_row_runs_cols [simp]: "row_cols (upd_row runs r q) = row_cols q"
  by (simp add: upd_row_def runs_def)

lemma run_keys_update [simp]: "run_keys (snd (repo_update runs r s)) = run_keys s"
  by (simp add: run_keys_def repo_update_def comp_def)

lemma run_keys_cong: "tb_rows runs t = tb_rows runs s \<Longrightarrow> run_keys t = run_keys s"
  by (simp add: run_keys_def)

lemma run_keys_frame [simp]:
  "run_keys (snd (repo_add artifacts a s)) = run_keys s"
  "run_keys (snd (repo_add approvals p s)) = run_keys s"
  "run_keys (snd (repo_update approvals p s)) = run_keys s"
  by (rule run_keys_cong, rule add_frame update_frame, simp)+

lemma same_science_keys: "same_science s t \<Longrightarrow> run_keys t = run_keys s"
  by (rule run_keys_cong) (rule same_science_rows)

lemma key_free_kept: "job_kept (key_free k)"
  by (auto simp: job_kept_def key_free_def preserves_def same_science_keys intro!: science_predI)

lemma key_free_approvals: "approvals_kept (key_free k)"
  by (auto simp: approvals_kept_def key_free_def preserves_def)

lemma unique_keys_kept: "job_kept unique_keys"
  by (auto simp: job_kept_def unique_keys_def preserves_def same_science_keys intro!: science_predI)

lemma find_run_None_iff: "find_run_by_idempotency_key k s = Inr None \<longleftrightarrow> k \<notin> set (run_keys s)"
proof -
  have "k \<notin> set (run_keys s) \<longleftrightarrow> filter (\<lambda>r. row_cols r = Some k) (tb_rows runs s) = []"
    by (force simp: run_keys_def filter_empty_conv image_iff)
  then show ?thesis
    by (auto simp: find_run_by_idempotency_key_def res_bind_Inr_iff sort_key_Nil_iff split: list.split)
qed

lemma add_run_keys:
  "repo_add runs r s = (Inr x, t) \<Longrightarrow>
     run_keys t = run_keys s @ (case r_idempotency_key r of None \<Rightarrow> [] | Some k \<Rightarrow> [k])"
  by (auto simp: repo_add_def run_keys_def runs_def split: if_splits option.splits)

lemma add_run_triple:
  "r_idempotency_key r = Some k \<Longrightarrow> triple (key_free k) (repo_add runs r) (\<lambda>_. unique_keys) unique_keys"
  by (rule tripleI) (auto simp: key_free_def unique_keys_def dest: add_run_keys repo_add_err)

lemma kept_triple: "preserves P m \<Longrightarrow> (\<And>s. P s \<Longrightarrow> E s) \<Longrightarrow> triple P m (\<lambda>_. P) E"
  by (rule triple_weaken [where P = P and Q = "\<lambda>_. P" and E = P]) (auto simp: triple_preserves)

lemma key_free_unique: "key_free k s \<Longrightarrow> unique_keys s"
  by (simp add: key_free_def unique_keys_def)

lemma launch_keys:
  assumes P: "compute_provider P plan_of"
  shows "triple (key_free (pl_idempotency_key plan)) (launch_job P dir qn cn spec plan) (\<lambda>_. unique_keys) unique_keys"
proof -
  let ?F = "key_free (pl_idempotency_key plan)"
  have sp: "science_pred ?F" by (rule job_kept_science [OF key_free_kept])
  have "preserves ?F (p_submit P plan)" and "preserves ?F (p_status P ref)" for ref
    using compute_provider.submit_preserves [OF P sp] compute_provider.status_preserves [OF P sp] by simp_all
  then have ops: "triple ?F (p_submit P plan) (\<lambda>_. ?F) unique_keys"
    "triple ?F (p_status P ref) (\<lambda>_. ?F) unique_keys" for ref
    by (auto intro!: kept_triple dest: key_free_unique)
  have rest: "preserves unique_keys (if r_status r = SUCCEEDED
     then eff_bind (collect_run_outputs P r) (\<lambda>r'. eff_return (r', False)) else eff_return (r, False))" for r
    using collect_outputs_kept [OF unique_keys_kept P] by (auto intro!: preserves_intros)
  show ?thesis
    unfolding launch_job_def Let_def
    by (rule triple_bind [OF ops(1)], rule triple_bind [OF ops(2)], rule triple_bind [OF add_run_triple])
      (simp_all only: triple_preserves rest, simp add: submitted_run_def)
qed

lemma submit_job_keys:
  assumes "providers_ok ps"
  shows "preserves unique_keys (submit_job ps dir an au an' qn cn spec)"
  unfolding submit_job_def
proof (intro preserves_bind_pure)
  fix P assume "compute_for ps (ed_provider (es_spec spec)) = Inr P"
  then obtain plan_of where P: "compute_provider P plan_of"
    using providers_okD [OF assms] by (auto simp: compute_for_Inr)
  have tail: "preserves unique_keys (eff_bind (eff_lift (find_run_by_idempotency_key (pl_idempotency_key plan))) (\<lambda>existing.
     case existing of Some r \<Rightarrow> eff_return (r, True)
     | None \<Rightarrow> eff_bind (enforce_compute_approval an au an' plan) (\<lambda>_. launch_job P dir qn cn spec plan)))" for plan
  proof -
    let ?F = "key_free (pl_idempotency_key plan)"
    have "triple ?F (eff_bind (enforce_compute_approval an au an' plan) (\<lambda>_. launch_job P dir qn cn spec plan))
        (\<lambda>_. unique_keys) unique_keys"
      by (rule triple_bind [OF kept_triple [OF enforce_kept [OF key_free_approvals] key_free_unique] launch_keys [OF P]])
    then have run: "unique_keys (snd (eff_bind (enforce_compute_approval an au an' plan)
        (\<lambda>_. launch_job P dir qn cn spec plan) s))" if "?F s" for s
      using that unfolding triple_def by (auto simp: case_prod_beta split: sum.splits)
    show ?thesis
      using run by (auto simp: preserves_def eff_bind_def [of "eff_lift _"] key_free_def unique_keys_def
          find_run_None_iff split: sum.split option.split)
  qed
  show "preserves unique_keys (eff_bind (p_validate P spec) (\<lambda>plan.
     eff_bind (eff_lift (find_run_by_idempotency_key (pl_idempotency_key plan))) (\<lambda>existing.
     case existing of Some r \<Rightarrow> eff_return (r, True)
     | None \<Rightarrow> eff_bind (enforce_compute_approval an au an' plan) (\<lambda>_. launch_job P dir qn cn spec plan))))"
    unfolding compute_provider.validate_pure [OF P] by (intro preserves_bind_pure tail)
qed

subsection \<open>A second submission finds the first\<close>

lemma find_run_single:
  "filter (\<lambda>q. row_cols q = Some k) (tb_rows runs s) = [q] \<Longrightarrow>
     find_run_by_idempotency_key k s = Inr (Some (row_data q))"
  by (simp add: find_run_by_idempotency_key_def repo_decode_def)

lemma find_run_added:
  assumes "k \<notin> set (run_keys s)" and "repo_add runs r s = (Inr r', t)" and "r_idempotency_key r = Some k"
  shows "filter (\<lambda>q. row_cols q = Some k) (tb_rows runs t) =
    [\<lparr>row_id = r_id r, row_created_at = r_created_at r, row_cols = Some k, row_data = r\<rparr>]"
proof -
  have "filter (\<lambda>q. row_cols q = Some k) (tb_rows runs s) = []"
    using assms(1) by (force simp: run_keys_def filter_empty_conv image_iff)
  moreover have "tb_rows runs t = tb_rows runs s @ [\<lparr>row_id = r_id r, row_created_at = r_created_at r,
      row_cols = Some k, row_data = r\<rparr>]"
    using assms(2,3) by (auto simp: repo_add_def runs_def split: if_splits)
  ultimately show ?thesis by simp
qed

lemma find_run_updated:
  fixes s :: "'z science_db_scheme"
  assumes "filter (\<lambda>q. row_cols q = Some k) (tb_rows runs s) = [q]" and "repo_update runs r s = (Inr r', t)"
    and "row_id q = r_id r"
  shows "find_run_by_idempotency_key k t = Inr (Some r)"
proof -
  let ?T = "runs :: ('z science_db_scheme, string option, run) tbl"
  have "tb_rows runs t = map (upd_row ?T r) (tb_rows runs s)"
    using assms(2) by (auto simp: repo_update_def split: if_splits)
  then have "filter (\<lambda>q. row_cols q = Some k) (tb_rows runs t) = [upd_row ?T r q]"
    using assms(1) by (simp add: filter_map comp_def)
  from find_run_single [OF this] show ?thesis using assms(3) by (simp add: upd_row_def)
qed

lemma add_outputs_ok:
  "add_outputs as r s = (Inr r', t) \<Longrightarrow>
     r' = r\<lparr>r_output_artifact_ids := r_output_artifact_ids r @ map a_id as\<rparr>
     \<and> tb_rows runs t = tb_rows runs s"
proof (induction as arbitrary: r s)
  case (Cons a as)
  then obtain x s1 where add: "repo_add artifacts a s = (Inr x, s1)"
    and rest: "add_outputs as (r\<lparr>r_output_artifact_ids := r_output_artifact_ids r @ [a_id a]\<rparr>) s1 = (Inr r', t)"
    by (auto simp: eff_bind_ok_iff)
  have "tb_rows runs s1 = tb_rows runs s"
    using add_frame [of runs artifacts a s] add by simp
  then show ?case using Cons.IH [OF rest] by simp
qed simp

lemma launch_found:
  assumes P: "compute_provider P plan_of" and free: "pl_idempotency_key plan \<notin> set (run_keys s)"
    and run: "launch_job P dir qn cn spec plan s = (Inr (r, b), t)"
  shows "find_run_by_idempotency_key (pl_idempotency_key plan) t = Inr (Some r) \<and> \<not> b"
proof -
  let ?k = "pl_idempotency_key plan"
  from run obtain ref s1 st s2 x s3 where sub: "p_submit P plan s = (Inr ref, s1)"
    and sta: "p_status P ref s1 = (Inr st, s2)"
    and add: "repo_add runs (submitted_run dir qn cn spec plan ref st) s2 = (Inr x, s3)"
    and rest: "(if r_status (submitted_run dir qn cn spec plan ref st) = SUCCEEDED
       then eff_bind (collect_run_outputs P (submitted_run dir qn cn spec plan ref st)) (\<lambda>r'. eff_return (r', False))
       else eff_return (submitted_run dir qn cn spec plan ref st, False)) s3 = (Inr (r, b), t)"
    unfolding launch_job_def Let_def eff_bind_ok_iff by blast
  let ?r = "submitted_run dir qn cn spec plan ref st"
  have "same_science s s2"
    by (rule same_science_trans [OF compute_provider.submit_frame [OF P sub] compute_provider.status_frame [OF P sta]])
  then have "?k \<notin> set (run_keys s2)" using free same_science_keys by metis
  from find_run_added [OF this add] have only: "filter (\<lambda>q. row_cols q = Some ?k) (tb_rows runs s3) =
      [\<lparr>row_id = r_id ?r, row_created_at = r_created_at ?r, row_cols = Some ?k, row_data = ?r\<rparr>]"
    by (simp add: submitted_run_def)
  show ?thesis
  proof (cases "r_status ?r = SUCCEEDED")
    case False
    then show ?thesis using rest find_run_single [OF only] by simp
  next
    case True
    then obtain as s4 r' s5 where col: "p_collect P (run_ref ?r) s3 = (Inr as, s4)"
      and outs: "add_outputs as ?r s4 = (Inr r', s5)" and upd: "repo_update runs r' s5 = (Inr r, t)" and "\<not> b"
      using rest unfolding collect_run_outputs_def by (auto simp: eff_bind_ok_iff)
    have "tb_rows runs s5 = tb_rows runs s3"
      using add_outputs_ok [OF outs] same_science_rows(3) [OF compute_provider.collect_frame [OF P col]] by simp
    moreover have "r_id r' = r_id ?r" using add_outputs_ok [OF outs] by simp
    moreover have "r = r'" by (rule runs.update_Inr_value [OF upd])
    ultimately show ?thesis
      using find_run_updated [OF _ upd] only \<open>\<not> b\<close> by simp
  qed
qed

lemma submit_job_cases:
  assumes P: "compute_provider P plan_of" and ps: "compute_for ps (ed_provider (es_spec spec)) = Inr P"
    and run: "submit_job ps dir an au an' qn cn spec s = (Inr (r, b), t)"
  obtains (dup) plan where "plan_of spec = Inr plan" "b" "t = s"
      "find_run_by_idempotency_key (pl_idempotency_key plan) s = Inr (Some r)"
  | (new) plan s1 where "plan_of spec = Inr plan" "pl_idempotency_key plan \<notin> set (run_keys s)"
      "enforce_compute_approval an au an' plan s = (Inr (), s1)"
      "launch_job P dir qn cn spec plan s1 = (Inr (r, b), t)"
proof -
  note step = submit_job_def eff_bind_def [of "eff_lift _"] ps compute_provider.validate_pure [OF P]
  obtain plan where plan: "plan_of spec = Inr plan"
    using run by (cases "plan_of spec") (simp_all add: step)
  obtain ex where ex: "find_run_by_idempotency_key (pl_idempotency_key plan) s = Inr ex"
    using run plan by (cases "find_run_by_idempotency_key (pl_idempotency_key plan) s") (simp_all add: step)
  have body: "(case ex of Some r \<Rightarrow> eff_return (r, True)
     | None \<Rightarrow> eff_bind (enforce_compute_approval an au an' plan) (\<lambda>_. launch_job P dir qn cn spec plan)) s = (Inr (r, b), t)"
    using run plan ex by (simp add: step)
  show thesis
  proof (cases ex)
    case None
    then obtain s1 where "enforce_compute_approval an au an' plan s = (Inr (), s1)"
        "launch_job P dir qn cn spec plan s1 = (Inr (r, b), t)"
      using body by (auto simp: eff_bind_ok_iff)
    then show thesis using that(2) plan ex None by (auto simp: find_run_None_iff)
  next
    case (Some r0)
    then show thesis using that(1) plan ex body by simp
  qed
qed

text \<open>Predicates that adding a run keeps as well are kept by a submission.\<close>

lemma submit_job_kept:
  assumes Q: "job_kept Q" and add: "\<And>r. preserves Q (repo_add runs r)"
    and gate: "\<And>plan. preserves Q (enforce_compute_approval an au an' plan)" and ps: "providers_ok ps"
  shows "preserves Q (submit_job ps dir an au an' qn cn spec)"
  unfolding submit_job_def
proof (intro preserves_bind_pure)
  fix P assume "compute_for ps (ed_provider (es_spec spec)) = Inr P"
  then obtain plan_of where P: "compute_provider P plan_of"
    using providers_okD [OF ps] by (auto simp: compute_for_Inr)
  note sp = job_kept_science [OF Q]
  have launch: "preserves Q (launch_job P dir qn cn spec plan)" for plan
    unfolding launch_job_def Let_def
    by (intro preserves_intros compute_provider.submit_preserves [OF P sp]
        compute_provider.status_preserves [OF P sp] add collect_outputs_kept [OF Q P])
  show "preserves Q (eff_bind (p_validate P spec) (\<lambda>plan.
     eff_bind (eff_lift (find_run_by_idempotency_key (pl_idempotency_key plan))) (\<lambda>existing.
     case existing of Some r \<Rightarrow> eff_return (r, True)
     | None \<Rightarrow> eff_bind (enforce_compute_approval an au an' plan) (\<lambda>_. launch_job P dir qn cn spec plan))))"
    unfolding compute_provider.validate_pure [OF P]
    by (intro preserves_bind [OF preserves_lift])
      (auto split: option.split intro!: preserves_bind gate launch)
qed

subsection \<open>Collected outputs\<close>

lemma add_outputs_get:
  "add_outputs as r s = (Inr r', t) \<Longrightarrow>
     (\<forall>i x. repo_get artifacts i s = Inr x \<longrightarrow> repo_get artifacts i t = Inr x)
     \<and> res_map (\<lambda>i. repo_get artifacts i t) (map a_id as) = Inr as"
proof (induction as arbitrary: r s)
  case (Cons a as)
  then obtain y s1 where add: "repo_add artifacts a s = (Inr y, s1)"
    and rest: "add_outputs as (r\<lparr>r_output_artifact_ids := r_output_artifact_ids r @ [a_id a]\<rparr>) s1 = (Inr r', t)"
    by (auto simp: eff_bind_ok_iff)
  note IH = Cons.IH [OF rest]
  have get: "repo_get artifacts i s1 = (if i = a_id a then Inr a else repo_get artifacts i s)" for i
    using artifacts.add_get [OF add] by simp
  have fresh: "a_id a \<notin> tbl_ids artifacts s" using artifacts.add_ok_iff [of a s] add by simp
  have "repo_get artifacts i t = Inr x" if "repo_get artifacts i s = Inr x" for i x
  proof -
    have "i \<noteq> a_id a" using repo_get_Inr_mem [OF that] fresh by blast
    then have "repo_get artifacts i s1 = Inr x" using get [of i] that by simp
    then show ?thesis using IH by blast
  qed
  moreover have "repo_get artifacts (a_id a) t = Inr a" using IH get [of "a_id a"] by simp
  ultimately show ?case using IH by simp
qed simp

lemma collect_outputs_ok:
  assumes P: "compute_provider P plan_of" and run: "collect_run_outputs P r s = (Inr r', t)"
    and r: "r_output_artifact_ids r = []"
  shows "r_id r' = r_id r \<and> (\<exists>as. r_output_artifact_ids r' = map a_id as \<and> run_outputs (r_id r) t = (Inr as, t))"
proof -
  obtain as s1 r1 s2 where outs: "add_outputs as r s1 = (Inr r1, s2)" and upd: "repo_update runs r1 s2 = (Inr r', t)"
    using run unfolding collect_run_outputs_def by (auto simp: eff_bind_ok_iff)
  have r1: "r1 = r\<lparr>r_output_artifact_ids := map a_id as\<rparr>" using add_outputs_ok [OF outs] r by simp
  have r': "r' = r1" by (rule runs.update_Inr_value [OF upd])
  have "tb_rows artifacts t = tb_rows artifacts s2" using update_frame [of artifacts runs r1 s2] upd by simp
  then have "repo_get artifacts i t = repo_get artifacts i s2" for i by (rule repo_get_cong)
  then have get: "res_map (\<lambda>i. repo_get artifacts i t) (map a_id as) = Inr as" using add_outputs_get [OF outs] by simp
  have "repo_get runs (r_id r) t = Inr r1" using runs.update_get [OF upd, of "r_id r"] by (simp add: r1)
  then have "run_outputs (r_id r) t = (Inr as, t)" using get by (simp add: run_outputs_def eff_bind_def r1)
  then show ?thesis by (auto simp: r' r1)
qed

lemma launch_outputs:
  assumes P: "compute_provider P plan_of" and run: "launch_job P dir qn cn spec plan s = (Inr (r, b), t)"
    and "r_status r = SUCCEEDED"
  shows "\<exists>as. r_output_artifact_ids r = map a_id as \<and> run_outputs (r_id r) t = (Inr as, t)"
proof -
  from run obtain ref s1 st s2 x s3 where
    add: "repo_add runs (submitted_run dir qn cn spec plan ref st) s2 = (Inr x, s3)"
    and rest: "(if r_status (submitted_run dir qn cn spec plan ref st) = SUCCEEDED
       then eff_bind (collect_run_outputs P (submitted_run dir qn cn spec plan ref st)) (\<lambda>r'. eff_return (r', False))
       else eff_return (submitted_run dir qn cn spec plan ref st, False)) s3 = (Inr (r, b), t)"
    unfolding launch_job_def Let_def eff_bind_ok_iff by blast
  let ?r = "submitted_run dir qn cn spec plan ref st"
  have "r_status ?r = SUCCEEDED" using rest assms(3) by (auto split: if_splits)
  then have "collect_run_outputs P ?r s3 = (Inr r, t)" using rest by (auto simp: eff_bind_ok_iff)
  from collect_outputs_ok [OF P this] show ?thesis by (auto simp: submitted_run_def)
qed

subsection \<open>Steps of the job component\<close>

inductive job_step :: "'z service_state_scheme \<Rightarrow> 'z service_state_scheme \<Rightarrow> bool" where
  submit: "providers_ok ps \<Longrightarrow> submit_job ps dir an au an' qn cn spec s = (x, t) \<Longrightarrow> job_step s t"
| get: "providers_ok ps \<Longrightarrow> get_run ps i s = (y, t) \<Longrightarrow> job_step s t"
| list: "providers_ok ps \<Longrightarrow> list_runs ps s = (z, t) \<Longrightarrow> job_step s t"
| cancel: "providers_ok ps \<Longrightarrow> cancel_run ps i s = (w, t) \<Longrightarrow> job_step s t"

lemma job_step_keys: "job_step s t \<Longrightarrow> unique_keys s \<Longrightarrow> unique_keys t"
proof (induction rule: job_step.induct)
  case (submit ps dir an au an' qn cn spec s x t)
  then show ?case by (blast intro: preservesD [OF submit_job_keys])
next
  case (get ps i s y t)
  then show ?case by (blast intro: preservesD [OF get_run_kept [OF unique_keys_kept]])
next
  case (list ps s z t)
  then show ?case by (blast intro: preservesD [OF list_runs_kept [OF unique_keys_kept]])
next
  case (cancel ps i s w t)
  then show ?case by (blast intro: preservesD [OF cancel_run_kept [OF unique_keys_kept]])
qed

subsection \<open>The example environment\<close>

definition ex_providers :: "local_state providers" where
  "ex_providers = (\<lambda>n. if n = ''local'' then Some (local_provider ex_env) else None)"

lemma ex_providers_ok: "providers_ok ex_providers"
  by (auto simp: providers_ok_def ex_providers_def intro: local.compute_provider_axioms)

definition ex_open :: local_state where
  "ex_open = ex_state\<lparr>sv_policies := [(''compute'', JDict [(''local'', JDict
     [(''allow_unapproved_subprocess'', JBool True), (''allow_unapproved_network'', JBool True)])])]\<rparr>"

lemma ex_get: "compute_for ex_providers (ed_provider (es_spec ex_spec)) = Inr (local_provider ex_env)"
  by (simp add: compute_for_def ex_providers_def ex_spec_def)

lemma ex_local: "compute_provider (local_provider ex_env :: local_state provider) (local_validate ex_env)"
  by (rule local.compute_provider_axioms)

lemma ex_reasons_open: "compute_policy_reasons (sv_policies ex_open) ex_plan = Inr []"
  by (simp add: compute_policy_reasons_def sub_mapping_def dict_get_def dict_get_or_def ex_open_def ex_plan_def
      ex_spec_def approval_reasons_def flag_def runtime_limit_def DEFAULT_TIMEOUT_MINUTES_def)

lemma ex_reasons_closed: "\<exists>r rs. compute_policy_reasons (sv_policies ex_state) ex_plan = Inr (r # rs)"
  by (simp add: compute_policy_reasons_def sub_mapping_def dict_get_def dict_get_or_def ex_state_def ex_plan_def
      ex_spec_def approval_reasons_def flag_def runtime_limit_def DEFAULT_TIMEOUT_MINUTES_def)

lemma ex_launch:
  "\<exists>r t. launch_job (local_provider ex_env) ''.omnisci'' ''q'' ''c'' ex_spec ex_plan ex_open = (Inr (r, False), t)
     \<and> r_status r = SUCCEEDED"
  by (simp add: launch_job_def local_provider_def local_submit_def eff_bind_def make_run_dir_def dict_has_def write_record_def
      set_dir_def with_dir_def dict_get_def read_record_def ex_env_def ex_open_def ex_state_def Let_def local_status_def
      repo_add_def runs_def submitted_run_def finished_record_def final_status_def running_record_def queued_record_def
      collect_run_outputs_def local_collect_def run_ref_def collect_targets_def output_candidates_def ex_plan_def ex_spec_def
      relative_to_def is_within_def startswith_def artifacts_def repo_update_def new_id_def)

lemma ex_submit:
  "\<exists>r t. submit_job ex_providers ''.omnisci'' ''n'' ''u'' ''m'' ''q'' ''c'' ex_spec ex_open = (Inr (r, False), t)
     \<and> r_status r = SUCCEEDED"
proof -
  have "find_run_by_idempotency_key k ex_open = Inr None" for k
    by (simp add: find_run_by_idempotency_key_def ex_open_def ex_state_def runs_def)
  moreover have "enforce_compute_approval n u m ex_plan ex_open = (Inr (), ex_open)" for n u m
    using ex_reasons_open by (simp add: enforce_compute_approval_def eff_bind_def)
  ultimately show ?thesis
    using ex_launch
    by (simp add: submit_job_def eff_bind_def [of "eff_lift _"] ex_get local.validate_pure ex_validate
        eff_bind_Inr [where m = "enforce_compute_approval _ _ _ _"])
qed

subsection \<open>Properties\<close>



text \<open>
  Submitting again is free: after a submission has returned a run, a
  second submission of the same specification returns that same run, marked as a duplicate,
  without asking for approval, without calling the provider's \<open>submit\<close> and without changing
  anything, whatever draws the second call would have made.
\<close>

theorem submit_job_deduplicated:
  assumes "compute_provider P plan_of" and "compute_for ps (ed_provider (es_spec spec)) = Inr P"
    and "compute_provider P' plan_of" and "compute_for ps' (ed_provider (es_spec spec)) = Inr P'"
    and "submit_job ps dir an au an' qn cn spec s = (Inr (r, b), t)"
  shows "submit_job ps' dir' an2 au2 an2' qn2 cn2 spec t = (Inr (r, True), t)"
proof -
  obtain plan where plan: "plan_of spec = Inr plan"
    and found: "find_run_by_idempotency_key (pl_idempotency_key plan) t = Inr (Some r)"
    using assms(1,2,5)
  proof (cases rule: submit_job_cases)
    case (dup plan)
    then show thesis using that by blast
  next
    case (new plan s1)
    have "tb_rows runs s1 = tb_rows runs s"
      using preservesD [OF enforce_kept [OF rows_approvals_kept] refl new(3)] by simp
    then have "pl_idempotency_key plan \<notin> set (run_keys s1)" using new(2) run_keys_cong by metis
    from launch_found [OF assms(1) this new(4)] show thesis using that new(1) by blast
  qed
  then show ?thesis
    by (simp add: submit_job_def eff_bind_def assms(4) compute_provider.validate_pure [OF assms(3)])
qed

theorem submit_job_deduplicated_witness:
  "\<exists>r t. submit_job ex_providers ''.omnisci'' ''n'' ''u'' ''m'' ''q'' ''c'' ex_spec ex_open = (Inr (r, False), t)
    \<and> submit_job ex_providers ''.omnisci'' ''n2'' ''u2'' ''m2'' ''q2'' ''c2'' ex_spec t = (Inr (r, True), t)"
proof -
  obtain r t where run: "submit_job ex_providers ''.omnisci'' ''n'' ''u'' ''m'' ''q'' ''c'' ex_spec ex_open = (Inr (r, False), t)"
    using ex_submit by blast
  show ?thesis using submit_job_deduplicated [OF ex_local ex_get ex_local ex_get run] run by blast
qed

text \<open>
  A job that needs an approval nobody has given is not started: the call
  files one pending approval, raises its id, and changes nothing else, neither in the database
  nor in the provider's own state.
\<close>

theorem submit_job_unapproved:
  assumes "compute_provider P plan_of" and "compute_for ps (ed_provider (es_spec spec)) = Inr P" and "plan_of spec = Inr plan"
    and "tbl_ok approvals s" and "find_run_by_idempotency_key (pl_idempotency_key plan) s = Inr None"
    and "compute_policy_reasons (sv_policies s) plan = Inr reasons" and "reasons \<noteq> []"
    and "unsettled (''compute.submit:'' @ pl_provider plan) (pl_idempotency_key plan) s"
    and "new_id ''approval'' au \<notin> tbl_ids approvals s"
  shows "\<exists>a msg t. submit_job ps dir an au an' qn cn spec s =
      (Inl (ApprovalRequiredError (new_id ''approval'' au) (''compute.submit:'' @ pl_provider plan) msg), t)
    \<and> ap_decision a = AD_PENDING \<and> ap_scope a = Some (pl_idempotency_key plan) \<and> repo_add approvals a s = (Inr a, t)"
proof -
  let ?a = "new_approval au an' (''compute.submit:'' @ pl_provider plan) (Some (pl_idempotency_key plan)) None None None
      (Some (join ''; '' reasons))"
  have id: "ap_id ?a = new_id ''approval'' au" by (simp add: new_approval_def)
  obtain t where add: "repo_add approvals ?a s = (Inr ?a, t)"
    using approvals.add_fresh [of ?a s] assms(9) id by auto
  have "require_approval an au an' (''compute.submit:'' @ pl_provider plan) (pl_idempotency_key plan) msg (join ''; '' reasons) s =
      (Inl (ApprovalRequiredError (new_id ''approval'' au) (''compute.submit:'' @ pl_provider plan) msg), t)" for msg
    using require_unsettled [OF assms(4,8)] add id by (simp add: eff_bind_def)
  then have "submit_job ps dir an au an' qn cn spec s =
      (Inl (ApprovalRequiredError (new_id ''approval'' au) (''compute.submit:'' @ pl_provider plan)
        (''Approval required for '' @ pl_provider plan @ '' job: '' @ join ''; '' reasons)), t)"
    by (simp add: submit_job_def eff_bind_def assms(2,3,5-7) compute_provider.validate_pure [OF assms(1)]
        enforce_compute_approval_def)
  then show ?thesis using add by (intro exI [of _ ?a]) (simp add: new_approval_def)
qed

theorem submit_job_unapproved_witness:
  "\<exists>a msg t. submit_job ex_providers ''.omnisci'' ''n'' ''u'' ''m'' ''q'' ''c'' ex_spec ex_state =
      (Inl (ApprovalRequiredError ''approval_u'' ''compute.submit:local'' msg), t) \<and> repo_add approvals a ex_state = (Inr a, t)"
proof -
  obtain r rs where rs: "compute_policy_reasons (sv_policies ex_state) ex_plan = Inr (r # rs)" using ex_reasons_closed by blast
  have none: "tbl_ok approvals ex_state" "tbl_objs approvals ex_state = {}" "tbl_ids approvals ex_state = {}"
      "find_run_by_idempotency_key k ex_state = Inr None" for k
    by (simp_all add: ex_state_def approvals_def runs_def tbl_ok_def tbl_objs_def tbl_ids_def find_run_by_idempotency_key_def)
  have "pl_provider ex_plan = ''local''" by (simp add: ex_plan_def)
  then show ?thesis
    using submit_job_unapproved [OF ex_local ex_get ex_validate none(1,4) rs, of "''u''" "''.omnisci''" "''n''" "''m''" "''q''" "''c''"]
      none(2,3) by (auto simp: unsettled_def new_id_def)
qed

text \<open>
  In every state the job operations reach from a database without duplicate
  keys, with any providers that meet the contract and any mix of submissions, polls and
  cancellations, no two runs carry the same idempotency key.
\<close>

theorem job_keys_unique:
  assumes "distinct (run_keys s)" and "job_step\<^sup>*\<^sup>* s t"
  shows "distinct (run_keys t)"
  using assms(2) job_step_keys assms(1)
  by (induction rule: rtranclp_induct) (auto simp: unique_keys_def)

theorem job_keys_unique_witness:
  "\<exists>r t. submit_job ex_providers ''.omnisci'' ''n'' ''u'' ''m'' ''q'' ''c'' ex_spec ex_open = (Inr (r, False), t)
     \<and> distinct (run_keys t)"
proof -
  obtain r t where run: "submit_job ex_providers ''.omnisci'' ''n'' ''u'' ''m'' ''q'' ''c'' ex_spec ex_open = (Inr (r, False), t)"
    using ex_submit by blast
  have step: "job_step ex_open t" by (rule job_step.submit [OF ex_providers_ok run])
  have "distinct (run_keys ex_open)" by (simp add: run_keys_def ex_open_def ex_state_def runs_def)
  from job_keys_unique [OF this r_into_rtranclp [of job_step, OF step]] show ?thesis using run by blast
qed

text \<open>
  The outputs of a run that has succeeded are registered: the run returned
  names exactly the artifacts the provider collected, and \<open>run_outputs\<close> reads them back in order.
\<close>

theorem submit_job_outputs:
  assumes "compute_provider P plan_of" and "compute_for ps (ed_provider (es_spec spec)) = Inr P"
    and "submit_job ps dir an au an' qn cn spec s = (Inr (r, False), t)" and "r_status r = SUCCEEDED"
  shows "\<exists>as. r_output_artifact_ids r = map a_id as \<and> run_outputs (r_id r) t = (Inr as, t)"
  using assms(1,2,3)
proof (cases rule: submit_job_cases)
  case (new plan s1)
  from launch_outputs [OF assms(1) new(4) assms(4)] show ?thesis .
qed simp

theorem submit_job_outputs_witness:
  "\<exists>r t as. submit_job ex_providers ''.omnisci'' ''n'' ''u'' ''m'' ''q'' ''c'' ex_spec ex_open = (Inr (r, False), t)
     \<and> run_outputs (r_id r) t = (Inr as, t)"
proof -
  obtain r t where run: "submit_job ex_providers ''.omnisci'' ''n'' ''u'' ''m'' ''q'' ''c'' ex_spec ex_open = (Inr (r, False), t)"
    and st: "r_status r = SUCCEEDED" using ex_submit by blast
  show ?thesis using submit_job_outputs [OF ex_local ex_get run st] run by blast
qed

end
