(* ===== verification/Service.thy ===== *)
theory Service
  imports Records Jobs
begin

text \<open>
  The whole service facade (\<open>science/omnisci/service.py\<close>): its record, approval and job
  operations interleaved in any order over one database, and the invariant they keep together.
\<close>

subsection \<open>Steps\<close>



subsection \<open>What a record operation leaves alone\<close>







subsection \<open>Records under approvals and jobs\<close>







subsection \<open>Approvals under jobs\<close>







subsection \<open>The invariant of the service\<close>






end
