(* ===== verification/Policy_Types.thy ===== *)
theory Policy_Types
  imports Prelude Py_Format
begin

text \<open>
  The data of the guardrail policies: \<open>src/omnigent/spec/types.py\<close> (phases, actions, selectors,
  label schemas, policy specs) and \<open>src/omnigent/policies/types.py\<close> (the evaluation context a
  caller hands to the engine and the result that a policy and the engine return), with the
  arithmetic that state updates use on dynamically typed values (\<open>_apply_one\<close> of the engine).

  Values have value semantics: a list object that two state updates share is not modelled as
  shared, so an \<open>APPEND\<close> to one key never shows under another key.
\<close>

subsection \<open>Phases, actions and updates\<close>

datatype phase =
    REQUEST | TOOL_CALL | TOOL_RESULT | RESPONSE | LLM_REQUEST | LLM_RESPONSE

fun phase_value :: "phase \<Rightarrow> string" where
  "phase_value REQUEST = ''request''"
| "phase_value TOOL_CALL = ''tool_call''"
| "phase_value TOOL_RESULT = ''tool_result''"
| "phase_value RESPONSE = ''response''"
| "phase_value LLM_REQUEST = ''llm_request''"
| "phase_value LLM_RESPONSE = ''llm_response''"

datatype policy_action = ALLOW | ASK | DENY

fun policy_action_value :: "policy_action \<Rightarrow> string" where
  "policy_action_value ALLOW = ''allow''"
| "policy_action_value ASK = ''ask''"
| "policy_action_value DENY = ''deny''"

text \<open>The order of strictness in which the engine composes decisions.\<close>

fun strictness :: "policy_action \<Rightarrow> nat" where
  "strictness ALLOW = 0"
| "strictness ASK = 1"
| "strictness DENY = 2"

lemma strictness_inj: "strictness a = strictness b \<Longrightarrow> a = b"
  by (cases a; cases b) simp_all

instantiation policy_action :: linorder
begin

definition less_eq_policy_action :: "policy_action \<Rightarrow> policy_action \<Rightarrow> bool" where
  "less_eq_policy_action a b \<longleftrightarrow> strictness a \<le> strictness b"

definition less_policy_action :: "policy_action \<Rightarrow> policy_action \<Rightarrow> bool" where
  "less_policy_action a b \<longleftrightarrow> strictness a < strictness b"

instance
  by standard (auto simp: less_eq_policy_action_def less_policy_action_def intro: strictness_inj)

end

text \<open>\<open>PolicyAction(s)\<close>: the member with that value, \<open>None\<close> for the \<open>ValueError\<close>.\<close>

definition policy_action_of :: "string \<Rightarrow> policy_action option" where
  "policy_action_of s =
     (if s = ''allow'' then Some ALLOW
      else if s = ''ask'' then Some ASK
      else if s = ''deny'' then Some DENY else None)"

datatype state_update_action = SET | INCREMENT | DELETE | APPEND

fun state_update_action_value :: "state_update_action \<Rightarrow> string" where
  "state_update_action_value SET = ''set''"
| "state_update_action_value INCREMENT = ''increment''"
| "state_update_action_value DELETE = ''delete''"
| "state_update_action_value APPEND = ''append''"

definition state_update_action_of :: "string \<Rightarrow> state_update_action option" where
  "state_update_action_of s =
     (if s = ''set'' then Some SET
      else if s = ''increment'' then Some INCREMENT
      else if s = ''delete'' then Some DELETE
      else if s = ''append'' then Some APPEND else None)"

record state_update =
  su_key :: string
  su_action :: state_update_action
  su_value :: json

subsection \<open>Specs\<close>

record phase_selector =
  sel_phase :: phase
  sel_tool_name :: "string option"

record label_def =
  ld_initial :: "string option"
  ld_values :: "string list option"

text \<open>The value of a \<open>condition\<close> entry: a scalar (equality) or a list (membership).\<close>

datatype cond_value = CondScalar string | CondList "string list"

record function_ref =
  fr_path :: string
  fr_arguments :: "json dict option"

text \<open>
  \<open>FunctionPolicySpec\<close>, the only concrete subclass of \<open>PolicySpec\<close> that the builder
  instantiates.
\<close>

record policy_spec =
  sp_name :: string
  sp_on :: "phase_selector list option"
  sp_condition :: "cond_value dict option"
  sp_ask_timeout :: "int option"
  sp_function :: "function_ref option"
  sp_set_labels :: "string list option"
  sp_config :: "string dict option"

definition DEFAULT_ASK_TIMEOUT :: int where
  "DEFAULT_ASK_TIMEOUT = 86400"

record guardrails_spec =
  gs_labels :: "label_def dict option"
  gs_policies :: "policy_spec list option"
  gs_ask_timeout :: int

subsection \<open>Evaluation contracts\<close>

text \<open>
  \<open>JNull\<close> stands for a \<open>None\<close> of an \<open>Any\<close> field. The LLM client object is only passed
  through by the code modelled here, so it is represented by a tag.
\<close>

record evaluation_context =
  ctx_phase :: phase
  ctx_content :: json
  ctx_tool_name :: "string option"
  ctx_actor :: "string dict option"
  ctx_request_data :: json
  ctx_session_state :: "json dict option"
  ctx_usage :: "json dict option"
  ctx_subtree_usage :: "json dict option"
  ctx_user_daily_cost :: "json dict option"
  ctx_model :: "string option"
  ctx_harness :: "string option"
  ctx_labels :: "string dict option"
  ctx_llm_client :: json

record policy_result =
  pr_action :: policy_action
  pr_reason :: "string option"
  pr_set_labels :: "string dict option"
  pr_deciding_policies :: "string list option"
  pr_data :: json
  pr_state_updates :: "state_update list option"

definition policy_result_of :: "policy_action \<Rightarrow> string option \<Rightarrow> policy_result" where
  "policy_result_of a r =
     \<lparr>pr_action = a, pr_reason = r, pr_set_labels = None, pr_deciding_policies = None,
      pr_data = JNull, pr_state_updates = None\<rparr>"

definition deciding_policy :: "policy_result \<Rightarrow> string option" where
  "deciding_policy r =
     (case pr_deciding_policies r of None \<Rightarrow> None | Some [] \<Rightarrow> None | Some (p # _) \<Rightarrow> Some p)"

definition FAIL_CLOSED_PHASES :: "string list" where
  "FAIL_CLOSED_PHASES = [''PHASE_TOOL_CALL'', ''PHASE_REQUEST'']"

definition selector_matches :: "phase_selector \<Rightarrow> evaluation_context \<Rightarrow> bool" where
  "selector_matches sel ctx =
     (if ctx_phase ctx \<noteq> sel_phase sel then False
      else if sel_tool_name sel = None then True
      else ctx_tool_name ctx = sel_tool_name sel)"

subsection \<open>Arithmetic of dynamically typed values\<close>

fun type_name :: "json \<Rightarrow> string" where
  "type_name JNull = ''NoneType''"
| "type_name (JBool _) = ''bool''"
| "type_name (JInt _) = ''int''"
| "type_name (JFloat _) = ''float''"
| "type_name (JStr _) = ''str''"
| "type_name (JList _) = ''list''"
| "type_name (JDict _) = ''dict''"

text \<open>\<open>bool\<close> is a subclass of \<open>int\<close>: it takes part in arithmetic as 0 or 1.\<close>

fun json_int :: "json \<Rightarrow> int option" where
  "json_int (JBool b) = Some (if b then 1 else 0)"
| "json_int (JInt i) = Some i"
| "json_int _ = None"

fun json_num :: "json \<Rightarrow> rat option" where
  "json_num (JBool b) = Some (if b then 1 else 0)"
| "json_num (JInt i) = Some (of_int i)"
| "json_num (JFloat q) = Some q"
| "json_num _ = None"

text \<open>The operator \<open>+\<close>: numbers add, strings and lists concatenate, the rest raises.\<close>

definition json_add :: "json \<Rightarrow> json \<Rightarrow> json res" where
  "json_add a b =
     (case (json_int a, json_int b) of
        (Some i, Some j) \<Rightarrow> Inr (JInt (i + j))
      | _ \<Rightarrow>
        (case (json_num a, json_num b) of
           (Some p, Some q) \<Rightarrow> Inr (JFloat (p + q))
         | _ \<Rightarrow>
           (case (a, b) of
              (JStr s, JStr t) \<Rightarrow> Inr (JStr (s @ t))
            | (JList xs, JList ys) \<Rightarrow> Inr (JList (xs @ ys))
            | (JStr _, _) \<Rightarrow>
                Inl (TypeError (''can only concatenate str (not \"'' @ type_name b @ ''\") to str''))
            | (JList _, _) \<Rightarrow>
                Inl (TypeError (''can only concatenate list (not \"'' @ type_name b @ ''\") to list''))
            | _ \<Rightarrow>
                Inl (TypeError (''unsupported operand type(s) for +: '' @ sq (type_name a) @
                                '' and '' @ sq (type_name b))))))"

text \<open>
  \<open>_apply_one(state, op)\<close>. The message of the \<open>APPEND\<close> error is the one of the source for a
  key without quotes (\<open>repr\<close>).
\<close>

definition apply_one :: "json dict \<Rightarrow> state_update \<Rightarrow> json dict res" where
  "apply_one state op =
     (case su_action op of
        SET \<Rightarrow> Inr (dict_set (su_key op) (su_value op) state)
      | INCREMENT \<Rightarrow>
          res_bind (json_add (dict_get_or state (su_key op) (JInt 0)) (su_value op))
            (\<lambda>v. Inr (dict_set (su_key op) v state))
      | DELETE \<Rightarrow> Inr (dict_pop (su_key op) state)
      | APPEND \<Rightarrow>
          (case dict_get state (su_key op) of
             None \<Rightarrow> Inr (dict_set (su_key op) (JList [su_value op]) state)
           | Some JNull \<Rightarrow> Inr (dict_set (su_key op) (JList [su_value op]) state)
           | Some (JList xs) \<Rightarrow> Inr (dict_set (su_key op) (JList (xs @ [su_value op])) state)
           | Some v \<Rightarrow>
               Inl (TypeError (''APPEND on key '' @ sq (su_key op) @
                               '': expected list, got '' @ type_name v))))"

text \<open>A state update reads and writes no key but its own.\<close>

subsection \<open>Lemmas\<close>

lemma policy_action_of_value [simp]: "policy_action_of (policy_action_value a) = Some a"
  by (cases a) (simp_all add: policy_action_of_def)

lemma policy_action_of_Some: "policy_action_of s = Some a \<longleftrightarrow> s = policy_action_value a"
  by (cases a) (auto simp: policy_action_of_def)

lemma state_update_action_of_value [simp]:
  "state_update_action_of (state_update_action_value a) = Some a"
  by (cases a) (simp_all add: state_update_action_of_def)

lemma state_update_action_of_Some:
  "state_update_action_of s = Some a \<longleftrightarrow> s = state_update_action_value a"
  by (cases a) (auto simp: state_update_action_of_def)

lemma phase_value_inj: "phase_value p = phase_value q \<longleftrightarrow> p = q"
  by (cases p; cases q) simp_all

lemma json_add_ints [simp]: "json_add (JInt i) (JInt j) = Inr (JInt (i + j))"
  by (simp add: json_add_def)

lemma json_add_float [simp]:
  "json_add (JFloat p) (JFloat q) = Inr (JFloat (p + q))"
  "json_add (JInt i) (JFloat q) = Inr (JFloat (of_int i + q))"
  "json_add (JFloat p) (JInt j) = Inr (JFloat (p + of_int j))"
  by (simp_all add: json_add_def)

lemma json_num_add:
  assumes "json_num a = Some p" and "json_num b = Some q"
  shows "\<exists>c. json_add a b = Inr c \<and> json_num c = Some (p + q)"
  using assms
  by (cases a; cases b) (auto simp: json_add_def)

lemma apply_one_frame:
  assumes "apply_one state op = Inr state'" and "k \<noteq> su_key op"
  shows "map_of state' k = map_of state k"
  using assms
  by (auto simp: apply_one_def res_bind_Inr_iff
           split: state_update_action.splits option.splits json.splits)

lemma apply_one_distinct:
  assumes "apply_one state op = Inr state'" and "distinct (map fst state)"
  shows "distinct (map fst state')"
proof -
  have pop: "distinct (map fst (dict_pop k state))" for k
    using assms(2) unfolding dict_pop_def by (simp add: distinct_map_filter)
  show ?thesis
    using assms pop
    by (auto simp: apply_one_def res_bind_Inr_iff distinct_dict_set
             split: state_update_action.splits option.splits json.splits)
qed

end
