(* ===== verification/Conv_Entities.thy ===== *)
theory Conv_Entities
  imports Policy_Types
begin

text \<open>
  The items of a conversation (\<open>src/omnigent/entities/conversation.py\<close>): their payload classes with the
  validators that reject a payload, the pairing of types and payloads, the stored row with its integer codes read back
  (\<open>src/omnigent/db/enum_codecs.py\<close>), and the text under which an item is searched (\<open>src/omnigent/db/utils.py\<close>).
\<close>

subsection \<open>Payloads\<close>

text \<open>The fields in the order of the classes; \<open>agent\<close> is the one that is serialised as \<open>model\<close>.\<close>

datatype item_data =
    MessageData (md_role: string) (md_content: "json dict list") (md_agent: "string option") (md_is_meta: bool)
      (md_interrupted: bool)
  | FunctionCallData (fc_agent: string) (fc_name: string) (fc_arguments: string) (fc_call_id: string)
  | FunctionCallOutputData (fo_call_id: string) (fo_output: string)
  | ErrorData (ed_source: string) (ed_code: string) (ed_message: string)
  | ReasoningData (rd_agent: string) (rd_summary: "json dict list") (rd_content: "json dict list option")
      (rd_encrypted_content: "string option")
  | CompactionData (cd_summary: string) (cd_last_item_id: string) (cd_model: "string option") (cd_token_count: int)
      (cd_compacted_messages: "json dict list option") (cd_window_id: "int option")
  | NativeToolData (nt_item: "json dict")
  | ResourceEventData (re_event_type: string) (re_resource_id: string) (re_resource_type: string)
      (re_resource: "json dict option")
  | RoutingDecisionData (ro_model: string) (ro_applied: bool) (ro_rationale: string) (ro_agent: "string option")
  | SlashCommandData (sc_agent: string) (sc_kind: string) (sc_name: string) (sc_arguments: string)
      (sc_output: "string option")
  | TerminalCommandData (tc_kind: string) (tc_input: "string option") (tc_stdout: "string option")
      (tc_stderr: "string option")

text \<open>\<open>ITEM_TYPE_TO_DATA_CLS\<close>, read from the class to the type.\<close>

primrec item_type_of :: "item_data \<Rightarrow> string" where
  "item_type_of (MessageData _ _ _ _ _) = ''message''"
| "item_type_of (FunctionCallData _ _ _ _) = ''function_call''"
| "item_type_of (FunctionCallOutputData _ _) = ''function_call_output''"
| "item_type_of (ErrorData _ _ _) = ''error''"
| "item_type_of (ReasoningData _ _ _ _) = ''reasoning''"
| "item_type_of (CompactionData _ _ _ _ _ _) = ''compaction''"
| "item_type_of (NativeToolData _) = ''native_tool''"
| "item_type_of (ResourceEventData _ _ _ _) = ''resource_event''"
| "item_type_of (RoutingDecisionData _ _ _ _) = ''routing_decision''"
| "item_type_of (SlashCommandData _ _ _ _ _) = ''slash_command''"
| "item_type_of (TerminalCommandData _ _ _ _) = ''terminal_command''"

definition ITEM_TYPES :: "string list" where
  "ITEM_TYPES = [''message'', ''function_call'', ''function_call_output'', ''error'', ''reasoning'', ''compaction'',
     ''native_tool'', ''resource_event'', ''routing_decision'', ''slash_command'', ''terminal_command'']"

definition NON_CONTENT_ITEM_TYPES :: "string list" where
  "NON_CONTENT_ITEM_TYPES =
     [''compaction'', ''error'', ''resource_event'', ''routing_decision'', ''slash_command'', ''terminal_command'']"

definition encode_item_type :: "string \<Rightarrow> string res" where
  "encode_item_type name =
     (if name \<in> set ITEM_TYPES then Inr name
      else Inl (ValueError (''unknown conversation_items.type value: '' @ sq name)))"

subsection \<open>Validation\<close>

text \<open>The constructor calls of the classes whose validators can reject or change a field.\<close>

definition message_data :: "string \<Rightarrow> json dict list \<Rightarrow> string option \<Rightarrow> bool \<Rightarrow> bool \<Rightarrow> item_data res" where
  "message_data role content agent is_meta interrupted =
     (if role \<notin> {''user'', ''assistant''} then Inl (ValidationError (''Input should be '' @ sq ''user'' @ '' or '' @ sq ''assistant''))
      else if role = ''assistant'' \<and> agent = None
      then Inl (ValidationError (''Value error, assistant messages require '' @ sq ''agent''))
      else Inr (MessageData role content agent is_meta interrupted))"

definition error_data :: "string \<Rightarrow> string \<Rightarrow> string \<Rightarrow> item_data res" where
  "error_data source code message =
     (if source \<notin> {''llm'', ''execution'', ''tool''}
      then Inl (ValidationError (''Input should be '' @ sq ''llm'' @ '', '' @ sq ''execution'' @ '' or '' @ sq ''tool''))
      else if strip code = [] \<or> strip message = []
      then Inl (ValidationError ''Value error, error code and message must be non-empty'')
      else Inr (ErrorData source (strip code) (strip message)))"

definition routing_decision_data :: "string \<Rightarrow> bool \<Rightarrow> string \<Rightarrow> string option \<Rightarrow> item_data res" where
  "routing_decision_data model applied rationale agent =
     (if strip model = [] then Inl (ValidationError ''Value error, routing_decision model must be non-empty'')
      else Inr (RoutingDecisionData (strip model) applied rationale agent))"

definition validate_type_matches_data :: "string \<Rightarrow> item_data \<Rightarrow> unit res" where
  "validate_type_matches_data item_type payload =
     (if item_type \<notin> set ITEM_TYPES then Inl (ValueError (''unknown item type: '' @ sq item_type))
      else if item_type_of payload \<noteq> item_type
      then Inl (ValueError (''item type '' @ sq item_type @ '' requires another payload, got '' @ item_type_of payload))
      else Inr ())"

subsection \<open>Items\<close>

record new_item =
  ni_type :: string
  ni_response_id :: string
  ni_data :: item_data
  ni_created_by :: "string option"

record conv_item =
  it_id :: string
  it_type :: string
  it_status :: string
  it_response_id :: string
  it_created_at :: int
  it_data :: item_data
  it_created_by :: "string option"

definition new_conversation_item :: "string \<Rightarrow> string \<Rightarrow> item_data \<Rightarrow> string option \<Rightarrow> new_item res" where
  "new_conversation_item item_type response_id payload created_by =
     res_bind (validate_type_matches_data item_type payload) (\<lambda>_.
       Inr \<lparr>ni_type = item_type, ni_response_id = response_id, ni_data = payload, ni_created_by = created_by\<rparr>)"

definition conversation_item ::
    "string \<Rightarrow> string \<Rightarrow> string \<Rightarrow> string \<Rightarrow> int \<Rightarrow> item_data \<Rightarrow> string option \<Rightarrow> conv_item res" where
  "conversation_item item_id item_type status response_id created_at payload created_by =
     res_bind (validate_type_matches_data item_type payload) (\<lambda>_.
       Inr \<lparr>it_id = item_id, it_type = item_type, it_status = status, it_response_id = response_id,
            it_created_at = created_at, it_data = payload, it_created_by = created_by\<rparr>)"

subsection \<open>Rows\<close>

record item_row =
  ci_id :: string
  ci_conversation :: string
  ci_response_id :: string
  ci_created_at :: int
  ci_status :: string
  ci_position :: int
  ci_type :: string
  ci_data :: item_data
  ci_search_text :: string
  ci_created_by :: "string option"

definition to_item :: "item_row \<Rightarrow> conv_item" where
  "to_item row =
     \<lparr>it_id = ci_id row, it_type = ci_type row, it_status = ci_status row, it_response_id = ci_response_id row,
      it_created_at = ci_created_at row, it_data = ci_data row, it_created_by = ci_created_by row\<rparr>"

subsection \<open>Search text\<close>

text \<open>\<open>block["text"] for block in blocks if block.get("text")\<close>, joined: a text that is no string cannot be joined.\<close>

fun block_texts :: "json dict list \<Rightarrow> string list res" where
  "block_texts [] = Inr []"
| "block_texts (block # blocks) =
     (case dict_get block ''text'' of
        Some (JStr t) \<Rightarrow> res_bind (block_texts blocks) (\<lambda>ts. Inr (if t = [] then ts else t # ts))
      | Some v \<Rightarrow> if truthy v then Inl (TypeError (''sequence item: expected str instance, '' @ type_name v @ '' found''))
                  else block_texts blocks
      | None \<Rightarrow> block_texts blocks)"

definition join_parts :: "string list \<Rightarrow> string" where
  "join_parts parts = join '' '' (filter (\<lambda>p. p \<noteq> []) parts)"

fun extract_search_text :: "item_data \<Rightarrow> string res" where
  "extract_search_text (MessageData role content agent is_meta interrupted) =
     res_bind (block_texts content) (\<lambda>ts. Inr (join '' '' ts))"
| "extract_search_text (FunctionCallData agent name arguments call_id) = Inr (name @ '' '' @ arguments)"
| "extract_search_text (FunctionCallOutputData call_id out) = Inr out"
| "extract_search_text (ErrorData source code message) = Inr (join_parts [source, code, message])"
| "extract_search_text (ReasoningData agent summary content encrypted) =
     res_bind (block_texts summary) (\<lambda>ts. Inr (join '' '' ts))"
| "extract_search_text (CompactionData summary last_item_id model token_count messages window_id) = Inr summary"
| "extract_search_text (NativeToolData item) = Inr []"
| "extract_search_text (ResourceEventData event_type resource_id resource_type resource) =
     Inr (join_parts [event_type, resource_id, resource_type])"
| "extract_search_text (SlashCommandData agent kind name arguments out) = Inr (join_parts [name, arguments, str_or out []])"
| "extract_search_text (TerminalCommandData kind inp stdout stderr) = Inr (join_parts [str_or inp [], str_or stdout []])"
| "extract_search_text (RoutingDecisionData model applied rationale agent) = Inr (join_parts [model, rationale])"

definition strip_nul_bytes :: "string \<Rightarrow> string" where
  "strip_nul_bytes s = filter (\<lambda>c. c \<noteq> CHR 0x00) s"

subsection \<open>Lemmas\<close>

lemma item_type_of_known [simp]: "item_type_of d \<in> set ITEM_TYPES"
  by (cases d) (simp_all add: ITEM_TYPES_def)

lemma item_type_of_iff:
  "item_type_of d = ''message'' \<longleftrightarrow> is_MessageData d"
  "item_type_of d = ''function_call'' \<longleftrightarrow> is_FunctionCallData d"
  "item_type_of d = ''function_call_output'' \<longleftrightarrow> is_FunctionCallOutputData d"
  "item_type_of d = ''reasoning'' \<longleftrightarrow> is_ReasoningData d"
  "item_type_of d = ''compaction'' \<longleftrightarrow> is_CompactionData d"
  "item_type_of d = ''native_tool'' \<longleftrightarrow> is_NativeToolData d"
  by (cases d; simp)+

lemma conversation_item_Inr:
  "conversation_item item_id t status response_id created_at d created_by = Inr i \<longleftrightarrow>
     item_type_of d = t \<and> i = \<lparr>it_id = item_id, it_type = t, it_status = status, it_response_id = response_id,
       it_created_at = created_at, it_data = d, it_created_by = created_by\<rparr>"
  by (auto simp: conversation_item_def validate_type_matches_data_def res_bind_Inr_iff)

lemma new_conversation_item_Inr:
  "new_conversation_item t response_id d created_by = Inr i \<longleftrightarrow>
     item_type_of d = t \<and> i = \<lparr>ni_type = t, ni_response_id = response_id, ni_data = d, ni_created_by = created_by\<rparr>"
  by (auto simp: new_conversation_item_def validate_type_matches_data_def res_bind_Inr_iff)

end
