(* ===== verification/Conv_Store.thy ===== *)
theory Conv_Store
  imports Conv_Entities "HOL-Library.AList"
begin

text \<open>
  The part of the conversation store that the policy engine and its builder use
  (\<open>src/omnigent/stores/conversation_store/sqlalchemy_store.py\<close>): conversation rows with
  their metadata row, guardrail labels, session permissions and the per-user daily cost rollup.

  The tables of one workspace are the fields of a record, rows in insertion order. A
  conversation and its metadata row are written in two transactions, so the metadata is
  optional. JSON columns hold the decoded value. Text lengths count the characters of the
  model, so the clamp of label values agrees with the code on ASCII values. The sort tie-break
  is SQLite's \<open>rowid\<close>.
\<close>

subsection \<open>Rows\<close>

record conv_meta =
  cm_session_state :: "json dict"
  cm_session_usage :: "json dict"
  cm_host_id :: "string option"
  cm_workspace :: "string option"
  cm_git_branch :: "string option"
  cm_runner_id :: "string option"
  cm_external_session_id :: "string option"
  cm_terminal_launch_args :: "string list option"

record conversation =
  cv_id :: string
  cv_rowid :: nat
  cv_created_at :: int
  cv_updated_at :: int
  cv_title :: string
  cv_parent :: "string option"
  cv_root :: string
  cv_agent_id :: "string option"
  cv_archived :: bool
  cv_model_override :: "string option"
  cv_reasoning_effort :: "string option"
  cv_cost_control_mode :: "string option"
  cv_harness_override :: "string option"
  cv_next_position :: "int option"
  cv_meta :: "conv_meta option"

record permission =
  pm_conversation :: string
  pm_user :: string
  pm_level :: int

record agent_row =
  ag_id :: string
  ag_name :: string
  ag_kind :: string
  ag_bundle_location :: string
  ag_description :: "string option"
  ag_created_at :: int

record daily_row =
  dc_cost_usd :: rat
  dc_ask_approved_usd :: "rat option"

record conv_store =
  st_convs :: "conversation list"
  st_labels :: "string dict dict"
  st_permissions :: "permission list"
  st_daily :: "((string \<times> string) \<times> daily_row) list"
  st_items :: "item_row list"
  st_agents :: "agent_row list"
  st_comments :: "(string \<times> string) list"
  st_today :: string

definition LABEL_VALUE_MAX_LEN :: nat where "LABEL_VALUE_MAX_LEN = 256"
definition LEVEL_OWNER :: int where "LEVEL_OWNER = 4"
definition RESERVED_USER_PUBLIC :: string where "RESERVED_USER_PUBLIC = ''__public__''"
definition PROJECT_LABEL_KEY :: string where "PROJECT_LABEL_KEY = ''omni_project''"

definition cv_session_state :: "conversation \<Rightarrow> json dict" where
  "cv_session_state c = (case cv_meta c of None \<Rightarrow> [] | Some m \<Rightarrow> cm_session_state m)"

definition cv_session_usage :: "conversation \<Rightarrow> json dict" where
  "cv_session_usage c = (case cv_meta c of None \<Rightarrow> [] | Some m \<Rightarrow> cm_session_usage m)"

subsection \<open>Reads\<close>

definition get_conversation :: "conv_store \<Rightarrow> string \<Rightarrow> conversation option" where
  "get_conversation s cid = find (\<lambda>c. cv_id c = cid) (st_convs s)"

definition fetch_labels :: "conv_store \<Rightarrow> string \<Rightarrow> string dict" where
  "fetch_labels s cid = dict_get_or (st_labels s) cid []"

definition get_session_owner :: "conv_store \<Rightarrow> string \<Rightarrow> string option" where
  "get_session_owner s cid =
     (let ps = filter (\<lambda>p. pm_conversation p = cid \<and> pm_user p \<noteq> RESERVED_USER_PUBLIC)
                 (st_permissions s)
      in map_option pm_user (find (\<lambda>p. \<forall>q \<in> set ps. pm_level q \<le> pm_level p) ps))"

definition get_daily_cost :: "conv_store \<Rightarrow> string \<Rightarrow> string \<Rightarrow> rat" where
  "get_daily_cost s user_id day_utc =
     (case map_of (st_daily s) (user_id, day_utc) of None \<Rightarrow> 0 | Some r \<Rightarrow> dc_cost_usd r)"

definition get_daily_cost_state :: "conv_store \<Rightarrow> string \<Rightarrow> string \<Rightarrow> json dict" where
  "get_daily_cost_state s user_id day_utc =
     (case map_of (st_daily s) (user_id, day_utc) of
        None \<Rightarrow> [(''cost_usd'', JFloat 0), (''ask_approved_usd'', JFloat 0)]
      | Some r \<Rightarrow>
          [(''cost_usd'', JFloat (dc_cost_usd r)),
           (''ask_approved_usd'',
              JFloat (case dc_ask_approved_usd r of None \<Rightarrow> 0 | Some q \<Rightarrow> q))])"

subsection \<open>Writes\<close>

definition update_conv :: "string \<Rightarrow> (conversation \<Rightarrow> conversation) \<Rightarrow> conv_store \<Rightarrow> conv_store" where
  "update_conv cid f s =
     s\<lparr>st_convs := map (\<lambda>c. if cv_id c = cid then f c else c) (st_convs s)\<rparr>"

text \<open>An \<open>UPDATE\<close> of the metadata table: it touches no row when there is none.\<close>

definition update_meta :: "string \<Rightarrow> (conv_meta \<Rightarrow> conv_meta) \<Rightarrow> conv_store \<Rightarrow> conv_store" where
  "update_meta cid f = update_conv cid (\<lambda>c. c\<lparr>cv_meta := map_option f (cv_meta c)\<rparr>)"

definition set_session_state :: "string \<Rightarrow> json dict \<Rightarrow> conv_store \<Rightarrow> conv_store" where
  "set_session_state cid state = update_meta cid (\<lambda>m. m\<lparr>cm_session_state := state\<rparr>)"

definition set_session_usage :: "string \<Rightarrow> json dict \<Rightarrow> conv_store \<Rightarrow> conv_store" where
  "set_session_usage cid usage = update_meta cid (\<lambda>m. m\<lparr>cm_session_usage := usage\<rparr>)"

definition upsert_rows :: "string dict \<Rightarrow> string dict" where
  "upsert_rows updates = map (\<lambda>(k, v). (k, take LABEL_VALUE_MAX_LEN v)) updates"

definition upsert_labels :: "string \<Rightarrow> string dict \<Rightarrow> conv_store \<Rightarrow> conv_store" where
  "upsert_labels cid updates s =
     s\<lparr>st_labels := dict_set cid (dict_update (fetch_labels s cid) (upsert_rows updates)) (st_labels s)\<rparr>"

definition set_labels :: "string \<Rightarrow> string dict \<Rightarrow> conv_store \<Rightarrow> conv_store" where
  "set_labels cid updates s = (if updates = [] then s else upsert_labels cid updates s)"

definition add_daily_cost :: "string \<Rightarrow> string \<Rightarrow> rat \<Rightarrow> conv_store \<Rightarrow> conv_store" where
  "add_daily_cost user_id day_utc delta_usd s =
     (if delta_usd \<le> 0 then s
      else s\<lparr>st_daily := AList.update (user_id, day_utc)
             (case map_of (st_daily s) (user_id, day_utc) of
                None \<Rightarrow> \<lparr>dc_cost_usd = delta_usd, dc_ask_approved_usd = None\<rparr>
              | Some r \<Rightarrow> r\<lparr>dc_cost_usd := dc_cost_usd r + delta_usd\<rparr>) (st_daily s)\<rparr>)"

definition set_daily_ask_approved :: "string \<Rightarrow> string \<Rightarrow> rat \<Rightarrow> conv_store \<Rightarrow> conv_store" where
  "set_daily_ask_approved user_id day_utc ask_approved_usd s =
     s\<lparr>st_daily := AList.update (user_id, day_utc)
        (case map_of (st_daily s) (user_id, day_utc) of
           None \<Rightarrow> \<lparr>dc_cost_usd = 0, dc_ask_approved_usd = Some ask_approved_usd\<rparr>
         | Some r \<Rightarrow> r\<lparr>dc_ask_approved_usd := Some ask_approved_usd\<rparr>) (st_daily s)\<rparr>"

subsection \<open>Usage deltas\<close>

definition no_attribute :: "json \<Rightarrow> string \<Rightarrow> py_error" where
  "no_attribute v a =
     AttributeError (sq (type_name v) @ '' object has no attribute '' @ sq a)"

text \<open>\<open>bucket[k] = bucket.get(k, 0) + v\<close> for each item of the second dictionary.\<close>

fun add_counters :: "json dict \<Rightarrow> json dict \<Rightarrow> json dict res" where
  "add_counters bucket [] = Inr bucket"
| "add_counters bucket ((k, v) # rest) =
     res_bind (json_add (dict_get_or bucket k (JInt 0)) v)
       (\<lambda>w. add_counters (dict_set k w bucket) rest)"

fun add_model_deltas :: "json dict \<Rightarrow> json dict \<Rightarrow> json dict res" where
  "add_model_deltas by_model [] = Inr by_model"
| "add_model_deltas by_model ((model_id, model_delta) # rest) =
     (case model_delta of
        JDict d \<Rightarrow>
          (case dict_get_or by_model model_id (JDict []) of
             JDict bucket \<Rightarrow>
               res_bind (add_counters bucket d)
                 (\<lambda>b. add_model_deltas (dict_set model_id (JDict b) by_model) rest)
           | v \<Rightarrow> if d = [] then add_model_deltas by_model rest else Inl (no_attribute v ''get''))
      | v \<Rightarrow> Inl (no_attribute v ''items''))"

fun apply_session_usage_delta :: "json dict \<Rightarrow> json dict \<Rightarrow> json dict res" where
  "apply_session_usage_delta current [] = Inr current"
| "apply_session_usage_delta current ((key, value) # rest) =
     (if key = ''by_model'' then
        (case value of
           JDict d \<Rightarrow>
             (case dict_get_or current ''by_model'' (JDict []) of
                JDict by_model \<Rightarrow>
                  res_bind (add_model_deltas by_model d)
                    (\<lambda>b. apply_session_usage_delta (dict_set ''by_model'' (JDict b) current) rest)
              | v \<Rightarrow> if d = [] then apply_session_usage_delta current rest
                     else Inl (no_attribute v ''setdefault''))
         | v \<Rightarrow> Inl (no_attribute v ''items''))
      else
        res_bind (json_add (dict_get_or current key (JInt 0)) value)
          (\<lambda>w. apply_session_usage_delta (dict_set key w current) rest))"

text \<open>
  One transaction: an exception rolls it back. Without a metadata row the \<open>UPDATE\<close> touches
  nothing and the sum of the delta alone is returned.
\<close>

definition increment_session_usage :: "string \<Rightarrow> json dict \<Rightarrow> (conv_store, json dict) eff" where
  "increment_session_usage cid delta = (\<lambda>s.
     (let current = (case get_conversation s cid of None \<Rightarrow> [] | Some c \<Rightarrow> cv_session_usage c) in
      case apply_session_usage_delta current delta of
        Inl e \<Rightarrow> (Inl e, s)
      | Inr current' \<Rightarrow> (Inr current', set_session_usage cid current' s)))"

subsection \<open>Creation\<close>

text \<open>
  \<open>new_id\<close> is the supplied or generated id, \<open>rowid\<close> the one the database assigns. The
  conversation row is committed before the metadata row is inserted.
\<close>

record new_conversation =
  nc_id :: string
  nc_supplied :: bool
  nc_rowid :: nat
  nc_now :: int
  nc_kind :: string
  nc_title :: "string option"
  nc_parent :: "string option"
  nc_agent_id :: "string option"
  nc_host_id :: "string option"
  nc_workspace :: "string option"
  nc_runner_id :: "string option"
  nc_git_branch :: "string option"
  nc_terminal_launch_args :: "string list option"

definition root_for :: "new_conversation \<Rightarrow> conv_store \<Rightarrow> string res" where
  "root_for a s =
     (case nc_parent a of
        None \<Rightarrow> Inr (nc_id a)
      | Some p \<Rightarrow>
          (case get_conversation s p of
             None \<Rightarrow> Inl (ConversationNotFoundError (''parent conversation '' @ sq p @ '' does not exist''))
           | Some c \<Rightarrow> Inr (cv_root c)))"

definition title_for :: "new_conversation \<Rightarrow> string" where
  "title_for a =
     (if nc_parent a \<noteq> None \<and> \<not> str_truthy (nc_title a) then ''untitled:'' @ nc_id a
      else str_or (nc_title a) [])"

definition insert_conversation_row :: "new_conversation \<Rightarrow> string \<Rightarrow> (conv_store, unit) eff" where
  "insert_conversation_row a root_id = (\<lambda>s.
     (if get_conversation s (nc_id a) \<noteq> None then
        (Inl (if nc_supplied a
              then ConversationAlreadyExistsError (''conversation id '' @ sq (nc_id a) @ '' already exists'')
              else IntegrityError ''UNIQUE constraint failed: conversations.workspace_id, conversations.id''), s)
      else if nc_parent a \<noteq> None \<and>
              (\<exists>c \<in> set (st_convs s). cv_parent c = nc_parent a \<and> cv_title c = title_for a) then
        (Inl (NameAlreadyExistsError (''sub-agent name already exists under parent '' @
               sq (str_or (nc_parent a) []) @ '': title='' @ sq (title_for a))), s)
      else
        (Inr (), s\<lparr>st_convs := st_convs s @
           [\<lparr>cv_id = nc_id a, cv_rowid = nc_rowid a, cv_created_at = nc_now a,
             cv_updated_at = nc_now a, cv_title = title_for a, cv_parent = nc_parent a,
             cv_root = root_id, cv_agent_id = nc_agent_id a, cv_archived = False,
             cv_model_override = None, cv_reasoning_effort = None, cv_cost_control_mode = None,
             cv_harness_override = None, cv_next_position = Some 0, cv_meta = None\<rparr>]\<rparr>)))"

definition insert_meta_row :: "new_conversation \<Rightarrow> (conv_store, unit) eff" where
  "insert_meta_row a = (\<lambda>s.
     (if nc_kind a \<notin> {''default'', ''sub_agent''} then
        (Inl (ValueError (''unknown conversations.kind value: '' @ sq (nc_kind a))), s)
      else if nc_host_id a \<noteq> None \<and> nc_workspace a = None then
        (Inl (IntegrityError ''CHECK constraint failed: ck_conversation_metadata_workspace_required_for_host''), s)
      else
        (Inr (), update_conv (nc_id a)
           (\<lambda>c. c\<lparr>cv_meta := Some \<lparr>cm_session_state = [], cm_session_usage = [],
                 cm_host_id = nc_host_id a, cm_workspace = nc_workspace a, cm_git_branch = nc_git_branch a, cm_runner_id = nc_runner_id a,
                 cm_external_session_id = None, cm_terminal_launch_args = nc_terminal_launch_args a\<rparr>\<rparr>) s)))"

definition create_conversation :: "new_conversation \<Rightarrow> (conv_store, string) eff" where
  "create_conversation a =
     eff_bind (eff_lift (root_for a)) (\<lambda>root_id.
     eff_bind (insert_conversation_row a root_id) (\<lambda>_.
     eff_bind (insert_meta_row a) (\<lambda>_. eff_return (nc_id a))))"

subsection \<open>Listing\<close>

text \<open>SQL's \<open>LIKE\<close>: \<open>%\<close> any text, \<open>_\<close> any character.\<close>

fun sql_like :: "string \<Rightarrow> string \<Rightarrow> bool" where
  "sql_like [] s = (s = [])"
| "sql_like (p # ps) s =
     (if p = CHR ''%'' then sql_like ps s \<or> (case s of [] \<Rightarrow> False | _ # cs \<Rightarrow> sql_like (p # ps) cs)
      else (case s of [] \<Rightarrow> False
            | c # cs \<Rightarrow> (p = CHR ''_'' \<or> p = c) \<and> sql_like ps cs))"

record list_query =
  lq_limit :: nat
  lq_after :: "string option"
  lq_before :: "string option"
  lq_kind :: "string option"
  lq_parent :: "string option"
  lq_root :: "string option"
  lq_agent_id :: "string option"
  lq_agent_name :: "string option"
  lq_has_agent_id :: bool
  lq_order_desc :: bool
  lq_sort_by :: string
  lq_search_query :: "string option"
  lq_accessible_by :: "string option"
  lq_owned_by :: "string option"
  lq_include_archived :: bool
  lq_project :: "string option"
  lq_title :: "string option"

record 'a page =
  pg_data :: "'a list"
  pg_first_id :: "string option"
  pg_last_id :: "string option"
  pg_has_more :: bool

definition resolve_sort_column :: "string \<Rightarrow> (conversation \<Rightarrow> int) res" where
  "resolve_sort_column sort_by =
     (if sort_by = ''created_at'' then Inr cv_created_at
      else if sort_by = ''updated_at'' then Inr cv_updated_at
      else Inl (ValueError (''invalid sort_by: '' @ sq sort_by)))"

definition opt_all :: "('a \<Rightarrow> bool) \<Rightarrow> 'a option \<Rightarrow> bool" where
  "opt_all P x = (case x of None \<Rightarrow> True | Some v \<Rightarrow> P v)"

definition row_qualifies :: "list_query \<Rightarrow> conv_store \<Rightarrow> conversation \<Rightarrow> bool" where
  "row_qualifies q s c \<longleftrightarrow>
     opt_all (\<lambda>u. \<exists>p \<in> set (st_permissions s). pm_conversation p = cv_id c \<and> pm_user p = u)
       (lq_accessible_by q) \<and>
     opt_all (\<lambda>u. \<exists>p \<in> set (st_permissions s). pm_conversation p = cv_id c \<and> pm_user p = u \<and>
                     LEVEL_OWNER \<le> pm_level p) (lq_owned_by q) \<and>
     (lq_kind q = Some ''sub_agent'' \<longrightarrow> cv_parent c \<noteq> None) \<and>
     (lq_kind q = Some ''default'' \<longrightarrow> cv_parent c = None) \<and>
     (lq_include_archived q \<or> \<not> cv_archived c) \<and>
     opt_all (\<lambda>p. cv_parent c = Some p) (lq_parent q) \<and>
     opt_all (\<lambda>r. cv_root c = r) (lq_root q) \<and>
     (lq_has_agent_id q \<longrightarrow> cv_agent_id c \<noteq> None) \<and>
     opt_all (\<lambda>n. \<exists>a \<in> set (st_agents s). ag_name a = n \<and> cv_agent_id c = Some (ag_id a)) (lq_agent_name q) \<and>
     opt_all (\<lambda>i. cv_agent_id c = Some i) (lq_agent_id q) \<and>
     opt_all (\<lambda>t. cv_title c = t) (lq_title q) \<and>
     (str_truthy (lq_search_query q) \<longrightarrow>
        (let pattern = ''%'' @ lower (str_or (lq_search_query q) []) @ ''%'' in
         sql_like pattern (lower (cv_title c)) \<or>
         (\<exists>i \<in> set (st_items s). ci_conversation i = cv_id c \<and> sql_like pattern (lower (ci_search_text i))))) \<and>
     opt_all (\<lambda>p. if p = [] then \<not> dict_has (fetch_labels s (cv_id c)) PROJECT_LABEL_KEY
                  else dict_get (fetch_labels s (cv_id c)) PROJECT_LABEL_KEY = Some p) (lq_project q)"

text \<open>
  The cursor clause compares \<open>(sort column, rowid)\<close> with those of the cursor row; a cursor id
  without a row yields SQL \<open>NULL\<close> and therefore no rows.
\<close>

definition apply_cursor ::
    "(conversation \<Rightarrow> int) \<Rightarrow> bool \<Rightarrow> bool \<Rightarrow> conv_store \<Rightarrow> string option \<Rightarrow> conversation \<Rightarrow> bool" where
  "apply_cursor sort_col is_desc forward s cursor c =
     (if \<not> str_truthy cursor then True
      else (case get_conversation s (str_or cursor []) of
              None \<Rightarrow> False
            | Some k \<Rightarrow>
                (if forward = is_desc
                 then sort_col c < sort_col k \<or> (sort_col c = sort_col k \<and> cv_rowid c < cv_rowid k)
                 else sort_col c > sort_col k \<or> (sort_col c = sort_col k \<and> cv_rowid c > cv_rowid k))))"

definition order_rows :: "(conversation \<Rightarrow> int) \<Rightarrow> bool \<Rightarrow> conversation list \<Rightarrow> conversation list" where
  "order_rows sort_col is_desc rows =
     (let asc = sort_key (\<lambda>c. (sort_col c, cv_rowid c)) rows in if is_desc then rev asc else asc)"

definition list_conversations :: "list_query \<Rightarrow> conv_store \<Rightarrow> conversation page res" where
  "list_conversations q s =
     res_bind (resolve_sort_column (lq_sort_by q)) (\<lambda>sort_col.
       (let stmt = filter (row_qualifies q s) (st_convs s);
            stmt = filter (apply_cursor sort_col (lq_order_desc q) True s (lq_after q)) stmt;
            stmt = filter (apply_cursor sort_col (lq_order_desc q) False s (lq_before q)) stmt;
            rows = take (lq_limit q + 1) (order_rows sort_col (lq_order_desc q) stmt);
            has_more = length rows > lq_limit q;
            convs = (if has_more then take (lq_limit q) rows else rows)
        in Inr \<lparr>pg_data = convs,
                pg_first_id = (if convs = [] then None else Some (cv_id (hd convs))),
                pg_last_id = (if convs = [] then None else Some (cv_id (last convs))),
                pg_has_more = has_more\<rparr>))"

subsection \<open>Loops over pages\<close>

text \<open>
  The contract between a paged listing and a loop that follows its cursors: the page after the \<open>n\<close>-th row is the
  slice from there, and the loop appends pages until none is left. Such a loop ends and returns every row once.
\<close>

definition page_cursor :: "('a \<Rightarrow> string) \<Rightarrow> string option \<Rightarrow> 'a list \<Rightarrow> nat \<Rightarrow> string option" where
  "page_cursor ident first rows n = (if n = 0 then first else Some (ident (rows ! (n - 1))))"

definition page_of :: "('a \<Rightarrow> string) \<Rightarrow> nat \<Rightarrow> 'a list \<Rightarrow> 'a page" where
  "page_of ident page_size rows =
     (let data = take page_size rows in
      \<lparr>pg_data = data,
       pg_first_id = (if data = [] then None else Some (ident (hd data))),
       pg_last_id = (if data = [] then None else Some (ident (last data))),
       pg_has_more = page_size < length rows\<rparr>)"

text \<open>Reading one row more than the page shows whether there are more.\<close>

lemma page_of_lookahead:
  "(let found = take (page_size + 1) rows; has_more = length found > page_size; data = (if has_more then take page_size found else found)
    in \<lparr>pg_data = data, pg_first_id = (if data = [] then None else Some (ident (hd data))),
        pg_last_id = (if data = [] then None else Some (ident (last data))), pg_has_more = has_more\<rparr>) =
   page_of ident page_size rows"
  by (auto simp: page_of_def Let_def min_def)

locale paged_loop =
  fixes ok :: "'s \<Rightarrow> bool"
    and fetch :: "'s \<Rightarrow> string option \<Rightarrow> 'a page res"
    and loop :: "'s \<Rightarrow> string option \<Rightarrow> 'a list \<Rightarrow> 'a list res option"
    and rows :: "'s \<Rightarrow> 'a list"
    and ident :: "'a \<Rightarrow> string"
    and first :: "string option"
    and page_size :: nat
  assumes size_pos: "0 < page_size"
    and fetch_slice: "ok s \<Longrightarrow> n \<le> length (rows s) \<Longrightarrow>
          fetch s (page_cursor ident first (rows s) n) = Inr (page_of ident page_size (drop n (rows s)))"
    and loop_stop: "fetch s cursor = Inr page \<Longrightarrow> \<not> pg_has_more page \<Longrightarrow> loop s cursor acc = Some (Inr (acc @ pg_data page))"
    and loop_more: "fetch s cursor = Inr page \<Longrightarrow> pg_has_more page \<Longrightarrow> pg_last_id page = Some i \<Longrightarrow>
          loop s cursor acc = loop s (Some i) (acc @ pg_data page)"
begin

lemma loop_from:
  assumes "ok s" and "n \<le> length (rows s)"
  shows "loop s (page_cursor ident first (rows s) n) (take n (rows s)) = Some (Inr (rows s))"
  using assms(2)
proof (induction "length (rows s) - n" arbitrary: n rule: less_induct)
  case less
  let ?data = "take page_size (drop n (rows s))"
  note page = fetch_slice [OF assms(1) less.prems]
  have app: "take n (rows s) @ ?data = take (n + page_size) (rows s)" by (simp add: take_add)
  show ?case
  proof (cases "page_size < length (drop n (rows s))")
    case False
    then show ?thesis using loop_stop [OF page] app by (simp add: page_of_def Let_def)
  next
    case True
    let ?m = "n + page_size"
    have m: "?m \<le> length (rows s)" using True by simp
    have "length ?data = page_size" using True by simp
    then have "?data \<noteq> []" and "last ?data = rows s ! (?m - 1)"
      using True size_pos by (auto simp: last_conv_nth)
    then have "pg_last_id (page_of ident page_size (drop n (rows s))) = Some (ident (rows s ! (?m - 1)))"
      by (simp add: page_of_def Let_def)
    then have "loop s (page_cursor ident first (rows s) n) (take n (rows s)) =
        loop s (page_cursor ident first (rows s) ?m) (take ?m (rows s))"
      using loop_more [OF page] True app size_pos by (simp add: page_of_def page_cursor_def Let_def)
    also have "\<dots> = Some (Inr (rows s))" by (rule less.hyps) (use m size_pos True in auto)
    finally show ?thesis .
  qed
qed

lemma loop_complete: "ok s \<Longrightarrow> loop s first [] = Some (Inr (rows s))"
  using loop_from [of s 0] by (simp add: page_cursor_def)

end

lemma filter_after_sorted:
  assumes "sorted_wrt R xs" and "\<And>x y. R x y \<Longrightarrow> \<not> R y x" and "i < length xs"
  shows "filter (R (xs ! i)) xs = drop (Suc i) xs"
proof -
  have split: "xs = take i xs @ xs ! i # drop (Suc i) xs" using assms(3) by (rule id_take_nth_drop)
  then have "sorted_wrt R (take i xs @ xs ! i # drop (Suc i) xs)" using assms(1) by simp
  then have before: "\<forall>y \<in> set (take i xs). \<not> R (xs ! i) y" and rest: "\<forall>y \<in> set (drop (Suc i) xs). R (xs ! i) y"
    using assms(2) by (auto simp: sorted_wrt_append)
  have self: "\<not> R (xs ! i) (xs ! i)" using assms(2) by blast
  have "filter (R (xs ! i)) (take i xs @ xs ! i # drop (Suc i) xs) = drop (Suc i) xs"
    using before rest self by (simp add: filter_False filter_True)
  then show ?thesis using split by metis
qed

subsection \<open>Invariant of the conversation table\<close>

text \<open>
  Ids are primary keys and never empty, row ids are unique, and a row hangs in a spawn tree: a
  top-level conversation is its own root, a child has the top-level root of its parent, and both
  exist.
\<close>

definition tree_row_ok :: "conversation list \<Rightarrow> conversation \<Rightarrow> bool" where
  "tree_row_ok cs c \<longleftrightarrow> (\<exists>r \<in> set cs. cv_id r = cv_root c \<and> cv_parent r = None) \<and>
     (case cv_parent c of
        None \<Rightarrow> cv_root c = cv_id c
      | Some p \<Rightarrow> \<exists>d \<in> set cs. cv_id d = p \<and> cv_root d = cv_root c)"

definition store_ok :: "conv_store \<Rightarrow> bool" where
  "store_ok s \<longleftrightarrow>
     distinct (map cv_id (st_convs s)) \<and> distinct (map cv_rowid (st_convs s)) \<and>
     [] \<notin> set (map cv_id (st_convs s)) \<and>
     (\<forall>c \<in> set (st_convs s). tree_row_ok (st_convs s) c)"

subsection \<open>Lemmas: rows\<close>

lemma find_map_same:
  "(\<And>c. P (f c) = P c) \<Longrightarrow> find P (map f cs) = map_option f (find P cs)"
  by (induction cs) auto

lemma get_conversation_Some:
  "get_conversation s cid = Some c \<Longrightarrow> c \<in> set (st_convs s) \<and> cv_id c = cid"
  unfolding get_conversation_def by (auto simp: find_Some_iff)

lemma get_conversation_None:
  "get_conversation s cid = None \<longleftrightarrow> cid \<notin> cv_id ` set (st_convs s)"
  unfolding get_conversation_def by (auto simp: find_None_iff)

lemma find_distinct_key:
  "distinct (map f cs) \<Longrightarrow> c \<in> set cs \<Longrightarrow> find (\<lambda>d. f d = f c) cs = Some c"
  by (induction cs) force+

lemma get_conversation_member:
  "store_ok s \<Longrightarrow> c \<in> set (st_convs s) \<Longrightarrow> get_conversation s (cv_id c) = Some c"
  unfolding get_conversation_def store_ok_def by (simp add: find_distinct_key)

lemma get_update_conv:
  assumes "\<And>c. cv_id (f c) = cv_id c"
  shows "get_conversation (update_conv cid f s) cid' =
           (if cid' = cid then map_option f (get_conversation s cid) else get_conversation s cid')"
proof -
  have "get_conversation (update_conv cid f s) cid' =
          map_option (\<lambda>c. if cv_id c = cid then f c else c) (get_conversation s cid')"
    unfolding get_conversation_def update_conv_def by (simp add: find_map_same assms)
  then show ?thesis
    by (cases "get_conversation s cid'") (auto dest: get_conversation_Some)
qed

lemma get_update_meta [simp]:
  "get_conversation (update_meta cid f s) cid' =
     (if cid' = cid then map_option (\<lambda>c. c\<lparr>cv_meta := map_option f (cv_meta c)\<rparr>) (get_conversation s cid)
      else get_conversation s cid')"
  unfolding update_meta_def by (rule get_update_conv) simp

lemma update_conv_store_ok:
  assumes "store_ok s"
    and "\<And>c. cv_id (f c) = cv_id c \<and> cv_rowid (f c) = cv_rowid c \<and> cv_parent (f c) = cv_parent c \<and>
             cv_root (f c) = cv_root c"
  shows "store_ok (update_conv cid f s)"
proof -
  define g where "g = (\<lambda>c. if cv_id c = cid then f c else c)"
  have g: "cv_id (g c) = cv_id c" "cv_rowid (g c) = cv_rowid c" "cv_parent (g c) = cv_parent c"
    "cv_root (g c) = cv_root c" for c
    using assms(2) by (auto simp: g_def)
  have ids: "map cv_id (map g cs) = map cv_id cs" "map cv_rowid (map g cs) = map cv_rowid cs" for cs
    by (simp_all add: g)
  have row: "tree_row_ok (map g cs) (g c) = tree_row_ok cs c" for cs c
    unfolding tree_row_ok_def by (auto simp: g split: option.splits)
  have upd: "update_conv cid f s = s\<lparr>st_convs := map g (st_convs s)\<rparr>"
    by (simp add: update_conv_def g_def)
  show ?thesis
    using assms(1) unfolding store_ok_def upd by (auto simp: row g comp_def)
qed

lemma set_session_state_ok [simp]: "store_ok s \<Longrightarrow> store_ok (set_session_state cid st s)"
  unfolding set_session_state_def update_meta_def by (rule update_conv_store_ok) simp_all

lemma set_session_usage_ok [simp]: "store_ok s \<Longrightarrow> store_ok (set_session_usage cid u s)"
  unfolding set_session_usage_def update_meta_def by (rule update_conv_store_ok) simp_all

lemma set_labels_ok [simp]: "store_ok (set_labels cid upd s) = store_ok s"
  by (simp add: set_labels_def upsert_labels_def store_ok_def)

lemma set_labels_convs [simp]: "get_conversation (set_labels cid upd s) = get_conversation s"
  by (rule ext) (simp add: set_labels_def upsert_labels_def get_conversation_def)

lemma increment_session_usage_ok [preserves_intros]:
  "preserves store_ok (increment_session_usage cid delta)"
  by (simp add: preserves_def increment_session_usage_def Let_def split: sum.splits)

subsection \<open>Lemmas: columns\<close>

text \<open>
  The contract of a metadata column: a write is read back where the row exists, no other
  conversation sees it, and a write to a conversation without a metadata row is lost.
\<close>

locale store_column =
  fixes get_col :: "'s \<Rightarrow> string \<Rightarrow> 'v"
    and put_col :: "string \<Rightarrow> 'v \<Rightarrow> 's \<Rightarrow> 's"
    and has_row :: "'s \<Rightarrow> string \<Rightarrow> bool"
  assumes get_put: "get_col (put_col c v s) c' = (if c' = c \<and> has_row s c then v else get_col s c')"
    and row_put: "has_row (put_col c v s) c' = has_row s c'"
begin

lemma get_put_same: "has_row s c \<Longrightarrow> get_col (put_col c v s) c = v"
  by (simp add: get_put)

lemma get_put_other: "c' \<noteq> c \<Longrightarrow> get_col (put_col c v s) c' = get_col s c'"
  by (simp add: get_put)

lemma last_write_wins:
  "has_row s c \<Longrightarrow> get_col (fold (put_col c) vs s) c = (if vs = [] then get_col s c else last vs)"
  by (induction vs arbitrary: s) (auto simp: get_put row_put)

end

definition has_meta :: "conv_store \<Rightarrow> string \<Rightarrow> bool" where
  "has_meta s cid = (case get_conversation s cid of None \<Rightarrow> False | Some c \<Rightarrow> cv_meta c \<noteq> None)"

definition load_session_state :: "conv_store \<Rightarrow> string \<Rightarrow> json dict" where
  "load_session_state s cid =
     (case get_conversation s cid of None \<Rightarrow> [] | Some c \<Rightarrow> cv_session_state c)"

definition own_session_usage :: "conv_store \<Rightarrow> string \<Rightarrow> json dict" where
  "own_session_usage s cid =
     (case get_conversation s cid of None \<Rightarrow> [] | Some c \<Rightarrow> cv_session_usage c)"

lemma has_meta_update_meta [simp]: "has_meta (update_meta cid f s) cid' = has_meta s cid'"
  by (auto simp: has_meta_def split: option.splits)

interpretation state_col: store_column load_session_state set_session_state has_meta
  by unfold_locales
    (auto simp: load_session_state_def set_session_state_def has_meta_def cv_session_state_def
          split: option.splits)

interpretation usage_col: store_column own_session_usage set_session_usage has_meta
  by unfold_locales
    (auto simp: own_session_usage_def set_session_usage_def has_meta_def cv_session_usage_def
          split: option.splits)

lemma fetch_labels_set_labels:
  "fetch_labels (set_labels cid upd s) cid' =
     (if cid' = cid then dict_update (fetch_labels s cid) (upsert_rows upd) else fetch_labels s cid')"
  by (simp add: set_labels_def upsert_labels_def fetch_labels_def upsert_rows_def dict_get_or_def)

lemma upsert_rows_keys [simp]: "map fst (upsert_rows upd) = map fst upd"
  by (simp add: upsert_rows_def comp_def case_prod_beta)

lemma map_of_upsert_rows:
  "map_of (upsert_rows upd) k = map_option (take LABEL_VALUE_MAX_LEN) (map_of upd k)"
  unfolding upsert_rows_def by (induction upd) auto

subsection \<open>Lemmas: usage counters\<close>

definition counter :: "json dict \<Rightarrow> string \<Rightarrow> rat" where
  "counter d k = (case map_of d k of None \<Rightarrow> 0
                  | Some v \<Rightarrow> (case json_num v of None \<Rightarrow> 0 | Some q \<Rightarrow> q))"

text \<open>Every entry but the nested \<open>by_model\<close> one is a number.\<close>

definition numeric_usage :: "json dict \<Rightarrow> bool" where
  "numeric_usage d \<longleftrightarrow> (\<forall>(k, v) \<in> set d. k \<noteq> ''by_model'' \<longrightarrow> json_num v \<noteq> None)"

definition flat_delta :: "json dict \<Rightarrow> bool" where
  "flat_delta d \<longleftrightarrow> (\<forall>(k, v) \<in> set d. k \<noteq> ''by_model'' \<and> json_num v \<noteq> None)"

definition delta_sum :: "json dict \<Rightarrow> string \<Rightarrow> rat" where
  "delta_sum d k = sum_list (map (\<lambda>(j, v). if j = k then the (json_num v) else 0) d)"

lemma delta_sum_simps [simp]:
  "delta_sum [] k = 0"
  "delta_sum ((j, v) # d) k = (if j = k then the (json_num v) else 0) + delta_sum d k"
  by (simp_all add: delta_sum_def)

lemma numeric_usage_lookup:
  assumes "numeric_usage d" and "k \<noteq> ''by_model''"
  shows "json_num (dict_get_or d k (JInt 0)) = Some (counter d k)"
proof (cases "map_of d k")
  case None
  then show ?thesis by (simp add: dict_get_or_def counter_def)
next
  case (Some v)
  then have "json_num v \<noteq> None" using assms unfolding numeric_usage_def
    by (auto dest: map_of_SomeD)
  then show ?thesis using Some by (auto simp: dict_get_or_def counter_def)
qed

lemma dict_set_members: "(j, w) \<in> set (dict_set k v d) \<Longrightarrow> (j, w) \<in> set d \<or> (j = k \<and> w = v)"
  by (induction k v d rule: dict_set.induct) (auto split: if_splits)

lemma numeric_usage_set:
  "numeric_usage d \<Longrightarrow> json_num w \<noteq> None \<Longrightarrow> numeric_usage (dict_set k w d)"
  unfolding numeric_usage_def by (auto dest!: dict_set_members)

lemma apply_delta_numeric:
  assumes "numeric_usage current" and "flat_delta delta"
  shows "\<exists>current'. apply_session_usage_delta current delta = Inr current' \<and> numeric_usage current' \<and>
           (\<forall>k. k \<noteq> ''by_model'' \<longrightarrow> counter current' k = counter current k + delta_sum delta k)"
  using assms
proof (induction delta arbitrary: current)
  case Nil
  then show ?case by simp
next
  case (Cons kv rest)
  obtain key v where kv: "kv = (key, v)" by (cases kv)
  have key: "key \<noteq> ''by_model''" and "json_num v \<noteq> None" and rest: "flat_delta rest"
    using Cons.prems(2) by (auto simp: kv flat_delta_def)
  then obtain q where q: "json_num v = Some q" by auto
  obtain w where w: "json_add (dict_get_or current key (JInt 0)) v = Inr w"
      "json_num w = Some (counter current key + q)"
    using json_num_add [OF numeric_usage_lookup [OF Cons.prems(1) key] q] by blast
  let ?cur = "dict_set key w current"
  have "numeric_usage ?cur" using Cons.prems(1) w(2) by (simp add: numeric_usage_set)
  then obtain current' where IH: "apply_session_usage_delta ?cur rest = Inr current'"
      "numeric_usage current'"
      "\<forall>k. k \<noteq> ''by_model'' \<longrightarrow> counter current' k = counter ?cur k + delta_sum rest k"
    using Cons.IH rest by blast
  have "counter ?cur k = (if k = key then counter current key + q else counter current k)" for k
    using w(2) by (simp add: counter_def)
  then show ?case using IH w key q by (auto simp: kv)
qed

subsection \<open>Lemmas: creation\<close>

lemma tree_row_ok_append: "tree_row_ok cs c \<Longrightarrow> tree_row_ok (cs @ ds) c"
  unfolding tree_row_ok_def by (auto split: option.splits)

lemma insert_conversation_row_ok:
  assumes ok: "store_ok s" and "nc_id a \<noteq> []" and "nc_rowid a \<notin> cv_rowid ` set (st_convs s)"
    and root: "root_for a s = Inr root_id" and run: "insert_conversation_row a root_id s = (r, s')"
  shows "store_ok s'"
proof (cases "r = Inr ()")
  case True
  then obtain c where s': "s' = s\<lparr>st_convs := st_convs s @ [c]\<rparr>" and new: "nc_id a \<notin> cv_id ` set (st_convs s)"
    and c: "cv_id c = nc_id a" "cv_rowid c = nc_rowid a" "cv_parent c = nc_parent a" "cv_root c = root_id"
    using run by (auto simp: insert_conversation_row_def get_conversation_None split: if_splits)
  have "tree_row_ok (st_convs s @ [c]) c"
  proof (cases "nc_parent a")
    case None
    then show ?thesis using root c by (simp add: tree_row_ok_def root_for_def)
  next
    case (Some p)
    then obtain d where d: "get_conversation s p = Some d" "root_id = cv_root d"
      using root by (auto simp: root_for_def split: option.splits)
    then have "d \<in> set (st_convs s)" and "cv_id d = p" using get_conversation_Some by auto
    moreover from this have "tree_row_ok (st_convs s) d" using ok by (simp add: store_ok_def)
    ultimately show ?thesis using Some c d by (auto simp: tree_row_ok_def)
  qed
  then show ?thesis
    using ok assms(2,3) new c s' by (auto simp: store_ok_def tree_row_ok_append)
next
  case False
  then have "s' = s" using run by (auto simp: insert_conversation_row_def split: if_splits)
  then show ?thesis using ok by simp
qed

lemma insert_meta_row_ok [preserves_intros]: "preserves store_ok (insert_meta_row a)"
  unfolding preserves_def insert_meta_row_def by (auto intro: update_conv_store_ok)

lemma create_conversation_store_ok:
  assumes "store_ok s" and "nc_id a \<noteq> []" and "nc_rowid a \<notin> cv_rowid ` set (st_convs s)"
    and "create_conversation a s = (r, s')"
  shows "store_ok s'"
proof (cases "root_for a s")
  case (Inl e)
  then show ?thesis using assms by (simp add: create_conversation_def eff_bind_def)
next
  case (Inr root_id)
  obtain r1 s1 where ins: "insert_conversation_row a root_id s = (r1, s1)" by fastforce
  have "preserves store_ok (eff_bind (insert_meta_row a) (\<lambda>_. eff_return (nc_id a)))"
    by (intro preserves_intros)
  moreover have "store_ok s1" by (rule insert_conversation_row_ok [OF assms(1-3) Inr ins])
  ultimately show ?thesis
    using assms(4) Inr ins
    by (cases r1) (auto simp: create_conversation_def eff_bind_def preserves_def)
qed

subsection \<open>Properties\<close>

text \<open>
  Creating a conversation keeps the table consistent (unique
  ids, every child in the tree of its parent) whatever it returns: also when the metadata row is
  refused after the conversation row has been committed.
\<close>

lemma create_conversation_keeps_store_ok:
  assumes "store_ok s" and "nc_id a \<noteq> []" and "nc_rowid a \<notin> cv_rowid ` set (st_convs s)"
    and "create_conversation a s = (r, s')"
  shows "store_ok s'"
  by (rule create_conversation_store_ok [OF assms])

definition demo_conv :: new_conversation where
  "demo_conv = \<lparr>nc_id = ''conv_1'', nc_supplied = False, nc_rowid = 1, nc_now = 10,
     nc_kind = ''default'', nc_title = None, nc_parent = None, nc_agent_id = None,
     nc_host_id = Some ''host'', nc_workspace = None, nc_runner_id = None, nc_git_branch = None,
     nc_terminal_launch_args = None\<rparr>"

definition empty_store :: conv_store where
  "empty_store = \<lparr>st_convs = [], st_labels = [], st_permissions = [], st_daily = [], st_items = [],
     st_agents = [], st_comments = [], st_today = ''2026-01-01''\<rparr>"

lemma create_conversation_keeps_store_ok_witness:
  "is_ok (fst (create_conversation demo_conv empty_store)) = False \<and>
   map cv_id (st_convs (snd (create_conversation demo_conv empty_store))) = [''conv_1''] \<and>
   store_ok (snd (create_conversation demo_conv empty_store))"
proof -
  have "store_ok empty_store" by (simp add: store_ok_def empty_store_def)
  moreover have "nc_id demo_conv \<noteq> []" by (simp add: demo_conv_def)
  moreover have "nc_rowid demo_conv \<notin> cv_rowid ` set (st_convs empty_store)"
    by (simp add: empty_store_def)
  ultimately have "store_ok (snd (create_conversation demo_conv empty_store))"
    by (rule create_conversation_keeps_store_ok) (rule prod.collapse [symmetric])
  then show ?thesis
    by (simp add: create_conversation_def eff_bind_def root_for_def demo_conv_def empty_store_def
        insert_conversation_row_def get_conversation_def insert_meta_row_def title_for_def str_or_def)
qed

text \<open>
  Any sequence of usage increments adds up: every counter ends at its start
  value plus the sum of the increments, so no increment is lost and their order does not matter.
\<close>

theorem usage_increments_add:
  assumes "has_meta s cid" and "numeric_usage (own_session_usage s cid)"
    and "\<forall>d \<in> set deltas. flat_delta d" and "k \<noteq> ''by_model''"
  shows "fst (eff_for deltas (increment_session_usage cid) s) = Inr () \<and>
         counter (own_session_usage (snd (eff_for deltas (increment_session_usage cid) s)) cid) k =
           counter (own_session_usage s cid) k + sum_list (map (\<lambda>d. delta_sum d k) deltas)"
  using assms(1-3)
proof (induction deltas arbitrary: s)
  case Nil
  then show ?case by simp
next
  case (Cons d ds)
  have "flat_delta d" using Cons.prems(3) by simp
  from apply_delta_numeric [OF Cons.prems(2) this]
  obtain u where u: "apply_session_usage_delta (own_session_usage s cid) d = Inr u" "numeric_usage u"
      "counter u k = counter (own_session_usage s cid) k + delta_sum d k"
    using assms(4) by blast
  have run: "increment_session_usage cid d s = (Inr u, set_session_usage cid u s)"
    using u(1) by (simp add: increment_session_usage_def own_session_usage_def)
  have "own_session_usage (set_session_usage cid u s) cid = u"
    by (rule usage_col.get_put_same [OF Cons.prems(1)])
  moreover have "has_meta (set_session_usage cid u s) cid"
    using Cons.prems(1) by (simp add: usage_col.row_put)
  ultimately show ?case
    using Cons.IH [of "set_session_usage cid u s"] Cons.prems(3) u by (simp add: eff_bind_def run)
qed

definition demo_store :: conv_store where
  "demo_store = empty_store\<lparr>st_convs :=
     [\<lparr>cv_id = ''conv_1'', cv_rowid = 1, cv_created_at = 10, cv_updated_at = 10, cv_title = [],
       cv_parent = None, cv_root = ''conv_1'', cv_agent_id = None, cv_archived = False,
       cv_model_override = None, cv_reasoning_effort = None, cv_cost_control_mode = None,
       cv_harness_override = None, cv_next_position = Some 0,
       cv_meta = Some \<lparr>cm_session_state = [], cm_session_usage = [(''input_tokens'', JInt 5)],
                       cm_host_id = None, cm_workspace = None, cm_git_branch = None, cm_runner_id = None,
                       cm_external_session_id = None, cm_terminal_launch_args = None\<rparr>\<rparr>]\<rparr>"

definition demo_deltas :: "json dict list" where
  "demo_deltas =
     [[(''input_tokens'', JInt 2)], [(''total_cost_usd'', JFloat 3), (''input_tokens'', JInt 1)]]"

lemma usage_increments_add_witness:
  "counter (own_session_usage (snd (eff_for demo_deltas (increment_session_usage ''conv_1'') demo_store))
     ''conv_1'') ''input_tokens'' = 8"
proof -
  have own: "own_session_usage demo_store ''conv_1'' = [(''input_tokens'', JInt 5)]"
    and row: "has_meta demo_store ''conv_1''"
    by (simp_all add: own_session_usage_def has_meta_def get_conversation_def demo_store_def
        cv_session_usage_def)
  have nu: "numeric_usage (own_session_usage demo_store ''conv_1'')"
    by (simp add: own numeric_usage_def)
  have fl: "\<forall>d \<in> set demo_deltas. flat_delta d"
    by (simp add: flat_delta_def demo_deltas_def)
  have k: "''input_tokens'' \<noteq> ''by_model''" by simp
  have "counter (own_session_usage demo_store ''conv_1'') ''input_tokens'' = 5"
    by (simp add: own counter_def)
  then show ?thesis
    using usage_increments_add [OF row nu fl k, THEN conjunct2] by (simp add: demo_deltas_def)
qed

end
