(* ===== verification/Usage_Seed.thy ===== *)
theory Usage_Seed
  imports Conv_Store
begin

text \<open>
  The usage the cost gates see (\<open>src/omnigent/runtime/policies/builder.py\<close>): the paging loop
  over a spawn tree, the walk to the descendants of a conversation, the sum of their counters
  and the seeds handed to the engine.

  The paging loop is a \<open>partial_function\<close>, \<open>None\<close> when it does not return;
  \<open>load_tree_complete\<close> shows that on a consistent store it returns every page. The walk is a
  terminating function: each step visits a new node or shortens the stack.
\<close>

subsection \<open>Definitions\<close>

definition SUBTREE_USAGE_PAGE_SIZE :: nat where "SUBTREE_USAGE_PAGE_SIZE = 100"

definition SUMMABLE_USAGE_KEYS :: "string list" where
  "SUMMABLE_USAGE_KEYS =
     [''input_tokens'', ''output_tokens'', ''total_tokens'', ''cache_read_input_tokens'',
      ''cache_creation_input_tokens'', ''total_cost_usd'']"

text \<open>The arguments of the \<open>list_conversations\<close> call; the others keep their defaults.\<close>

definition tree_query :: "string \<Rightarrow> string option \<Rightarrow> list_query" where
  "tree_query root_id cursor =
     \<lparr>lq_limit = SUBTREE_USAGE_PAGE_SIZE, lq_after = cursor, lq_before = None, lq_kind = None,
      lq_parent = None, lq_root = Some root_id, lq_agent_id = None, lq_agent_name = None,
      lq_has_agent_id = False, lq_order_desc = True, lq_sort_by = ''created_at'',
      lq_search_query = None, lq_accessible_by = None, lq_owned_by = None,
      lq_include_archived = False, lq_project = None, lq_title = None\<rparr>"

partial_function (option) load_tree_loop ::
    "string \<Rightarrow> conv_store \<Rightarrow> string option \<Rightarrow> conversation list \<Rightarrow> conversation list res option" where
  "load_tree_loop root_id s cursor convs =
     (case list_conversations (tree_query root_id cursor) s of
        Inl e \<Rightarrow> Some (Inl e)
      | Inr page \<Rightarrow>
          (let convs' = convs @ pg_data page in
           if \<not> pg_has_more page \<or> pg_last_id page = None then Some (Inr convs')
           else load_tree_loop root_id s (pg_last_id page) convs'))"

definition load_tree_conversations :: "string \<Rightarrow> conv_store \<Rightarrow> conversation list res option" where
  "load_tree_conversations root_id s = load_tree_loop root_id s None []"

text \<open>\<open>children_by_parent\<close>: for each parent id the ids of its children, in the order of the tree.\<close>

fun children_by_parent :: "conversation list \<Rightarrow> string list dict \<Rightarrow> string list dict" where
  "children_by_parent [] acc = acc"
| "children_by_parent (c # cs) acc =
     children_by_parent cs
       (case cv_parent c of None \<Rightarrow> acc
        | Some p \<Rightarrow> dict_set p (dict_get_or acc p [] @ [cv_id c]) acc)"

definition all_children :: "string list dict \<Rightarrow> string set" where
  "all_children ch = (\<Union>(p, ns) \<in> set ch. set ns)"

lemma children_subset: "set (dict_get_or ch node []) \<subseteq> all_children ch"
proof (cases "map_of ch node")
  case (Some ns)
  then have "(node, ns) \<in> set ch" by (rule map_of_SomeD)
  then show ?thesis using Some by (force simp: dict_get_or_def all_children_def)
qed (simp add: dict_get_or_def)

lemma finite_all_children [simp]: "finite (all_children ch)"
  by (auto simp: all_children_def)

text \<open>The \<open>while stack\<close> loop, the top of the stack first.\<close>

function subtree_loop :: "string list dict \<Rightarrow> string list \<Rightarrow> string set \<Rightarrow> string set" where
  "subtree_loop ch [] subtree = subtree"
| "subtree_loop ch (node # stack) subtree =
     (if node \<in> subtree then subtree_loop ch stack subtree
      else subtree_loop ch (rev (dict_get_or ch node []) @ stack) (insert node subtree))"
  by pat_completeness auto

termination
proof (relation "(\<lambda>(ch, stack, subtree). card ((all_children ch \<union> set stack) - subtree))
                   <*mlex*> measure (\<lambda>(ch, stack, subtree). length stack)")
  show "wf ((\<lambda>(ch, stack, subtree). card ((all_children ch \<union> set stack) - subtree))
                   <*mlex*> measure (\<lambda>(ch :: string list dict, stack, subtree :: string set). length stack))"
    by (simp add: wf_mlex)
next
  fix ch :: "string list dict" and node stack and subtree :: "string set"
  assume "node \<in> subtree"
  then have "(all_children ch \<union> set (node # stack)) - subtree = (all_children ch \<union> set stack) - subtree"
    by auto
  then show "((ch, stack, subtree), ch, node # stack, subtree) \<in>
      (\<lambda>(ch, stack, subtree). card ((all_children ch \<union> set stack) - subtree))
        <*mlex*> measure (\<lambda>(ch, stack, subtree). length stack)"
    by (intro mlex_leq) simp_all
next
  fix ch :: "string list dict" and node stack and subtree :: "string set"
  assume new: "node \<notin> subtree"
  let ?U = "(all_children ch \<union> set (node # stack)) - subtree"
  let ?V = "(all_children ch \<union> set (rev (dict_get_or ch node []) @ stack)) - insert node subtree"
  have "?V \<subseteq> ?U - {node}" using children_subset by auto
  moreover have "node \<in> ?U" using new by simp
  ultimately have "?V \<subset> ?U" by blast
  then have "card ?V < card ?U" by (intro psubset_card_mono) auto
  then show "((ch, rev (dict_get_or ch node []) @ stack, insert node subtree), ch, node # stack, subtree) \<in>
      (\<lambda>(ch, stack, subtree). card ((all_children ch \<union> set stack) - subtree))
        <*mlex*> measure (\<lambda>(ch, stack, subtree). length stack)"
    by (intro mlex_less) simp
qed

definition subtree_conversation_ids :: "conversation list \<Rightarrow> string \<Rightarrow> string set" where
  "subtree_conversation_ids tree cid = subtree_loop (children_by_parent tree []) [cid] {}"

fun is_number :: "json \<Rightarrow> bool" where
  "is_number (JInt _) = True"
| "is_number (JFloat _) = True"
| "is_number _ = False"

fun merge_bucket :: "rat dict \<Rightarrow> json dict \<Rightarrow> rat dict" where
  "merge_bucket agg [] = agg"
| "merge_bucket agg ((key, v) # rest) =
     merge_bucket
       (if is_number v then dict_set key (dict_get_or agg key 0 + the (json_num v)) agg else agg) rest"

fun merge_by_model :: "rat dict dict \<Rightarrow> json dict \<Rightarrow> rat dict dict" where
  "merge_by_model agg [] = agg"
| "merge_by_model agg ((model, bucket) # rest) =
     merge_by_model
       (case bucket of
          JDict b \<Rightarrow> dict_set model (merge_bucket (dict_get_or agg model []) b) agg
        | _ \<Rightarrow> agg) rest"

text \<open>\<open>d.get(k)\<close> that is neither missing nor \<open>None\<close>.\<close>

definition get_not_none :: "json dict \<Rightarrow> string \<Rightarrow> json option" where
  "get_not_none d k = (case dict_get d k of None \<Rightarrow> None | Some JNull \<Rightarrow> None | Some v \<Rightarrow> Some v)"

fun sum_usage_keys :: "string list \<Rightarrow> json dict \<Rightarrow> json dict \<Rightarrow> json dict res" where
  "sum_usage_keys [] usage totals = Inr totals"
| "sum_usage_keys (key # keys) usage totals =
     (case get_not_none usage key of
        None \<Rightarrow> sum_usage_keys keys usage totals
      | Some v \<Rightarrow>
          res_bind (json_add (dict_get_or totals key (JFloat 0)) v)
            (\<lambda>w. sum_usage_keys keys usage (dict_set key w totals)))"

record usage_acc =
  ua_totals :: "json dict"
  ua_by_model :: "rat dict dict"
  ua_policy_cost :: json
  ua_any_policy_cost :: bool

definition per_conv_policy_cost :: "json dict \<Rightarrow> json option" where
  "per_conv_policy_cost usage =
     (case get_not_none usage ''policy_cost_usd'' of
        None \<Rightarrow> get_not_none usage ''total_cost_usd''
      | Some v \<Rightarrow> Some v)"

definition add_conversation_usage :: "json dict \<Rightarrow> usage_acc \<Rightarrow> usage_acc res" where
  "add_conversation_usage usage acc =
     res_bind (sum_usage_keys SUMMABLE_USAGE_KEYS usage (ua_totals acc)) (\<lambda>totals.
       (let acc = acc\<lparr>ua_totals := totals,
                      ua_by_model := (case dict_get usage ''by_model'' of
                                        Some (JDict m) \<Rightarrow> merge_by_model (ua_by_model acc) m
                                      | _ \<Rightarrow> ua_by_model acc)\<rparr> in
        case per_conv_policy_cost usage of
          None \<Rightarrow> Inr acc
        | Some v \<Rightarrow>
            res_bind (json_add (ua_policy_cost acc) v)
              (\<lambda>p. Inr (acc\<lparr>ua_policy_cost := p, ua_any_policy_cost := True\<rparr>))))"

fun sum_tree_usage :: "conversation list \<Rightarrow> string set \<Rightarrow> usage_acc \<Rightarrow> usage_acc res" where
  "sum_tree_usage [] ids acc = Inr acc"
| "sum_tree_usage (c # cs) ids acc =
     (if cv_id c \<notin> ids then sum_tree_usage cs ids acc
      else res_bind (add_conversation_usage (cv_session_usage c) acc) (sum_tree_usage cs ids))"

definition empty_acc :: usage_acc where
  "empty_acc = \<lparr>ua_totals = [], ua_by_model = [], ua_policy_cost = JFloat 0, ua_any_policy_cost = False\<rparr>"

definition by_model_json :: "rat dict dict \<Rightarrow> json" where
  "by_model_json m = JDict (map (\<lambda>(k, b). (k, JDict (map (\<lambda>(j, q). (j, JFloat q)) b))) m)"

definition usage_totals :: "usage_acc \<Rightarrow> json dict" where
  "usage_totals acc =
     (let totals = (if ua_any_policy_cost acc
                    then dict_set ''policy_cost_usd'' (ua_policy_cost acc) (ua_totals acc)
                    else ua_totals acc)
      in if ua_by_model acc \<noteq> [] then dict_set ''by_model'' (by_model_json (ua_by_model acc)) totals
         else totals)"

definition load_session_usage :: "string \<Rightarrow> conv_store \<Rightarrow> json dict res option" where
  "load_session_usage cid s =
     (case get_conversation s cid of
        None \<Rightarrow> Some (Inr [])
      | Some conv \<Rightarrow>
          (case load_tree_conversations (cv_root conv) s of
             None \<Rightarrow> None
           | Some (Inl e) \<Rightarrow> Some (Inl e)
           | Some (Inr tree) \<Rightarrow>
               Some (res_bind (sum_tree_usage tree (subtree_conversation_ids tree cid) empty_acc)
                       (\<lambda>acc. Inr (usage_totals acc)))))"

definition normalize_usage_for_engine :: "json dict \<Rightarrow> json dict" where
  "normalize_usage_for_engine usage =
     (let usage = dict_pop ''by_model'' usage;
          policy_cost = get_not_none usage ''policy_cost_usd'';
          usage = dict_pop ''policy_cost_usd'' usage
      in case policy_cost of None \<Rightarrow> usage | Some v \<Rightarrow> dict_set ''total_cost_usd'' v usage)"

definition policy_usage_seed :: "string \<Rightarrow> conv_store \<Rightarrow> json dict res option" where
  "policy_usage_seed cid s =
     (case get_conversation s cid of
        None \<Rightarrow> Some (Inr [])
      | Some conv \<Rightarrow>
          map_option (\<lambda>r. res_bind r (\<lambda>u. Inr (normalize_usage_for_engine u)))
            (load_session_usage (cv_root conv) s))"

definition subtree_usage_seed :: "string \<Rightarrow> conv_store \<Rightarrow> json dict res option" where
  "subtree_usage_seed cid s =
     map_option (\<lambda>r. res_bind r (\<lambda>u. Inr (normalize_usage_for_engine u))) (load_session_usage cid s)"

subsection \<open>Paging returns the whole tree\<close>

text \<open>What the loop should return: the live rows of the tree, newest first.\<close>

definition live_tree :: "string \<Rightarrow> conv_store \<Rightarrow> conversation list" where
  "live_tree root_id s =
     order_rows cv_created_at True
       (filter (\<lambda>c. cv_root c = root_id \<and> \<not> cv_archived c) (st_convs s))"

text \<open>The order of the listing: strictly later rows have a smaller \<open>(created_at, rowid)\<close>.\<close>

definition newer :: "conversation \<Rightarrow> conversation \<Rightarrow> bool" where
  "newer c d \<longleftrightarrow> cv_created_at d < cv_created_at c \<or>
     (cv_created_at d = cv_created_at c \<and> cv_rowid d < cv_rowid c)"

lemma newer_asym: "newer c d \<Longrightarrow> \<not> newer d c"
  by (auto simp: newer_def)

lemma set_live_tree: "set (live_tree root_id s) = {c \<in> set (st_convs s). cv_root c = root_id \<and> \<not> cv_archived c}"
  by (auto simp: live_tree_def order_rows_def Let_def)

lemma live_tree_distinct: "store_ok s \<Longrightarrow> distinct (live_tree root_id s)"
  by (simp add: live_tree_def order_rows_def Let_def store_ok_def distinct_map)

lemma live_tree_sorted:
  assumes "store_ok s"
  shows "sorted_wrt newer (live_tree root_id s)"
proof -
  let ?key = "\<lambda>c. (cv_created_at c, cv_rowid c)"
  define rows where "rows = filter (\<lambda>c. cv_root c = root_id \<and> \<not> cv_archived c) (st_convs s)"
  have "distinct (map cv_rowid rows)"
    using assms by (simp add: rows_def store_ok_def distinct_map_filter)
  then have "distinct (map ?key rows)"
    by (auto simp: distinct_map inj_on_def)
  then have "distinct (map ?key (sort_key ?key rows))"
    by (simp add: distinct_map)
  then have "sorted_wrt (<) (map ?key (sort_key ?key rows))"
    by (simp add: strict_sorted_iff)
  then show ?thesis
    unfolding live_tree_def order_rows_def rows_def [symmetric]
    by (auto simp: Let_def sorted_wrt_rev sorted_wrt_map newer_def less_prod_def'
        elim!: sorted_wrt_mono_rel [rotated])
qed

lemma row_qualifies_tree:
  "row_qualifies (tree_query root_id cursor) s c \<longleftrightarrow> cv_root c = root_id \<and> \<not> cv_archived c"
  by (auto simp: row_qualifies_def tree_query_def opt_all_def)

text \<open>A page after a cursor is a slice of the whole listing.\<close>

lemma list_tree_page:
  assumes ok: "store_ok s" and n: "n \<le> length (live_tree root_id s)"
  defines "tree \<equiv> live_tree root_id s"
  shows "list_conversations (tree_query root_id (page_cursor cv_id None tree n)) s =
     Inr (page_of cv_id SUBTREE_USAGE_PAGE_SIZE (drop n tree))"
proof -
  define q where "q = tree_query root_id (page_cursor cv_id None tree n)"
  have q: "lq_sort_by q = ''created_at''" "lq_order_desc q" "lq_before q = None"
    "lq_after q = page_cursor cv_id None tree n" "lq_limit q = SUBTREE_USAGE_PAGE_SIZE"
    by (simp_all add: q_def tree_query_def)
  have qual: "filter (row_qualifies q s) (st_convs s) =
      filter (\<lambda>c. cv_root c = root_id \<and> \<not> cv_archived c) (st_convs s)"
    by (rule filter_cong) (simp_all add: q_def row_qualifies_tree)
  have before: "filter (apply_cursor cv_created_at True False s None) xs = xs" for xs
    by (simp add: apply_cursor_def)
  have ordered: "order_rows cv_created_at True (filter P (filter Q (st_convs s))) =
      filter P (order_rows cv_created_at True (filter Q (st_convs s)))" for P Q
    by (simp add: order_rows_def Let_def filter_sort rev_filter [symmetric] del: filter_filter)
  have slice: "filter (apply_cursor cv_created_at True True s (page_cursor cv_id None tree n)) tree = drop n tree"
  proof (cases "n = 0")
    case True
    then show ?thesis by (simp add: page_cursor_def apply_cursor_def)
  next
    case False
    then have i: "n - 1 < length tree" using n by (simp add: tree_def)
    have "tree ! (n - 1) \<in> set tree" by (rule nth_mem [OF i])
    then have mem: "tree ! (n - 1) \<in> set (st_convs s)" by (simp add: tree_def set_live_tree)
    have "cv_id (tree ! (n - 1)) \<noteq> []" using ok mem by (force simp: store_ok_def)
    then have eq: "apply_cursor cv_created_at True True s (page_cursor cv_id None tree n) = newer (tree ! (n - 1))"
      using False get_conversation_member [OF ok mem]
      by (auto simp: fun_eq_iff page_cursor_def apply_cursor_def newer_def str_or_def)
    have sorted: "sorted_wrt newer tree" unfolding tree_def by (rule live_tree_sorted [OF ok])
    have "filter (newer (tree ! (n - 1))) tree = drop (Suc (n - 1)) tree"
      by (rule filter_after_sorted [OF sorted newer_asym i])
    then show ?thesis using eq False by simp
  qed
  have rows: "order_rows cv_created_at True
      (filter (apply_cursor cv_created_at True False s None)
        (filter (apply_cursor cv_created_at True True s (page_cursor cv_id None tree n))
          (filter (row_qualifies q s) (st_convs s)))) = drop n tree"
    by (simp add: qual before ordered live_tree_def [symmetric] tree_def [symmetric] slice del: filter_filter)
  show ?thesis
    unfolding q_def [symmetric] list_conversations_def
    by (simp add: q resolve_sort_column_def rows page_of_lookahead [symmetric] Let_def del: filter_filter)
qed

interpretation tree_pages: paged_loop store_ok "\<lambda>s cursor. list_conversations (tree_query root_id cursor) s"
    "load_tree_loop root_id" "live_tree root_id" cv_id None SUBTREE_USAGE_PAGE_SIZE for root_id
proof
  show "0 < SUBTREE_USAGE_PAGE_SIZE" by (simp add: SUBTREE_USAGE_PAGE_SIZE_def)
qed (simp_all add: list_tree_page load_tree_loop.simps Let_def)

lemma load_tree_complete:
  "store_ok s \<Longrightarrow> load_tree_conversations root_id s = Some (Inr (live_tree root_id s))"
  unfolding load_tree_conversations_def by (rule tree_pages.loop_complete)

subsection \<open>The walk finds exactly the descendants\<close>

definition child_of :: "conversation list \<Rightarrow> string \<Rightarrow> string \<Rightarrow> bool" where
  "child_of tree p n \<longleftrightarrow> (\<exists>c \<in> set tree. cv_parent c = Some p \<and> cv_id c = n)"

lemma children_by_parent_acc:
  "set (dict_get_or (children_by_parent tree acc) p []) =
     set (dict_get_or acc p []) \<union> {n. child_of tree p n}"
proof (induction tree arbitrary: acc)
  case Nil
  then show ?case by (simp add: child_of_def)
next
  case (Cons c tree)
  then show ?case by (auto simp: child_of_def dict_get_or_def split: option.splits)
qed

lemma subtree_loop_sound:
  "subtree_loop ch stack subtree \<subseteq>
     subtree \<union> {n. \<exists>x \<in> set stack. (\<lambda>p n. n \<in> set (dict_get_or ch p []))\<^sup>*\<^sup>* x n}"
proof (induction ch stack subtree rule: subtree_loop.induct)
  case (1 ch subtree)
  then show ?case by simp
next
  case (2 ch node stack subtree)
  show ?case
  proof (cases "node \<in> subtree")
    case True
    then show ?thesis using 2(1) by auto
  next
    case False
    have "(\<lambda>p n. n \<in> set (dict_get_or ch p []))\<^sup>*\<^sup>* node n"
      if "x \<in> set (dict_get_or ch node [])" and "(\<lambda>p n. n \<in> set (dict_get_or ch p []))\<^sup>*\<^sup>* x n" for x n
      using that by (rule converse_rtranclp_into_rtranclp)
    then show ?thesis using 2(2) [OF False] False by fastforce
  qed
qed

lemma subtree_loop_closed:
  assumes "\<forall>x \<in> subtree. set (dict_get_or ch x []) \<subseteq> subtree \<union> set stack"
  shows "subtree \<union> set stack \<subseteq> subtree_loop ch stack subtree \<and>
         (\<forall>x \<in> subtree_loop ch stack subtree. set (dict_get_or ch x []) \<subseteq> subtree_loop ch stack subtree)"
  using assms
proof (induction ch stack subtree rule: subtree_loop.induct)
  case (1 ch subtree)
  then show ?case by auto
next
  case (2 ch node stack subtree)
  show ?case
  proof (cases "node \<in> subtree")
    case True
    then have "\<forall>x \<in> subtree. set (dict_get_or ch x []) \<subseteq> subtree \<union> set stack" using 2(3) by auto
    then show ?thesis using 2(1) [OF True] True by auto
  next
    case False
    have "\<forall>x \<in> insert node subtree.
        set (dict_get_or ch x []) \<subseteq> insert node subtree \<union> set (rev (dict_get_or ch node []) @ stack)"
      using 2(3) by auto
    then show ?thesis using 2(2) [OF False] False by auto
  qed
qed

lemma subtree_loop_reach:
  "subtree_loop ch [cid] {} = {n. (\<lambda>p n. n \<in> set (dict_get_or ch p []))\<^sup>*\<^sup>* cid n}" (is "?L = ?R")
proof
  show "?L \<subseteq> ?R" using subtree_loop_sound [of ch "[cid]" "{}"] by simp
  have closed: "cid \<in> ?L" "\<forall>x \<in> ?L. set (dict_get_or ch x []) \<subseteq> ?L"
    using subtree_loop_closed [of "{}" ch "[cid]"] by simp_all
  show "?R \<subseteq> ?L"
  proof
    fix n assume "n \<in> ?R"
    then have "(\<lambda>p n. n \<in> set (dict_get_or ch p []))\<^sup>*\<^sup>* cid n" by simp
    then show "n \<in> ?L" by induction (use closed in auto)
  qed
qed

lemma subtree_conversation_ids_reach:
  "subtree_conversation_ids tree cid = {n. (child_of tree)\<^sup>*\<^sup>* cid n}"
proof -
  have "(\<lambda>p n. n \<in> set (dict_get_or (children_by_parent tree []) p [])) = child_of tree"
    by (intro ext) (simp add: children_by_parent_acc)
  then show ?thesis
    unfolding subtree_conversation_ids_def subtree_loop_reach by simp
qed

subsection \<open>The sums\<close>

text \<open>The spend a conversation counts for: \<open>policy_cost_usd\<close> when it is there, else \<open>total_cost_usd\<close>.\<close>

definition enforcement_cost :: "json dict \<Rightarrow> rat" where
  "enforcement_cost usage =
     (if dict_has usage ''policy_cost_usd'' then counter usage ''policy_cost_usd''
      else counter usage ''total_cost_usd'')"

definition conv_cost :: "conversation \<Rightarrow> rat" where
  "conv_cost c = enforcement_cost (cv_session_usage c)"

definition numeric_store :: "conv_store \<Rightarrow> bool" where
  "numeric_store s \<longleftrightarrow> (\<forall>c \<in> set (st_convs s). numeric_usage (cv_session_usage c))"

definition acc_ok :: "usage_acc \<Rightarrow> bool" where
  "acc_ok acc \<longleftrightarrow> (\<forall>(k, v) \<in> set (ua_totals acc). json_num v \<noteq> None) \<and>
     (\<forall>k. dict_has (ua_totals acc) k \<longrightarrow> k \<in> set SUMMABLE_USAGE_KEYS) \<and>
     json_num (ua_policy_cost acc) \<noteq> None \<and>
     (\<not> ua_any_policy_cost acc \<longrightarrow>
        json_num (ua_policy_cost acc) = Some (counter (ua_totals acc) ''total_cost_usd''))"

definition acc_cost :: "usage_acc \<Rightarrow> rat" where
  "acc_cost acc = the (json_num (ua_policy_cost acc))"

lemma get_not_none_numeric:
  assumes "numeric_usage u" and "k \<noteq> ''by_model''"
  shows "(get_not_none u k = None \<and> \<not> dict_has u k \<and> counter u k = 0) \<or>
         (\<exists>v. get_not_none u k = Some v \<and> dict_has u k \<and> json_num v = Some (counter u k))"
proof (cases "map_of u k")
  case None
  then show ?thesis by (simp add: get_not_none_def dict_get_def dict_has_def counter_def)
next
  case (Some v)
  then have "json_num v \<noteq> None" using assms by (auto simp: numeric_usage_def dest: map_of_SomeD)
  then show ?thesis using Some
    by (cases v) (auto simp: get_not_none_def dict_get_def dict_has_def counter_def)
qed

lemma counter_dict_set [simp]:
  "counter (dict_set k w d) j =
     (if j = k then (case json_num w of None \<Rightarrow> 0 | Some q \<Rightarrow> q) else counter d j)"
  by (simp add: counter_def)

lemma sum_usage_keys_numeric:
  assumes "numeric_usage u" and "''by_model'' \<notin> set keys" and "distinct keys"
    and "\<forall>(k, v) \<in> set totals. json_num v \<noteq> None"
  shows "\<exists>totals'. sum_usage_keys keys u totals = Inr totals' \<and>
           (\<forall>(k, v) \<in> set totals'. json_num v \<noteq> None) \<and>
           (\<forall>k. counter totals' k = counter totals k + (if k \<in> set keys then counter u k else 0)) \<and>
           (\<forall>k. dict_has totals' k \<longrightarrow> dict_has totals k \<or> k \<in> set keys)"
  using assms(2-4)
proof (induction keys arbitrary: totals)
  case Nil
  then show ?case by simp
next
  case (Cons key keys)
  have key: "key \<noteq> ''by_model''" using Cons.prems by auto
  from get_not_none_numeric [OF assms(1) key] show ?case
  proof (elim disjE exE conjE)
    assume "get_not_none u key = None" and "counter u key = 0"
    then show ?thesis using Cons.IH [of totals] Cons.prems by fastforce
  next
    fix v assume v: "get_not_none u key = Some v" "json_num v = Some (counter u key)"
    have cur: "json_num (dict_get_or totals key (JFloat 0)) = Some (counter totals key)"
      using Cons.prems(3)
      by (auto simp: dict_get_or_def counter_def split: option.splits dest!: map_of_SomeD)
    obtain w where w: "json_add (dict_get_or totals key (JFloat 0)) v = Inr w"
        "json_num w = Some (counter totals key + counter u key)"
      using json_num_add [OF cur v(2)] by blast
    have "\<forall>(k, v) \<in> set (dict_set key w totals). json_num v \<noteq> None"
      using Cons.prems(3) w(2) by (auto dest!: dict_set_members)
    from Cons.IH [OF _ _ this] Cons.prems obtain totals' where IH:
        "sum_usage_keys keys u (dict_set key w totals) = Inr totals'"
        "\<forall>(k, v) \<in> set totals'. json_num v \<noteq> None"
        "\<forall>k. counter totals' k = counter (dict_set key w totals) k + (if k \<in> set keys then counter u k else 0)"
        "\<forall>k. dict_has totals' k \<longrightarrow> dict_has (dict_set key w totals) k \<or> k \<in> set keys"
      by auto
    have "sum_usage_keys (key # keys) u totals = Inr totals'" using v w IH(1) by simp
    moreover have "counter totals' k = counter totals k + (if k \<in> set (key # keys) then counter u k else 0)" for k
      using IH(3) w(2) Cons.prems(2) by auto
    moreover have "dict_has totals' k \<longrightarrow> dict_has totals k \<or> k \<in> set (key # keys)" for k
      using IH(4) by (auto simp: dict_has_def split: if_splits)
    ultimately show ?thesis using IH(2) by blast
  qed
qed

lemma summable_keys:
  "''by_model'' \<notin> set SUMMABLE_USAGE_KEYS" "distinct SUMMABLE_USAGE_KEYS"
  "''total_cost_usd'' \<in> set SUMMABLE_USAGE_KEYS" "''policy_cost_usd'' \<notin> set SUMMABLE_USAGE_KEYS"
  by (simp_all add: SUMMABLE_USAGE_KEYS_def)

lemma per_conv_policy_cost_numeric:
  assumes "numeric_usage u"
  shows "(per_conv_policy_cost u = None \<and> enforcement_cost u = 0 \<and> counter u ''total_cost_usd'' = 0) \<or>
         (\<exists>v. per_conv_policy_cost u = Some v \<and> json_num v = Some (enforcement_cost u))"
  using get_not_none_numeric [OF assms, of "''policy_cost_usd''"]
    get_not_none_numeric [OF assms, of "''total_cost_usd''"]
  by (auto simp: per_conv_policy_cost_def enforcement_cost_def)

lemma add_conversation_usage_numeric:
  assumes u: "numeric_usage u" and acc: "acc_ok acc"
  shows "\<exists>acc'. add_conversation_usage u acc = Inr acc' \<and> acc_ok acc' \<and>
           acc_cost acc' = acc_cost acc + enforcement_cost u"
proof -
  have nums: "\<forall>(k, v) \<in> set (ua_totals acc). json_num v \<noteq> None"
    and sumk: "\<forall>k. dict_has (ua_totals acc) k \<longrightarrow> k \<in> set SUMMABLE_USAGE_KEYS"
    and pc: "json_num (ua_policy_cost acc) = Some (acc_cost acc)"
    and none: "\<not> ua_any_policy_cost acc \<Longrightarrow> acc_cost acc = counter (ua_totals acc) ''total_cost_usd''"
    using acc by (auto simp: acc_ok_def acc_cost_def)
  from sum_usage_keys_numeric [OF u summable_keys(1,2) nums]
  obtain totals where tot: "sum_usage_keys SUMMABLE_USAGE_KEYS u (ua_totals acc) = Inr totals"
      "\<forall>(k, v) \<in> set totals. json_num v \<noteq> None"
      "\<forall>k. counter totals k = counter (ua_totals acc) k + (if k \<in> set SUMMABLE_USAGE_KEYS then counter u k else 0)"
      "\<forall>k. dict_has totals k \<longrightarrow> dict_has (ua_totals acc) k \<or> k \<in> set SUMMABLE_USAGE_KEYS"
    by blast
  have cost: "counter totals ''total_cost_usd'' = counter (ua_totals acc) ''total_cost_usd'' + counter u ''total_cost_usd''"
    using tot(3) summable_keys(3) by simp
  have keys: "dict_has totals k \<Longrightarrow> k \<in> set SUMMABLE_USAGE_KEYS" for k
    using tot(4) sumk by blast
  from per_conv_policy_cost_numeric [OF u] show ?thesis
  proof (elim disjE conjE exE)
    assume "per_conv_policy_cost u = None" "enforcement_cost u = 0" "counter u ''total_cost_usd'' = 0"
    then show ?thesis
      using tot pc none cost keys
      by (auto simp: add_conversation_usage_def Let_def acc_ok_def acc_cost_def)
  next
    fix v assume v: "per_conv_policy_cost u = Some v" "json_num v = Some (enforcement_cost u)"
    obtain w where "json_add (ua_policy_cost acc) v = Inr w"
        "json_num w = Some (acc_cost acc + enforcement_cost u)"
      using json_num_add [OF pc v(2)] by blast
    then show ?thesis
      using tot v keys by (auto simp: add_conversation_usage_def Let_def acc_ok_def acc_cost_def)
  qed
qed

lemma sum_tree_usage_numeric:
  assumes "\<forall>c \<in> set tree. numeric_usage (cv_session_usage c)" and "acc_ok acc"
  shows "\<exists>acc'. sum_tree_usage tree ids acc = Inr acc' \<and> acc_ok acc' \<and>
           acc_cost acc' = acc_cost acc + sum_list (map conv_cost (filter (\<lambda>c. cv_id c \<in> ids) tree))"
  using assms
proof (induction tree arbitrary: acc)
  case Nil
  then show ?case by simp
next
  case (Cons c tree)
  show ?case
  proof (cases "cv_id c \<in> ids")
    case False
    then show ?thesis using Cons by simp
  next
    case True
    have "numeric_usage (cv_session_usage c)" using Cons.prems(1) by simp
    from add_conversation_usage_numeric [OF this Cons.prems(2)]
    obtain acc1 where a: "add_conversation_usage (cv_session_usage c) acc = Inr acc1" "acc_ok acc1"
        "acc_cost acc1 = acc_cost acc + conv_cost c"
      by (auto simp: conv_cost_def)
    then show ?thesis using Cons.IH [OF _ a(2)] Cons.prems(1) True by (simp add: algebra_simps)
  qed
qed

lemma normalize_usage_totals:
  assumes "acc_ok acc"
  shows "counter (normalize_usage_for_engine (usage_totals acc)) ''total_cost_usd'' = acc_cost acc"
proof (cases "ua_any_policy_cost acc")
  case True
  then show ?thesis using assms
    by (auto simp: normalize_usage_for_engine_def usage_totals_def Let_def get_not_none_def dict_get_def
        acc_ok_def acc_cost_def split: option.splits json.splits)
next
  case False
  then have "\<not> dict_has (ua_totals acc) ''policy_cost_usd''"
    using assms summable_keys(4) by (auto simp: acc_ok_def)
  then show ?thesis using assms False
    by (auto simp: normalize_usage_for_engine_def usage_totals_def Let_def get_not_none_def dict_get_def
        acc_ok_def acc_cost_def dict_has_def counter_def)
qed

text \<open>The spend that a seed for \<open>cid\<close> counts: the live descendants of \<open>cid\<close> in its tree.\<close>

definition counted_cost :: "conv_store \<Rightarrow> string \<Rightarrow> string \<Rightarrow> rat" where
  "counted_cost s root_id cid =
     sum_list (map conv_cost
       (filter (\<lambda>c. (child_of (live_tree root_id s))\<^sup>*\<^sup>* cid (cv_id c)) (live_tree root_id s)))"

lemma acc_ok_empty: "acc_ok empty_acc" "acc_cost empty_acc = 0"
  by (simp_all add: acc_ok_def acc_cost_def empty_acc_def counter_def dict_has_def)

lemma load_session_usage_counts:
  assumes "store_ok s" and "numeric_store s" and "get_conversation s cid = Some c"
  shows "\<exists>u. load_session_usage cid s = Some (Inr u) \<and>
           counter (normalize_usage_for_engine u) ''total_cost_usd'' = counted_cost s (cv_root c) cid"
proof -
  let ?tree = "live_tree (cv_root c) s"
  have "\<forall>d \<in> set ?tree. numeric_usage (cv_session_usage d)"
    using assms(2) by (simp add: numeric_store_def set_live_tree)
  from sum_tree_usage_numeric [OF this acc_ok_empty(1), of "subtree_conversation_ids ?tree cid"]
  obtain acc where "sum_tree_usage ?tree (subtree_conversation_ids ?tree cid) empty_acc = Inr acc"
      "acc_ok acc" "acc_cost acc = counted_cost s (cv_root c) cid"
    by (auto simp: acc_ok_empty counted_cost_def subtree_conversation_ids_reach)
  then show ?thesis
    using load_tree_complete [OF assms(1), of "cv_root c"] assms(3)
    by (simp add: load_session_usage_def normalize_usage_totals)
qed

lemma root_row:
  assumes "store_ok s" and "get_conversation s cid = Some c"
  shows "\<exists>r. get_conversation s (cv_root c) = Some r \<and> cv_root r = cv_root c"
proof -
  have "c \<in> set (st_convs s)" using assms(2) get_conversation_Some by blast
  then have "tree_row_ok (st_convs s) c" using assms(1) by (simp add: store_ok_def)
  then obtain r where r: "r \<in> set (st_convs s)" "cv_id r = cv_root c" "cv_parent r = None"
    by (auto simp: tree_row_ok_def)
  then have "tree_row_ok (st_convs s) r" using assms(1) by (simp add: store_ok_def)
  then show ?thesis
    using r get_conversation_member [OF assms(1) r(1)] by (auto simp: tree_row_ok_def)
qed

lemma policy_usage_seed_counts:
  assumes "store_ok s" and "numeric_store s" and "get_conversation s cid = Some c"
  shows "\<exists>u. policy_usage_seed cid s = Some (Inr u) \<and>
           counter u ''total_cost_usd'' = counted_cost s (cv_root c) (cv_root c)"
proof -
  obtain r where r: "get_conversation s (cv_root c) = Some r" "cv_root r = cv_root c"
    using root_row [OF assms(1,3)] by blast
  then show ?thesis
    using load_session_usage_counts [OF assms(1,2) r(1)] assms(3) by (auto simp: policy_usage_seed_def)
qed

lemma subtree_usage_seed_counts:
  assumes "store_ok s" and "numeric_store s" and "get_conversation s cid = Some c"
  shows "\<exists>u. subtree_usage_seed cid s = Some (Inr u) \<and>
           counter u ''total_cost_usd'' = counted_cost s (cv_root c) cid"
  using load_session_usage_counts [OF assms] by (auto simp: subtree_usage_seed_def)

lemma sum_list_filter_mono:
  fixes f :: "'a \<Rightarrow> rat"
  assumes "\<And>x. x \<in> set xs \<Longrightarrow> P x \<Longrightarrow> Q x" and "\<And>x. x \<in> set xs \<Longrightarrow> 0 \<le> f x"
  shows "sum_list (map f (filter P xs)) \<le> sum_list (map f (filter Q xs))"
  using assms by (induction xs) (auto intro: add_mono add_increasing)

text \<open>A tree of archived conversations counts for nothing, whatever it spent.\<close>

lemma archived_spend_not_counted:
  assumes "store_ok s" and "numeric_store s" and "get_conversation s cid = Some c"
    and "\<forall>d \<in> set (st_convs s). cv_root d = cv_root c \<longrightarrow> cv_archived d"
  shows "\<exists>u. policy_usage_seed cid s = Some (Inr u) \<and> counter u ''total_cost_usd'' = 0"
proof -
  have "set (live_tree (cv_root c) s) = {}" using assms(4) by (auto simp: set_live_tree)
  then have "live_tree (cv_root c) s = []" by simp
  then show ?thesis using policy_usage_seed_counts [OF assms(1-3)] by (simp add: counted_cost_def)
qed

subsection \<open>Properties\<close>

text \<open>
  On a consistent store the paging loop over a spawn tree ends, and
  what it returns is every conversation of the tree that is not archived, each once, newest first.
\<close>

theorem paging_returns_every_live_row:
  assumes "store_ok s"
  shows "\<exists>tree. load_tree_conversations root_id s = Some (Inr tree) \<and> distinct tree \<and>
           set tree = {c \<in> set (st_convs s). cv_root c = root_id \<and> \<not> cv_archived c} \<and>
           sorted_wrt newer tree"
  using load_tree_complete [OF assms] live_tree_distinct [OF assms] set_live_tree live_tree_sorted [OF assms]
  by (intro exI [of _ "live_tree root_id s"]) simp

definition demo_row :: "string \<Rightarrow> nat \<Rightarrow> string option \<Rightarrow> rat \<Rightarrow> conversation" where
  "demo_row cid n p cost =
     \<lparr>cv_id = cid, cv_rowid = n, cv_created_at = 10, cv_updated_at = 10, cv_title = cid, cv_parent = p,
      cv_root = ''r'', cv_agent_id = None, cv_archived = False, cv_model_override = None, cv_reasoning_effort = None, cv_cost_control_mode = None,
      cv_harness_override = None, cv_next_position = Some 0,
      cv_meta = Some \<lparr>cm_session_state = [], cm_session_usage = [(''total_cost_usd'', JFloat cost)],
                      cm_host_id = None, cm_workspace = None, cm_git_branch = None, cm_runner_id = None,
                      cm_external_session_id = None, cm_terminal_launch_args = None\<rparr>\<rparr>"

definition demo_tree :: conv_store where
  "demo_tree = empty_store\<lparr>st_convs :=
     [demo_row ''r'' 1 None 5, demo_row ''a'' 2 (Some ''r'') 3, demo_row ''b'' 3 (Some ''a'') 2]\<rparr>"

lemma demo_tree_ok: "store_ok demo_tree"
  by (simp add: store_ok_def demo_tree_def demo_row_def tree_row_ok_def)

lemma paging_returns_every_live_row_witness:
  "\<exists>tree. load_tree_conversations ''r'' demo_tree = Some (Inr tree) \<and> set (map cv_id tree) = {''r'', ''a'', ''b''}"
proof -
  obtain tree where "load_tree_conversations ''r'' demo_tree = Some (Inr tree)"
      "set tree = {c \<in> set (st_convs demo_tree). cv_root c = ''r'' \<and> \<not> cv_archived c}"
    using paging_returns_every_live_row [OF demo_tree_ok, of "''r''"] by blast
  moreover have "{c \<in> set (st_convs demo_tree). cv_root c = ''r'' \<and> \<not> cv_archived c} = set (st_convs demo_tree)"
    by (auto simp: demo_tree_def demo_row_def)
  moreover have "cv_id ` set (st_convs demo_tree) = {''r'', ''a'', ''b''}"
    by (simp add: demo_tree_def demo_row_def)
  ultimately show ?thesis by (intro exI [of _ tree]) simp
qed

text \<open>
  The stack walk ends on every input, cycles included, and collects exactly the
  conversation it starts from and its transitive children.
\<close>

theorem descendants_exact:
  "subtree_conversation_ids tree cid = {n. (child_of tree)\<^sup>*\<^sup>* cid n}"
  by (rule subtree_conversation_ids_reach)


lemma demo_tree_numeric: "numeric_store demo_tree"
  by (simp add: numeric_store_def demo_tree_def demo_row_def numeric_usage_def cv_session_usage_def)


text \<open>
  When no conversation has a negative cost, the spend that the per-sub-agent
  budget sees for a conversation under the root never exceeds the spend that the session budget
  sees.
\<close>

theorem subtree_seed_bounded:
  assumes "store_ok s" and "numeric_store s" and "get_conversation s cid = Some c"
    and "\<forall>d \<in> set (st_convs s). 0 \<le> conv_cost d"
    and "cid \<in> subtree_conversation_ids (live_tree (cv_root c) s) (cv_root c)"
  shows "\<exists>u v. subtree_usage_seed cid s = Some (Inr u) \<and> policy_usage_seed cid s = Some (Inr v) \<and>
           counter u ''total_cost_usd'' \<le> counter v ''total_cost_usd''"
proof -
  have reach: "(child_of (live_tree (cv_root c) s))\<^sup>*\<^sup>* (cv_root c) cid"
    using assms(5) by (simp add: subtree_conversation_ids_reach)
  have "counted_cost s (cv_root c) cid \<le> counted_cost s (cv_root c) (cv_root c)"
    unfolding counted_cost_def
    by (rule sum_list_filter_mono) (use reach assms(4) in \<open>auto simp: set_live_tree\<close>)
  then show ?thesis
    using subtree_usage_seed_counts [OF assms(1-3)] policy_usage_seed_counts [OF assms(1-3)] by auto
qed

lemma subtree_seed_bounded_witness:
  "\<exists>u v. subtree_usage_seed ''a'' demo_tree = Some (Inr u) \<and> policy_usage_seed ''a'' demo_tree = Some (Inr v) \<and>
         counter u ''total_cost_usd'' \<le> counter v ''total_cost_usd''"
proof -
  have a: "get_conversation demo_tree ''a'' = Some (demo_row ''a'' 2 (Some ''r'') 3)"
    by (simp add: get_conversation_def demo_tree_def demo_row_def)
  have costs: "\<forall>d \<in> set (st_convs demo_tree). 0 \<le> conv_cost d"
    by (simp add: demo_tree_def demo_row_def conv_cost_def enforcement_cost_def cv_session_usage_def
        dict_has_def counter_def)
  have "demo_row ''a'' 2 (Some ''r'') 3 \<in> set (live_tree ''r'' demo_tree)"
    by (simp add: set_live_tree demo_tree_def demo_row_def)
  then have "child_of (live_tree ''r'' demo_tree) ''r'' ''a''"
    by (auto simp: child_of_def demo_row_def intro!: bexI [of _ "demo_row ''a'' 2 (Some ''r'') 3"])
  then have "''a'' \<in> subtree_conversation_ids (live_tree (cv_root (demo_row ''a'' 2 (Some ''r'') 3)) demo_tree)
      (cv_root (demo_row ''a'' 2 (Some ''r'') 3))"
    by (simp add: subtree_conversation_ids_reach demo_row_def)
  then show ?thesis
    by (rule subtree_seed_bounded [OF demo_tree_ok demo_tree_numeric a costs])
qed

end
