(* ===== verification/Policy_Engine.thy ===== *)
theory Policy_Engine
  imports Conv_Store
begin

text \<open>
  The policy engine (\<open>src/omnigent/runtime/policies/engine.py\<close>) and the cost of a usage
  record (\<open>compute_llm_cost\<close> of \<open>src/omnigent/llms/context_window.py\<close>).

  The engine object is a record; the store it writes through to is one of its fields. A policy is
  its spec and a pure function from the evaluation context to a result or the exception its
  callable raises (policies keep no state of their own across calls, see
  \<open>src/omnigent/policies/base.py\<close>; callables with closure state are outside this model).
  The \<open>await\<close>s of one evaluation are sequential. \<open>evaluate\<close> adds tracing only and is
  identified with \<open>_evaluate_composed\<close>.
\<close>

subsection \<open>Costs\<close>

record model_pricing =
  mp_input_per_token :: rat
  mp_output_per_token :: rat
  mp_cache_read_per_token :: "rat option"
  mp_cache_write_per_token :: "rat option"

definition FALLBACK_CACHE_READ_INPUT_RATIO :: rat where
  "FALLBACK_CACHE_READ_INPUT_RATIO = 10 / 100"

definition FALLBACK_CACHE_WRITE_INPUT_RATIO :: rat where
  "FALLBACK_CACHE_WRITE_INPUT_RATIO = 125 / 100"

record token_delta =
  td_input_tokens :: int
  td_output_tokens :: int
  td_total_tokens :: int
  td_cache_read_input_tokens :: int
  td_cache_creation_input_tokens :: int

definition compute_llm_cost :: "token_delta \<Rightarrow> model_pricing \<Rightarrow> rat" where
  "compute_llm_cost usage pricing =
     (let cache_read_rate = (case mp_cache_read_per_token pricing of
                               Some r \<Rightarrow> r
                             | None \<Rightarrow> mp_input_per_token pricing * FALLBACK_CACHE_READ_INPUT_RATIO);
          cache_write_rate = (case mp_cache_write_per_token pricing of
                               Some r \<Rightarrow> r
                             | None \<Rightarrow> mp_input_per_token pricing * FALLBACK_CACHE_WRITE_INPUT_RATIO)
      in of_int (td_input_tokens usage) * mp_input_per_token pricing
         + of_int (td_output_tokens usage) * mp_output_per_token pricing
         + of_int (td_cache_read_input_tokens usage) * cache_read_rate
         + of_int (td_cache_creation_input_tokens usage) * cache_write_rate)"

subsection \<open>The engine\<close>

record policy =
  po_spec :: policy_spec
  po_evaluate :: "evaluation_context \<Rightarrow> policy_result res"

record engine =
  en_policies :: "policy list"
  en_label_defs :: "label_def dict"
  en_ask_timeout :: int
  en_conversation_id :: string
  en_root_conversation_id :: string
  en_labels :: "string dict"
  en_session_state :: "json dict"
  en_usage :: "json dict"
  en_subtree_usage :: "json dict option"
  en_user_daily_cost :: "json dict option"
  en_token_pricing :: "model_pricing option"
  en_model :: "string option"
  en_llm_client :: json
  en_store :: conv_store

definition USER_DAILY_ASK_APPROVED_STATE_KEY :: string where
  "USER_DAILY_ASK_APPROVED_STATE_KEY = ''_policy_user_daily_ask_approved_usd''"

definition SESSION_COST_ASK_APPROVED_STATE_KEY :: string where
  "SESSION_COST_ASK_APPROVED_STATE_KEY = ''_policy_cost_ask_approved_usd''"

definition SESSION_COST_UNPRICED_APPROVED_KEY :: string where
  "SESSION_COST_UNPRICED_APPROVED_KEY = ''_policy_cost_unpriced_approved''"

definition default_usage :: "json dict" where
  "default_usage =
     [(''input_tokens'', JInt 0), (''output_tokens'', JInt 0), (''total_tokens'', JInt 0),
      (''cache_read_input_tokens'', JInt 0), (''cache_creation_input_tokens'', JInt 0),
      (''total_cost_usd'', JFloat 0)]"

definition setdefault :: "string \<Rightarrow> 'v \<Rightarrow> 'v dict \<Rightarrow> 'v dict" where
  "setdefault k v d = (if dict_has d k then d else dict_set k v d)"

definition init_usage :: "json dict option \<Rightarrow> json dict" where
  "init_usage initial_usage =
     setdefault ''cache_creation_input_tokens'' (JInt 0)
       (setdefault ''cache_read_input_tokens'' (JInt 0)
         (if list_or initial_usage = [] then default_usage else list_or initial_usage))"

definition policy_engine ::
    "policy list \<Rightarrow> label_def dict \<Rightarrow> int \<Rightarrow> string \<Rightarrow> string dict \<Rightarrow> json dict option \<Rightarrow> json dict option \<Rightarrow>
     json dict option \<Rightarrow> json dict option \<Rightarrow> model_pricing option \<Rightarrow> string option \<Rightarrow> conv_store \<Rightarrow>
     string option \<Rightarrow> json \<Rightarrow> engine" where
  "policy_engine policies label_defs ask_timeout conversation_id initial_labels initial_session_state
     initial_usage initial_subtree_usage initial_user_daily_cost token_pricing initial_model
     conversation_store root_conversation_id llm_client =
     \<lparr>en_policies = policies, en_label_defs = label_defs, en_ask_timeout = ask_timeout,
      en_conversation_id = conversation_id,
      en_root_conversation_id = str_or root_conversation_id conversation_id,
      en_labels = initial_labels, en_session_state = list_or initial_session_state,
      en_usage = init_usage initial_usage, en_subtree_usage = initial_subtree_usage,
      en_user_daily_cost = initial_user_daily_cost, en_token_pricing = token_pricing,
      en_model = initial_model, en_llm_client = llm_client, en_store = conversation_store\<rparr>"

subsection \<open>Gates and filters\<close>

definition cond_entry_matches :: "string dict \<Rightarrow> string \<times> cond_value \<Rightarrow> bool" where
  "cond_entry_matches labels entry =
     (case entry of (key, expected) \<Rightarrow>
        (case dict_get labels key of
           None \<Rightarrow> False
         | Some actual \<Rightarrow>
             (case expected of CondList vs \<Rightarrow> actual \<in> set vs | CondScalar v \<Rightarrow> actual = v)))"

definition condition_matches :: "cond_value dict \<Rightarrow> string dict \<Rightarrow> bool" where
  "condition_matches condition labels = list_all (cond_entry_matches labels) condition"

definition should_fire :: "engine \<Rightarrow> policy_spec \<Rightarrow> evaluation_context \<Rightarrow> bool" where
  "should_fire e spec ctx =
     (if (case sp_on spec of None \<Rightarrow> False
          | Some sels \<Rightarrow> \<not> list_ex (\<lambda>sel. selector_matches sel ctx) sels) then False
      else if (case sp_condition spec of None \<Rightarrow> False
               | Some c \<Rightarrow> \<not> condition_matches c (en_labels e)) then False
      else True)"

definition filter_writable_labels :: "string dict option \<Rightarrow> policy_spec \<Rightarrow> string dict option" where
  "filter_writable_labels writes spec =
     (case writes of
        None \<Rightarrow> None
      | Some [] \<Rightarrow> None
      | Some ls \<Rightarrow>
          (case sp_set_labels spec of
             None \<Rightarrow> Some ls
           | Some whitelist \<Rightarrow> Some (filter (\<lambda>(k, v). k \<in> set whitelist) ls)))"

definition filter_schema_valid :: "engine \<Rightarrow> string dict \<Rightarrow> string dict" where
  "filter_schema_valid e writes =
     filter (\<lambda>(key, v).
        case dict_get (en_label_defs e) key of
          None \<Rightarrow> True
        | Some ldef \<Rightarrow> (case ld_values ldef of None \<Rightarrow> True | Some vs \<Rightarrow> v \<in> set vs)) writes"

definition spec_for :: "engine \<Rightarrow> string option \<Rightarrow> policy_spec option" where
  "spec_for e policy_name =
     (case policy_name of
        None \<Rightarrow> None
      | Some n \<Rightarrow> map_option po_spec (find (\<lambda>p. sp_name (po_spec p) = n) (en_policies e)))"

definition error_text :: "py_error \<Rightarrow> string" where
  "error_text e =
     (case e of
        NotFoundError m \<Rightarrow> m | StateError m \<Rightarrow> m | ApprovalRequiredError m _ _ \<Rightarrow> m
      | ValidationError m \<Rightarrow> m | ValueError m \<Rightarrow> m | TypeError m \<Rightarrow> m | KeyError m \<Rightarrow> sq m
      | IntegrityError m \<Rightarrow> m | AttributeError m \<Rightarrow> m | NotImplementedError m \<Rightarrow> m
      | ConversationNotFoundError m \<Rightarrow> m | ConversationAlreadyExistsError m \<Rightarrow> m
      | NameAlreadyExistsError m \<Rightarrow> m | OmnigentError m \<Rightarrow> m | ElicitationDeclinedError m _ \<Rightarrow> m
      | OtherError m \<Rightarrow> m)"

definition dispatch_policy :: "policy \<Rightarrow> evaluation_context \<Rightarrow> policy_result" where
  "dispatch_policy p ctx =
     (case po_evaluate p ctx of
        Inl exc \<Rightarrow>
          policy_result_of DENY
            (Some (''policy '' @ sq (sp_name (po_spec p)) @ '' failed: '' @ error_text exc))
      | Inr result \<Rightarrow> result)"

subsection \<open>Writes\<close>

definition apply_label_writes :: "string dict \<Rightarrow> (engine, unit) eff" where
  "apply_label_writes writes = (\<lambda>e.
     (if writes = [] then (Inr (), e)
      else (let filtered = filter_schema_valid e writes in
        if filtered = [] then (Inr (), e)
        else (Inr (), e\<lparr>en_store := set_labels (en_conversation_id e) filtered (en_store e),
                        en_labels := dict_update (en_labels e) filtered\<rparr>))))"

text \<open>
  \<open>float(value)\<close>: \<open>None\<close> for the \<open>TypeError\<close> or \<open>ValueError\<close> that is caught. The
  parser of numeric strings is a parameter.
\<close>

definition to_float :: "(string \<Rightarrow> rat option) \<Rightarrow> json \<Rightarrow> rat option" where
  "to_float parse v = (case v of JStr s \<Rightarrow> parse s | _ \<Rightarrow> json_num v)"

definition record_user_daily_ask_approved :: "(string \<Rightarrow> rat option) \<Rightarrow> json \<Rightarrow> engine \<Rightarrow> engine" where
  "record_user_daily_ask_approved parse v e =
     (if v = JNull then e
      else (case to_float parse v of
              None \<Rightarrow> e
            | Some approved \<Rightarrow>
                (case get_session_owner (en_store e) (en_conversation_id e) of
                   None \<Rightarrow> e
                 | Some owner \<Rightarrow>
                     e\<lparr>en_store := set_daily_ask_approved owner (st_today (en_store e)) approved (en_store e),
                       en_user_daily_cost :=
                         map_option (dict_set ''ask_approved_usd'' (JFloat approved)) (en_user_daily_cost e)\<rparr>)))"

definition record_root_cost_ask_approved :: "state_update \<Rightarrow> (engine, unit) eff" where
  "record_root_cost_ask_approved op = (\<lambda>e.
     (case apply_one (load_session_state (en_store e) (en_root_conversation_id e)) op of
        Inl err \<Rightarrow> (Inl err, e)
      | Inr root_state \<Rightarrow>
          (let e = e\<lparr>en_store := set_session_state (en_root_conversation_id e) root_state (en_store e)\<rparr> in
           case apply_one (en_session_state e) op of
             Inl err \<Rightarrow> (Inl err, e)
           | Inr state \<Rightarrow> (Inr (), e\<lparr>en_session_state := state\<rparr>))))"

definition routed_to_root :: "engine \<Rightarrow> state_update \<Rightarrow> bool" where
  "routed_to_root e op \<longleftrightarrow>
     su_key op \<in> {SESSION_COST_ASK_APPROVED_STATE_KEY, SESSION_COST_UNPRICED_APPROVED_KEY} \<and>
     en_root_conversation_id e \<noteq> en_conversation_id e"

fun route_updates :: "(string \<Rightarrow> rat option) \<Rightarrow> state_update list \<Rightarrow> state_update list \<Rightarrow> (engine, state_update list) eff" where
  "route_updates parse [] session_ops = eff_return session_ops"
| "route_updates parse (op # ops) session_ops = (\<lambda>e.
     (if su_key op = USER_DAILY_ASK_APPROVED_STATE_KEY then
        route_updates parse ops session_ops (record_user_daily_ask_approved parse (su_value op) e)
      else if routed_to_root e op then
        eff_bind (record_root_cost_ask_approved op) (\<lambda>_. route_updates parse ops session_ops) e
      else route_updates parse ops (session_ops @ [op]) e))"

text \<open>Each operation changes the cache as it succeeds: an exception keeps the ones before it.\<close>

fun apply_session_ops :: "state_update list \<Rightarrow> (engine, unit) eff" where
  "apply_session_ops [] = eff_return ()"
| "apply_session_ops (op # ops) = (\<lambda>e.
     (case apply_one (en_session_state e) op of
        Inl err \<Rightarrow> (Inl err, e)
      | Inr state \<Rightarrow> apply_session_ops ops (e\<lparr>en_session_state := state\<rparr>)))"

definition apply_state_updates :: "(string \<Rightarrow> rat option) \<Rightarrow> state_update list \<Rightarrow> (engine, unit) eff" where
  "apply_state_updates parse updates =
     (if updates = [] then eff_return ()
      else eff_bind (route_updates parse updates []) (\<lambda>session_ops.
        if session_ops = [] then eff_return ()
        else eff_bind (apply_session_ops session_ops) (\<lambda>_ e.
          (Inr (), e\<lparr>en_store := set_session_state (en_conversation_id e) (en_session_state e) (en_store e)\<rparr>))))"

subsection \<open>Evaluation\<close>

definition inject :: "engine \<Rightarrow> evaluation_context \<Rightarrow> evaluation_context" where
  "inject e ctx =
     ctx\<lparr>ctx_session_state := Some (en_session_state e),
         ctx_usage := Some (en_usage e),
         ctx_subtree_usage :=
           (case en_subtree_usage e of None \<Rightarrow> ctx_subtree_usage ctx | Some u \<Rightarrow> Some u),
         ctx_user_daily_cost :=
           (case en_user_daily_cost e of None \<Rightarrow> ctx_user_daily_cost ctx | Some u \<Rightarrow> Some u),
         ctx_model := (case ctx_model ctx of None \<Rightarrow> en_model e | Some m \<Rightarrow> Some m),
         ctx_labels := Some (en_labels e),
         ctx_llm_client := en_llm_client e\<rparr>"

text \<open>The local variables of the composition loop.\<close>

record composition =
  cp_labels :: "string dict"
  cp_updates :: "state_update list"
  cp_ask_reasons :: "string list"
  cp_asking :: "string list"
  cp_data :: json

definition empty_composition :: composition where
  "empty_composition =
     \<lparr>cp_labels = [], cp_updates = [], cp_ask_reasons = [], cp_asking = [], cp_data = JNull\<rparr>"

definition opt_nonempty :: "'a list \<Rightarrow> 'a list option" where
  "opt_nonempty xs = (if xs = [] then None else Some xs)"

definition accumulate :: "policy \<Rightarrow> policy_result \<Rightarrow> composition \<Rightarrow> composition" where
  "accumulate p result acc =
     acc\<lparr>cp_labels := dict_update (cp_labels acc) (list_or (filter_writable_labels (pr_set_labels result) (po_spec p))),
         cp_updates := cp_updates acc @ list_or (pr_state_updates result)\<rparr>"

definition ask_reason :: "policy \<Rightarrow> policy_result \<Rightarrow> string" where
  "ask_reason p result =
     sp_name (po_spec p) @ '': '' @ str_or (pr_reason result) ''approval required''"

definition record_ask :: "policy \<Rightarrow> policy_result \<Rightarrow> composition \<Rightarrow> composition" where
  "record_ask p result acc =
     (if pr_action result = ASK
      then acc\<lparr>cp_ask_reasons := cp_ask_reasons acc @ [ask_reason p result],
               cp_asking := cp_asking acc @ [sp_name (po_spec p)]\<rparr>
      else acc)"

definition compose_deny ::
    "(string \<Rightarrow> rat option) \<Rightarrow> string \<Rightarrow> string option \<Rightarrow> composition \<Rightarrow> bool \<Rightarrow> (engine, policy_result) eff" where
  "compose_deny parse deciding reason acc read_only =
     eff_bind (if read_only then eff_return ()
               else eff_bind (apply_state_updates parse (cp_updates acc)) (\<lambda>_. apply_label_writes (cp_labels acc)))
       (\<lambda>_. eff_return
          \<lparr>pr_action = DENY, pr_reason = reason, pr_set_labels = opt_nonempty (cp_labels acc),
           pr_deciding_policies = Some [deciding], pr_data = JNull,
           pr_state_updates = opt_nonempty (cp_updates acc)\<rparr>)"

definition compose_end :: "(string \<Rightarrow> rat option) \<Rightarrow> composition \<Rightarrow> bool \<Rightarrow> (engine, policy_result) eff" where
  "compose_end parse acc read_only =
     (if cp_ask_reasons acc \<noteq> [] then
        eff_return
          \<lparr>pr_action = ASK, pr_reason = Some (join ''; '' (cp_ask_reasons acc)),
           pr_set_labels = opt_nonempty (cp_labels acc), pr_deciding_policies = Some (cp_asking acc),
           pr_data = cp_data acc, pr_state_updates = opt_nonempty (cp_updates acc)\<rparr>
      else
        eff_bind (if read_only then eff_return ()
                  else eff_bind (apply_label_writes (cp_labels acc)) (\<lambda>_. apply_state_updates parse (cp_updates acc)))
          (\<lambda>_. eff_return
             \<lparr>pr_action = ALLOW, pr_reason = None, pr_set_labels = opt_nonempty (cp_labels acc),
              pr_deciding_policies = None, pr_data = cp_data acc,
              pr_state_updates = opt_nonempty (cp_updates acc)\<rparr>))"

fun evaluate_loop ::
    "(string \<Rightarrow> rat option) \<Rightarrow> bool \<Rightarrow> policy list \<Rightarrow> evaluation_context \<Rightarrow> composition \<Rightarrow> (engine, policy_result) eff" where
  "evaluate_loop parse read_only [] ctx acc = compose_end parse acc read_only"
| "evaluate_loop parse read_only (p # ps) ctx acc = (\<lambda>e.
     (if \<not> should_fire e (po_spec p) ctx then evaluate_loop parse read_only ps ctx acc e
      else
        (let result = dispatch_policy p ctx;
             acc = accumulate p result acc
         in if pr_action result = DENY then
              compose_deny parse (sp_name (po_spec p)) (pr_reason result) acc read_only e
            else if pr_data result \<noteq> JNull then
              evaluate_loop parse read_only ps (ctx\<lparr>ctx_content := pr_data result\<rparr>)
                (record_ask p result (acc\<lparr>cp_data := pr_data result\<rparr>)) e
            else evaluate_loop parse read_only ps ctx (record_ask p result acc) e)))"

definition evaluate :: "(string \<Rightarrow> rat option) \<Rightarrow> evaluation_context \<Rightarrow> bool \<Rightarrow> (engine, policy_result) eff" where
  "evaluate parse ctx read_only = (\<lambda>e.
     evaluate_loop parse read_only (en_policies e) (inject e ctx) empty_composition e)"

subsection \<open>Usage\<close>

text \<open>\<open>usage[key] += n\<close>: a missing key raises.\<close>

definition usage_bump :: "string \<Rightarrow> json \<Rightarrow> json dict \<Rightarrow> json dict res" where
  "usage_bump key n usage =
     (case dict_get usage key of
        None \<Rightarrow> Inl (KeyError key)
      | Some v \<Rightarrow> res_bind (json_add v n) (\<lambda>w. Inr (dict_set key w usage)))"

text \<open>The increments in order; an exception keeps the ones before it.\<close>

fun bump_all :: "(string \<times> json) list \<Rightarrow> (json dict, unit) eff" where
  "bump_all [] = eff_return ()"
| "bump_all ((key, n) # rest) = (\<lambda>u.
     (case usage_bump key n u of Inl err \<Rightarrow> (Inl err, u) | Inr u' \<Rightarrow> bump_all rest u'))"

definition token_bumps :: "token_delta \<Rightarrow> (string \<times> json) list" where
  "token_bumps d =
     [(''input_tokens'', JInt (td_input_tokens d)), (''output_tokens'', JInt (td_output_tokens d)),
      (''total_tokens'', JInt (td_total_tokens d)),
      (''cache_read_input_tokens'', JInt (td_cache_read_input_tokens d)),
      (''cache_creation_input_tokens'', JInt (td_cache_creation_input_tokens d))]"

definition delta_cost :: "engine \<Rightarrow> token_delta \<Rightarrow> rat" where
  "delta_cost e d = (case en_token_pricing e of None \<Rightarrow> 0 | Some pricing \<Rightarrow> compute_llm_cost d pricing)"

definition cost_bump :: "engine \<Rightarrow> token_delta \<Rightarrow> (string \<times> json) list" where
  "cost_bump e d = (if en_token_pricing e = None then [] else [(''total_cost_usd'', JFloat (delta_cost e d))])"

definition record_usage :: "token_delta \<Rightarrow> (engine, unit) eff" where
  "record_usage d = (\<lambda>e.
     (case bump_all (token_bumps d @ cost_bump e d) (en_usage e) of
        (Inl err, u) \<Rightarrow> (Inl err, e\<lparr>en_usage := u\<rparr>)
      | (Inr _, u) \<Rightarrow>
          (let e = e\<lparr>en_usage := u\<rparr> in
           case en_subtree_usage e of
             None \<Rightarrow> (Inr (), e\<lparr>en_store := set_session_usage (en_conversation_id e) u (en_store e)\<rparr>)
           | Some sub \<Rightarrow>
               (case bump_all (token_bumps d @ [(''total_cost_usd'', JFloat (delta_cost e d))]) sub of
                  (Inl err, sub') \<Rightarrow> (Inl err, e\<lparr>en_subtree_usage := Some sub'\<rparr>)
                | (Inr _, sub') \<Rightarrow>
                    (Inr (), e\<lparr>en_subtree_usage := Some sub',
                               en_store := set_session_usage (en_conversation_id e) u (en_store e)\<rparr>)))))"

subsection \<open>The reference composition\<close>

text \<open>
  What an evaluation should decide, independently of the loop: the verdicts of the policies that
  fire, each on the content its predecessors produced, up to the first denial; the labels, updates,
  asks and data they ask for; and the decision these give.
\<close>

type_synonym verdict = "policy \<times> policy_result"

fun verdicts :: "engine \<Rightarrow> policy list \<Rightarrow> evaluation_context \<Rightarrow> verdict list" where
  "verdicts e [] ctx = []"
| "verdicts e (p # ps) ctx =
     (if \<not> should_fire e (po_spec p) ctx then verdicts e ps ctx
      else (let r = dispatch_policy p ctx in
            (p, r) # (if pr_action r = DENY then []
                      else verdicts e ps (if pr_data r \<noteq> JNull then ctx\<lparr>ctx_content := pr_data r\<rparr> else ctx))))"

definition denial :: "verdict list \<Rightarrow> verdict option" where
  "denial vs = find (\<lambda>(p, r). pr_action r = DENY) vs"

definition asks :: "verdict list \<Rightarrow> verdict list" where
  "asks vs = filter (\<lambda>(p, r). pr_action r = ASK) vs"

definition all_labels :: "verdict list \<Rightarrow> string dict" where
  "all_labels vs =
     fold (\<lambda>(p, r) d. dict_update d (list_or (filter_writable_labels (pr_set_labels r) (po_spec p)))) vs []"

definition all_updates :: "verdict list \<Rightarrow> state_update list" where
  "all_updates vs = concat (map (\<lambda>(p, r). list_or (pr_state_updates r)) vs)"

definition final_data :: "verdict list \<Rightarrow> json" where
  "final_data vs = fold (\<lambda>(p, r) d. if pr_data r \<noteq> JNull then pr_data r else d) vs JNull"

definition composed_result :: "verdict list \<Rightarrow> policy_result" where
  "composed_result vs =
     (case denial vs of
        Some (p, r) \<Rightarrow>
          \<lparr>pr_action = DENY, pr_reason = pr_reason r, pr_set_labels = opt_nonempty (all_labels vs),
           pr_deciding_policies = Some [sp_name (po_spec p)], pr_data = JNull,
           pr_state_updates = opt_nonempty (all_updates vs)\<rparr>
      | None \<Rightarrow>
          if asks vs \<noteq> [] then
            \<lparr>pr_action = ASK, pr_reason = Some (join ''; '' (map (\<lambda>(p, r). ask_reason p r) (asks vs))),
             pr_set_labels = opt_nonempty (all_labels vs),
             pr_deciding_policies = Some (map (\<lambda>(p, r). sp_name (po_spec p)) (asks vs)),
             pr_data = final_data vs, pr_state_updates = opt_nonempty (all_updates vs)\<rparr>
          else
            \<lparr>pr_action = ALLOW, pr_reason = None, pr_set_labels = opt_nonempty (all_labels vs),
             pr_deciding_policies = None, pr_data = final_data vs,
             pr_state_updates = opt_nonempty (all_updates vs)\<rparr>)"

text \<open>The writes of a decision: none when it is pending or read-only.\<close>

definition composed_writes :: "(string \<Rightarrow> rat option) \<Rightarrow> bool \<Rightarrow> verdict list \<Rightarrow> (engine, unit) eff" where
  "composed_writes parse read_only vs =
     (if read_only \<or> pr_action (composed_result vs) = ASK then eff_return ()
      else if pr_action (composed_result vs) = DENY
      then eff_bind (apply_state_updates parse (all_updates vs)) (\<lambda>_. apply_label_writes (all_labels vs))
      else eff_bind (apply_label_writes (all_labels vs)) (\<lambda>_. apply_state_updates parse (all_updates vs)))"

subsection \<open>The loop computes the reference composition\<close>

definition absorb :: "verdict \<Rightarrow> composition \<Rightarrow> composition" where
  "absorb v acc =
     (case v of (p, r) \<Rightarrow>
        record_ask p r ((accumulate p r acc)\<lparr>cp_data := (if pr_data r \<noteq> JNull then pr_data r else cp_data acc)\<rparr>))"

lemma compose_deny_cong:
  "cp_labels acc = cp_labels acc' \<Longrightarrow> cp_updates acc = cp_updates acc' \<Longrightarrow>
     compose_deny parse n r acc ro = compose_deny parse n r acc' ro"
  by (simp add: compose_deny_def)

lemma absorb_no_data: "pr_data r = JNull \<Longrightarrow> absorb (p, r) acc = record_ask p r (accumulate p r acc)"
  by (simp add: absorb_def accumulate_def)

lemma evaluate_loop_fold:
  "evaluate_loop parse ro ps ctx acc e =
     (case denial (verdicts e ps ctx) of
        Some (p, r) \<Rightarrow>
          compose_deny parse (sp_name (po_spec p)) (pr_reason r) (fold absorb (verdicts e ps ctx) acc) ro e
      | None \<Rightarrow> compose_end parse (fold absorb (verdicts e ps ctx) acc) ro e)"
proof (induction ps arbitrary: ctx acc)
  case Nil
  then show ?case by (simp add: denial_def)
next
  case (Cons p ps)
  show ?case
  proof (cases "should_fire e (po_spec p) ctx")
    case False
    then have "evaluate_loop parse ro (p # ps) ctx acc e = evaluate_loop parse ro ps ctx acc e"
      and "verdicts e (p # ps) ctx = verdicts e ps ctx" by simp_all
    then show ?thesis by (simp only: Cons.IH)
  next
    case True
    let ?r = "dispatch_policy p ctx"
    show ?thesis
    proof (cases "pr_action ?r = DENY")
      case deny: True
      have "compose_deny parse n x (accumulate p ?r acc) ro = compose_deny parse n x (absorb (p, ?r) acc) ro" for n x
        by (rule compose_deny_cong) (simp_all add: absorb_def record_ask_def deny)
      then show ?thesis using True deny by (simp add: Let_def denial_def)
    next
      case no_deny: False
      let ?ctx = "if pr_data ?r \<noteq> JNull then ctx\<lparr>ctx_content := pr_data ?r\<rparr> else ctx"
      have loop: "evaluate_loop parse ro (p # ps) ctx acc e = evaluate_loop parse ro ps ?ctx (absorb (p, ?r) acc) e"
        using True no_deny by (simp add: Let_def absorb_no_data) (simp add: absorb_def)
      have vs: "verdicts e (p # ps) ctx = (p, ?r) # verdicts e ps ?ctx"
        using True no_deny by (simp add: Let_def)
      have "denial ((p, ?r) # verdicts e ps ?ctx) = denial (verdicts e ps ?ctx)"
        using no_deny by (simp add: denial_def)
      then show ?thesis unfolding loop vs by (simp only: Cons.IH fold_simps)
    qed
  qed
qed

lemma fold_absorb:
  "fold absorb vs acc =
     \<lparr>cp_labels = fold (\<lambda>(p, r) d. dict_update d (list_or (filter_writable_labels (pr_set_labels r) (po_spec p)))) vs (cp_labels acc),
      cp_updates = cp_updates acc @ all_updates vs,
      cp_ask_reasons = cp_ask_reasons acc @ map (\<lambda>(p, r). ask_reason p r) (asks vs),
      cp_asking = cp_asking acc @ map (\<lambda>(p, r). sp_name (po_spec p)) (asks vs),
      cp_data = fold (\<lambda>(p, r) d. if pr_data r \<noteq> JNull then pr_data r else d) vs (cp_data acc)\<rparr>"
proof (induction vs arbitrary: acc)
  case Nil
  then show ?case by (simp add: all_updates_def asks_def)
next
  case (Cons v vs)
  obtain p r where v: "v = (p, r)" by (cases v)
  show ?case
    by (simp add: Cons v absorb_def [of "(p, r)"] record_ask_def accumulate_def all_updates_def asks_def)
qed

lemma evaluate_eq:
  "evaluate parse ctx read_only e =
     eff_bind (composed_writes parse read_only (verdicts e (en_policies e) (inject e ctx)))
       (\<lambda>_. eff_return (composed_result (verdicts e (en_policies e) (inject e ctx)))) e"
proof -
  define vs where "vs = verdicts e (en_policies e) (inject e ctx)"
  have fa: "cp_labels (fold absorb vs empty_composition) = all_labels vs"
    "cp_updates (fold absorb vs empty_composition) = all_updates vs"
    "cp_ask_reasons (fold absorb vs empty_composition) = map (\<lambda>(p, r). ask_reason p r) (asks vs)"
    "cp_asking (fold absorb vs empty_composition) = map (\<lambda>(p, r). sp_name (po_spec p)) (asks vs)"
    "cp_data (fold absorb vs empty_composition) = final_data vs"
    by (simp_all add: fold_absorb empty_composition_def all_labels_def final_data_def)
  show ?thesis
  proof (cases "denial vs")
    case None
    then show ?thesis
      unfolding evaluate_def evaluate_loop_fold vs_def [symmetric]
      by (auto simp: compose_end_def fa composed_writes_def composed_result_def)
  next
    case (Some v)
    then show ?thesis
      unfolding evaluate_def evaluate_loop_fold vs_def [symmetric]
      by (cases v) (simp add: compose_deny_def fa composed_writes_def composed_result_def)
  qed
qed

subsection \<open>Lemmas: decisions\<close>

lemma composed_action:
  "pr_action (composed_result vs) = Max (insert ALLOW ((pr_action \<circ> snd) ` set vs))"
proof -
  let ?A = "insert ALLOW ((pr_action \<circ> snd) ` set vs)"
  have allow: "ALLOW \<le> a" "a \<le> DENY" for a
    by (cases a; simp add: less_eq_policy_action_def)+
  show ?thesis
  proof (cases "denial vs")
    case (Some v)
    obtain p r where "v = (p, r)" by (cases v)
    then have "(p, r) \<in> set vs" and deny: "pr_action r = DENY"
      using Some by (auto simp: denial_def find_Some_iff in_set_conv_nth)
    then have "DENY \<in> ?A" by force
    then have "Max ?A = DENY" by (intro Max_eqI) (auto intro: allow)
    then show ?thesis using Some \<open>v = (p, r)\<close> by (simp add: composed_result_def)
  next
    case None
    then have no_deny: "DENY \<notin> ?A" by (force simp: denial_def find_None_iff)
    show ?thesis
    proof (cases "asks vs = []")
      case False
      then have "ASK \<in> ?A" by (force simp: asks_def filter_empty_conv)
      moreover have "a \<le> ASK" if "a \<in> ?A" for a
        using that no_deny by (cases a) (auto simp: less_eq_policy_action_def)
      ultimately have "Max ?A = ASK" by (intro Max_eqI) auto
      then show ?thesis using None False by (simp add: composed_result_def)
    next
      case True
      then have "ASK \<notin> ?A" by (force simp: asks_def filter_empty_conv)
      then have "a = ALLOW" if "a \<in> ?A" for a using that no_deny by (cases a) auto
      then have "?A = {ALLOW}" by blast
      then have "Max ?A = ALLOW" by (simp only: Max_singleton)
      then show ?thesis using None True by (simp add: composed_result_def)
    qed
  qed
qed

lemma evaluate_Inr:
  assumes "evaluate parse ctx ro e = (Inr r, e')"
  shows "r = composed_result (verdicts e (en_policies e) (inject e ctx))"
    and "composed_writes parse ro (verdicts e (en_policies e) (inject e ctx)) e = (Inr (), e')"
  using assms unfolding evaluate_eq by (auto elim!: eff_bind_okE)

lemma evaluate_read_only:
  "evaluate parse ctx True e = (Inr (composed_result (verdicts e (en_policies e) (inject e ctx))), e)"
  by (simp add: evaluate_eq composed_writes_def eff_bind_def)

lemma selector_matches_frame [simp]:
  "selector_matches sel (ctx\<lparr>ctx_content := c\<rparr>) = selector_matches sel ctx"
  "selector_matches sel (inject e ctx) = selector_matches sel ctx"
  by (simp_all add: selector_matches_def inject_def)

lemma should_fire_content [simp]: "should_fire e spec (ctx\<lparr>ctx_content := c\<rparr>) = should_fire e spec ctx"
  by (cases "sp_on spec"; cases "sp_condition spec") (simp_all add: should_fire_def)

lemma should_fire_inject [simp]: "should_fire e spec (inject e ctx) = should_fire e spec ctx"
  by (cases "sp_on spec"; cases "sp_condition spec") (simp_all add: should_fire_def)

text \<open>
  A policy that fires is reached unless an earlier one has already denied; what holds of the content
  and of every replacement holds of the content it sees.
\<close>

lemma verdicts_reach:
  assumes "p \<in> set ps" and "should_fire e (po_spec p) ctx" and "Q (ctx_content ctx)"
    and "\<And>q c. q \<in> set ps \<Longrightarrow> pr_data (dispatch_policy q c) = JNull \<or> Q (pr_data (dispatch_policy q c))"
  shows "(\<exists>x. Q x \<and> (p, dispatch_policy p (ctx\<lparr>ctx_content := x\<rparr>)) \<in> set (verdicts e ps ctx)) \<or>
         (\<exists>(q, r) \<in> set (verdicts e ps ctx). pr_action r = DENY)"
  using assms
proof (induction ps arbitrary: ctx)
  case Nil
  then show ?case by simp
next
  case (Cons q ps)
  show ?case
  proof (cases "should_fire e (po_spec q) ctx")
    case False
    then have "p \<in> set ps" using Cons.prems by auto
    then show ?thesis using Cons.IH [OF _ Cons.prems(2,3)] Cons.prems(4) False by simp
  next
    case True
    let ?r = "dispatch_policy q ctx"
    let ?ctx = "if pr_data ?r \<noteq> JNull then ctx\<lparr>ctx_content := pr_data ?r\<rparr> else ctx"
    consider "q = p" | "q \<noteq> p" "pr_action ?r = DENY" | "q \<noteq> p" "pr_action ?r \<noteq> DENY" by blast
    then show ?thesis
    proof cases
      case 1
      then have "(p, dispatch_policy p (ctx\<lparr>ctx_content := ctx_content ctx\<rparr>)) \<in> set (verdicts e (q # ps) ctx)"
        using True by (auto simp: Let_def)
      then show ?thesis using Cons.prems(3) by blast
    next
      case 2
      then show ?thesis using True by (auto simp: Let_def)
    next
      case 3
      have vs: "verdicts e (q # ps) ctx = (q, ?r) # verdicts e ps ?ctx"
        using True 3 by (simp add: Let_def)
      have content: "?ctx\<lparr>ctx_content := x\<rparr> = ctx\<lparr>ctx_content := x\<rparr>" for x by simp
      have p: "p \<in> set ps" and fire: "should_fire e (po_spec p) ?ctx" using Cons.prems(1,2) 3 by auto
      have Q: "Q (ctx_content ?ctx)" using Cons.prems(3) Cons.prems(4) [of q ctx] by auto
      from Cons.IH [OF p fire Q, unfolded content] Cons.prems(4)
      have "(\<exists>x. Q x \<and> (p, dispatch_policy p (ctx\<lparr>ctx_content := x\<rparr>)) \<in> set (verdicts e ps ?ctx)) \<or>
         (\<exists>(q, r) \<in> set (verdicts e ps ?ctx). pr_action r = DENY)" by simp
      then show ?thesis unfolding vs by auto
    qed
  qed
qed

text \<open>A policy that fires and denies whatever the content is denies the evaluation.\<close>

lemma firing_denier:
  assumes "p \<in> set (en_policies e)" and "should_fire e (po_spec p) ctx"
    and "\<And>x. pr_action (dispatch_policy p ((inject e ctx)\<lparr>ctx_content := x\<rparr>)) = DENY"
  shows "pr_action (composed_result (verdicts e (en_policies e) (inject e ctx))) = DENY"
proof -
  let ?vs = "verdicts e (en_policies e) (inject e ctx)"
  have "should_fire e (po_spec p) (inject e ctx)" using assms(2) by simp
  from verdicts_reach [OF assms(1) this, where Q = "\<lambda>_. True"] have "\<exists>(q, r) \<in> set ?vs. pr_action r = DENY"
    using assms(3) by blast
  then have "denial ?vs \<noteq> None" by (auto simp: denial_def find_None_iff)
  then show ?thesis by (auto simp: composed_result_def split: option.splits)
qed

subsection \<open>Lemmas: labels\<close>

definition label_allowed :: "label_def dict \<Rightarrow> string \<Rightarrow> string \<Rightarrow> bool" where
  "label_allowed defs k v =
     (case dict_get defs k of
        None \<Rightarrow> True
      | Some ldef \<Rightarrow> (case ld_values ldef of None \<Rightarrow> True | Some vs \<Rightarrow> v \<in> set vs))"

text \<open>
  The cached labels respect their schemas, and the stored labels of the conversation are the cached
  ones cut to the width of the column.
\<close>

definition labels_ok :: "engine \<Rightarrow> bool" where
  "labels_ok e \<longleftrightarrow>
     (\<forall>k v. map_of (en_labels e) k = Some v \<longrightarrow> label_allowed (en_label_defs e) k v) \<and>
     (\<forall>k. map_of (fetch_labels (en_store e) (en_conversation_id e)) k =
            map_option (take LABEL_VALUE_MAX_LEN) (map_of (en_labels e) k))"

lemma map_of_filter_schema_valid:
  assumes "distinct (map fst writes)"
  shows "map_of (filter_schema_valid e writes) k =
           (case map_of writes k of None \<Rightarrow> None
            | Some v \<Rightarrow> if label_allowed (en_label_defs e) k v then Some v else None)"
  using assms unfolding filter_schema_valid_def
proof (induction writes)
  case Nil
  then show ?case by simp
next
  case (Cons kv writes)
  then show ?case
    by (cases kv) (auto simp: label_allowed_def map_of_eq_None_iff split: option.splits)
qed

lemma distinct_filter_schema_valid:
  "distinct (map fst writes) \<Longrightarrow> distinct (map fst (filter_schema_valid e writes))"
  unfolding filter_schema_valid_def by (simp add: distinct_map_filter)

lemma apply_label_writes_ok:
  assumes ok: "labels_ok e" and d: "distinct (map fst writes)"
    and run: "apply_label_writes writes e = (r, e')"
  shows "labels_ok e'"
proof (cases "filter_schema_valid e writes = [] \<or> writes = []")
  case True
  then have "e' = e" using run by (auto simp: apply_label_writes_def Let_def split: if_splits)
  then show ?thesis using ok by simp
next
  case False
  let ?w = "filter_schema_valid e writes"
  have e': "e' = e\<lparr>en_store := set_labels (en_conversation_id e) ?w (en_store e),
                   en_labels := dict_update (en_labels e) ?w\<rparr>"
    using False run by (simp add: apply_label_writes_def Let_def)
  have dw: "distinct (map fst ?w)" by (rule distinct_filter_schema_valid [OF d])
  have dr: "distinct (map fst (upsert_rows ?w))" using dw by simp
  show ?thesis
    using ok dw dr
    by (auto simp: labels_ok_def e' fetch_labels_set_labels map_of_upsert_rows
        map_of_filter_schema_valid [OF d] split: option.splits if_splits)
qed

text \<open>State updates and usage do not touch labels.\<close>

definition labels_view :: "engine \<Rightarrow> string dict \<times> label_def dict \<times> string \<times> string dict dict" where
  "labels_view e = (en_labels e, en_label_defs e, en_conversation_id e, st_labels (en_store e))"

lemma labels_ok_view: "labels_view e' = labels_view e \<Longrightarrow> labels_ok e' = labels_ok e"
  by (simp add: labels_ok_def labels_view_def fetch_labels_def)

lemma st_labels_frame [simp]:
  "st_labels (set_session_state c v s) = st_labels s"
  "st_labels (set_session_usage c v s) = st_labels s"
  "st_labels (set_daily_ask_approved u d q s) = st_labels s"
  by (simp_all add: set_session_state_def set_session_usage_def update_meta_def update_conv_def
      set_daily_ask_approved_def)

lemma record_user_daily_view [simp]:
  "labels_view (record_user_daily_ask_approved parse v e) = labels_view e"
  by (simp add: record_user_daily_ask_approved_def labels_view_def split: option.splits)

lemma record_root_view [preserves_intros]:
  "preserves (\<lambda>e. labels_view e = v) (record_root_cost_ask_approved op)"
  by (auto simp: preserves_def record_root_cost_ask_approved_def labels_view_def Let_def split: sum.splits)

lemma route_updates_view [preserves_intros]:
  "preserves (\<lambda>e. labels_view e = v) (route_updates parse ops acc)"
proof (induction ops arbitrary: acc)
  case Nil
  then show ?case by (simp add: preserves_def)
next
  case (Cons op ops)
  have "preserves (\<lambda>e. labels_view e = v)
          (eff_bind (record_root_cost_ask_approved op) (\<lambda>_. route_updates parse ops acc))"
    by (intro preserves_intros Cons)
  then show ?case using Cons unfolding preserves_def by simp
qed

lemma apply_session_ops_view [preserves_intros]:
  "preserves (\<lambda>e. labels_view e = v) (apply_session_ops ops)"
proof (induction ops)
  case Nil
  then show ?case by (simp add: preserves_def)
next
  case (Cons op ops)
  then show ?case unfolding preserves_def by (auto simp: labels_view_def split: sum.splits)
qed

lemma apply_state_updates_view [preserves_intros]:
  "preserves (\<lambda>e. labels_view e = v) (apply_state_updates parse updates)"
proof -
  have store: "preserves (\<lambda>e. labels_view e = v)
      (\<lambda>e. (Inr (), e\<lparr>en_store := set_session_state (en_conversation_id e) (en_session_state e) (en_store e)\<rparr>))"
    by (simp add: preserves_def labels_view_def)
  show ?thesis unfolding apply_state_updates_def by (intro preserves_intros store)
qed

lemma apply_state_updates_labels_ok [preserves_intros]: "preserves labels_ok (apply_state_updates parse updates)"
  unfolding preserves_def
proof (intro allI impI)
  fix e assume "labels_ok e"
  moreover have "labels_view (snd (apply_state_updates parse updates e)) = labels_view e"
    using apply_state_updates_view [of "labels_view e"] by (simp add: preserves_def)
  ultimately show "labels_ok (snd (apply_state_updates parse updates e))"
    using labels_ok_view by blast
qed

lemma distinct_all_labels: "distinct (map fst (all_labels vs))"
proof -
  have "distinct (map fst d) \<Longrightarrow>
    distinct (map fst (fold (\<lambda>(p, r) d. dict_update d (list_or (filter_writable_labels (pr_set_labels r) (po_spec p)))) vs d))" for d
    by (induction vs arbitrary: d) (auto simp: distinct_dict_update)
  then show ?thesis by (simp add: all_labels_def)
qed

lemma evaluate_labels_ok [preserves_intros]: "preserves labels_ok (evaluate parse ctx ro)"
proof -
  have w: "preserves labels_ok (apply_label_writes (all_labels vs))" for vs
    unfolding preserves_def using apply_label_writes_ok [OF _ distinct_all_labels] by (metis prod.collapse)
  have "preserves labels_ok (composed_writes parse ro vs)" for vs
    unfolding composed_writes_def by (intro preserves_intros w)
  then show ?thesis
    unfolding preserves_def evaluate_eq
    by (metis (no_types) preserves_bind preserves_def preserves_return)
qed

lemma record_usage_view [preserves_intros]:
  "preserves (\<lambda>e. labels_view e = v) (record_usage d)"
  by (auto simp: preserves_def record_usage_def labels_view_def Let_def split: sum.splits prod.splits option.splits)

subsection \<open>Runs of an engine\<close>

text \<open>
  Everything the workflow does with an engine, in any order: evaluations, writes of an approved ask,
  usage after an LLM call. Label writes come from dictionaries, so their keys are distinct.
\<close>

inductive engine_step :: "engine \<Rightarrow> engine \<Rightarrow> bool" where
  step_evaluate: "evaluate parse ctx ro e = (r, e') \<Longrightarrow> engine_step e e'"
| step_labels: "distinct (map fst writes) \<Longrightarrow> apply_label_writes writes e = (r', e') \<Longrightarrow> engine_step e e'"
| step_state: "apply_state_updates parse updates e = (r', e') \<Longrightarrow> engine_step e e'"
| step_usage: "record_usage d e = (r', e') \<Longrightarrow> engine_step e e'"

lemma engine_step_labels_ok: "engine_step e e' \<Longrightarrow> labels_ok e \<Longrightarrow> labels_ok e'"
proof (induction rule: engine_step.induct)
  case (step_evaluate parse ctx ro e r e')
  then show ?case using preservesD [OF evaluate_labels_ok] by blast
next
  case (step_labels writes e r' e')
  then show ?case using apply_label_writes_ok by blast
next
  case (step_state parse updates e r' e')
  then show ?case using preservesD [OF apply_state_updates_labels_ok] by blast
next
  case (step_usage d e r' e')
  have "labels_view e' = labels_view e"
    by (rule preservesD [OF record_usage_view _ step_usage(1)]) (rule refl)
  then show ?case using step_usage(2) labels_ok_view by blast
qed

lemma engine_run_labels_ok: "engine_step\<^sup>*\<^sup>* e e' \<Longrightarrow> labels_ok e \<Longrightarrow> labels_ok e'"
  by (induction rule: rtranclp_induct) (auto intro: engine_step_labels_ok)

subsection \<open>Lemmas: usage\<close>

lemma usage_bump_numeric:
  assumes "dict_has u key" and "numeric_usage u" and "key \<noteq> ''by_model''" and "json_num n = Some q"
  shows "\<exists>u'. usage_bump key n u = Inr u' \<and> numeric_usage u' \<and> (\<forall>k. dict_has u' k = dict_has u k) \<and>
           (\<forall>k. counter u' k = counter u k + (if k = key then q else 0))"
proof -
  obtain v where v: "map_of u key = Some v" using assms(1) by (auto simp: dict_has_def)
  then have "json_num v \<noteq> None" using assms(2,3) by (auto simp: numeric_usage_def dest: map_of_SomeD)
  then obtain x where x: "json_num v = Some x" by blast
  obtain w where w: "json_add v n = Inr w" "json_num w = Some (x + q)"
    using json_num_add [OF x assms(4)] by blast
  then have "usage_bump key n u = Inr (dict_set key w u)" using v by (simp add: usage_bump_def dict_get_def)
  moreover have "numeric_usage (dict_set key w u)" using assms(2) w(2) by (simp add: numeric_usage_set)
  ultimately show ?thesis using v x w(2) by (auto simp: dict_has_def counter_def)
qed

lemma bump_all_numeric:
  assumes "\<forall>(k, n) \<in> set bumps. dict_has u k \<and> k \<noteq> ''by_model'' \<and> json_num n \<noteq> None" and "numeric_usage u"
  shows "\<exists>u'. bump_all bumps u = (Inr (), u') \<and> numeric_usage u' \<and> (\<forall>k. dict_has u' k = dict_has u k) \<and>
           (\<forall>k. counter u' k = counter u k + delta_sum bumps k)"
  using assms
proof (induction bumps arbitrary: u)
  case Nil
  then show ?case by simp
next
  case (Cons b bumps)
  obtain key n where b: "b = (key, n)" by (cases b)
  obtain q where q: "json_num n = Some q" using Cons.prems(1) b by auto
  have key: "dict_has u key" "key \<noteq> ''by_model''" using Cons.prems(1) b by auto
  obtain u1 where u1: "usage_bump key n u = Inr u1" "numeric_usage u1" "\<forall>k. dict_has u1 k = dict_has u k"
      "\<forall>k. counter u1 k = counter u k + (if k = key then q else 0)"
    using usage_bump_numeric [OF key(1) Cons.prems(2) key(2) q] by blast
  have "\<forall>(k, n) \<in> set bumps. dict_has u1 k \<and> k \<noteq> ''by_model'' \<and> json_num n \<noteq> None"
    using Cons.prems(1) u1(3) by auto
  from Cons.IH [OF this u1(2)] obtain u2 where u2: "bump_all bumps u1 = (Inr (), u2)" "numeric_usage u2"
      "\<forall>k. dict_has u2 k = dict_has u1 k" "\<forall>k. counter u2 k = counter u1 k + delta_sum bumps k"
    by blast
  have "bump_all (b # bumps) u = (Inr (), u2)" using u1(1) u2(1) b by simp
  moreover have "counter u2 k = counter u k + delta_sum (b # bumps) k" for k
    using u1(4) u2(4) b q by auto
  moreover have "dict_has u2 k = dict_has u k" for k using u1(3) u2(3) by simp
  ultimately show ?case using u2(2) by blast
qed

definition usage_keys :: "string set" where
  "usage_keys = {''input_tokens'', ''output_tokens'', ''total_tokens'', ''cache_read_input_tokens'',
     ''cache_creation_input_tokens'', ''total_cost_usd''}"

text \<open>The usage of an engine that was seeded with every counter.\<close>

definition full_usage :: "json dict \<Rightarrow> bool" where
  "full_usage u \<longleftrightarrow> numeric_usage u \<and> (\<forall>k \<in> usage_keys. dict_has u k)"

lemma record_usage_full:
  assumes "full_usage (en_usage e)" and "en_subtree_usage e = None"
  shows "\<exists>u. record_usage d e =
             (Inr (), e\<lparr>en_usage := u, en_store := set_session_usage (en_conversation_id e) u (en_store e)\<rparr>) \<and>
           full_usage u \<and>
           (\<forall>k. counter u k = counter (en_usage e) k + delta_sum (token_bumps d @ cost_bump e d) k)"
proof -
  have "\<forall>(k, n) \<in> set (token_bumps d @ cost_bump e d). dict_has (en_usage e) k \<and> k \<noteq> ''by_model'' \<and> json_num n \<noteq> None"
    using assms(1) by (auto simp: token_bumps_def cost_bump_def full_usage_def usage_keys_def split: if_splits)
  moreover have "numeric_usage (en_usage e)" using assms(1) by (simp add: full_usage_def)
  ultimately obtain u where u: "bump_all (token_bumps d @ cost_bump e d) (en_usage e) = (Inr (), u)" "numeric_usage u"
      "\<forall>k. dict_has u k = dict_has (en_usage e) k"
      "\<forall>k. counter u k = counter (en_usage e) k + delta_sum (token_bumps d @ cost_bump e d) k"
    using bump_all_numeric by blast
  have "full_usage u" using u(2,3) assms(1) by (simp add: full_usage_def)
  then show ?thesis using u(1,4) assms(2) by (auto simp: record_usage_def)
qed

text \<open>An engine seeded with a cost but no token counters cannot record usage.\<close>

lemma record_usage_partial_seed:
  assumes "en_usage e = init_usage (Some [(''total_cost_usd'', JFloat c)])"
  shows "record_usage d e = (Inl (KeyError ''input_tokens''), e)"
proof -
  have "map_of (en_usage e) ''input_tokens'' = None"
    by (simp add: assms init_usage_def setdefault_def dict_has_def)
  then show ?thesis by (simp add: record_usage_def token_bumps_def usage_bump_def dict_get_def)
qed

subsection \<open>Properties\<close>

text \<open>
  C3. The evaluation loop is the reference composition: its result is the one that
  the verdicts of the firing policies determine (each policy sees the content that its predecessors
  produced, the first denial ends the chain), and its writes are exactly those of that result:
  none for a pending ask or a read-only call, state before labels for a denial, labels before state
  otherwise.
\<close>

theorem evaluate_composes:
  "evaluate parse ctx read_only e =
     eff_bind (composed_writes parse read_only (verdicts e (en_policies e) (inject e ctx)))
       (\<lambda>_. eff_return (composed_result (verdicts e (en_policies e) (inject e ctx)))) e"
  by (rule evaluate_eq)

text \<open>
  C40. Whatever the order of the policies, the decision of an evaluation that
  returns is the strictest verdict among the policies that ran (ALLOW when none did).
\<close>

theorem strictest_verdict_wins:
  assumes "evaluate parse ctx read_only e = (Inr r, e')"
  shows "pr_action r =
           Max (insert ALLOW ((pr_action \<circ> snd) ` set (verdicts e (en_policies e) (inject e ctx))))"
  unfolding evaluate_Inr(1) [OF assms] by (rule composed_action)

definition demo_spec :: "string \<Rightarrow> policy_spec" where
  "demo_spec n = \<lparr>sp_name = n, sp_on = None, sp_condition = None, sp_ask_timeout = None,
     sp_function = None, sp_set_labels = None, sp_config = None\<rparr>"

definition ask_result :: policy_result where
  "ask_result = (policy_result_of ASK (Some ''sure?''))\<lparr>pr_set_labels := Some [(''integrity'', ''0'')]\<rparr>"

definition ask_policy :: policy where
  "ask_policy = \<lparr>po_spec = demo_spec ''asker'', po_evaluate = \<lambda>ctx. Inr ask_result\<rparr>"

definition broken_policy :: policy where
  "broken_policy = \<lparr>po_spec = demo_spec ''broken'', po_evaluate = \<lambda>ctx. Inl (ValueError ''boom'')\<rparr>"

definition demo_ctx :: evaluation_context where
  "demo_ctx = \<lparr>ctx_phase = TOOL_CALL, ctx_content = JNull, ctx_tool_name = Some ''shell'', ctx_actor = None,
     ctx_request_data = JNull, ctx_session_state = None, ctx_usage = None, ctx_subtree_usage = None,
     ctx_user_daily_cost = None, ctx_model = None, ctx_harness = None, ctx_labels = None,
     ctx_llm_client = JNull\<rparr>"

definition demo_engine :: "policy list \<Rightarrow> engine" where
  "demo_engine ps = policy_engine ps [(''integrity'', \<lparr>ld_initial = None, ld_values = Some [''0'', ''1'']\<rparr>)]
     DEFAULT_ASK_TIMEOUT ''conv_1'' [] None None None None None None demo_store None JNull"

lemma demo_engine_policies [simp]: "en_policies (demo_engine ps) = ps"
  by (simp add: demo_engine_def policy_engine_def)

lemma demo_fire [simp]: "should_fire e (demo_spec n) ctx"
  by (simp add: should_fire_def demo_spec_def)

lemma demo_ask [simp]:
  "po_spec ask_policy = demo_spec ''asker''" "dispatch_policy ask_policy ctx = ask_result"
  "pr_action ask_result = ASK" "pr_data ask_result = JNull"
  by (simp_all add: ask_policy_def dispatch_policy_def ask_result_def policy_result_of_def)

lemma demo_verdicts_ask [simp]: "verdicts e [ask_policy] ctx = [(ask_policy, ask_result)]"
  by (simp add: Let_def)

lemma demo_ask_decision [simp]: "pr_action (composed_result [(ask_policy, ask_result)]) = ASK"
  by (simp add: composed_result_def denial_def asks_def)

lemma demo_evaluate_ask:
  "evaluate parse ctx ro (demo_engine [ask_policy]) =
     (Inr (composed_result [(ask_policy, ask_result)]), demo_engine [ask_policy])"
  by (simp add: evaluate_eq eff_bind_def composed_writes_def)

lemma strictest_verdict_wins_witness:
  "pr_action (composed_result [(ask_policy, ask_result)]) = Max {ALLOW, ASK}"
  using strictest_verdict_wins [OF demo_evaluate_ask] by simp

text \<open>
  C6. An evaluation that asks, and every read-only evaluation, leaves
  the engine and the store exactly as they were: a refused ask leaves no trace.
\<close>

theorem pending_decisions_write_nothing:
  assumes "evaluate parse ctx read_only e = (Inr r, e')" and "read_only \<or> pr_action r = ASK"
  shows "e' = e"
proof -
  have "r = composed_result (verdicts e (en_policies e) (inject e ctx))"
    by (rule evaluate_Inr(1) [OF assms(1)])
  then have "composed_writes parse read_only (verdicts e (en_policies e) (inject e ctx)) = eff_return ()"
    using assms(2) by (auto simp: composed_writes_def)
  then show ?thesis using evaluate_Inr(2) [OF assms(1)] by simp
qed

lemma pending_decisions_write_nothing_witness:
  "snd (evaluate (\<lambda>_. None) demo_ctx False (demo_engine [ask_policy])) = demo_engine [ask_policy]"
  unfolding demo_evaluate_ask
  using pending_decisions_write_nothing [OF demo_evaluate_ask] by simp

text \<open>
  C5. The engine fails closed: when the evaluator of a policy that fires raises,
  no evaluation returns ALLOW or ASK, wherever the policy stands in the list, and a read-only
  evaluation does return a DENY.
\<close>

theorem failing_policy_denies:
  assumes "p \<in> set (en_policies e)" and "should_fire e (po_spec p) ctx"
    and "\<forall>c. \<not> is_ok (po_evaluate p c)"
  shows "(\<forall>r e'. evaluate parse ctx read_only e = (Inr r, e') \<longrightarrow> pr_action r = DENY) \<and>
         (\<exists>r. evaluate parse ctx True e = (Inr r, e) \<and> pr_action r = DENY)"
proof -
  let ?vs = "verdicts e (en_policies e) (inject e ctx)"
  have deny: "pr_action (dispatch_policy p c) = DENY" for c
    using assms(3) by (cases "po_evaluate p c") (auto simp: dispatch_policy_def policy_result_of_def is_ok_iff)
  have "pr_action (composed_result ?vs) = DENY" by (rule firing_denier [OF assms(1,2) deny])
  moreover have "evaluate parse ctx True e = (Inr (composed_result ?vs), e)"
    by (rule evaluate_read_only)
  ultimately show ?thesis using evaluate_Inr(1) by blast
qed

lemma failing_policy_denies_witness:
  "\<exists>r. evaluate (\<lambda>_. None) demo_ctx True (demo_engine [ask_policy, broken_policy]) =
         (Inr r, demo_engine [ask_policy, broken_policy]) \<and> pr_action r = DENY"
proof -
  let ?e = "demo_engine [ask_policy, broken_policy]"
  have "broken_policy \<in> set (en_policies ?e)" "should_fire ?e (po_spec broken_policy) demo_ctx"
    "\<forall>c. \<not> is_ok (po_evaluate broken_policy c)"
    by (simp_all add: broken_policy_def)
  then show ?thesis by (rule failing_policy_denies [THEN conjunct2])
qed

text \<open>
  From an engine built on consistent labels, after any run of evaluations,
  approved asks, state updates and usage records, every cached label respects its declared values
  and the stored labels are the cached ones, cut to the width of the column.
\<close>

theorem labels_write_through:
  assumes "labels_ok e" and "engine_step\<^sup>*\<^sup>* e e'"
  shows "labels_ok e'"
  by (rule engine_run_labels_ok [OF assms(2,1)])

lemma labels_write_through_witness:
  "\<exists>r e'. apply_label_writes [(''integrity'', ''7''), (''note'', ''x'')] (demo_engine []) = (r, e') \<and>
     labels_ok e' \<and> en_labels e' = [(''note'', ''x'')]"
proof -
  let ?w = "[(''integrity'', ''7''), (''note'', ''x'')]"
  obtain r e' where run: "apply_label_writes ?w (demo_engine []) = (r, e')" by fastforce
  have "labels_ok (demo_engine [])"
    by (simp add: labels_ok_def demo_engine_def policy_engine_def demo_store_def empty_store_def fetch_labels_def)
  moreover have "engine_step\<^sup>*\<^sup>* (demo_engine []) e'"
    by (rule r_into_rtranclp, rule step_labels [OF _ run]) simp
  ultimately have "labels_ok e'" by (rule labels_write_through)
  moreover have "en_labels e' = [(''note'', ''x'')]"
    using run by (auto simp: apply_label_writes_def filter_schema_valid_def dict_get_def demo_engine_def
        policy_engine_def dict_update_def Let_def)
  ultimately show ?thesis using run by blast
qed

text \<open>
  On an engine seeded with every counter, recording the tokens of any sequence of LLM
  calls succeeds, adds each call's tokens and its price, and leaves the sum persisted for the
  conversation.
\<close>

theorem usage_recorded:
  assumes "full_usage (en_usage e)" and "en_subtree_usage e = None"
    and "has_meta (en_store e) (en_conversation_id e)"
    and "own_session_usage (en_store e) (en_conversation_id e) = en_usage e"
  shows "fst (eff_for ds record_usage e) = Inr () \<and>
         (let e' = snd (eff_for ds record_usage e) in
          own_session_usage (en_store e') (en_conversation_id e) = en_usage e' \<and>
          counter (en_usage e') ''total_tokens'' =
            counter (en_usage e) ''total_tokens'' + of_int (sum_list (map td_total_tokens ds)) \<and>
          counter (en_usage e') ''total_cost_usd'' =
            counter (en_usage e) ''total_cost_usd'' + sum_list (map (delta_cost e) ds))"
  using assms
proof (induction ds arbitrary: e)
  case Nil
  then show ?case by simp
next
  case (Cons d ds)
  obtain u where u: "record_usage d e =
        (Inr (), e\<lparr>en_usage := u, en_store := set_session_usage (en_conversation_id e) u (en_store e)\<rparr>)"
      "full_usage u" "\<forall>k. counter u k = counter (en_usage e) k + delta_sum (token_bumps d @ cost_bump e d) k"
    using record_usage_full [OF Cons.prems(1,2)] by blast
  define e1 where "e1 = e\<lparr>en_usage := u, en_store := set_session_usage (en_conversation_id e) u (en_store e)\<rparr>"
  have e1: "en_usage e1 = u" "en_subtree_usage e1 = None" "en_conversation_id e1 = en_conversation_id e"
    "delta_cost e1 = delta_cost e"
    using Cons.prems(2) by (simp_all add: e1_def delta_cost_def [abs_def])
  have "has_meta (en_store e1) (en_conversation_id e1)"
    using Cons.prems(3) by (simp add: e1_def usage_col.row_put)
  moreover have "own_session_usage (en_store e1) (en_conversation_id e1) = en_usage e1"
    using usage_col.get_put_same [OF Cons.prems(3)] by (simp add: e1_def)
  ultimately have IH: "fst (eff_for ds record_usage e1) = Inr () \<and>
         (let e' = snd (eff_for ds record_usage e1) in
          own_session_usage (en_store e') (en_conversation_id e1) = en_usage e' \<and>
          counter (en_usage e') ''total_tokens'' =
            counter (en_usage e1) ''total_tokens'' + of_int (sum_list (map td_total_tokens ds)) \<and>
          counter (en_usage e') ''total_cost_usd'' =
            counter (en_usage e1) ''total_cost_usd'' + sum_list (map (delta_cost e1) ds))"
    using Cons.IH [of e1] u(2) e1 by simp
  have "counter u ''total_tokens'' = counter (en_usage e) ''total_tokens'' + of_int (td_total_tokens d)"
    "counter u ''total_cost_usd'' = counter (en_usage e) ''total_cost_usd'' + delta_cost e d"
    using u(3) by (auto simp: token_bumps_def cost_bump_def delta_cost_def)
  then show ?case
    using IH e1 by (simp add: eff_bind_def u(1) e1_def [symmetric] Let_def)
qed

definition usage_engine :: engine where
  "usage_engine = (demo_engine [])\<lparr>
     en_token_pricing := Some \<lparr>mp_input_per_token = 2, mp_output_per_token = 3,
       mp_cache_read_per_token = None, mp_cache_write_per_token = None\<rparr>,
     en_store := set_session_usage ''conv_1'' default_usage demo_store\<rparr>"

lemma usage_recorded_witness:
  "let ds = [\<lparr>td_input_tokens = 10, td_output_tokens = 5, td_total_tokens = 15,
              td_cache_read_input_tokens = 100, td_cache_creation_input_tokens = 0\<rparr>] in
   counter (en_usage (snd (eff_for ds record_usage usage_engine))) ''total_cost_usd'' = 55"
proof -
  let ?d = "\<lparr>td_input_tokens = 10, td_output_tokens = 5, td_total_tokens = 15,
              td_cache_read_input_tokens = 100, td_cache_creation_input_tokens = 0\<rparr>"
  have u: "en_usage usage_engine = default_usage" "en_conversation_id usage_engine = ''conv_1''"
    "en_subtree_usage usage_engine = None"
    by (simp_all add: usage_engine_def demo_engine_def policy_engine_def init_usage_def setdefault_def
        default_usage_def dict_has_def)
  have full: "full_usage (en_usage usage_engine)"
    by (simp add: u full_usage_def usage_keys_def default_usage_def numeric_usage_def dict_has_def)
  have row: "has_meta demo_store ''conv_1''"
    by (simp add: has_meta_def get_conversation_def demo_store_def)
  then have row': "has_meta (en_store usage_engine) (en_conversation_id usage_engine)"
    by (simp add: u) (simp add: usage_engine_def usage_col.row_put)
  have own: "own_session_usage (en_store usage_engine) (en_conversation_id usage_engine) = en_usage usage_engine"
    by (simp add: u) (simp add: usage_engine_def usage_col.get_put_same [OF row])
  have "delta_cost usage_engine ?d = 55"
    by (simp add: delta_cost_def usage_engine_def compute_llm_cost_def FALLBACK_CACHE_READ_INPUT_RATIO_def)
  then show ?thesis
    using usage_recorded [OF full u(3) row' own, of "[?d]"]
    by (simp add: Let_def u default_usage_def counter_def)
qed

end
