(* ===== verification/Function_Policy.thy ===== *)
theory Function_Policy
  imports Policy_Engine
begin

text \<open>
  Policies backed by a Python callable (\<open>src/omnigent/policies/function.py\<close>): the event dictionary
  the callable sees, the coercion of what it returns into a \<open>PolicyResult\<close>, and the factory of
  fixed decisions.

  A callable is a pure function of event and configuration that returns a value or raises. What it
  returns is \<open>None\<close>, a \<open>PolicyResult\<close>, a dictionary, another object with an \<open>action\<close>, or
  something else. \<open>str\<close> of a value that is not a string (a reason, a label value, an action) is a
  parameter; the LLM client of the context is passed through.
\<close>

subsection \<open>Events\<close>

definition opt_str_json :: "string option \<Rightarrow> json" where
  "opt_str_json x = (case x of None \<Rightarrow> JNull | Some s \<Rightarrow> JStr s)"

definition str_dict_json :: "string dict option \<Rightarrow> json" where
  "str_dict_json d = JDict (map (\<lambda>(k, v). (k, JStr v)) (list_or d))"

definition dict_json :: "json dict option \<Rightarrow> json" where
  "dict_json d = JDict (list_or d)"

definition build_event :: "evaluation_context \<Rightarrow> json dict" where
  "build_event ctx =
     [(''type'', JStr (phase_value (ctx_phase ctx))),
      (''target'', opt_str_json (ctx_tool_name ctx)),
      (''data'', ctx_content ctx),
      (''context'', JDict
        [(''actor'', str_dict_json (ctx_actor ctx)),
         (''usage'', dict_json (ctx_usage ctx)),
         (''user_daily_cost'', dict_json (ctx_user_daily_cost ctx)),
         (''model'', opt_str_json (ctx_model ctx)),
         (''harness'', opt_str_json (ctx_harness ctx)),
         (''labels'', str_dict_json (ctx_labels ctx)),
         (''subtree_usage'', dict_json (ctx_subtree_usage ctx))]),
      (''session_state'', dict_json (ctx_session_state ctx)),
      (''llm_client'', ctx_llm_client ctx)] @
     (if ctx_request_data ctx \<noteq> JNull then [(''request_data'', ctx_request_data ctx)] else [])"

subsection \<open>Returned values\<close>

datatype raw_return =
    RawNone
  | RawResult policy_result
  | RawDict "json dict"
  | RawObject json "string option" json json
  | RawOther string

type_synonym policy_callable = "json dict \<Rightarrow> json dict \<Rightarrow> raw_return res"

definition text_of :: "(json \<Rightarrow> string) \<Rightarrow> json \<Rightarrow> string" where
  "text_of str_of v = (case v of JStr s \<Rightarrow> s | _ \<Rightarrow> str_of v)"

definition opt_text_of :: "(json \<Rightarrow> string) \<Rightarrow> json \<Rightarrow> string option" where
  "opt_text_of str_of v = (case v of JNull \<Rightarrow> None | _ \<Rightarrow> Some (text_of str_of v))"

definition labels_of :: "(json \<Rightarrow> string) \<Rightarrow> json \<Rightarrow> string dict option" where
  "labels_of str_of v =
     (case v of JDict d \<Rightarrow> Some (map (\<lambda>(k, x). (k, text_of str_of x)) d) | _ \<Rightarrow> None)"

definition coerce_state_update :: "(json \<Rightarrow> string) \<Rightarrow> string \<Rightarrow> json \<Rightarrow> state_update res" where
  "coerce_state_update str_of spec_name entry =
     (case entry of
        JDict d \<Rightarrow>
          (let key = dict_get_or d ''key'' JNull; action_raw = dict_get_or d ''action'' JNull in
           if key = JNull \<or> action_raw = JNull then
             Inl (ValueError (''FunctionPolicy '' @ sq spec_name @
                  '': state_updates entry missing required '' @ sq ''key'' @ '' or '' @ sq ''action'' @ '' field''))
           else (case state_update_action_of (lower (text_of str_of action_raw)) of
                   None \<Rightarrow>
                     Inl (ValueError (''FunctionPolicy '' @ sq spec_name @ '': invalid state_updates action '' @
                          sq (text_of str_of action_raw) @ ''; must be one of '' @ sq ''set'' @ '', '' @
                          sq ''increment'' @ '', '' @ sq ''delete'' @ '', '' @ sq ''append''))
                 | Some a \<Rightarrow>
                     Inr \<lparr>su_key = text_of str_of key, su_action = a, su_value = dict_get_or d ''value'' JNull\<rparr>))
      | v \<Rightarrow>
          Inl (TypeError (''FunctionPolicy '' @ sq spec_name @
               '': state_updates entry must be a dict, got '' @ type_name v)))"

definition coerce_state_updates :: "(json \<Rightarrow> string) \<Rightarrow> string \<Rightarrow> json \<Rightarrow> state_update list option res" where
  "coerce_state_updates str_of spec_name raw =
     (case raw of
        JDict d \<Rightarrow> Inr (Some (map (\<lambda>(k, v). \<lparr>su_key = k, su_action = SET, su_value = v\<rparr>) d))
      | JList entries \<Rightarrow>
          res_bind (res_map (coerce_state_update str_of spec_name) entries) (\<lambda>us. Inr (opt_nonempty us))
      | _ \<Rightarrow> Inr None)"

definition policy_result_from_dict :: "(json \<Rightarrow> string) \<Rightarrow> string \<Rightarrow> json dict \<Rightarrow> policy_result res" where
  "policy_result_from_dict str_of spec_name raw =
     (let result_raw = dict_get_or raw ''result'' JNull in
      if result_raw = JNull then
        Inl (ValueError (''FunctionPolicy '' @ sq spec_name @ '' dict return missing '' @ sq ''result'' @ '' key''))
      else (case policy_action_of (lower (text_of str_of result_raw)) of
              None \<Rightarrow>
                Inl (ValueError (''FunctionPolicy '' @ sq spec_name @ '' returned invalid decision result '' @
                     sq (text_of str_of result_raw) @ ''; must be one of '' @ sq ''allow'' @ '', '' @ sq ''ask'' @
                     '', '' @ sq ''deny'' @ '' (case-insensitive)''))
            | Some action \<Rightarrow>
                res_bind (coerce_state_updates str_of spec_name (dict_get_or raw ''state_updates'' JNull)) (\<lambda>us.
                  Inr \<lparr>pr_action = action, pr_reason = opt_text_of str_of (dict_get_or raw ''reason'' JNull),
                       pr_set_labels = labels_of str_of (dict_get_or raw ''set_labels'' JNull),
                       pr_deciding_policies = None, pr_data = dict_get_or raw ''data'' JNull,
                       pr_state_updates = us\<rparr>)))"

definition coerce_to_policy_result :: "(json \<Rightarrow> string) \<Rightarrow> string \<Rightarrow> raw_return \<Rightarrow> policy_result res" where
  "coerce_to_policy_result str_of spec_name raw =
     (case raw of
        RawNone \<Rightarrow> Inr (policy_result_of ALLOW None)
      | RawResult r \<Rightarrow> Inr r
      | RawDict d \<Rightarrow> policy_result_from_dict str_of spec_name d
      | RawObject action_raw reason set_labels_raw updates_raw \<Rightarrow>
          (case policy_action_of (lower (text_of str_of action_raw)) of
             None \<Rightarrow>
               Inl (ValueError (''FunctionPolicy '' @ sq spec_name @ '' returned invalid action '' @
                    sq (text_of str_of action_raw) @ ''; must be one of '' @ sq ''allow'' @ '', '' @ sq ''ask'' @
                    '', '' @ sq ''deny''))
           | Some action \<Rightarrow>
               res_bind (coerce_state_updates str_of spec_name updates_raw) (\<lambda>us.
                 Inr \<lparr>pr_action = action, pr_reason = reason, pr_set_labels = labels_of str_of set_labels_raw,
                      pr_deciding_policies = None, pr_data = JNull, pr_state_updates = us\<rparr>))
      | RawOther ty \<Rightarrow>
          Inl (TypeError (''FunctionPolicy '' @ sq spec_name @ '' returned unsupported type '' @ ty @
               ''; expected dict with '' @ sq ''result'' @ '' key or PolicyResult'')))"

definition policy_config :: "policy_spec \<Rightarrow> json dict" where
  "policy_config spec = map (\<lambda>(k, v). (k, JStr v)) (list_or (sp_config spec))"

definition function_policy :: "(json \<Rightarrow> string) \<Rightarrow> policy_spec \<Rightarrow> policy_callable \<Rightarrow> policy" where
  "function_policy str_of spec callable_obj =
     \<lparr>po_spec = spec, po_evaluate = (\<lambda>ctx.
        res_bind (callable_obj (build_event ctx) (policy_config spec))
          (coerce_to_policy_result str_of (sp_name spec)))\<rparr>"

definition make_fixed_action_callable ::
    "string \<Rightarrow> string option \<Rightarrow> string dict option \<Rightarrow> string list option \<Rightarrow> string list option \<Rightarrow> policy_callable" where
  "make_fixed_action_callable action reason writes on_phases on_tools = (\<lambda>event config.
     (let gate = (\<lambda>key allowed. list_or allowed = [] \<or>
                    dict_get_or event key JNull \<in> JStr ` set (list_or allowed)) in
      if \<not> gate ''type'' on_phases then Inr RawNone
      else if \<not> gate ''target'' on_tools then Inr RawNone
      else Inr (RawDict ([(''result'', JStr action), (''reason'', opt_str_json reason)] @
             (if list_or writes \<noteq> [] then [(''set_labels'', str_dict_json writes)] else [])))))"

subsection \<open>Encoding of a result\<close>

text \<open>The canonical dictionary of a result, as callables write it.\<close>

definition update_json :: "state_update \<Rightarrow> json" where
  "update_json u = JDict [(''key'', JStr (su_key u)), (''action'', JStr (state_update_action_value (su_action u))),
     (''value'', su_value u)]"

definition result_dict :: "policy_result \<Rightarrow> json dict" where
  "result_dict r =
     [(''result'', JStr (policy_action_value (pr_action r))), (''reason'', opt_str_json (pr_reason r)),
      (''data'', pr_data r),
      (''state_updates'', (case pr_state_updates r of None \<Rightarrow> JNull | Some us \<Rightarrow> JList (map update_json us))),
      (''set_labels'', (case pr_set_labels r of None \<Rightarrow> JNull | Some d \<Rightarrow> str_dict_json (Some d)))]"

subsection \<open>Lemmas\<close>

lemma lower_policy_action [simp]: "lower (policy_action_value a) = policy_action_value a"
proof -
  have "lower (policy_action_value ALLOW) = policy_action_value ALLOW"
    "lower (policy_action_value ASK) = policy_action_value ASK"
    "lower (policy_action_value DENY) = policy_action_value DENY"
    by code_simp+
  then show ?thesis by (cases a) simp_all
qed

lemma lower_state_update_action [simp]: "lower (state_update_action_value b) = state_update_action_value b"
proof -
  have "lower (state_update_action_value SET) = state_update_action_value SET"
    "lower (state_update_action_value INCREMENT) = state_update_action_value INCREMENT"
    "lower (state_update_action_value DELETE) = state_update_action_value DELETE"
    "lower (state_update_action_value APPEND) = state_update_action_value APPEND"
    by code_simp+
  then show ?thesis by (cases b) simp_all
qed

lemma coerce_update_json: "coerce_state_update str_of n (update_json u) = Inr u"
  by (simp add: coerce_state_update_def update_json_def dict_get_or_def text_of_def)

lemma coerce_updates_json:
  "coerce_state_updates str_of n (JList (map update_json us)) = Inr (opt_nonempty us)"
proof -
  have "res_map (coerce_state_update str_of n) (map update_json us) = Inr us"
    by (induction us) (simp_all add: coerce_update_json)
  then show ?thesis by (simp add: coerce_state_updates_def)
qed

lemma labels_of_JNull: "labels_of str_of JNull = None"
  by (simp add: labels_of_def)

lemma labels_of_json: "labels_of str_of (str_dict_json (Some d)) = Some d"
  by (induction d) (auto simp: labels_of_def str_dict_json_def text_of_def)

lemma opt_text_of_json [simp]: "opt_text_of str_of (opt_str_json x) = x"
  by (cases x) (simp_all add: opt_text_of_def opt_str_json_def text_of_def)

text \<open>What a callable has to return for the verdict to be an ALLOW.\<close>

definition explicit_allow :: "(json \<Rightarrow> string) \<Rightarrow> raw_return \<Rightarrow> bool" where
  "explicit_allow str_of raw \<longleftrightarrow>
     (case raw of
        RawNone \<Rightarrow> True
      | RawResult r \<Rightarrow> pr_action r = ALLOW
      | RawDict d \<Rightarrow> lower (text_of str_of (dict_get_or d ''result'' JNull)) = ''allow''
      | RawObject a _ _ _ \<Rightarrow> lower (text_of str_of a) = ''allow''
      | RawOther _ \<Rightarrow> False)"

lemma coerce_allow:
  assumes "coerce_to_policy_result str_of n raw = Inr r" and "pr_action r = ALLOW"
  shows "explicit_allow str_of raw"
  using assms
  by (auto simp: coerce_to_policy_result_def explicit_allow_def policy_result_from_dict_def Let_def
      res_bind_Inr_iff policy_action_of_Some split: raw_return.splits if_splits option.splits)

subsection \<open>Guards of payloads\<close>

lemma verdict_at_most:
  assumes "(p, r) \<in> set vs"
  shows "pr_action r \<le> pr_action (composed_result vs)"
  unfolding composed_action using assms by (intro Max_ge) force+

lemma deny_greatest [simp]: "a \<le> DENY"
  by (cases a) (simp_all add: less_eq_policy_action_def)

lemma ask_or_stricter: "ASK \<le> a \<longleftrightarrow> a \<noteq> ALLOW"
  by (cases a) (simp_all add: less_eq_policy_action_def)

lemma deny_or_stricter: "DENY \<le> a \<longleftrightarrow> a = DENY"
  by (cases a) (simp_all add: less_eq_policy_action_def)

text \<open>
  A callable that guards a class of payloads: it decides at least \<open>least\<close> on every one of them. In an
  engine it keeps that promise whatever the other policies are, as long as they keep the payload in the
  class when they rewrite it.
\<close>

locale payload_guard =
  fixes str_of :: "json \<Rightarrow> string"
    and callable_obj :: policy_callable
    and watched :: "evaluation_context \<Rightarrow> json \<Rightarrow> bool"
    and least :: policy_action
  assumes watched_frame: "watched (ctx\<lparr>ctx_content := y\<rparr>) x = watched ctx x"
    and guards: "watched ctx (ctx_content ctx) \<Longrightarrow>
          least \<le> pr_action (dispatch_policy (function_policy str_of spec callable_obj) ctx)"
begin

lemma decides:
  assumes "function_policy str_of spec callable_obj \<in> set (en_policies e)" and "should_fire e spec ctx"
    and "watched (inject e ctx) (ctx_content ctx)"
    and "\<forall>q \<in> set (en_policies e). \<forall>c. pr_data (dispatch_policy q c) = JNull \<or>
           watched (inject e ctx) (pr_data (dispatch_policy q c))"
    and "evaluate parse ctx read_only e = (Inr r, e')"
  shows "least \<le> pr_action r"
proof -
  let ?g = "function_policy str_of spec callable_obj"
  let ?vs = "verdicts e (en_policies e) (inject e ctx)"
  have fire: "should_fire e (po_spec ?g) (inject e ctx)" using assms(2) by (simp add: function_policy_def)
  have content: "watched (inject e ctx) (ctx_content (inject e ctx))" using assms(3) by (simp add: inject_def)
  have "least \<le> pr_action (dispatch_policy ?g ((inject e ctx)\<lparr>ctx_content := x\<rparr>))" if "watched (inject e ctx) x" for x
    using that by (intro guards) (simp add: watched_frame)
  moreover have "(\<exists>x. watched (inject e ctx) x \<and>
        (?g, dispatch_policy ?g ((inject e ctx)\<lparr>ctx_content := x\<rparr>)) \<in> set ?vs) \<or> (\<exists>(q, r) \<in> set ?vs. pr_action r = DENY)"
    by (rule verdicts_reach [where Q = "watched (inject e ctx)", OF assms(1) fire content]) (use assms(4) in blast)
  ultimately obtain q r' where "(q, r') \<in> set ?vs" and "least \<le> pr_action r'"
    by (elim disjE) fastforce+
  then have "least \<le> pr_action (composed_result ?vs)" using verdict_at_most order_trans by blast
  then show ?thesis using evaluate_Inr(1) [OF assms(5)] by simp
qed

end

subsection \<open>Properties\<close>

text \<open>
  A function policy lets a phase through only when its callable returned
  normally and said so: it abstained with \<open>None\<close>, or its decision reads \<open>allow\<close> in any case. An
  exception, an unknown decision, a malformed state update or a value of another type denies.
\<close>

theorem callable_allow_explicit:
  assumes "pr_action (dispatch_policy (function_policy str_of spec callable_obj) ctx) = ALLOW"
  shows "\<exists>raw. callable_obj (build_event ctx) (policy_config spec) = Inr raw \<and> explicit_allow str_of raw"
proof -
  obtain r where r: "po_evaluate (function_policy str_of spec callable_obj) ctx = Inr r" "pr_action r = ALLOW"
    using assms by (auto simp: dispatch_policy_def policy_result_of_def split: sum.splits)
  then obtain raw where "callable_obj (build_event ctx) (policy_config spec) = Inr raw"
      "coerce_to_policy_result str_of (sp_name spec) raw = Inr r"
    by (auto simp: function_policy_def res_bind_Inr_iff)
  then show ?thesis using coerce_allow r(2) by blast
qed

lemma callable_allow_explicit_witness:
  "\<exists>raw. make_fixed_action_callable ''allow'' None None None None (build_event demo_ctx)
           (policy_config (demo_spec ''p'')) = Inr raw \<and> explicit_allow (\<lambda>_. []) raw"
proof (rule callable_allow_explicit)
  have "lower ''allow'' = ''allow''" by code_simp
  then show "pr_action (dispatch_policy (function_policy (\<lambda>_. []) (demo_spec ''p'')
       (make_fixed_action_callable ''allow'' None None None None)) demo_ctx) = ALLOW"
    by (simp add: dispatch_policy_def function_policy_def make_fixed_action_callable_def
        coerce_to_policy_result_def policy_result_from_dict_def Let_def dict_get_or_def text_of_def
        policy_action_of_def coerce_state_updates_def)
qed

text \<open>
  Writing a result as the canonical dictionary and coercing it back gives the
  result again (an empty list of updates reads as none).
\<close>

theorem result_dict_round_trip:
  "coerce_to_policy_result str_of n (RawDict (result_dict r)) =
     Inr (r\<lparr>pr_deciding_policies := None, pr_state_updates := opt_nonempty (list_or (pr_state_updates r))\<rparr>)"
proof (cases "pr_state_updates r")
  case None
  then show ?thesis
    by (cases "pr_set_labels r")
      (simp_all add: coerce_to_policy_result_def policy_result_from_dict_def result_dict_def Let_def dict_get_or_def
        text_of_def coerce_state_updates_def labels_of_json labels_of_JNull opt_nonempty_def)
next
  case (Some us)
  then show ?thesis
    by (cases "pr_set_labels r")
      (simp_all add: coerce_to_policy_result_def policy_result_from_dict_def result_dict_def Let_def dict_get_or_def
        text_of_def coerce_updates_json labels_of_json labels_of_JNull)
qed

end
