(* ===== verification/Cost_Policy.thy ===== *)
theory Cost_Policy
  imports Function_Policy
begin

text \<open>
  The cost budgets (\<open>src/omnigent/policies/builtins/cost.py\<close>): the session budget, the per-user
  daily budget and the sub-agent budget. The three evaluators of the source have the same text up to
  where they read the spend and the approved checkpoint, so the gate is one definition over a record
  of those readers, and each factory is its instance. Amounts are exact rationals.
\<close>

subsection \<open>Readers of an event\<close>

text \<open>\<open>d.get(k) or {}\<close>: a truthy value that is no dictionary fails at the next \<open>.get\<close>.\<close>

definition get_dict :: "json dict \<Rightarrow> string \<Rightarrow> json dict res" where
  "get_dict d k =
     (case dict_get_or d k JNull of
        JDict x \<Rightarrow> Inr x
      | v \<Rightarrow> if truthy v then Inl (no_attribute v ''get'') else Inr [])"

definition GATED_PHASES :: "string list" where
  "GATED_PHASES = [''request'', ''tool_call'']"

definition SUBAGENT_ASK_APPROVED_KEY :: string where
  "SUBAGENT_ASK_APPROVED_KEY = ''subagent_cost_ask_approved_usd''"

definition usage_is_unpriced :: "json dict \<Rightarrow> bool" where
  "usage_is_unpriced usage =
     (if dict_has usage ''total_cost_usd'' then False
      else truthy (dict_get_or usage ''input_tokens'' JNull) \<or>
           truthy (dict_get_or usage ''output_tokens'' JNull) \<or>
           truthy (dict_get_or usage ''total_tokens'' JNull))"

text \<open>\<open>float(d.get(key, 0.0))\<close> with the conversion errors caught.\<close>

definition float_field :: "(string \<Rightarrow> rat option) \<Rightarrow> json dict \<Rightarrow> string \<Rightarrow> rat" where
  "float_field parse d key =
     (case to_float parse (dict_get_or d key (JFloat 0)) of None \<Rightarrow> 0 | Some q \<Rightarrow> q)"

definition context_float :: "(string \<Rightarrow> rat option) \<Rightarrow> string \<Rightarrow> string \<Rightarrow> json dict \<Rightarrow> rat res" where
  "context_float parse section field event =
     res_bind (get_dict event ''context'') (\<lambda>context.
     res_bind (get_dict context section) (\<lambda>d. Inr (float_field parse d field)))"

definition session_cost_usd :: "(string \<Rightarrow> rat option) \<Rightarrow> json dict \<Rightarrow> rat res" where
  "session_cost_usd parse = context_float parse ''usage'' ''total_cost_usd''"

definition user_daily_cost_usd :: "(string \<Rightarrow> rat option) \<Rightarrow> json dict \<Rightarrow> rat res" where
  "user_daily_cost_usd parse = context_float parse ''user_daily_cost'' ''cost_usd''"

definition user_daily_ask_approved_usd :: "(string \<Rightarrow> rat option) \<Rightarrow> json dict \<Rightarrow> rat res" where
  "user_daily_ask_approved_usd parse = context_float parse ''user_daily_cost'' ''ask_approved_usd''"

definition subtree_cost_usd :: "(string \<Rightarrow> rat option) \<Rightarrow> json dict \<Rightarrow> rat res" where
  "subtree_cost_usd parse = context_float parse ''subtree_usage'' ''total_cost_usd''"

definition nonempty_str :: "json \<Rightarrow> string option" where
  "nonempty_str v = (case v of JStr s \<Rightarrow> if s = [] then None else Some s | _ \<Rightarrow> None)"

definition current_model :: "json dict \<Rightarrow> string option res" where
  "current_model event =
     res_bind (get_dict event ''context'') (\<lambda>c. Inr (nonempty_str (dict_get_or c ''model'' JNull)))"

definition current_harness :: "json dict \<Rightarrow> string option res" where
  "current_harness event =
     res_bind (get_dict event ''context'') (\<lambda>c. Inr (nonempty_str (dict_get_or c ''harness'' JNull)))"

definition user_daily_owner :: "json dict \<Rightarrow> string option res" where
  "user_daily_owner event =
     res_bind (get_dict event ''context'') (\<lambda>c.
     res_bind (get_dict c ''user_daily_cost'') (\<lambda>d. Inr (nonempty_str (dict_get_or d ''user_id'' JNull))))"

text \<open>\<open>float(state.get(key, 0.0) or 0.0)\<close>: here a value that does not convert raises.\<close>

definition approved_in_state :: "(string \<Rightarrow> rat option) \<Rightarrow> string \<Rightarrow> json dict \<Rightarrow> rat res" where
  "approved_in_state parse key event =
     res_bind (get_dict event ''session_state'') (\<lambda>state.
       (let v = dict_get_or state key (JFloat 0) in
        if \<not> truthy v then Inr 0
        else (case to_float parse v of
                Some q \<Rightarrow> Inr q
              | None \<Rightarrow>
                  (case v of
                     JStr s \<Rightarrow> Inl (ValueError (''could not convert string to float: '' @ sq s))
                   | _ \<Rightarrow> Inl (TypeError (''float() argument must be a string or a real number, not '' @
                                        sq (type_name v)))))))"

subsection \<open>Models\<close>

record expensive_model_config =
  em_expensive_tokens :: "string list"
  em_exclude_tokens :: "string list"
  em_hard_cap_enabled :: bool
  em_block_all_models :: bool

definition resolve_expensive_models :: "string list option \<Rightarrow> expensive_model_config res" where
  "resolve_expensive_models expensive_models =
     (if list_or expensive_models = [] then
        Inr \<lparr>em_expensive_tokens = [], em_exclude_tokens = [], em_hard_cap_enabled = True,
             em_block_all_models = True\<rparr>
      else if [] \<in> set (list_or expensive_models) then
        Inl (ValueError (''each expensive_models value must be a non-empty string, got '' @ sq []))
      else
        Inr \<lparr>em_expensive_tokens = map lower (list_or expensive_models), em_exclude_tokens = [],
             em_hard_cap_enabled = True, em_block_all_models = False\<rparr>)"

definition model_blocked_over_budget :: "string option \<Rightarrow> expensive_model_config \<Rightarrow> bool" where
  "model_blocked_over_budget model cfg =
     (if em_block_all_models cfg then True
      else (case model of
              None \<Rightarrow> True
            | Some m \<Rightarrow>
                (let low = lower m in
                 if list_ex (\<lambda>t. str_in t low) (em_exclude_tokens cfg) then False
                 else list_ex (\<lambda>t. str_in t low) (em_expensive_tokens cfg))))"

subsection \<open>Messages\<close>

definition em_dash :: string where
  "em_dash = [CHR 0xE2, CHR 0x80, CHR 0x94]"

definition usd :: "rat \<Rightarrow> string" where
  "usd q = ''$'' @ fmt_2f q"

definition apostrophe_s :: string where
  "apostrophe_s = [CHR 0x27] @ ''s''"

definition over_budget_deny_reason ::
    "rat \<Rightarrow> rat \<Rightarrow> expensive_model_config \<Rightarrow> string option \<Rightarrow> string \<Rightarrow> string \<Rightarrow> string \<Rightarrow> string option \<Rightarrow> string" where
  "over_budget_deny_reason cost max_cost cfg harness ph policy_label budget_label subject_user =
     (let spend_subject = (case subject_user of Some u \<Rightarrow> if u = [] then ''spend'' else u @ apostrophe_s @ '' spend''
                           | None \<Rightarrow> ''spend'');
          head = ''Blocked by the '' @ policy_label @ '' policy: '' @ spend_subject @ '' '' @ usd cost @
                 '' reached the '' @ usd max_cost @ '' limit'';
          youve = ''You'' @ [CHR 0x27] @ ''ve hit the '' @ usd max_cost @ '' '' @ budget_label @ ''. ''
      in if em_block_all_models cfg then
           (let verbatim = youve @ ''All model calls are blocked over budget.''
            in if ph = ''request'' then head @ ''. '' @ verbatim
               else head @ '', and all further tool calls are blocked. Relay this to the user verbatim, '' @
                    ''then stop and wait for them '' @ em_dash @ '' do not silently re-run the tool right now: \"'' @
                    verbatim @ ''\"'')
         else
           (let expensive_list = (let l = join '', '' (em_expensive_tokens cfg) in
                                  if l = [] then ''the configured high-cost models'' else l);
                switch_hint = (if (case harness of None \<Rightarrow> False | Some h \<Rightarrow> str_in ''codex'' h)
                               then ''in the terminal, run /model and pick a cheaper model to continue''
                               else ''switch to a cheaper model to continue'');
                verbatim = youve @ ''High-cost models ('' @ expensive_list @ '') are blocked over budget '' @
                           em_dash @ '' '' @ switch_hint @ ''.''
            in if ph = ''request'' then head @ ''. '' @ verbatim
               else head @ '', and tool calls are blocked while on a high-cost model. Relay this to the user '' @
                    ''verbatim, then stop and wait for them '' @ em_dash @
                    '' do not silently re-run the tool right now: \"'' @ verbatim @
                    ''\" This block is NOT permanent: once the user switches to a cheaper model and asks you to '' @
                    ''continue, actually re-issue the tool call (it will be allowed) '' @ em_dash @
                    '' do not just repeat this message.''))"

subsection \<open>The gate\<close>

definition ALLOW_RESPONSE :: raw_return where
  "ALLOW_RESPONSE = RawDict [(''result'', JStr ''ALLOW'')]"

definition set_update :: "string \<Rightarrow> json \<Rightarrow> json" where
  "set_update key v = JDict [(''key'', JStr key), (''action'', JStr ''set''), (''value'', v)]"

definition ask_response :: "string \<Rightarrow> string \<Rightarrow> json \<Rightarrow> raw_return" where
  "ask_response reason key v =
     RawDict [(''result'', JStr ''ASK''), (''reason'', JStr reason),
              (''state_updates'', JList [set_update key v])]"

definition UNPRICED_ASK :: raw_return where
  "UNPRICED_ASK = ask_response
     (''The active model has no catalog pricing so cumulative spend cannot be tracked. Continuing will allow '' @
      ''untracked spend that counts against neither the cap nor the warning thresholds. Switch to a priced '' @
      ''model to restore budget enforcement, or approve to continue without it.'')
     SESSION_COST_UNPRICED_APPROVED_KEY (JBool True)"

record budget_source =
  bs_usage_section :: string
  bs_cost :: "json dict \<Rightarrow> rat res"
  bs_approved :: "json dict \<Rightarrow> rat res"
  bs_approved_key :: string
  bs_owner :: "json dict \<Rightarrow> string option res"
  bs_policy_label :: string
  bs_budget_label :: string
  bs_ask_reason :: "rat \<Rightarrow> rat \<Rightarrow> rat option \<Rightarrow> string option \<Rightarrow> string"

text \<open>The highest checkpoint that the cost has crossed; thresholds are sorted.\<close>

definition crossed :: "rat list \<Rightarrow> rat \<Rightarrow> rat option" where
  "crossed thresholds cost =
     (case filter (\<lambda>t. t \<le> cost) thresholds of [] \<Rightarrow> None | ts \<Rightarrow> Some (last ts))"

definition soft_gate :: "budget_source \<Rightarrow> rat list \<Rightarrow> rat option \<Rightarrow> string option \<Rightarrow> rat \<Rightarrow> json dict \<Rightarrow> raw_return res" where
  "soft_gate src thresholds max_cost owner cost event =
     (case crossed thresholds cost of
        None \<Rightarrow> Inr ALLOW_RESPONSE
      | Some c \<Rightarrow>
          res_bind (bs_approved src event) (\<lambda>approved_up_to.
            if c > approved_up_to
            then Inr (ask_response (bs_ask_reason src cost c max_cost owner) (bs_approved_key src) (JFloat c))
            else Inr ALLOW_RESPONSE))"

definition hard_gate :: "budget_source \<Rightarrow> expensive_model_config \<Rightarrow> rat \<Rightarrow> string option \<Rightarrow> rat \<Rightarrow> json dict \<Rightarrow> raw_return res" where
  "hard_gate src cfg max_cost owner cost event =
     res_bind (current_model event) (\<lambda>model.
       if model_blocked_over_budget model cfg then
         res_bind (current_harness event) (\<lambda>harness.
           Inr (RawDict [(''result'', JStr ''DENY''),
                  (''reason'', JStr (over_budget_deny_reason cost max_cost cfg harness
                      (case dict_get_or event ''type'' JNull of JStr s \<Rightarrow> s | _ \<Rightarrow> [])
                      (bs_policy_label src) (bs_budget_label src) owner))]))
       else Inr ALLOW_RESPONSE)"

definition budget_gate :: "budget_source \<Rightarrow> rat option \<Rightarrow> rat list \<Rightarrow> expensive_model_config \<Rightarrow> json dict \<Rightarrow> raw_return res" where
  "budget_gate src max_cost thresholds cfg event =
     (if dict_get_or event ''type'' JNull \<notin> JStr ` set GATED_PHASES then Inr ALLOW_RESPONSE
      else
        res_bind (get_dict event ''context'') (\<lambda>context.
        res_bind (get_dict context (bs_usage_section src)) (\<lambda>usage.
          if usage_is_unpriced usage then
            res_bind (get_dict event ''session_state'') (\<lambda>state.
              if \<not> truthy (dict_get_or state SESSION_COST_UNPRICED_APPROVED_KEY JNull)
              then Inr UNPRICED_ASK else Inr ALLOW_RESPONSE)
          else
            res_bind (bs_cost src event) (\<lambda>cost.
            res_bind (bs_owner src event) (\<lambda>owner.
              case max_cost of
                None \<Rightarrow> soft_gate src thresholds None owner cost event
              | Some mx \<Rightarrow>
                  if em_hard_cap_enabled cfg \<and> mx \<le> cost then hard_gate src cfg mx owner cost event
                  else soft_gate src thresholds (Some mx) owner cost event)))))"

subsection \<open>The factories\<close>

definition limit_str :: "rat option \<Rightarrow> string" where
  "limit_str max_cost = (case max_cost of None \<Rightarrow> [] | Some mx \<Rightarrow> '' (limit '' @ usd mx @ '')'')"

definition session_source :: "(string \<Rightarrow> rat option) \<Rightarrow> budget_source" where
  "session_source parse =
     \<lparr>bs_usage_section = ''usage'', bs_cost = session_cost_usd parse,
      bs_approved = approved_in_state parse SESSION_COST_ASK_APPROVED_STATE_KEY,
      bs_approved_key = SESSION_COST_ASK_APPROVED_STATE_KEY, bs_owner = (\<lambda>_. Inr None),
      bs_policy_label = ''session cost-budget'', bs_budget_label = ''cost budget'',
      bs_ask_reason = (\<lambda>cost c max_cost owner.
        ''Session cost '' @ usd cost @ '' passed the '' @ usd c @ '' warning threshold'' @ limit_str max_cost @
        ''. Continue?'')\<rparr>"

definition daily_source :: "(string \<Rightarrow> rat option) \<Rightarrow> budget_source" where
  "daily_source parse =
     \<lparr>bs_usage_section = ''usage'', bs_cost = user_daily_cost_usd parse,
      bs_approved = user_daily_ask_approved_usd parse,
      bs_approved_key = USER_DAILY_ASK_APPROVED_STATE_KEY, bs_owner = user_daily_owner,
      bs_policy_label = ''per-user daily cost-budget'', bs_budget_label = ''daily cost budget'',
      bs_ask_reason = (\<lambda>cost c max_cost owner.
        (case owner of Some u \<Rightarrow> u @ apostrophe_s @ '' spend today'' | None \<Rightarrow> ''Today'' @ apostrophe_s @ '' spend'') @
        '' '' @ usd cost @ '' passed the '' @ usd c @ '' daily warning threshold (daily limit '' @
        usd (the max_cost) @ ''). Continue?'')\<rparr>"

definition subagent_source :: "(string \<Rightarrow> rat option) \<Rightarrow> budget_source" where
  "subagent_source parse =
     \<lparr>bs_usage_section = ''subtree_usage'', bs_cost = subtree_cost_usd parse,
      bs_approved = approved_in_state parse SUBAGENT_ASK_APPROVED_KEY,
      bs_approved_key = SUBAGENT_ASK_APPROVED_KEY, bs_owner = (\<lambda>_. Inr None),
      bs_policy_label = ''subagent cost-budget'', bs_budget_label = ''subagent cost budget'',
      bs_ask_reason = (\<lambda>cost c max_cost owner.
        ''Subagent subtree cost '' @ usd cost @ '' passed the '' @ usd c @ '' warning threshold'' @
        limit_str max_cost @ ''. Continue?'')\<rparr>"

definition check_limits :: "(rat \<Rightarrow> string) \<Rightarrow> rat option \<Rightarrow> rat list \<Rightarrow> unit res" where
  "check_limits repr max_cost thresholds =
     (case max_cost of
        None \<Rightarrow> Inr ()
      | Some mx \<Rightarrow>
          if mx \<le> 0 then Inl (ValueError (''max_cost_usd must be > 0, got '' @ repr mx))
          else (case find (\<lambda>t. \<not> (0 < t \<and> t < mx)) thresholds of
                  None \<Rightarrow> Inr ()
                | Some t \<Rightarrow>
                    Inl (ValueError (''each ask_thresholds_usd value must be in (0, max_cost_usd='' @ repr mx @
                         ''), got '' @ repr t))))"

definition sorted_thresholds :: "rat list option \<Rightarrow> rat list" where
  "sorted_thresholds ts = sort (remdups (list_or ts))"

definition make_budget ::
    "(rat \<Rightarrow> string) \<Rightarrow> budget_source \<Rightarrow> rat option \<Rightarrow> rat list option \<Rightarrow> string list option \<Rightarrow> policy_callable res" where
  "make_budget repr src max_cost ask_thresholds expensive_models =
     res_bind (check_limits repr max_cost (sorted_thresholds ask_thresholds)) (\<lambda>_.
     res_bind (resolve_expensive_models expensive_models) (\<lambda>cfg.
       Inr (\<lambda>event config. budget_gate src max_cost (sorted_thresholds ask_thresholds) cfg event)))"

definition cost_budget ::
    "(string \<Rightarrow> rat option) \<Rightarrow> (rat \<Rightarrow> string) \<Rightarrow> rat option \<Rightarrow> rat list option \<Rightarrow> string list option \<Rightarrow> policy_callable res" where
  "cost_budget parse repr max_cost ask_thresholds expensive_models =
     (if max_cost = None \<and> list_or ask_thresholds = [] then
        Inl (ValueError ''cost_budget requires max_cost_usd and/or ask_thresholds_usd'')
      else make_budget repr (session_source parse) max_cost ask_thresholds expensive_models)"

definition user_daily_cost_budget ::
    "(string \<Rightarrow> rat option) \<Rightarrow> (rat \<Rightarrow> string) \<Rightarrow> rat \<Rightarrow> rat list option \<Rightarrow> string list option \<Rightarrow> policy_callable res" where
  "user_daily_cost_budget parse repr max_cost ask_thresholds expensive_models =
     make_budget repr (daily_source parse) (Some max_cost) ask_thresholds expensive_models"

definition subagent_cost_budget ::
    "(string \<Rightarrow> rat option) \<Rightarrow> (rat \<Rightarrow> string) \<Rightarrow> rat option \<Rightarrow> rat list option \<Rightarrow> string list option \<Rightarrow> policy_callable res" where
  "subagent_cost_budget parse repr max_cost ask_thresholds expensive_models =
     (if max_cost = None \<and> list_or ask_thresholds = [] then
        Inl (ValueError ''subagent_cost_budget requires max_cost_usd and/or ask_thresholds_usd'')
      else make_budget repr (subagent_source parse) max_cost ask_thresholds expensive_models)"

subsection \<open>Lemmas: events\<close>

definition event_context :: "evaluation_context \<Rightarrow> json dict" where
  "event_context ctx =
     [(''actor'', str_dict_json (ctx_actor ctx)), (''usage'', dict_json (ctx_usage ctx)),
      (''user_daily_cost'', dict_json (ctx_user_daily_cost ctx)), (''model'', opt_str_json (ctx_model ctx)),
      (''harness'', opt_str_json (ctx_harness ctx)), (''labels'', str_dict_json (ctx_labels ctx)),
      (''subtree_usage'', dict_json (ctx_subtree_usage ctx))]"

lemma event_type [simp]: "dict_get_or (build_event ctx) ''type'' JNull = JStr (phase_value (ctx_phase ctx))"
  by (simp add: build_event_def dict_get_or_def)

lemma event_context_read [simp]: "get_dict (build_event ctx) ''context'' = Inr (event_context ctx)"
  by (simp add: get_dict_def build_event_def dict_get_or_def event_context_def)

lemma event_state_read [simp]: "get_dict (build_event ctx) ''session_state'' = Inr (list_or (ctx_session_state ctx))"
  by (simp add: get_dict_def build_event_def dict_get_or_def dict_json_def)

lemma context_sections [simp]:
  "get_dict (event_context ctx) ''usage'' = Inr (list_or (ctx_usage ctx))"
  "get_dict (event_context ctx) ''subtree_usage'' = Inr (list_or (ctx_subtree_usage ctx))"
  "get_dict (event_context ctx) ''user_daily_cost'' = Inr (list_or (ctx_user_daily_cost ctx))"
  by (simp_all add: get_dict_def event_context_def dict_get_or_def dict_json_def)

lemma current_model_event:
  "current_model (build_event ctx) = Inr (case ctx_model ctx of None \<Rightarrow> None | Some m \<Rightarrow> if m = [] then None else Some m)"
  by (simp add: current_model_def event_context_def dict_get_or_def opt_str_json_def nonempty_str_def
      split: option.splits)

lemma current_harness_event: "\<exists>h. current_harness (build_event ctx) = Inr h"
  by (simp add: current_harness_def)

definition gated :: "evaluation_context \<Rightarrow> bool" where
  "gated ctx \<longleftrightarrow> ctx_phase ctx = REQUEST \<or> ctx_phase ctx = TOOL_CALL"

lemma gated_phase: "JStr (phase_value (ctx_phase ctx)) \<in> JStr ` set GATED_PHASES \<longleftrightarrow> gated ctx"
  by (cases "ctx_phase ctx") (auto simp: GATED_PHASES_def gated_def)

definition model_of :: "evaluation_context \<Rightarrow> string option" where
  "model_of ctx = (case ctx_model ctx of None \<Rightarrow> None | Some m \<Rightarrow> if m = [] then None else Some m)"

subsection \<open>The contract of a budget\<close>

text \<open>
  What the gate needs of the spend it is instantiated with: on the events that the function policies
  build, reading the usage section, the cost and the owner does not raise. The gate's behaviour
  follows once for the three budgets.
\<close>

locale budget_reader =
  fixes src :: budget_source
    and usage_of :: "evaluation_context \<Rightarrow> json dict"
    and cost_of :: "evaluation_context \<Rightarrow> rat"
    and approved_of :: "evaluation_context \<Rightarrow> rat res"
  assumes section_read: "get_dict (event_context ctx) (bs_usage_section src) = Inr (usage_of ctx)"
    and cost_read: "bs_cost src (build_event ctx) = Inr (cost_of ctx)"
    and owner_read: "\<exists>u. bs_owner src (build_event ctx) = Inr u"
    and approved_read: "bs_approved src (build_event ctx) = approved_of ctx"
begin

lemma ungated: "\<not> gated ctx \<Longrightarrow> budget_gate src mx ts cfg (build_event ctx) = Inr ALLOW_RESPONSE"
  by (simp add: budget_gate_def gated_phase)

lemma unpriced_asks:
  assumes "gated ctx" and "usage_is_unpriced (usage_of ctx)"
  shows "budget_gate src mx ts cfg (build_event ctx) =
     Inr (if truthy (dict_get_or (list_or (ctx_session_state ctx)) SESSION_COST_UNPRICED_APPROVED_KEY JNull)
          then ALLOW_RESPONSE else UNPRICED_ASK)"
  using assms by (simp add: budget_gate_def gated_phase section_read)

lemma over_budget:
  assumes "gated ctx" and "\<not> usage_is_unpriced (usage_of ctx)" and "mx \<le> cost_of ctx"
    and "em_hard_cap_enabled cfg" and "model_blocked_over_budget (model_of ctx) cfg"
  shows "\<exists>reason. budget_gate src (Some mx) ts cfg (build_event ctx) =
           Inr (RawDict [(''result'', JStr ''DENY''), (''reason'', JStr reason)])"
proof -
  obtain u where u: "bs_owner src (build_event ctx) = Inr u" using owner_read by blast
  obtain h where h: "current_harness (build_event ctx) = Inr h" using current_harness_event by blast
  show ?thesis
    using assms u h
    by (simp add: budget_gate_def gated_phase section_read cost_read hard_gate_def current_model_event model_of_def)
qed

lemma soft:
  assumes "gated ctx" and "\<not> usage_is_unpriced (usage_of ctx)"
    and "case mx of None \<Rightarrow> True | Some m \<Rightarrow> cost_of ctx < m"
  shows "\<exists>reason. budget_gate src mx ts cfg (build_event ctx) =
     (case crossed ts (cost_of ctx) of
        None \<Rightarrow> Inr ALLOW_RESPONSE
      | Some c \<Rightarrow>
          res_bind (approved_of ctx) (\<lambda>a. Inr (if a < c then ask_response reason (bs_approved_key src) (JFloat c)
                                               else ALLOW_RESPONSE)))"
proof -
  obtain u where u: "bs_owner src (build_event ctx) = Inr u" using owner_read by blast
  have gate: "budget_gate src mx ts cfg (build_event ctx) = soft_gate src ts mx u (cost_of ctx) (build_event ctx)"
    using assms u
    by (auto simp: budget_gate_def gated_phase section_read cost_read split: option.splits)
  show ?thesis
  proof (cases "crossed ts (cost_of ctx)")
    case None
    then show ?thesis by (simp add: gate soft_gate_def)
  next
    case (Some c)
    have "soft_gate src ts mx u (cost_of ctx) (build_event ctx) =
        res_bind (approved_of ctx) (\<lambda>a. Inr (if a < c
          then ask_response (bs_ask_reason src (cost_of ctx) c mx u) (bs_approved_key src) (JFloat c)
          else ALLOW_RESPONSE))"
      using Some by (cases "approved_of ctx") (simp_all add: soft_gate_def approved_read)
    then show ?thesis using Some gate by auto
  qed
qed

end

definition state_approved :: "(string \<Rightarrow> rat option) \<Rightarrow> string \<Rightarrow> evaluation_context \<Rightarrow> rat res" where
  "state_approved parse key ctx = approved_in_state parse key (build_event ctx)"

interpretation session_budget: budget_reader "session_source parse" "\<lambda>ctx. list_or (ctx_usage ctx)"
    "\<lambda>ctx. float_field parse (list_or (ctx_usage ctx)) ''total_cost_usd''"
    "state_approved parse SESSION_COST_ASK_APPROVED_STATE_KEY" for parse
  by unfold_locales
    (simp_all add: session_source_def session_cost_usd_def context_float_def state_approved_def)

interpretation daily_budget: budget_reader "daily_source parse" "\<lambda>ctx. list_or (ctx_usage ctx)"
    "\<lambda>ctx. float_field parse (list_or (ctx_user_daily_cost ctx)) ''cost_usd''"
    "\<lambda>ctx. Inr (float_field parse (list_or (ctx_user_daily_cost ctx)) ''ask_approved_usd'')" for parse
  by unfold_locales
    (simp_all add: daily_source_def user_daily_cost_usd_def user_daily_ask_approved_usd_def context_float_def
      user_daily_owner_def)

interpretation subagent_budget: budget_reader "subagent_source parse" "\<lambda>ctx. list_or (ctx_subtree_usage ctx)"
    "\<lambda>ctx. float_field parse (list_or (ctx_subtree_usage ctx)) ''total_cost_usd''"
    "state_approved parse SUBAGENT_ASK_APPROVED_KEY" for parse
  by unfold_locales
    (simp_all add: subagent_source_def subtree_cost_usd_def context_float_def state_approved_def)

subsection \<open>Lemmas: checkpoints\<close>

lemma crossed_eq: "crossed ts cost = (let f = filter (\<lambda>t. t \<le> cost) ts in if f = [] then None else Some (last f))"
  by (simp add: crossed_def Let_def split: list.splits)

lemma sorted_last: "sorted xs \<Longrightarrow> x \<in> set xs \<Longrightarrow> x \<le> last (xs :: rat list)"
  by (induction xs) auto

lemma crossed_Some:
  assumes "sorted ts" and "crossed ts cost = Some c"
  shows "c \<in> set ts \<and> c \<le> cost \<and> (\<forall>t \<in> set ts. t \<le> cost \<longrightarrow> t \<le> c)"
proof -
  let ?f = "filter (\<lambda>t. t \<le> cost) ts"
  have ne: "?f \<noteq> []" and c: "c = last ?f"
    using assms(2) by (auto simp: crossed_eq Let_def split: if_splits)
  have "c \<in> set ?f" unfolding c by (rule last_in_set [OF ne])
  moreover have "t \<le> c" if "t \<in> set ts" "t \<le> cost" for t
    unfolding c using that sorted_wrt_filter [OF assms(1)] by (intro sorted_last) auto
  ultimately show ?thesis by auto
qed

lemma crossed_None: "crossed ts cost = None \<longleftrightarrow> (\<forall>t \<in> set ts. cost < t)"
  by (auto simp: crossed_eq Let_def filter_empty_conv not_le)

lemma sorted_thresholds [simp]: "sorted (sorted_thresholds ts)" "set (sorted_thresholds ts) = set (list_or ts)"
  by (simp_all add: sorted_thresholds_def)

lemma make_budget_Inr:
  assumes "make_budget repr src mx ts em = Inr callable_obj"
  shows "\<exists>cfg. resolve_expensive_models em = Inr cfg \<and> em_hard_cap_enabled cfg \<and>
           callable_obj = (\<lambda>event config. budget_gate src mx (sorted_thresholds ts) cfg event)"
  using assms by (auto simp: make_budget_def res_bind_Inr_iff resolve_expensive_models_def split: if_splits)

lemma cost_budget_Inr:
  "cost_budget parse repr mx ts em = Inr callable_obj \<Longrightarrow> make_budget repr (session_source parse) mx ts em = Inr callable_obj"
  by (simp add: cost_budget_def split: if_splits)

lemma session_budget_decision:
  assumes "cost_budget parse repr mx ts em = Inr callable_obj" and "gated ctx"
    and "dict_has (list_or (ctx_usage ctx)) ''total_cost_usd''"
    and "case mx of None \<Rightarrow> True | Some m \<Rightarrow> float_field parse (list_or (ctx_usage ctx)) ''total_cost_usd'' < m"
  shows "\<exists>reason. callable_obj (build_event ctx) config =
      (case crossed (sorted_thresholds ts) (float_field parse (list_or (ctx_usage ctx)) ''total_cost_usd'') of
         None \<Rightarrow> Inr ALLOW_RESPONSE
       | Some c \<Rightarrow>
           res_bind (state_approved parse SESSION_COST_ASK_APPROVED_STATE_KEY ctx) (\<lambda>a.
             Inr (if a < c then ask_response reason SESSION_COST_ASK_APPROVED_STATE_KEY (JFloat c)
                  else ALLOW_RESPONSE)))"
proof -
  obtain cfg where call: "callable_obj = (\<lambda>event config. budget_gate (session_source parse) mx (sorted_thresholds ts) cfg event)"
    using make_budget_Inr [OF cost_budget_Inr [OF assms(1)]] by blast
  have priced: "\<not> usage_is_unpriced (list_or (ctx_usage ctx))" using assms(3) by (simp add: usage_is_unpriced_def)
  have key: "bs_approved_key (session_source parse) = SESSION_COST_ASK_APPROVED_STATE_KEY"
    by (simp add: session_source_def)
  show ?thesis using session_budget.soft [OF assms(2) priced assms(4)] unfolding call key by blast
qed

lemma state_approved_recorded:
  assumes "dict_get (list_or (ctx_session_state ctx)) key = Some (JFloat a)"
  shows "state_approved parse key ctx = Inr a"
  using assms by (simp add: state_approved_def approved_in_state_def dict_get_def dict_get_or_def to_float_def Let_def)

lemma ask_response_asks:
  "\<exists>r. coerce_to_policy_result str_of n (ask_response reason key v) = Inr r \<and> pr_action r = ASK \<and>
       pr_state_updates r = Some [\<lparr>su_key = key, su_action = SET, su_value = v\<rparr>]"
proof -
  have "lower ''ASK'' = ''ask''" "lower ''set'' = ''set''" by code_simp+
  then show ?thesis
    by (simp add: ask_response_def set_update_def coerce_to_policy_result_def policy_result_from_dict_def dict_get_or_def
        text_of_def policy_action_of_def coerce_state_updates_def coerce_state_update_def state_update_action_of_def
        opt_nonempty_def)
qed

lemma allow_response_allows:
  "\<exists>r. coerce_to_policy_result str_of n ALLOW_RESPONSE = Inr r \<and> pr_action r = ALLOW"
proof -
  have "lower ''ALLOW'' = ''allow''" by code_simp
  then show ?thesis
    by (simp add: ALLOW_RESPONSE_def coerce_to_policy_result_def policy_result_from_dict_def dict_get_or_def
        text_of_def policy_action_of_def coerce_state_updates_def)
qed


subsection \<open>Properties\<close>


definition demo_budget :: policy_callable where
  "demo_budget = (\<lambda>event config. budget_gate (session_source (\<lambda>_. None)) (Some 5) (sorted_thresholds (Some [1, 3]))
     \<lparr>em_expensive_tokens = [], em_exclude_tokens = [], em_hard_cap_enabled = True, em_block_all_models = True\<rparr> event)"

lemma demo_budget_made: "cost_budget (\<lambda>_. None) (\<lambda>_. []) (Some 5) (Some [1, 3]) None = Inr demo_budget"
proof -
  have "sorted_thresholds (Some [1, 3 :: rat]) = [1, 3]" by (simp add: sorted_thresholds_def insort_key.simps)
  then show ?thesis
    by (simp add: cost_budget_def make_budget_def check_limits_def resolve_expensive_models_def demo_budget_def)
qed



text \<open>
  Below the hard limit a session budget with an approved checkpoint lets a request
  or tool call through exactly when no higher checkpoint has been crossed. Otherwise it asks, and what
  it asks to record is the highest crossed checkpoint: once that is approved, the same spend is not
  asked about again.
\<close>

theorem checkpoint_asks_once:
  assumes "cost_budget parse repr mx ts em = Inr callable_obj" and "gated ctx"
    and "dict_has (list_or (ctx_usage ctx)) ''total_cost_usd''"
    and "dict_get (list_or (ctx_session_state ctx)) SESSION_COST_ASK_APPROVED_STATE_KEY = Some (JFloat a)"
  defines "cost \<equiv> float_field parse (list_or (ctx_usage ctx)) ''total_cost_usd''"
  assumes "case mx of None \<Rightarrow> True | Some m \<Rightarrow> cost < m"
  shows "if \<forall>t \<in> set (list_or ts). t \<le> cost \<longrightarrow> t \<le> a
         then callable_obj (build_event ctx) config = Inr ALLOW_RESPONSE
         else (\<exists>reason c. callable_obj (build_event ctx) config =
                 Inr (ask_response reason SESSION_COST_ASK_APPROVED_STATE_KEY (JFloat c)) \<and>
                 c \<in> set (list_or ts) \<and> a < c \<and> c \<le> cost \<and> (\<forall>t \<in> set (list_or ts). t \<le> cost \<longrightarrow> t \<le> c))"
proof -
  obtain reason where gate: "callable_obj (build_event ctx) config =
      (case crossed (sorted_thresholds ts) cost of
         None \<Rightarrow> Inr ALLOW_RESPONSE
       | Some c \<Rightarrow> Inr (if a < c then ask_response reason SESSION_COST_ASK_APPROVED_STATE_KEY (JFloat c)
                        else ALLOW_RESPONSE))"
    using session_budget_decision [OF assms(1-3), of config] assms(6)
    unfolding cost_def state_approved_recorded [OF assms(4)] res_bind_simps by blast
  show ?thesis
  proof (cases "crossed (sorted_thresholds ts) cost")
    case None
    then have "\<forall>t \<in> set (list_or ts). cost < t" by (simp add: crossed_None)
    then have "\<forall>t \<in> set (list_or ts). t \<le> cost \<longrightarrow> t \<le> a" by force
    then show ?thesis using gate None by simp
  next
    case (Some c)
    have c: "c \<in> set (list_or ts) \<and> c \<le> cost \<and> (\<forall>t \<in> set (list_or ts). t \<le> cost \<longrightarrow> t \<le> c)"
      using crossed_Some [OF sorted_thresholds(1) Some] by simp
    show ?thesis
    proof (cases "a < c")
      case True
      then have "\<not> (\<forall>t \<in> set (list_or ts). t \<le> cost \<longrightarrow> t \<le> a)" using c by (auto simp: not_le)
      then show ?thesis using gate Some True c by auto
    next
      case False
      then have "\<forall>t \<in> set (list_or ts). t \<le> cost \<longrightarrow> t \<le> a" using c by force
      then show ?thesis using gate Some False by simp
    qed
  qed
qed

definition approved_ctx :: "rat \<Rightarrow> evaluation_context" where
  "approved_ctx a = demo_ctx\<lparr>ctx_usage := Some [(''total_cost_usd'', JFloat 4)],
     ctx_session_state := Some [(SESSION_COST_ASK_APPROVED_STATE_KEY, JFloat a)]\<rparr>"

lemma checkpoint_asks_once_witness:
  "(\<exists>reason. demo_budget (build_event (approved_ctx 1)) [] =
       Inr (ask_response reason SESSION_COST_ASK_APPROVED_STATE_KEY (JFloat 3))) \<and>
   demo_budget (build_event (approved_ctx 3)) [] = Inr ALLOW_RESPONSE"
proof -
  have g: "gated (approved_ctx a)" for a by (simp add: gated_def approved_ctx_def demo_ctx_def)
  have p: "dict_has (list_or (ctx_usage (approved_ctx a))) ''total_cost_usd''" for a
    by (simp add: approved_ctx_def dict_has_def)
  have s: "dict_get (list_or (ctx_session_state (approved_ctx a))) SESSION_COST_ASK_APPROVED_STATE_KEY = Some (JFloat a)" for a
    by (simp add: approved_ctx_def dict_get_def)
  have cost: "float_field (\<lambda>_. None) (list_or (ctx_usage (approved_ctx a))) ''total_cost_usd'' = 4" for a
    by (simp add: approved_ctx_def float_field_def dict_get_or_def to_float_def)
  have lt: "case Some (5 :: rat) of None \<Rightarrow> True
      | Some m \<Rightarrow> float_field (\<lambda>_. None) (list_or (ctx_usage (approved_ctx a))) ''total_cost_usd'' < m" for a
    by (simp add: cost)
  show ?thesis
    using checkpoint_asks_once [OF demo_budget_made g p s lt, of 1 "[]"]
      checkpoint_asks_once [OF demo_budget_made g p s lt, of 3 "[]"]
    by (auto simp: cost split: if_splits)
qed

end
