(* ===== verification/Policy_Store.thy ===== *)
theory Policy_Store
  imports Policy_Types
begin

text \<open>
  The stored policies of sessions and of the server
  (\<open>src/omnigent/stores/policy_store/sqlalchemy_store.py\<close>) with the normalisation of ids at the column
  boundary (\<open>uuid_to_bytes\<close> and \<open>normalize_uuid\<close> of \<open>src/omnigent/db/db_models.py\<close>). The table is the
  list of rows of one workspace; a statement that fails is rolled back. The digest of a name is an
  argument.
\<close>

subsection \<open>Ids\<close>

definition UUID_HEX_LEN :: nat where "UUID_HEX_LEN = 32"

definition LEGACY_ID_PREFIXES :: "string list" where
  "LEGACY_ID_PREFIXES =
     [''ag'', ''conv'', ''host'', ''pol'', ''file'', ''cmt'', ''msg'', ''fc'', ''fco'', ''err'', ''rs'', ''cmp'', ''nt'', ''rse'',
      ''sc'', ''tc'', ''rd'', ''agy_conv'']"

definition rpartition_underscore :: "string \<Rightarrow> string \<times> string" where
  "rpartition_underscore s =
     (let tail = rev (takeWhile (\<lambda>c. c \<noteq> CHR ''_'') (rev s))
      in (take (length s - length tail - 1) s, tail))"

definition is_hex :: "char \<Rightarrow> bool" where
  "is_hex c \<longleftrightarrow> c \<in> set ''0123456789abcdefABCDEF''"

definition hex_space :: "char \<Rightarrow> bool" where
  "hex_space c \<longleftrightarrow> c \<in> set [CHR 0x09, CHR 0x0A, CHR 0x0B, CHR 0x0C, CHR 0x0D, CHR 0x20]"

text \<open>\<open>bytes.fromhex(s).hex()\<close>: white space between the bytes is skipped; \<open>None\<close> is the \<open>ValueError\<close>.\<close>

fun from_hex :: "string \<Rightarrow> string option" where
  "from_hex [] = Some []"
| "from_hex [c] = (if hex_space c then Some [] else None)"
| "from_hex (c # d # cs) =
     (if hex_space c then from_hex (d # cs)
      else if is_hex c \<and> is_hex d then map_option (\<lambda>r. lower_char c # lower_char d # r) (from_hex cs)
      else None)"

text \<open>\<open>uuid_to_bytes(value).hex()\<close>; \<open>None\<close> is the \<open>InvalidUuidError\<close>.\<close>

definition uuid_to_hex :: "string \<Rightarrow> string option" where
  "uuid_to_hex value =
     (let normalized = filter (\<lambda>c. c \<noteq> CHR ''-'') value;
          (prefix, tail) = rpartition_underscore normalized;
          normalized = (if CHR ''_'' \<in> set normalized \<and> prefix \<in> set LEGACY_ID_PREFIXES \<and> length tail = UUID_HEX_LEN
                        then tail else normalized)
      in if length normalized \<noteq> UUID_HEX_LEN then None else from_hex normalized)"

definition normalize_uuid :: "string \<Rightarrow> string" where
  "normalize_uuid value = (case uuid_to_hex value of None \<Rightarrow> value | Some h \<Rightarrow> h)"

text \<open>Binding an id to a \<open>Uuid16\<close> column; an invalid one surfaces as a \<open>StatementError\<close>.\<close>

definition bind_uuid :: "string \<Rightarrow> string res" where
  "bind_uuid value =
     (case uuid_to_hex value of None \<Rightarrow> Inl (OtherError ''StatementError'') | Some h \<Rightarrow> Inr h)"

subsection \<open>Rows\<close>

record stored_policy =
  sd_id :: string
  sd_name :: string
  sd_session_id :: "string option"
  sd_scope :: string
  sd_created_at :: int
  sd_type :: string
  sd_handler :: string
  sd_factory_params :: "json dict option"
  sd_enabled :: bool
  sd_updated_at :: "int option"
  sd_created_by :: "string option"

definition encode_policy_type :: "string \<Rightarrow> string res" where
  "encode_policy_type t =
     (if t \<in> {''python'', ''url''} then Inr t
      else Inl (ValueError (''unknown policies.type value: '' @ sq t)))"

text \<open>An empty dictionary of parameters is stored as \<open>NULL\<close>.\<close>

definition stored_params :: "json dict option \<Rightarrow> json dict option" where
  "stored_params fp = (if list_or fp = [] then None else fp)"

definition find_policy :: "string \<Rightarrow> stored_policy list \<Rightarrow> stored_policy option" where
  "find_policy pid rows = find (\<lambda>p. sd_id p = pid) rows"

text \<open>\<open>session.get(SqlPolicy, (workspace, policy_id))\<close>.\<close>

definition load_policy :: "string \<Rightarrow> stored_policy list \<Rightarrow> stored_policy option res" where
  "load_policy pid rows = res_bind (bind_uuid pid) (\<lambda>h. Inr (find_policy h rows))"

text \<open>
  The constraints that an insert or update of a row has to meet: the primary key, and the name digest
  among the rows of the same session (\<open>NULL\<close> sessions do not collide).
\<close>

definition name_taken :: "(string \<Rightarrow> string) \<Rightarrow> stored_policy \<Rightarrow> stored_policy list \<Rightarrow> bool" where
  "name_taken cksum p rows \<longleftrightarrow> sd_session_id p \<noteq> None \<and>
     list_ex (\<lambda>q. sd_id q \<noteq> sd_id p \<and> sd_session_id q = sd_session_id p \<and> cksum (sd_name q) = cksum (sd_name p)) rows"

definition insert_policy :: "(string \<Rightarrow> string) \<Rightarrow> stored_policy \<Rightarrow> (stored_policy list, unit) eff" where
  "insert_policy cksum p = (\<lambda>rows.
     (if find_policy (sd_id p) rows \<noteq> None then
        (Inl (IntegrityError ''UNIQUE constraint failed: policies.workspace_id, policies.id''), rows)
      else if name_taken cksum p rows then
        (Inl (IntegrityError ''UNIQUE constraint failed: uq_policies_session_id_name_cksum''), rows)
      else (Inr (), rows @ [p])))"

definition write_policy :: "(string \<Rightarrow> string) \<Rightarrow> stored_policy \<Rightarrow> (stored_policy list, unit) eff" where
  "write_policy cksum p = (\<lambda>rows.
     (if name_taken cksum p rows then
        (Inl (IntegrityError ''UNIQUE constraint failed: uq_policies_session_id_name_cksum''), rows)
      else (Inr (), map (\<lambda>q. if sd_id q = sd_id p then p else q) rows)))"

definition remove_policy :: "string \<Rightarrow> stored_policy list \<Rightarrow> stored_policy list" where
  "remove_policy pid rows = filter (\<lambda>q. sd_id q \<noteq> pid) rows"

text \<open>The assignments of \<open>update\<close> and \<open>update_default\<close>; a row without a change keeps its time stamp.\<close>

definition patched :: "int \<Rightarrow> string option \<Rightarrow> string option \<Rightarrow> bool option \<Rightarrow> stored_policy \<Rightarrow> stored_policy" where
  "patched now name handler enabled p =
     (let q = p\<lparr>sd_name := (case name of None \<Rightarrow> sd_name p | Some n \<Rightarrow> n),
                sd_handler := (case handler of None \<Rightarrow> sd_handler p | Some h \<Rightarrow> h),
                sd_enabled := (case enabled of None \<Rightarrow> sd_enabled p | Some b \<Rightarrow> b)\<rparr>
      in if q = p then p else q\<lparr>sd_updated_at := Some now\<rparr>)"

subsection \<open>Session policies\<close>

definition create_session_policy ::
    "(string \<Rightarrow> string) \<Rightarrow> int \<Rightarrow> string \<Rightarrow> string \<Rightarrow> string \<Rightarrow> string \<Rightarrow> string \<Rightarrow> json dict option \<Rightarrow> bool \<Rightarrow>
     (stored_policy list, stored_policy) eff" where
  "create_session_policy cksum now policy_id session_id name ptype handler factory_params enabled =
     eff_bind (eff_lift (\<lambda>_. encode_policy_type ptype)) (\<lambda>t.
     eff_bind (eff_lift (\<lambda>_. bind_uuid policy_id)) (\<lambda>pid.
     eff_bind (eff_lift (\<lambda>_. bind_uuid session_id)) (\<lambda>sid.
     let p = \<lparr>sd_id = policy_id, sd_name = name, sd_session_id = Some session_id, sd_scope = ''session'',
              sd_created_at = now, sd_type = t, sd_handler = handler,
              sd_factory_params = stored_params factory_params, sd_enabled = enabled, sd_updated_at = None,
              sd_created_by = None\<rparr>
     in eff_bind (insert_policy cksum (p\<lparr>sd_id := pid, sd_session_id := Some sid\<rparr>)) (\<lambda>_. eff_return p))))"

text \<open>The row of a policy that belongs to the given session.\<close>

definition own_policy :: "string \<Rightarrow> string \<Rightarrow> stored_policy list \<Rightarrow> stored_policy option res" where
  "own_policy policy_id session_id rows =
     res_bind (load_policy policy_id rows) (\<lambda>row.
       Inr (case row of
              None \<Rightarrow> None
            | Some p \<Rightarrow> if sd_session_id p = Some (normalize_uuid session_id) then Some p else None))"

definition get_session_policy :: "string \<Rightarrow> string \<Rightarrow> (stored_policy list, stored_policy option) eff" where
  "get_session_policy policy_id session_id = eff_lift (own_policy policy_id session_id)"

definition policy_order :: "stored_policy list \<Rightarrow> stored_policy list" where
  "policy_order rows = sort_key (\<lambda>p. (sd_created_at p, sd_id p)) rows"

definition session_policies :: "stored_policy list \<Rightarrow> string \<Rightarrow> stored_policy list" where
  "session_policies rows sid = policy_order (filter (\<lambda>p. sd_session_id p = Some sid) rows)"

definition list_for_session :: "stored_policy list \<Rightarrow> string \<Rightarrow> stored_policy list res" where
  "list_for_session rows session_id =
     res_bind (bind_uuid session_id) (\<lambda>sid. Inr (session_policies rows sid))"

definition update_session_policy ::
    "(string \<Rightarrow> string) \<Rightarrow> int \<Rightarrow> string \<Rightarrow> string \<Rightarrow> string option \<Rightarrow> string option \<Rightarrow> bool option \<Rightarrow>
     (stored_policy list, stored_policy option) eff" where
  "update_session_policy cksum now policy_id session_id name handler enabled =
     eff_bind (eff_lift (own_policy policy_id session_id)) (\<lambda>row.
     case row of
       None \<Rightarrow> eff_return None
     | Some p \<Rightarrow>
         eff_bind (write_policy cksum (patched now name handler enabled p)) (\<lambda>_.
         eff_return (Some (patched now name handler enabled p))))"

definition delete_session_policy :: "string \<Rightarrow> string \<Rightarrow> (stored_policy list, bool) eff" where
  "delete_session_policy policy_id session_id =
     eff_bind (eff_lift (own_policy policy_id session_id)) (\<lambda>row rows.
     case row of None \<Rightarrow> (Inr False, rows) | Some p \<Rightarrow> (Inr True, remove_policy (sd_id p) rows))"

subsection \<open>Default policies\<close>

definition duplicate_default :: "string \<Rightarrow> py_error" where
  "duplicate_default name = IntegrityError (''Duplicate default policy name: UNIQUE constraint: name='' @ sq name)"

definition create_default_policy ::
    "(string \<Rightarrow> string) \<Rightarrow> int \<Rightarrow> string \<Rightarrow> string \<Rightarrow> string \<Rightarrow> string \<Rightarrow> json dict option \<Rightarrow> bool \<Rightarrow> string option \<Rightarrow>
     (stored_policy list, stored_policy) eff" where
  "create_default_policy cksum now policy_id name ptype handler factory_params enabled created_by =
     eff_bind (eff_lift (\<lambda>_. encode_policy_type ptype)) (\<lambda>t.
     eff_bind (eff_lift (\<lambda>rows.
        if list_ex (\<lambda>q. sd_scope q = ''default'' \<and> cksum (sd_name q) = cksum name) rows
        then Inl (duplicate_default name) else Inr ())) (\<lambda>_.
     eff_bind (eff_lift (\<lambda>_. bind_uuid policy_id)) (\<lambda>pid.
     let p = \<lparr>sd_id = policy_id, sd_name = name, sd_session_id = None, sd_scope = ''default'',
              sd_created_at = now, sd_type = t, sd_handler = handler,
              sd_factory_params = stored_params factory_params, sd_enabled = enabled, sd_updated_at = None,
              sd_created_by = created_by\<rparr>
     in eff_bind (insert_policy cksum (p\<lparr>sd_id := pid\<rparr>)) (\<lambda>_. eff_return p))))"

definition default_policy :: "string \<Rightarrow> stored_policy list \<Rightarrow> stored_policy option res" where
  "default_policy policy_id rows =
     res_bind (load_policy policy_id rows) (\<lambda>row.
       Inr (case row of None \<Rightarrow> None | Some p \<Rightarrow> if sd_scope p = ''default'' then Some p else None))"

definition get_default_policy :: "string \<Rightarrow> (stored_policy list, stored_policy option) eff" where
  "get_default_policy policy_id = eff_lift (default_policy policy_id)"

definition list_defaults :: "stored_policy list \<Rightarrow> stored_policy list" where
  "list_defaults rows = policy_order (filter (\<lambda>p. sd_scope p = ''default'') rows)"

text \<open>The conflict query compares raw row ids with the bound \<open>policy_id\<close>.\<close>

definition update_default_policy ::
    "(string \<Rightarrow> string) \<Rightarrow> int \<Rightarrow> string \<Rightarrow> string option \<Rightarrow> string option \<Rightarrow> bool option \<Rightarrow>
     (stored_policy list, stored_policy option) eff" where
  "update_default_policy cksum now policy_id name handler enabled =
     eff_bind (eff_lift (default_policy policy_id)) (\<lambda>row.
     case row of
       None \<Rightarrow> eff_return None
     | Some p \<Rightarrow>
         eff_bind (eff_lift (\<lambda>rows.
            case name of
              None \<Rightarrow> Inr ()
            | Some n \<Rightarrow>
                if n \<noteq> sd_name p \<and>
                   list_ex (\<lambda>q. sd_scope q = ''default'' \<and> cksum (sd_name q) = cksum n \<and> sd_id q \<noteq> sd_id p) rows
                then Inl (duplicate_default n) else Inr ())) (\<lambda>_.
         eff_bind (write_policy cksum (patched now name handler enabled p)) (\<lambda>_.
         eff_return (Some (patched now name handler enabled p)))))"

definition delete_default_policy :: "string \<Rightarrow> (stored_policy list, bool) eff" where
  "delete_default_policy policy_id =
     eff_bind (eff_lift (default_policy policy_id)) (\<lambda>row rows.
     case row of None \<Rightarrow> (Inr False, rows) | Some p \<Rightarrow> (Inr True, remove_policy (sd_id p) rows))"

end
