(* ===== verification/Policy_Builder.thy ===== *)
theory Policy_Builder
  imports Usage_Seed Cost_Policy Policy_Store
begin

text \<open>
  Construction of the engine for a conversation (\<open>src/omnigent/runtime/policies/builder.py\<close>) with
  the caches over the stored policies it reads, and the guard on \<open>sys_add_policy\<close> (\<open>src/omnigent/policies/builtins/safety.py\<close>).

  Resolving a spec to a policy object imports code by its dotted path, and pricing reads a catalog
  over the network: both are arguments (\<open>instantiate\<close>, \<open>fetch_model_pricing\<close>); the LLM client is
  opaque. The process-wide caches are explicit state: an entry that the LRU bound or the time limit
  has dropped is simply absent.
\<close>

subsection \<open>Specs of stored policies\<close>

definition function_spec :: "string \<Rightarrow> string \<Rightarrow> json dict option \<Rightarrow> policy_spec" where
  "function_spec name path args =
     \<lparr>sp_name = name, sp_on = None, sp_condition = None, sp_ask_timeout = None,
      sp_function = Some \<lparr>fr_path = path, fr_arguments = args\<rparr>, sp_set_labels = None, sp_config = None\<rparr>"

definition stored_policy_to_spec :: "stored_policy \<Rightarrow> policy_spec res" where
  "stored_policy_to_spec p =
     (if sd_type p = ''python'' then Inr (function_spec (sd_name p) (sd_handler p) (sd_factory_params p))
      else Inl (OmnigentError (''Session policy '' @ sq (sd_name p) @ '' (id '' @ sq (sd_id p) @
             '') has unsupported type '' @ sq (sd_type p) @ ''; only type='' @ sq ''python'' @
             '' policies can be evaluated today. URL policy evaluation is a future extension. Remove or '' @
             ''disable this policy, since storing it does not enforce anything.'')))"

record builder_caches =
  bc_session_specs :: "policy_spec list dict"
  bc_default_specs :: "policy_spec list option"
  bc_owners :: "string dict"

record build_env =
  be_store :: conv_store
  be_policies :: "stored_policy list option"
  be_caches :: builder_caches

definition load_session_policy_specs :: "string \<Rightarrow> (build_env, policy_spec list) eff" where
  "load_session_policy_specs cid = (\<lambda>env.
     (case be_policies env of
        None \<Rightarrow> (Inr [], env)
      | Some rows \<Rightarrow>
          (case dict_get (bc_session_specs (be_caches env)) cid of
             Some specs \<Rightarrow> (Inr specs, env)
           | None \<Rightarrow>
               (case res_bind (list_for_session rows cid)
                       (\<lambda>stored. res_map stored_policy_to_spec (filter sd_enabled stored)) of
                  Inl err \<Rightarrow> (Inl err, env)
                | Inr specs \<Rightarrow>
                    (Inr specs, env\<lparr>be_caches := (be_caches env)
                       \<lparr>bc_session_specs := dict_set cid specs (bc_session_specs (be_caches env))\<rparr>\<rparr>)))))"

definition invalidate_session_policy_specs_cache :: "string \<Rightarrow> build_env \<Rightarrow> build_env" where
  "invalidate_session_policy_specs_cache cid env =
     env\<lparr>be_caches := (be_caches env)\<lparr>bc_session_specs := dict_pop cid (bc_session_specs (be_caches env))\<rparr>\<rparr>"

text \<open>A default policy of an unsupported type is skipped with a warning.\<close>

definition load_default_policy_specs :: "(build_env, policy_spec list) eff" where
  "load_default_policy_specs = (\<lambda>env.
     (case be_policies env of
        None \<Rightarrow> (Inr [], env)
      | Some rows \<Rightarrow>
          (case bc_default_specs (be_caches env) of
             Some specs \<Rightarrow> (Inr specs, env)
           | None \<Rightarrow>
               (case res_map stored_policy_to_spec
                       (filter (\<lambda>p. sd_type p = ''python'') (filter sd_enabled (list_defaults rows))) of
                  Inl err \<Rightarrow> (Inl err, env)
                | Inr specs \<Rightarrow>
                    (Inr specs, env\<lparr>be_caches := (be_caches env)\<lparr>bc_default_specs := Some specs\<rparr>\<rparr>)))))"

definition invalidate_default_policy_specs_cache :: "build_env \<Rightarrow> build_env" where
  "invalidate_default_policy_specs_cache env =
     env\<lparr>be_caches := (be_caches env)\<lparr>bc_default_specs := None\<rparr>\<rparr>"

subsection \<open>Seeds\<close>











text \<open>\<open>_load_session_state\<close> with the two keys that a sub-agent shares with its root.\<close>

definition seed_root_key :: "json dict \<Rightarrow> string \<Rightarrow> json dict \<Rightarrow> json dict" where
  "seed_root_key root_state key state =
     (case dict_get root_state key of None \<Rightarrow> state | Some v \<Rightarrow> dict_set key v state)"

definition initial_session_state :: "string \<Rightarrow> string \<Rightarrow> conv_store \<Rightarrow> json dict" where
  "initial_session_state cid root_id s =
     (let state = load_session_state s cid in
      if root_id \<noteq> cid then
        (let root_state = load_session_state s root_id in
         seed_root_key root_state SESSION_COST_UNPRICED_APPROVED_KEY
           (seed_root_key root_state SESSION_COST_ASK_APPROVED_STATE_KEY state))
      else state)"


subsection \<open>The guard on adding policies\<close>

definition ASK_ON_ADD_POLICY_SPEC :: policy_spec where
  "ASK_ON_ADD_POLICY_SPEC =
     function_spec ''__ask_on_add_policy'' ''omnigent.policies.builtins.safety.ask_on_add_policy'' None"

definition add_policy_preview :: "(json \<Rightarrow> string) \<Rightarrow> json \<Rightarrow> string" where
  "add_policy_preview str_of args =
     (case args of
        JDict d \<Rightarrow>
          (let policy_name = dict_get_or d ''name'' (JStr []); handler = dict_get_or d ''handler'' (JStr []) in
           if truthy handler then text_of str_of policy_name @ '' ('' @ text_of str_of handler @ '')''
           else text_of str_of policy_name)
      | _ \<Rightarrow> [])"

definition ask_on_add_policy :: "(json \<Rightarrow> string) \<Rightarrow> policy_callable" where
  "ask_on_add_policy str_of = (\<lambda>event config.
     (if dict_get_or event ''type'' JNull \<noteq> JStr ''tool_call'' then Inr ALLOW_RESPONSE
      else (case dict_get_or event ''data'' JNull of
              JDict data \<Rightarrow>
                (if dict_get_or data ''name'' JNull \<noteq> JStr ''sys_add_policy'' then Inr ALLOW_RESPONSE
                 else Inr (RawDict [(''result'', JStr ''ASK''),
                        (''reason'', JStr (''Agent wants to add policy: '' @
                            add_policy_preview str_of (dict_get_or data ''arguments'' JNull) @ ''. Approve?''))]))
            | _ \<Rightarrow> Inr ALLOW_RESPONSE)))"

subsection \<open>The builder\<close>

record agent_spec =
  ag_guardrails :: "guardrails_spec option"
  ag_model :: "string option"

definition agent_policies :: "agent_spec \<Rightarrow> policy_spec list" where
  "agent_policies spec = (case ag_guardrails spec of None \<Rightarrow> [] | Some g \<Rightarrow> list_or (gs_policies g))"

definition root_of :: "string \<Rightarrow> conv_store \<Rightarrow> string" where
  "root_of cid s = (case get_conversation s cid of None \<Rightarrow> cid | Some c \<Rightarrow> cv_root c)"

definition inherited_session_specs :: "string \<Rightarrow> (build_env, policy_spec list) eff" where
  "inherited_session_specs cid =
     eff_bind (load_session_policy_specs cid) (\<lambda>session_specs env.
       (let root_id = root_of cid (be_store env) in
        if root_id \<noteq> cid then
          eff_bind (load_session_policy_specs root_id) (\<lambda>root_specs.
            eff_return (filter (\<lambda>p. sp_name p \<notin> sp_name ` set session_specs) root_specs @ session_specs)) env
        else (Inr session_specs, env)))"

definition all_policy_specs :: "agent_spec \<Rightarrow> policy_spec list option \<Rightarrow> string \<Rightarrow> (build_env, policy_spec list) eff" where
  "all_policy_specs spec default_policies cid =
     eff_bind (inherited_session_specs cid) (\<lambda>session_specs.
     eff_bind load_default_policy_specs (\<lambda>db_defaults.
       eff_return (session_specs @ agent_policies spec @ db_defaults @ list_or default_policies @
                   [ASK_ON_ADD_POLICY_SPEC])))"

definition any_policies_apply ::
    "agent_spec \<Rightarrow> string \<Rightarrow> policy_spec list option \<Rightarrow> phase option \<Rightarrow> string option \<Rightarrow> (build_env, bool) eff" where
  "any_policies_apply spec cid default_policies ph tool_name =
     (if ph = Some TOOL_CALL \<and> tool_name = Some ''sys_add_policy'' then eff_return True
      else if agent_policies spec \<noteq> [] then eff_return True
      else if list_or default_policies \<noteq> [] then eff_return True
      else eff_bind (load_session_policy_specs cid) (\<lambda>specs. eff_return (specs \<noteq> [])))"


subsection \<open>Lemmas: the engine that is built\<close>



lemma res_map_image:
  "res_map f xs = Inr ys \<Longrightarrow> y \<in> set ys \<Longrightarrow> \<exists>x \<in> set xs. f x = Inr y"
  by (induction xs arbitrary: ys) (auto simp: res_bind_Inr_iff)


subsection \<open>Lemmas: the guard\<close>





subsection \<open>Properties\<close>





definition demo_env :: build_env where
  "demo_env = \<lparr>be_store = empty_store, be_policies = None,
     be_caches = \<lparr>bc_session_specs = [], bc_default_specs = None, bc_owners = []\<rparr>\<rparr>"

definition demo_agent :: agent_spec where
  "demo_agent = \<lparr>ag_guardrails = None, ag_model = None\<rparr>"

definition built_engine :: engine where
  "built_engine = policy_engine [function_policy (\<lambda>_. []) ASK_ON_ADD_POLICY_SPEC (ask_on_add_policy (\<lambda>_. []))]
     [] DEFAULT_ASK_TIMEOUT ''conv_1'' [] (Some []) (Some []) None None None None empty_store (Some ''conv_1'') JNull"


definition add_policy_ctx :: evaluation_context where
  "add_policy_ctx = demo_ctx\<lparr>ctx_content := JDict [(''name'', JStr ''sys_add_policy''), (''arguments'', JDict [])]\<rparr>"


text \<open>A policy that replaces the payload by the redacted arguments blinds the guard behind it.\<close>

definition redacting_policy :: policy where
  "redacting_policy = \<lparr>po_spec = demo_spec ''redact'', po_evaluate = \<lambda>ctx.
     Inr ((policy_result_of ALLOW None)\<lparr>pr_data := JDict [(''handler'', JStr ''x'')]\<rparr>)\<rparr>"

lemma add_policy_guard_bypassed:
  "\<exists>r. evaluate (\<lambda>_. None) add_policy_ctx True
         (built_engine\<lparr>en_policies := redacting_policy # en_policies built_engine\<rparr>) =
       (Inr r, built_engine\<lparr>en_policies := redacting_policy # en_policies built_engine\<rparr>) \<and> pr_action r = ALLOW"
proof -
  let ?e = "built_engine\<lparr>en_policies := redacting_policy # en_policies built_engine\<rparr>"
  let ?g = "function_policy (\<lambda>_. []) ASK_ON_ADD_POLICY_SPEC (ask_on_add_policy (\<lambda>_. []))"
  have low: "lower ''ALLOW'' = ''allow''" by code_simp
  let ?ctx = "(inject ?e add_policy_ctx)\<lparr>ctx_content := JDict [(''handler'', JStr ''x'')]\<rparr>"
  have red: "dispatch_policy redacting_policy c = (policy_result_of ALLOW None)\<lparr>pr_data := JDict [(''handler'', JStr ''x'')]\<rparr>" for c
    by (simp add: redacting_policy_def dispatch_policy_def)
  have fires: "should_fire e (po_spec redacting_policy) c" "should_fire e (po_spec ?g) c" for e c
    by (simp_all add: redacting_policy_def demo_spec_def function_policy_def ASK_ON_ADD_POLICY_SPEC_def
        function_spec_def should_fire_def)
  have "dict_get_or (build_event ?ctx) ''data'' JNull = JDict [(''handler'', JStr ''x'')]"
    by (simp add: build_event_def dict_get_or_def)
  then have "ask_on_add_policy (\<lambda>_. []) (build_event ?ctx) (policy_config ASK_ON_ADD_POLICY_SPEC) = Inr ALLOW_RESPONSE"
    by (simp add: ask_on_add_policy_def) (simp add: dict_get_or_def)
  then have g: "dispatch_policy ?g ?ctx = policy_result_of ALLOW None"
    by (simp add: dispatch_policy_def function_policy_def ALLOW_RESPONSE_def coerce_to_policy_result_def
        policy_result_from_dict_def dict_get_or_def text_of_def low policy_action_of_def coerce_state_updates_def
        opt_text_of_def labels_of_def policy_result_of_def)
  have pols: "en_policies ?e = [redacting_policy, ?g]" by (simp add: built_engine_def policy_engine_def)
  have "map (pr_action \<circ> snd) (verdicts ?e (en_policies ?e) (inject ?e add_policy_ctx)) = [ALLOW, ALLOW]"
    unfolding pols using g by (simp add: Let_def red fires policy_result_of_def)
  then have "(pr_action \<circ> snd) ` set (verdicts ?e (en_policies ?e) (inject ?e add_policy_ctx)) = {ALLOW}"
    by (metis list.set_map list.simps(15) set_empty insert_absorb2 list.set(1))
  then have "pr_action (composed_result (verdicts ?e (en_policies ?e) (inject ?e add_policy_ctx))) = ALLOW"
    unfolding composed_action by simp
  then show ?thesis using evaluate_read_only by blast
qed

subsection \<open>Approvals shared by a session tree\<close>

lemma seed_root_key_get:
  "dict_get (seed_root_key root_state key state) k =
     (if k = key \<and> dict_get root_state key \<noteq> None then dict_get root_state key else dict_get state k)"
  by (simp add: seed_root_key_def dict_get_def split: option.splits)

lemma initial_session_state_root:
  assumes "k \<in> {SESSION_COST_ASK_APPROVED_STATE_KEY, SESSION_COST_UNPRICED_APPROVED_KEY}"
    and "dict_get (load_session_state s root_id) k = Some v"
  shows "dict_get (initial_session_state cid root_id s) k = Some v"
  using assms by (auto simp: initial_session_state_def seed_root_key_get Let_def)

lemma record_root_approval:
  assumes "su_action op = SET" and "has_meta (en_store e) (en_root_conversation_id e)"
  shows "\<exists>e1. record_root_cost_ask_approved op e = (Inr (), e1) \<and>
           dict_get (load_session_state (en_store e1) (en_root_conversation_id e)) (su_key op) = Some (su_value op) \<and>
           dict_get (en_session_state e1) (su_key op) = Some (su_value op)"
  using assms by (simp add: record_root_cost_ask_approved_def apply_one_def state_col.get_put_same Let_def dict_get_def)

lemma record_shared_approval:
  assumes "su_key op \<in> {SESSION_COST_ASK_APPROVED_STATE_KEY, SESSION_COST_UNPRICED_APPROVED_KEY}"
    and "su_action op = SET" and "has_meta (en_store e) (en_root_conversation_id e)"
  shows "\<exists>e1. apply_state_updates parse [op] e = (Inr (), e1) \<and>
           dict_get (en_session_state e1) (su_key op) = Some (su_value op) \<and>
           dict_get (load_session_state (en_store e1) (en_root_conversation_id e)) (su_key op) = Some (su_value op)"
proof -
  have daily: "su_key op \<noteq> USER_DAILY_ASK_APPROVED_STATE_KEY"
    using assms(1) by (auto simp: USER_DAILY_ASK_APPROVED_STATE_KEY_def
        SESSION_COST_ASK_APPROVED_STATE_KEY_def SESSION_COST_UNPRICED_APPROVED_KEY_def)
  show ?thesis
  proof (cases "en_root_conversation_id e = en_conversation_id e")
    case False
    then have "routed_to_root e op" using assms(1) by (simp add: routed_to_root_def)
    then show ?thesis
      using record_root_approval [OF assms(2,3)] daily by (auto simp: apply_state_updates_def eff_bind_def)
  next
    case True
    let ?state = "dict_set (su_key op) (su_value op) (en_session_state e)"
    let ?e1 = "e\<lparr>en_session_state := ?state, en_store := set_session_state (en_conversation_id e) ?state (en_store e)\<rparr>"
    have "apply_state_updates parse [op] e = (Inr (), ?e1)"
      using True daily assms(2) by (simp add: apply_state_updates_def eff_bind_def routed_to_root_def apply_one_def)
    moreover have "load_session_state (en_store ?e1) (en_root_conversation_id e) = ?state"
      using assms(3) True by (simp add: state_col.get_put_same)
    ultimately show ?thesis by (simp add: dict_get_def)
  qed
qed

text \<open>
  An approved budget checkpoint, or the approval to go on without prices, covers
  the whole session tree: once an engine of any conversation of the tree has recorded it, the state
  every engine built later for any conversation of the tree starts from contains it, and so does the
  state of the engine that recorded it.
\<close>

theorem approval_covers_tree:
  assumes "su_key op \<in> {SESSION_COST_ASK_APPROVED_STATE_KEY, SESSION_COST_UNPRICED_APPROVED_KEY}"
    and "su_action op = SET" and "has_meta (en_store e) (en_root_conversation_id e)"
  shows "\<exists>e1. apply_state_updates parse [op] e = (Inr (), e1) \<and>
           dict_get (en_session_state e1) (su_key op) = Some (su_value op) \<and>
           (\<forall>cid. dict_get (initial_session_state cid (en_root_conversation_id e) (en_store e1)) (su_key op) =
                  Some (su_value op))"
  using record_shared_approval [OF assms, of parse] initial_session_state_root [OF assms(1)] by blast

definition subagent_engine :: engine where
  "subagent_engine = (demo_engine [])\<lparr>en_conversation_id := ''conv_2'', en_root_conversation_id := ''conv_1'',
     en_store := demo_store\<rparr>"

lemma approval_covers_tree_witness:
  "\<exists>e1. apply_state_updates (\<lambda>_. None)
          [\<lparr>su_key = SESSION_COST_ASK_APPROVED_STATE_KEY, su_action = SET, su_value = JFloat 5\<rparr>] subagent_engine =
        (Inr (), e1) \<and>
      dict_get (initial_session_state ''conv_3'' ''conv_1'' (en_store e1)) SESSION_COST_ASK_APPROVED_STATE_KEY =
        Some (JFloat 5)"
proof -
  have row: "has_meta (en_store subagent_engine) (en_root_conversation_id subagent_engine)"
    by (simp add: subagent_engine_def has_meta_def get_conversation_def demo_store_def)
  have r: "en_root_conversation_id subagent_engine = ''conv_1''" by (simp add: subagent_engine_def)
  show ?thesis
    using approval_covers_tree [of "\<lparr>su_key = SESSION_COST_ASK_APPROVED_STATE_KEY, su_action = SET, su_value = JFloat 5\<rparr>"
        subagent_engine "\<lambda>_. None"] row unfolding r by auto
qed

subsection \<open>The fast path\<close>

text \<open>
  A true answer of \<open>any_policies_apply\<close> is never wrong. A false one is: it ignores the default
  policies of the database, so a caller that skips the engine skips a policy that would run.
\<close>

definition deny_all_row :: stored_policy where
  "deny_all_row = \<lparr>sd_id = ''pol_1'', sd_name = ''deny_all'', sd_session_id = None, sd_scope = ''default'',
     sd_created_at = 1, sd_type = ''python'', sd_handler = ''guards.deny_all'', sd_factory_params = None,
     sd_enabled = True, sd_updated_at = None, sd_created_by = None\<rparr>"

definition demo_session_id :: string where
  "demo_session_id = ''0123456789abcdef0123456789abcdef''"

lemma demo_session_id_hex: "uuid_to_hex demo_session_id = Some demo_session_id"
  by code_simp

lemma fast_path_misses_defaults:
  "fst (any_policies_apply demo_agent demo_session_id None (Some TOOL_CALL) (Some ''shell'')
          (demo_env\<lparr>be_policies := Some [deny_all_row]\<rparr>)) = Inr False \<and>
   fst (all_policy_specs demo_agent None demo_session_id (demo_env\<lparr>be_policies := Some [deny_all_row]\<rparr>)) =
     Inr [function_spec ''deny_all'' ''guards.deny_all'' None, ASK_ON_ADD_POLICY_SPEC]"
  by (simp add: any_policies_apply_def all_policy_specs_def inherited_session_specs_def load_session_policy_specs_def
      load_default_policy_specs_def eff_bind_def demo_env_def demo_agent_def agent_policies_def list_for_session_def
      session_policies_def bind_uuid_def demo_session_id_hex list_defaults_def policy_order_def deny_all_row_def stored_policy_to_spec_def root_of_def get_conversation_def
      empty_store_def dict_get_def Let_def)

lemma fast_path_sound:
  assumes "any_policies_apply spec cid dp ph tool env = (Inr True, env1)"
    and "\<not> (ph = Some TOOL_CALL \<and> tool = Some ''sys_add_policy'')"
    and "all_policy_specs spec dp cid env = (Inr specs, env2)"
  shows "specs \<noteq> [ASK_ON_ADD_POLICY_SPEC]"
  using assms by (auto simp: any_policies_apply_def all_policy_specs_def inherited_session_specs_def eff_bind_ok_iff
      Let_def split: if_splits)

end
