(* ===== verification/Access.thy ===== *)
theory Access
  imports Conv_Store Py_Format
begin

text \<open>
  Session permissions: the permission store
  (\<open>src/omnigent/stores/permission_store/sqlalchemy_store.py\<close>), the resolution algorithm
  (\<open>src/omnigent/server/permissions.py\<close>) and the route helpers
  (\<open>src/omnigent/server/routes/_auth_helpers.py\<close>). Grants live in the permission table that
  \<open>Conv_Store\<close> already has; users are rows of their own. All queries are scoped to one workspace.
\<close>

subsection \<open>Users and grants\<close>

record user_row =
  us_id :: string
  us_is_admin :: bool
  us_password_hash :: "string option"
  us_created_at :: "int option"
  us_last_login_at :: "int option"

record account =
  ac_id :: string
  ac_is_admin :: bool
  ac_created_at :: "int option"
  ac_last_login_at :: "int option"
  ac_has_password :: bool

record access_db =
  ad_store :: conv_store
  ad_users :: "user_row list"

record resolved_access =
  ra_is_admin :: bool
  ra_user_grant_level :: "int option"
  ra_public_grant_level :: "int option"

definition LEVEL_READ :: int where "LEVEL_READ = 1"
definition LEVEL_EDIT :: int where "LEVEL_EDIT = 2"
definition LEVEL_MANAGE :: int where "LEVEL_MANAGE = 3"
definition RESERVED_USER_LOCAL :: string where "RESERVED_USER_LOCAL = ''local''"

definition grants :: "access_db \<Rightarrow> permission list" where
  "grants d = st_permissions (ad_store d)"

definition set_grants :: "permission list \<Rightarrow> access_db \<Rightarrow> access_db" where
  "set_grants ps d = d\<lparr>ad_store := (ad_store d)\<lparr>st_permissions := ps\<rparr>\<rparr>"

definition is_grant :: "string \<Rightarrow> string \<Rightarrow> permission \<Rightarrow> bool" where
  "is_grant user_id cid p \<longleftrightarrow> pm_user p = user_id \<and> pm_conversation p = cid"

definition get_grant :: "access_db \<Rightarrow> string \<Rightarrow> string \<Rightarrow> permission option" where
  "get_grant d user_id cid = find (is_grant user_id cid) (grants d)"

definition grant :: "string \<Rightarrow> string \<Rightarrow> int \<Rightarrow> access_db \<Rightarrow> permission \<times> access_db" where
  "grant user_id cid level d =
     (let p = \<lparr>pm_conversation = cid, pm_user = user_id, pm_level = level\<rparr> in
      (p, set_grants
            (if get_grant d user_id cid = None then grants d @ [p]
             else map (\<lambda>q. if is_grant user_id cid q then q\<lparr>pm_level := level\<rparr> else q) (grants d)) d))"

definition revoke :: "string \<Rightarrow> string \<Rightarrow> access_db \<Rightarrow> bool \<times> access_db" where
  "revoke user_id cid d =
     (list_ex (is_grant user_id cid) (grants d),
      set_grants (filter (\<lambda>p. \<not> is_grant user_id cid p) (grants d)) d)"

definition find_user :: "access_db \<Rightarrow> string \<Rightarrow> user_row option" where
  "find_user d user_id = find (\<lambda>u. us_id u = user_id) (ad_users d)"

definition ensure_user :: "string \<Rightarrow> bool \<Rightarrow> access_db \<Rightarrow> access_db" where
  "ensure_user user_id admin d =
     (if find_user d user_id \<noteq> None then d
      else d\<lparr>ad_users := ad_users d @ [\<lparr>us_id = user_id, us_is_admin = admin, us_password_hash = None,
                                       us_created_at = None, us_last_login_at = None\<rparr>]\<rparr>)"

definition is_admin :: "access_db \<Rightarrow> string \<Rightarrow> bool" where
  "is_admin d user_id = (case find_user d user_id of None \<Rightarrow> False | Some u \<Rightarrow> us_is_admin u)"

definition set_admin :: "string \<Rightarrow> bool \<Rightarrow> access_db \<Rightarrow> access_db" where
  "set_admin user_id admin d =
     d\<lparr>ad_users := map (\<lambda>u. if us_id u = user_id then u\<lparr>us_is_admin := admin\<rparr> else u) (ad_users d)\<rparr>"

text \<open>
  The loop of \<open>reassign_user_grants\<close> over the source user's grants: a duplicate is dropped, every
  other grant is repointed and counted.
\<close>

fun reassign_loop :: "string \<Rightarrow> string \<Rightarrow> permission list \<Rightarrow> nat \<Rightarrow> access_db \<Rightarrow> nat \<times> access_db" where
  "reassign_loop from_id to_id [] moved d = (moved, d)"
| "reassign_loop from_id to_id (row # rows) moved d =
     (if get_grant d to_id (pm_conversation row) \<noteq> None then
        reassign_loop from_id to_id rows moved
          (set_grants (filter (\<lambda>p. \<not> is_grant from_id (pm_conversation row) p) (grants d)) d)
      else
        reassign_loop from_id to_id rows (moved + 1)
          (set_grants (map (\<lambda>p. if is_grant from_id (pm_conversation row) p then p\<lparr>pm_user := to_id\<rparr> else p)
             (grants d)) d))"

definition reassign_user_grants :: "string \<Rightarrow> string \<Rightarrow> access_db \<Rightarrow> nat \<times> access_db" where
  "reassign_user_grants from_id to_id d =
     (let d = ensure_user to_id False d in
      reassign_loop from_id to_id (filter (\<lambda>p. pm_user p = from_id) (grants d)) 0 d)"

definition grants_for_session :: "access_db \<Rightarrow> string \<Rightarrow> permission list" where
  "grants_for_session d cid = filter (\<lambda>p. pm_conversation p = cid) (grants d)"

definition grants_for_sessions :: "access_db \<Rightarrow> string list \<Rightarrow> permission list dict" where
  "grants_for_sessions d cids = map (\<lambda>cid. (cid, grants_for_session d cid)) (rev (remdups (rev cids)))"

definition grants_for_user :: "access_db \<Rightarrow> string \<Rightarrow> permission list" where
  "grants_for_user d user_id = filter (\<lambda>p. pm_user p = user_id) (grants d)"

definition list_users :: "access_db \<Rightarrow> account list" where
  "list_users d =
     map (\<lambda>u. \<lparr>ac_id = us_id u, ac_is_admin = us_is_admin u, ac_created_at = us_created_at u,
               ac_last_login_at = us_last_login_at u, ac_has_password = (us_password_hash u \<noteq> None)\<rparr>)
       (filter (\<lambda>u. us_id u \<notin> {RESERVED_USER_PUBLIC, RESERVED_USER_LOCAL}) (ad_users d))"

definition has_any_grants :: "access_db \<Rightarrow> string \<Rightarrow> bool" where
  "has_any_grants d cid = list_ex (\<lambda>p. pm_conversation p = cid) (grants d)"

subsection \<open>Levels\<close>

definition level_at_least :: "int \<Rightarrow> permission option \<Rightarrow> bool" where
  "level_at_least required g = (case g of None \<Rightarrow> False | Some p \<Rightarrow> required \<le> pm_level p)"

definition check_access :: "access_db \<Rightarrow> string option \<Rightarrow> string \<Rightarrow> int \<Rightarrow> bool" where
  "check_access d user_id cid required =
     (case user_id of
        None \<Rightarrow> False
      | Some u \<Rightarrow> level_at_least required (get_grant d u cid) \<or>
                  level_at_least required (get_grant d RESERVED_USER_PUBLIC cid))"

definition get_permission_level :: "access_db \<Rightarrow> string option \<Rightarrow> string \<Rightarrow> int option" where
  "get_permission_level d user_id cid =
     (case user_id of
        None \<Rightarrow> None
      | Some u \<Rightarrow>
          if is_admin d u then Some LEVEL_OWNER
          else (case get_grant d u cid of
                  Some p \<Rightarrow> Some (pm_level p)
                | None \<Rightarrow> map_option pm_level (get_grant d RESERVED_USER_PUBLIC cid)))"

definition resolve_access :: "access_db \<Rightarrow> string option \<Rightarrow> string \<Rightarrow> resolved_access" where
  "resolve_access d user_id cid =
     (case user_id of
        None \<Rightarrow> \<lparr>ra_is_admin = False, ra_user_grant_level = None, ra_public_grant_level = None\<rparr>
      | Some u \<Rightarrow>
          \<lparr>ra_is_admin = is_admin d u, ra_user_grant_level = map_option pm_level (get_grant d u cid),
           ra_public_grant_level = map_option pm_level (get_grant d RESERVED_USER_PUBLIC cid)\<rparr>)"

definition resolved_allows :: "resolved_access \<Rightarrow> int \<Rightarrow> bool" where
  "resolved_allows a required \<longleftrightarrow>
     ra_is_admin a \<or> (case ra_user_grant_level a of None \<Rightarrow> False | Some l \<Rightarrow> required \<le> l) \<or>
     (case ra_public_grant_level a of None \<Rightarrow> False | Some l \<Rightarrow> required \<le> l)"

definition resolved_level :: "resolved_access \<Rightarrow> int option" where
  "resolved_level a =
     (if ra_is_admin a then Some LEVEL_OWNER
      else (case ra_user_grant_level a of Some l \<Rightarrow> Some l | None \<Rightarrow> ra_public_grant_level a))"

subsection \<open>Checking a session\<close>

text \<open>
  The recursion to the parent conversation; \<open>None\<close> is a chain of parents without an end, where the
  source exceeds the recursion limit.
\<close>

partial_function (option) check_session_access ::
    "access_db \<Rightarrow> string option \<Rightarrow> int \<Rightarrow> string \<Rightarrow> bool option" where
  "check_session_access d user_id required cid =
     (if (case user_id of None \<Rightarrow> False | Some u \<Rightarrow> is_admin d u) then Some True
      else (case get_conversation (ad_store d) cid of
              None \<Rightarrow> Some False
            | Some c \<Rightarrow>
                (case cv_parent c of
                   Some p \<Rightarrow> check_session_access d user_id required p
                 | None \<Rightarrow> Some (check_access d user_id cid required))))"

definition level_name :: "int \<Rightarrow> string" where
  "level_name l =
     (if l = 1 then ''read'' else if l = 2 then ''edit'' else if l = 3 then ''manage''
      else if l = 4 then ''owner'' else int_str l)"

definition insufficient :: "string \<Rightarrow> string \<Rightarrow> int \<Rightarrow> py_error" where
  "insufficient u cid required =
     OmnigentError (sq u @ '' needs '' @ level_name required @ '' permission on session '' @ sq cid)"

text \<open>\<open>perms\<close> says whether a permission store is configured.\<close>

definition require_access :: "bool \<Rightarrow> string option \<Rightarrow> string \<Rightarrow> int \<Rightarrow> access_db \<Rightarrow> unit res option" where
  "require_access perms user_id cid required d =
     (if \<not> perms then Some (Inr ())
      else (case user_id of
              None \<Rightarrow> Some (Inl (OmnigentError ''Authentication required''))
            | Some u \<Rightarrow>
                Option.bind (check_session_access d user_id required cid) (\<lambda>ok.
                if ok then Some (Inr ())
                else Option.bind (check_session_access d user_id 1 cid) (\<lambda>has_any.
                  Some (Inl (if has_any then insufficient u cid required
                             else OmnigentError ''Conversation not found''))))))"

definition permission_level :: "bool \<Rightarrow> string option \<Rightarrow> string \<Rightarrow> access_db \<Rightarrow> int option" where
  "permission_level perms user_id cid d =
     (if \<not> perms \<or> user_id = None then None else get_permission_level d user_id cid)"

definition require_access_and_level ::
    "bool \<Rightarrow> string option \<Rightarrow> string \<Rightarrow> int \<Rightarrow> access_db \<Rightarrow> (int option \<times> conversation option) res option" where
  "require_access_and_level perms user_id cid required d =
     (if \<not> perms then Some (Inr (None, None))
      else (case user_id of
              None \<Rightarrow> Some (Inl (OmnigentError ''Authentication required''))
            | Some u \<Rightarrow>
                (let access = resolve_access d user_id cid; level = resolved_level access in
                 if ra_is_admin access then Some (Inr (level, None))
                 else (case get_conversation (ad_store d) cid of
                         None \<Rightarrow> Some (Inl (OmnigentError ''Conversation not found''))
                       | Some conv \<Rightarrow>
                           Option.bind (case cv_parent conv of
                               None \<Rightarrow> Some (resolved_allows access required)
                             | Some p \<Rightarrow> check_session_access d user_id required p) (\<lambda>allowed.
                           if allowed then Some (Inr (level, Some conv))
                           else
                             Option.bind (case cv_parent conv of
                                 None \<Rightarrow> Some (resolved_allows access 1)
                               | Some p \<Rightarrow> check_session_access d user_id 1 p) (\<lambda>has_any.
                             Some (Inl (if has_any then insufficient u cid required
                                        else OmnigentError ''Conversation not found''))))))))"

definition get_session_owner_id :: "bool \<Rightarrow> access_db \<Rightarrow> string \<Rightarrow> string option" where
  "get_session_owner_id perms d cid =
     (if \<not> perms then None
      else map_option pm_user (find (\<lambda>p. LEVEL_OWNER \<le> pm_level p) (grants_for_session d cid)))"

definition check_is_manager :: "access_db \<Rightarrow> string option \<Rightarrow> string \<Rightarrow> bool option" where
  "check_is_manager d user_id cid = check_session_access d user_id LEVEL_MANAGE cid"

subsection \<open>Lemmas: grants\<close>

lemma grants_set_grants [simp]:
  "grants (set_grants ps d) = ps" "ad_users (set_grants ps d) = ad_users d"
  "get_conversation (ad_store (set_grants ps d)) = get_conversation (ad_store d)"
  by (simp_all add: grants_def set_grants_def get_conversation_def fun_eq_iff)

lemma find_map_level:
  "find (is_grant u c) (map (\<lambda>q. if is_grant u' c' q then q\<lparr>pm_level := l\<rparr> else q) ps) =
     (if u = u' \<and> c = c' then map_option (pm_level_update (\<lambda>_. l)) (find (is_grant u c) ps) else find (is_grant u c) ps)"
  by (induction ps) (auto simp: is_grant_def [abs_def])

lemma get_grant_grant:
  "get_grant (snd (grant u cid l d)) u' cid' =
     (if u' = u \<and> cid' = cid then Some \<lparr>pm_conversation = cid, pm_user = u, pm_level = l\<rparr> else get_grant d u' cid')"
proof (cases "find (is_grant u cid) (grants d)")
  case None
  have app: "find P (xs @ ys) = (case find P xs of None \<Rightarrow> find P ys | r \<Rightarrow> r)" for P and xs ys :: "permission list"
    by (induction xs) auto
  show ?thesis using None by (auto simp: grant_def get_grant_def Let_def app is_grant_def split: option.splits)
next
  case (Some p)
  then have p: "pm_user p = u" "pm_conversation p = cid" by (auto simp: find_Some_iff is_grant_def)
  have "p\<lparr>pm_level := l\<rparr> = \<lparr>pm_conversation = cid, pm_user = u, pm_level = l\<rparr>" using p by (cases p) simp
  then show ?thesis
    using Some by (simp add: grant_def get_grant_def Let_def find_map_level)
qed

lemma get_grant_revoke:
  "get_grant (snd (revoke u cid d)) u' cid' = (if u' = u \<and> cid' = cid then None else get_grant d u' cid')"
proof -
  have "find (is_grant u' cid') (filter (\<lambda>p. \<not> is_grant u cid p) ps) =
      (if u' = u \<and> cid' = cid then None else find (is_grant u' cid') ps)" for ps
    by (induction ps) (auto simp: is_grant_def [abs_def])
  then show ?thesis by (simp add: revoke_def get_grant_def)
qed

subsection \<open>Lemmas: parents come first\<close>

text \<open>Every row's parent stands before it in the table.\<close>

fun parents_first :: "string set \<Rightarrow> conversation list \<Rightarrow> bool" where
  "parents_first seen [] = True"
| "parents_first seen (c # cs) =
     ((case cv_parent c of None \<Rightarrow> True | Some p \<Rightarrow> p \<in> seen) \<and> parents_first (insert (cv_id c) seen) cs)"

lemma parents_first_append:
  "parents_first seen (cs @ ds) \<longleftrightarrow> parents_first seen cs \<and> parents_first (seen \<union> cv_id ` set cs) ds"
  by (induction cs arbitrary: seen) (auto simp: insert_commute Un_commute split: option.splits)

lemma parents_first_map:
  assumes "\<And>c. cv_id (f c) = cv_id c" and "\<And>c. cv_parent (f c) = cv_parent c"
  shows "parents_first seen (map f cs) = parents_first seen cs"
  by (induction cs arbitrary: seen) (simp_all add: assms)

definition forest :: "conv_store \<Rightarrow> bool" where
  "forest s \<longleftrightarrow> store_ok s \<and> parents_first {} (st_convs s)"

lemma create_conversation_forest:
  assumes "forest s" and "nc_id a \<noteq> []" and "nc_rowid a \<notin> cv_rowid ` set (st_convs s)"
    and "create_conversation a s = (r, s')"
  shows "forest s'"
proof -
  have ok: "store_ok s'"
    using create_conversation_store_ok [OF _ assms(2-4)] assms(1) by (simp add: forest_def)
  have meta: "parents_first {} (st_convs (snd (insert_meta_row a t))) = parents_first {} (st_convs t)" for t
    by (simp add: insert_meta_row_def update_conv_def parents_first_map)
  have "parents_first {} (st_convs s')"
  proof (cases "root_for a s")
    case (Inl e)
    then show ?thesis using assms(1,4) by (simp add: create_conversation_def eff_bind_def forest_def)
  next
    case (Inr root_id)
    obtain r1 s1 where ins: "insert_conversation_row a root_id s = (r1, s1)" by fastforce
    have "parents_first {} (st_convs s1)"
    proof (cases "r1 = Inr ()")
      case True
      then obtain c where s1: "st_convs s1 = st_convs s @ [c]" and c: "cv_parent c = nc_parent a"
        using ins by (auto simp: insert_conversation_row_def split: if_splits)
      have "p \<in> cv_id ` set (st_convs s)" if "nc_parent a = Some p" for p
        using Inr that by (auto simp: root_for_def split: option.splits dest!: get_conversation_Some)
      then show ?thesis
        using assms(1) by (auto simp: s1 parents_first_append c forest_def split: option.splits)
    next
      case False
      then have "s1 = s" using ins by (auto simp: insert_conversation_row_def split: if_splits)
      then show ?thesis using assms(1) by (simp add: forest_def)
    qed
    then show ?thesis
      using assms(4) Inr ins meta [of s1]
      by (cases r1) (auto simp: create_conversation_def eff_bind_def split: prod.splits sum.splits)
  qed
  then show ?thesis using ok by (simp add: forest_def)
qed

lemma parent_before:
  assumes "forest s" and "i < length (st_convs s)" and "cv_parent (st_convs s ! i) = Some p"
  shows "\<exists>j < i. cv_id (st_convs s ! j) = p \<and> cv_root (st_convs s ! j) = cv_root (st_convs s ! i)"
proof -
  let ?cs = "st_convs s" let ?c = "?cs ! i"
  have "?cs = take i ?cs @ ?c # drop (Suc i) ?cs" using assms(2) by (rule id_take_nth_drop)
  then have "parents_first {} (take i ?cs @ ?c # drop (Suc i) ?cs)" using assms(1) by (simp add: forest_def)
  then have "p \<in> cv_id ` set (take i ?cs)" using assms(3) by (simp add: parents_first_append)
  then obtain e where e: "e \<in> set (take i ?cs)" "cv_id e = p" by blast
  then obtain j where j: "j < i" "j < length ?cs" "e = ?cs ! j" by (auto simp: in_set_conv_nth)
  have "tree_row_ok ?cs ?c" using assms(1,2) by (simp add: forest_def store_ok_def)
  then obtain f where f: "f \<in> set ?cs" "cv_id f = p" "cv_root f = cv_root ?c"
    using assms(3) by (auto simp: tree_row_ok_def)
  have "get_conversation s p = Some e" "get_conversation s p = Some f"
    using get_conversation_member [of s e] get_conversation_member [of s f] e f assms(1) j
    by (auto simp: forest_def dest: in_set_takeD)
  then have "e = f" by simp
  then show ?thesis using j e(2) f(3) by blast
qed

lemma check_session_access_nth:
  assumes "forest (ad_store d)" and "\<not> (case user_id of None \<Rightarrow> False | Some u \<Rightarrow> is_admin d u)"
    and "i < length (st_convs (ad_store d))"
  shows "check_session_access d user_id required (cv_id (st_convs (ad_store d) ! i)) =
           Some (check_access d user_id (cv_root (st_convs (ad_store d) ! i)) required)"
  using assms(3)
proof (induction i rule: less_induct)
  case (less i)
  let ?s = "ad_store d" let ?c = "st_convs ?s ! i"
  have c: "get_conversation ?s (cv_id ?c) = Some ?c"
    using less.prems assms(1) by (intro get_conversation_member) (simp_all add: forest_def)
  have row: "tree_row_ok (st_convs ?s) ?c" using assms(1) less.prems by (simp add: forest_def store_ok_def)
  show ?case
  proof (cases "cv_parent ?c")
    case None
    then have "cv_root ?c = cv_id ?c" using row by (simp add: tree_row_ok_def)
    then show ?thesis using assms(2) c None by (subst check_session_access.simps) simp
  next
    case (Some p)
    obtain j where j: "j < i" "cv_id (st_convs ?s ! j) = p" "cv_root (st_convs ?s ! j) = cv_root ?c"
      using parent_before [OF assms(1) less.prems Some] by blast
    have "check_session_access d user_id required p = Some (check_access d user_id (cv_root ?c) required)"
      using less.IH [OF j(1)] less.prems j by simp
    then show ?thesis using assms(2) c Some by (subst check_session_access.simps) simp
  qed
qed

subsection \<open>Properties\<close>

text \<open>
  C36. On every store that conversations are created in, the check of a session ends,
  and for a user without the admin flag it grants exactly what the grants on the root of the session
  tree give: a sub-agent session is never more and never less accessible than its root.
\<close>

theorem access_follows_root:
  assumes "forest (ad_store d)" and "get_conversation (ad_store d) cid = Some c" and "\<not> is_admin d u"
  shows "check_session_access d (Some u) required cid =
           Some (level_at_least required (get_grant d u (cv_root c)) \<or>
                 level_at_least required (get_grant d RESERVED_USER_PUBLIC (cv_root c)))"
proof -
  have "c \<in> set (st_convs (ad_store d))" and "cv_id c = cid"
    using get_conversation_Some [OF assms(2)] by auto
  then obtain i where "i < length (st_convs (ad_store d))" "st_convs (ad_store d) ! i = c"
    by (auto simp: in_set_conv_nth)
  then show ?thesis
    using check_session_access_nth [OF assms(1), of "Some u" i required] assms(3) \<open>cv_id c = cid\<close>
    by (simp add: check_access_def)
qed

definition demo_access :: access_db where
  "demo_access = \<lparr>ad_store = demo_store\<lparr>st_convs := st_convs demo_store @
       [(hd (st_convs demo_store))\<lparr>cv_id := ''conv_2'', cv_rowid := 2, cv_parent := Some ''conv_1''\<rparr>],
       st_permissions := [\<lparr>pm_conversation = ''conv_1'', pm_user = ''alice'', pm_level = 2\<rparr>]\<rparr>,
     ad_users = []\<rparr>"

lemma access_follows_root_witness:
  "check_session_access demo_access (Some ''alice'') LEVEL_EDIT ''conv_2'' = Some True \<and>
   check_session_access demo_access (Some ''bob'') LEVEL_READ ''conv_2'' = Some False"
proof -
  have f: "forest (ad_store demo_access)"
    by (simp add: forest_def store_ok_def tree_row_ok_def demo_access_def demo_store_def empty_store_def)
  have c: "get_conversation (ad_store demo_access) ''conv_2'' =
      Some ((hd (st_convs demo_store))\<lparr>cv_id := ''conv_2'', cv_rowid := 2, cv_parent := Some ''conv_1''\<rparr>)"
    by (simp add: get_conversation_def demo_access_def demo_store_def empty_store_def)
  have n: "\<not> is_admin demo_access u" for u by (simp add: is_admin_def find_user_def demo_access_def)
  show ?thesis
    using access_follows_root [OF f c n, of "''alice''" LEVEL_EDIT] access_follows_root [OF f c n, of "''bob''" LEVEL_READ]
    by (simp add: get_grant_def grants_def demo_access_def demo_store_def level_at_least_def LEVEL_EDIT_def LEVEL_READ_def
        is_grant_def RESERVED_USER_PUBLIC_def)
qed

text \<open>
  The single-pass authorization of the snapshot route is equivalent to the plain
  check followed by the lookup of the displayed level: it grants, refuses with the same error, and
  reports the same level in every case.
\<close>

theorem combined_check_agrees:
  "map_option (\<lambda>r. res_bind r (\<lambda>(level, conv). Inr level)) (require_access_and_level perms user_id cid required d) =
   map_option (\<lambda>r. res_bind r (\<lambda>_. Inr (permission_level perms user_id cid d))) (require_access perms user_id cid required d)"
proof (cases "perms \<and> user_id \<noteq> None")
  case False
  then show ?thesis by (auto simp: require_access_and_level_def require_access_def permission_level_def)
next
  case True
  then obtain u where u: "user_id = Some u" and perms by auto
  have level: "resolved_level (resolve_access d user_id cid) = permission_level perms user_id cid d"
    using \<open>perms\<close> by (auto simp: u resolved_level_def resolve_access_def permission_level_def get_permission_level_def
        split: option.splits)
  have admin: "ra_is_admin (resolve_access d user_id cid) = is_admin d u" by (simp add: u resolve_access_def)
  have allows: "resolved_allows (resolve_access d user_id cid) l = check_access d user_id cid l" if "\<not> is_admin d u" for l
    using that by (auto simp: u resolved_allows_def resolve_access_def check_access_def level_at_least_def split: option.splits)
  show ?thesis
  proof (cases "is_admin d u")
    case True
    then have "check_session_access d user_id required cid = Some True"
      by (subst check_session_access.simps) (simp add: u)
    then show ?thesis
      using True \<open>perms\<close> level admin by (simp add: require_access_and_level_def require_access_def u Let_def)
  next
    case False
    have step: "check_session_access d user_id l cid =
        (case get_conversation (ad_store d) cid of
           None \<Rightarrow> Some False
         | Some c \<Rightarrow> (case cv_parent c of Some p \<Rightarrow> check_session_access d user_id l p
                     | None \<Rightarrow> Some (check_access d user_id cid l)))" for l
      using False by (subst check_session_access.simps) (simp add: u)
    show ?thesis
      using False \<open>perms\<close> level admin allows [OF False]
      unfolding require_access_and_level_def require_access_def step
      by (auto simp: u Let_def bind_eq_None_conv split: option.splits Option.bind_splits)
  qed
qed

end
