(* ===== verification/Policy_Admin.thy ===== *)
theory Policy_Admin
  imports Policy_Builder Access
begin

text \<open>
  The routes that manage stored policies (\<open>src/omnigent/server/routes/session_policies.py\<close>,
  \<open>default_policies.py\<close>), the request bodies they accept (\<open>src/omnigent/server/schemas.py\<close>) and the
  allowlist of handlers (\<open>src/omnigent/policies/registry.py\<close>). Every mutating route evicts the cached
  specs that \<open>Policy_Builder\<close> reads. The loaded registry is an argument, since it is filled from the
  modules it imports; new ids and clock readings are arguments too. The conversation tables normalise
  ids like the policy table does, so they are read with the normalised session id.
\<close>

subsection \<open>The registry\<close>

record registry_entry =
  re_handler :: string
  re_kind :: string
  re_name :: string
  re_description :: string
  re_params_schema :: "json dict option"
  re_internal_only :: bool

definition is_registered_handler :: "registry_entry dict \<Rightarrow> string \<Rightarrow> bool" where
  "is_registered_handler reg handler = dict_has reg handler"

definition get_params_schema :: "registry_entry dict \<Rightarrow> string \<Rightarrow> json dict option" where
  "get_params_schema reg handler =
     (case dict_get reg handler of None \<Rightarrow> None | Some entry \<Rightarrow> re_params_schema entry)"

definition type_matches :: "json \<Rightarrow> string \<Rightarrow> bool" where
  "type_matches v json_type =
     (if json_type = ''integer'' then (case v of JInt _ \<Rightarrow> True | _ \<Rightarrow> False)
      else if json_type = ''number'' then (case v of JInt _ \<Rightarrow> True | JFloat _ \<Rightarrow> True | _ \<Rightarrow> False)
      else if json_type = ''string'' then (case v of JStr _ \<Rightarrow> True | _ \<Rightarrow> False)
      else if json_type = ''boolean'' then (case v of JBool _ \<Rightarrow> True | _ \<Rightarrow> False)
      else if json_type = ''array'' then (case v of JList _ \<Rightarrow> True | _ \<Rightarrow> False)
      else if json_type = ''object'' then (case v of JDict _ \<Rightarrow> True | _ \<Rightarrow> False)
      else True)"

text \<open>The parts of a parameter schema, in the shape that every registered schema has.\<close>

definition schema_required :: "json dict \<Rightarrow> string list" where
  "schema_required schema =
     (case dict_get_or schema ''required'' (JList []) of
        JList xs \<Rightarrow> List.map_filter (\<lambda>x. case x of JStr s \<Rightarrow> Some s | _ \<Rightarrow> None) xs
      | _ \<Rightarrow> [])"

definition schema_properties :: "json dict \<Rightarrow> json dict" where
  "schema_properties schema = (case dict_get_or schema ''properties'' (JDict []) of JDict d \<Rightarrow> d | _ \<Rightarrow> [])"

definition has_default :: "json dict \<Rightarrow> string \<Rightarrow> bool" where
  "has_default properties k =
     (case dict_get_or properties k (JDict []) of JDict d \<Rightarrow> dict_has d ''default'' | _ \<Rightarrow> False)"

definition list_repr :: "string list \<Rightarrow> string" where
  "list_repr xs = ''['' @ join '', '' (map sq xs) @ '']''"

definition param_type_error :: "string \<Rightarrow> json dict \<Rightarrow> string \<times> json \<Rightarrow> string option" where
  "param_type_error handler properties = (\<lambda>(key, v).
     (case dict_get properties key of
        Some (JDict prop) \<Rightarrow>
          (case dict_get_or prop ''type'' JNull of
             JStr t \<Rightarrow>
               if t \<noteq> [] \<and> \<not> type_matches v t
               then Some (''Param '' @ sq key @ '' for '' @ sq handler @ '' must be '' @ t @ '', got '' @ type_name v)
               else None
           | _ \<Rightarrow> None)
      | _ \<Rightarrow> None))"

definition validate_factory_params :: "registry_entry dict \<Rightarrow> string \<Rightarrow> json dict option \<Rightarrow> string option" where
  "validate_factory_params reg handler factory_params =
     (case dict_get reg handler of
        None \<Rightarrow> None
      | Some entry \<Rightarrow>
          if re_kind entry = ''callable'' then
            (if list_or factory_params \<noteq> []
             then Some (''Policy '' @ sq handler @ '' is a direct callable and does not accept factory_params, but got: '' @
                        list_repr (map fst (list_or factory_params)))
             else None)
          else (case re_params_schema entry of
                  None \<Rightarrow> None
                | Some schema \<Rightarrow>
                    (let required = schema_required schema; properties = schema_properties schema in
                     case factory_params of
                       None \<Rightarrow>
                         (let missing = filter (\<lambda>k. \<not> has_default properties k) required in
                          if missing \<noteq> [] then Some (''Policy '' @ sq handler @ '' requires params: '' @ list_repr missing)
                          else None)
                     | Some params \<Rightarrow>
                         (let unknown = filter (\<lambda>k. \<not> dict_has properties k) (map fst params);
                              missing = filter (\<lambda>k. \<not> dict_has params k \<and> \<not> has_default properties k) (remdups required)
                          in if unknown \<noteq> [] then Some (''Unknown params for '' @ sq handler @ '': '' @ list_repr (sort unknown))
                             else if missing \<noteq> []
                               then Some (''Missing required params for '' @ sq handler @ '': '' @ list_repr (sort missing))
                             else (case List.map_filter (param_type_error handler properties) params of
                                     [] \<Rightarrow> None | msg # _ \<Rightarrow> Some msg)))))"

subsection \<open>Request bodies\<close>

record create_request =
  cr_name :: string
  cr_type :: string
  cr_handler :: string
  cr_factory_params :: "json dict option"

record update_request =
  ur_name :: "string option"
  ur_handler :: "string option"
  ur_enabled :: "bool option"

text \<open>
  \<open>re.match(r"^[a-zA-Z_]\w*(\.[a-zA-Z_]\w*)+$", s)\<close> on ASCII text; \<open>$\<close> also matches before a final
  newline.
\<close>

definition word_start :: "char \<Rightarrow> bool" where
  "word_start c \<longleftrightarrow> (CHR ''a'' \<le> c \<and> c \<le> CHR ''z'') \<or> (CHR ''A'' \<le> c \<and> c \<le> CHR ''Z'') \<or> c = CHR ''_''"

definition word_char :: "char \<Rightarrow> bool" where
  "word_char c \<longleftrightarrow> word_start c \<or> (CHR ''0'' \<le> c \<and> c \<le> CHR ''9'')"

definition dotted_path :: "string \<Rightarrow> bool" where
  "dotted_path s =
     (let body = (if s \<noteq> [] \<and> last s = CHR 0x0A then butlast s else s);
          segments = split_char (CHR ''.'') body
      in 2 \<le> length segments \<and>
         list_all (\<lambda>seg. case seg of [] \<Rightarrow> False | c # cs \<Rightarrow> word_start c \<and> list_all word_char cs) segments)"

definition validate_type_and_handler :: "create_request \<Rightarrow> unit res" where
  "validate_type_and_handler body =
     (if cr_type body \<notin> {''python'', ''url''} then
        Inl (ValueError (''type must be '' @ sq ''python'' @ '' or '' @ sq ''url'' @ '', got '' @ sq (cr_type body)))
      else if cr_type body = ''url'' \<and> \<not> startswith (cr_handler body) ''https://'' then
        Inl (ValueError (''handler must be an https:// URL for type '' @ sq ''url''))
      else if cr_type body = ''python'' \<and> \<not> dotted_path (cr_handler body) then
        Inl (ValueError (''handler must be a valid dotted import path (e.g. '' @ sq ''pkg.module.func'' @
               '') for type '' @ sq ''python''))
      else Inr ())"

subsection \<open>Common steps of the routes\<close>

record policy_api =
  pa_registry :: "registry_entry dict"
  pa_cksum :: "string \<Rightarrow> string"
  pa_perms :: bool
  pa_users :: "user_row list"

definition on_policies :: "(stored_policy list, 'a) eff \<Rightarrow> (build_env, 'a) eff" where
  "on_policies m = (\<lambda>env.
     (case be_policies env of
        None \<Rightarrow> (Inl (AttributeError ''NoneType''), env)
      | Some rows \<Rightarrow> (case m rows of (r, rows') \<Rightarrow> (r, env\<lparr>be_policies := Some rows'\<rparr>))))"

text \<open>\<open>except IntegrityError\<close>: the conflict that the creating routes report.\<close>

definition conflict_as :: "string \<Rightarrow> ('s, 'a) eff \<Rightarrow> ('s, 'a) eff" where
  "conflict_as msg m = (\<lambda>s.
     (case m s of (Inl (IntegrityError _), s') \<Rightarrow> (Inl (OmnigentError msg), s') | r \<Rightarrow> r))"

definition session_access :: "policy_api \<Rightarrow> string option \<Rightarrow> string \<Rightarrow> int \<Rightarrow> (build_env, unit) eff" where
  "session_access api user_id session_id level =
     eff_lift (\<lambda>env.
       (case require_access (pa_perms api) user_id (normalize_uuid session_id) level
               \<lparr>ad_store = be_store env, ad_users = pa_users api\<rparr> of
          None \<Rightarrow> Inl (OtherError ''RecursionError'')
        | Some r \<Rightarrow> r))"

definition require_session_exists :: "string \<Rightarrow> (build_env, unit) eff" where
  "require_session_exists session_id =
     eff_lift (\<lambda>env.
       if get_conversation (be_store env) (normalize_uuid session_id) = None
       then Inl (OmnigentError ''Session not found'') else Inr ())"

definition require_admin :: "policy_api \<Rightarrow> string option \<Rightarrow> (build_env, unit) eff" where
  "require_admin api user_id =
     (if \<not> pa_perms api then eff_return ()
      else (case user_id of
              None \<Rightarrow> eff_raise (OmnigentError ''Authentication required'')
            | Some u \<Rightarrow>
                eff_lift (\<lambda>env.
                  if is_admin \<lparr>ad_store = be_store env, ad_users = pa_users api\<rparr> u then Inr ()
                  else Inl (OmnigentError ''Admin privileges required to manage default policies''))))"

definition check_handler :: "policy_api \<Rightarrow> string \<Rightarrow> string \<Rightarrow> json dict option \<Rightarrow> ('s, unit) eff" where
  "check_handler api unregistered handler factory_params =
     (if \<not> is_registered_handler (pa_registry api) handler
      then eff_raise (OmnigentError (''Policy handler '' @ sq handler @ unregistered))
      else (case validate_factory_params (pa_registry api) handler factory_params of
              None \<Rightarrow> eff_return ()
            | Some msg \<Rightarrow> eff_raise (OmnigentError msg)))"

definition session_unregistered :: string where
  "session_unregistered =
     '' is not registered. Only handlers from the policy registry (browse GET /v1/policy-registry) may be attached; '' @
     ''a server admin must add custom handlers via the '' @ sq ''policy_modules'' @ '' config.''"

definition default_unregistered :: string where
  "default_unregistered =
     '' is not registered. Add the module that declares it to the server'' @ [CHR 0x27] @ ''s '' @ sq ''policy_modules'' @
     '' config so it appears in the policy registry.''"

text \<open>The validation of a new handler against the type of the existing row.\<close>

definition check_new_handler ::
    "policy_api \<Rightarrow> string \<Rightarrow> (stored_policy list, stored_policy option) eff \<Rightarrow> string option \<Rightarrow> (build_env, unit) eff" where
  "check_new_handler api unregistered lookup handler =
     (case handler of
        None \<Rightarrow> eff_return ()
      | Some h \<Rightarrow>
          eff_bind (on_policies lookup) (\<lambda>existing.
          case existing of
            None \<Rightarrow> eff_raise (OmnigentError ''Policy not found'')
          | Some p \<Rightarrow>
              if sd_type p = ''url'' \<and> \<not> startswith h ''https://'' then
                eff_raise (OmnigentError (''handler must be an https:// URL for type '' @ sq ''url''))
              else if sd_type p = ''python'' \<and> \<not> dotted_path h then
                eff_raise (OmnigentError (''handler must be a valid dotted import path for type '' @ sq ''python''))
              else if sd_type p = ''python'' \<and> \<not> is_registered_handler (pa_registry api) h then
                eff_raise (OmnigentError (''Policy handler '' @ sq h @ unregistered))
              else eff_return ()))"

definition policy_or_404 :: "stored_policy option \<Rightarrow> ('s, stored_policy) eff" where
  "policy_or_404 p =
     (case p of None \<Rightarrow> eff_raise (OmnigentError ''Policy not found'') | Some q \<Rightarrow> eff_return q)"

definition evict_session :: "string \<Rightarrow> (build_env, unit) eff" where
  "evict_session session_id = (\<lambda>env. (Inr (), invalidate_session_policy_specs_cache session_id env))"

definition evict_defaults :: "(build_env, unit) eff" where
  "evict_defaults = (\<lambda>env. (Inr (), invalidate_default_policy_specs_cache env))"

subsection \<open>Session policy routes\<close>

definition session_policy_response :: "stored_policy \<Rightarrow> json dict" where
  "session_policy_response p =
     [(''id'', JStr (sd_id p)), (''object'', JStr ''session.policy''), (''name'', JStr (sd_name p)),
      (''type'', JStr (sd_type p)), (''handler'', JStr (sd_handler p)), (''enabled'', JBool (sd_enabled p)),
      (''source'', JStr ''session''), (''created_at'', JInt (sd_created_at p)),
      (''updated_at'', (case sd_updated_at p of None \<Rightarrow> JNull | Some n \<Rightarrow> JInt n))] @
     (case sd_factory_params p of None \<Rightarrow> [] | Some d \<Rightarrow> [(''factory_params'', JDict d)])"

definition create_policy_route ::
    "policy_api \<Rightarrow> string option \<Rightarrow> int \<Rightarrow> string \<Rightarrow> string \<Rightarrow> create_request \<Rightarrow> (build_env, json dict) eff" where
  "create_policy_route api user_id now policy_id session_id body =
     eff_bind (eff_lift (\<lambda>_. validate_type_and_handler body)) (\<lambda>_.
     eff_bind (session_access api user_id session_id LEVEL_EDIT) (\<lambda>_.
     eff_bind (require_session_exists session_id) (\<lambda>_.
     eff_bind (if cr_type body = ''python''
               then check_handler api session_unregistered (cr_handler body) (cr_factory_params body)
               else eff_return ()) (\<lambda>_.
     eff_bind (conflict_as (''Policy with name '' @ sq (cr_name body) @ '' already exists in this session'')
                 (on_policies (create_session_policy (pa_cksum api) now policy_id session_id (cr_name body)
                    (cr_type body) (cr_handler body) (cr_factory_params body) True))) (\<lambda>policy.
     eff_bind (evict_session session_id) (\<lambda>_. eff_return (session_policy_response policy)))))))"

definition get_policy_route ::
    "policy_api \<Rightarrow> string option \<Rightarrow> string \<Rightarrow> string \<Rightarrow> (build_env, json dict) eff" where
  "get_policy_route api user_id session_id policy_id =
     eff_bind (session_access api user_id session_id LEVEL_READ) (\<lambda>_.
     eff_bind (on_policies (get_session_policy policy_id session_id)) (\<lambda>found.
     eff_bind (policy_or_404 found) (\<lambda>policy. eff_return (session_policy_response policy))))"

definition update_policy_route ::
    "policy_api \<Rightarrow> string option \<Rightarrow> int \<Rightarrow> string \<Rightarrow> string \<Rightarrow> update_request \<Rightarrow> (build_env, json dict) eff" where
  "update_policy_route api user_id now session_id policy_id body =
     eff_bind (session_access api user_id session_id LEVEL_EDIT) (\<lambda>_.
     eff_bind (check_new_handler api session_unregistered (get_session_policy policy_id session_id)
                 (ur_handler body)) (\<lambda>_.
     eff_bind (on_policies (update_session_policy (pa_cksum api) now policy_id session_id (ur_name body)
                 (ur_handler body) (ur_enabled body))) (\<lambda>found.
     eff_bind (policy_or_404 found) (\<lambda>policy.
     eff_bind (evict_session session_id) (\<lambda>_. eff_return (session_policy_response policy))))))"

definition delete_policy_route ::
    "policy_api \<Rightarrow> string option \<Rightarrow> string \<Rightarrow> string \<Rightarrow> (build_env, json dict) eff" where
  "delete_policy_route api user_id session_id policy_id =
     eff_bind (session_access api user_id session_id LEVEL_EDIT) (\<lambda>_.
     eff_bind (on_policies (delete_session_policy policy_id session_id)) (\<lambda>_.
     eff_bind (evict_session session_id) (\<lambda>_. eff_return [(''deleted'', JBool True)])))"

subsection \<open>Default policy routes\<close>

definition default_policy_response :: "stored_policy \<Rightarrow> json dict" where
  "default_policy_response p =
     [(''id'', JStr (sd_id p)), (''object'', JStr ''default_policy''), (''name'', JStr (sd_name p)),
      (''type'', JStr (sd_type p)), (''handler'', JStr (sd_handler p)), (''enabled'', JBool (sd_enabled p)),
      (''created_at'', JInt (sd_created_at p)),
      (''updated_at'', (case sd_updated_at p of None \<Rightarrow> JNull | Some n \<Rightarrow> JInt n)),
      (''created_by'', opt_str_json (sd_created_by p))] @
     (case sd_factory_params p of None \<Rightarrow> [] | Some d \<Rightarrow> [(''factory_params'', JDict d)])"

definition create_default_route ::
    "policy_api \<Rightarrow> string option \<Rightarrow> int \<Rightarrow> string \<Rightarrow> create_request \<Rightarrow> (build_env, json dict) eff" where
  "create_default_route api user_id now policy_id body =
     eff_bind (eff_lift (\<lambda>_. validate_type_and_handler body)) (\<lambda>_.
     eff_bind (require_admin api user_id) (\<lambda>_.
     eff_bind (if cr_type body \<noteq> ''python''
               then eff_raise (OmnigentError (''Default policies only support type='' @ sq ''python'' @ ''; type='' @
                      sq (cr_type body) @ '' cannot be evaluated. URL policy evaluation is a future extension.''))
               else check_handler api default_unregistered (cr_handler body) (cr_factory_params body)) (\<lambda>_.
     eff_bind (conflict_as (''Default policy with name '' @ sq (cr_name body) @ '' already exists'')
                 (on_policies (create_default_policy (pa_cksum api) now policy_id (cr_name body)
                    (cr_type body) (cr_handler body) (cr_factory_params body) True user_id))) (\<lambda>policy.
     eff_bind evict_defaults (\<lambda>_. eff_return (default_policy_response policy))))))"

definition update_default_route ::
    "policy_api \<Rightarrow> string option \<Rightarrow> int \<Rightarrow> string \<Rightarrow> update_request \<Rightarrow> (build_env, json dict) eff" where
  "update_default_route api user_id now policy_id body =
     eff_bind (require_admin api user_id) (\<lambda>_.
     eff_bind (check_new_handler api default_unregistered (get_default_policy policy_id) (ur_handler body)) (\<lambda>_.
     eff_bind (conflict_as (''Default policy with name '' @ sq (case ur_name body of None \<Rightarrow> ''None'' | Some n \<Rightarrow> n) @ '' already exists'')
                 (on_policies (update_default_policy (pa_cksum api) now policy_id (ur_name body)
                    (ur_handler body) (ur_enabled body)))) (\<lambda>found.
     eff_bind (policy_or_404 found) (\<lambda>policy.
     eff_bind evict_defaults (\<lambda>_. eff_return (default_policy_response policy))))))"

definition delete_default_route :: "policy_api \<Rightarrow> string option \<Rightarrow> string \<Rightarrow> (build_env, json dict) eff" where
  "delete_default_route api user_id policy_id =
     eff_bind (require_admin api user_id) (\<lambda>_.
     eff_bind (on_policies (delete_default_policy policy_id)) (\<lambda>_.
     eff_bind evict_defaults (\<lambda>_. eff_return [(''deleted'', JBool True)])))"

subsection \<open>Lemmas: steps that leave the environment alone\<close>

definition pure_eff :: "('s, 'a) eff \<Rightarrow> bool" where
  "pure_eff m \<longleftrightarrow> (\<forall>s. snd (m s) = s)"

lemma pure_effD: "pure_eff m \<Longrightarrow> m s = (r, t) \<Longrightarrow> t = s"
  unfolding pure_eff_def by (metis snd_conv)

lemma pure_bindE:
  assumes "eff_bind m k s = (r, t)" and "pure_eff m"
  obtains "t = s" | x where "m s = (Inr x, s)" and "k x s = (r, t)"
proof -
  obtain y u where m: "m s = (y, u)" by fastforce
  then have u: "u = s" using assms(2) by (rule pure_effD [rotated])
  show thesis
  proof (cases y)
    case (Inl e)
    then have "t = s" using assms(1) m u by (simp add: eff_bind_def)
    then show thesis by (rule that(1))
  next
    case (Inr x)
    then show thesis using assms(1) m u that(2) by (simp add: eff_bind_def)
  qed
qed

lemma pure_steps [simp]:
  "pure_eff (eff_lift f)" "pure_eff (eff_return x)" "pure_eff (eff_raise e)"
  "pure_eff (session_access api user_id sid level)" "pure_eff (require_session_exists sid)"
  "pure_eff (require_admin api user_id)" "pure_eff (check_handler api un h fp)"
  "pure_eff (policy_or_404 found)" "pure_eff (get_session_policy pid sid)" "pure_eff (get_default_policy pid)"
  by (auto simp: pure_eff_def session_access_def require_session_exists_def require_admin_def check_handler_def
      policy_or_404_def get_session_policy_def get_default_policy_def split: option.splits)

lemma pure_on_policies [simp]:
  assumes "pure_eff m"
  shows "pure_eff (on_policies m)"
  unfolding pure_eff_def
proof
  fix env :: build_env
  show "snd (on_policies m env) = env"
  proof (cases "be_policies env")
    case (Some rows)
    obtain r rows' where "m rows = (r, rows')" by fastforce
    moreover from this assms have "rows' = rows" by (rule pure_effD [rotated])
    ultimately show ?thesis using Some by (simp add: on_policies_def)
  qed (simp add: on_policies_def)
qed

lemma pure_bind [simp]: "pure_eff m \<Longrightarrow> (\<And>x. pure_eff (k x)) \<Longrightarrow> pure_eff (eff_bind m k)"
  unfolding pure_eff_def eff_bind_def by (auto split: prod.splits sum.splits) (metis snd_conv)+

lemma pure_check_new_handler [simp]:
  assumes "pure_eff lookup"
  shows "pure_eff (check_new_handler api un lookup h)"
proof (cases h)
  case (Some x)
  show ?thesis unfolding check_new_handler_def Some option.case
    by (intro pure_bind pure_on_policies assms) (auto split: option.split)
qed (simp add: check_new_handler_def)

subsection \<open>Lemmas: changes of the table\<close>

definition handler_ok :: "registry_entry dict \<Rightarrow> stored_policy \<Rightarrow> bool" where
  "handler_ok reg p \<longleftrightarrow> (sd_type p = ''python'' \<longrightarrow> is_registered_handler reg (sd_handler p))"

definition rows_ok :: "stored_policy list \<Rightarrow> bool" where
  "rows_ok rows \<longleftrightarrow> distinct (map sd_id rows) \<and>
     (\<forall>p \<in> set rows. sd_scope p = ''default'' \<longleftrightarrow> sd_session_id p = None)"

definition session_own :: "string \<Rightarrow> stored_policy \<Rightarrow> bool" where
  "session_own sid p \<longleftrightarrow> sd_session_id p = Some sid \<and> sd_scope p \<noteq> ''default''"

definition default_own :: "stored_policy \<Rightarrow> bool" where
  "default_own p \<longleftrightarrow> sd_session_id p = None \<and> sd_scope p = ''default''"

inductive row_change :: "registry_entry dict \<Rightarrow> (stored_policy \<Rightarrow> bool) \<Rightarrow> stored_policy list \<Rightarrow> stored_policy list \<Rightarrow> bool"
  for reg own rows where
  keep: "row_change reg own rows rows"
| add: "own p \<Longrightarrow> sd_id p \<notin> sd_id ` set rows \<Longrightarrow> handler_ok reg p \<Longrightarrow> row_change reg own rows (rows @ [p])"
| edit: "p \<in> set rows \<Longrightarrow> own p \<Longrightarrow> own q \<Longrightarrow> sd_id q = sd_id p \<Longrightarrow> (handler_ok reg p \<Longrightarrow> handler_ok reg q) \<Longrightarrow>
    row_change reg own rows (map (\<lambda>x. if sd_id x = sd_id q then q else x) rows)"
| drop: "p \<in> set rows \<Longrightarrow> own p \<Longrightarrow> row_change reg own rows (remove_policy (sd_id p) rows)"

lemma same_id: "distinct (map sd_id rows) \<Longrightarrow> p \<in> set rows \<Longrightarrow> x \<in> set rows \<Longrightarrow> sd_id x = sd_id p \<Longrightarrow> x = p"
  by (auto simp: distinct_map inj_on_def)

lemma row_change_ok:
  assumes "row_change reg own rows rows'" and "rows_ok rows" and "\<forall>p \<in> set rows. handler_ok reg p"
    and "\<And>p. own p \<Longrightarrow> sd_scope p = ''default'' \<longleftrightarrow> sd_session_id p = None"
  shows "rows_ok rows' \<and> (\<forall>p \<in> set rows'. handler_ok reg p)"
  using assms(1)
proof cases
  case keep
  then show ?thesis using assms(2,3) by simp
next
  case (add p)
  then show ?thesis using assms(2-4) by (auto simp: rows_ok_def)
next
  case (edit p q)
  have "map sd_id (map (\<lambda>x. if sd_id x = sd_id q then q else x) rows) = map sd_id rows" by simp
  then show ?thesis using edit assms(2-4) by (auto simp: rows_ok_def simp del: map_map)
next
  case (drop p)
  then show ?thesis using assms(2,3) by (auto simp: rows_ok_def remove_policy_def distinct_map inj_on_def)
qed

lemma row_change_filter:
  assumes "row_change reg own rows rows'" and "rows_ok rows" and "\<And>p. own p \<Longrightarrow> \<not> Q p"
  shows "filter Q rows' = filter Q rows"
  using assms(1)
proof cases
  case (edit p q)
  have "\<forall>x \<in> set rows. sd_id x = sd_id q \<longrightarrow> x = p"
    using same_id edit assms(2) by (auto simp: rows_ok_def)
  then have "filter Q (map (\<lambda>x. if sd_id x = sd_id q then q else x) rows) = filter Q rows"
    using assms(3) [OF edit(3)] assms(3) [OF edit(4)] by (induction rows) auto
  then show ?thesis using edit(1) by simp
next
  case (drop p)
  have "\<forall>x \<in> set rows. sd_id x = sd_id p \<longrightarrow> x = p"
    using same_id drop assms(2) by (auto simp: rows_ok_def)
  then have "filter Q (remove_policy (sd_id p) rows) = filter Q rows"
    unfolding remove_policy_def using assms(3) [OF drop(3)] by (induction rows) auto
  then show ?thesis using drop(1) by simp
qed (use assms(3) in auto)

subsection \<open>Lemmas: the operations of the store\<close>

lemma bind_uuid_Inr: "bind_uuid v = Inr h \<longleftrightarrow> uuid_to_hex v = Some h"
  by (simp add: bind_uuid_def split: option.splits)

lemma find_policy_some: "find_policy pid rows = Some p \<Longrightarrow> p \<in> set rows \<and> sd_id p = pid"
  by (auto simp: find_policy_def find_Some_iff)

lemma find_policy_none: "find_policy pid rows = None \<longleftrightarrow> pid \<notin> sd_id ` set rows"
  by (auto simp: find_policy_def find_None_iff)

lemma own_policy_found:
  assumes "own_policy pid sid rows = Inr (Some p)"
  shows "p \<in> set rows \<and> sd_session_id p = Some (normalize_uuid sid)"
  using assms find_policy_some
  by (auto simp: own_policy_def load_policy_def res_bind_Inr_iff split: option.splits if_splits)

lemma default_policy_found:
  assumes "default_policy pid rows = Inr (Some p)"
  shows "p \<in> set rows \<and> sd_scope p = ''default''"
  using assms find_policy_some
  by (auto simp: default_policy_def load_policy_def res_bind_Inr_iff split: option.splits if_splits)

lemma patched_fields [simp]:
  "sd_id (patched now name handler enabled p) = sd_id p"
  "sd_session_id (patched now name handler enabled p) = sd_session_id p"
  "sd_scope (patched now name handler enabled p) = sd_scope p"
  "sd_type (patched now name handler enabled p) = sd_type p"
  "sd_handler (patched now name handler enabled p) = (case handler of None \<Rightarrow> sd_handler p | Some h \<Rightarrow> h)"
  by (cases p; auto simp: patched_def Let_def split: option.split)+

lemma insert_policy_outcome:
  assumes "insert_policy cksum p rows = (r, rows')"
  shows "(\<exists>e. r = Inl e) \<and> rows' = rows \<or> r = Inr () \<and> sd_id p \<notin> sd_id ` set rows \<and> rows' = rows @ [p]"
  using assms by (auto simp: insert_policy_def find_policy_none split: if_splits)

lemma write_policy_outcome:
  assumes "write_policy cksum p rows = (r, rows')"
  shows "(\<exists>e. r = Inl e) \<and> rows' = rows \<or> r = Inr () \<and> rows' = map (\<lambda>q. if sd_id q = sd_id p then p else q) rows"
  using assms by (auto simp: write_policy_def split: if_splits)

text \<open>A statement that fails leaves the table alone; one that succeeds makes one change of the given kind.\<close>

definition outcome :: "registry_entry dict \<Rightarrow> (stored_policy \<Rightarrow> bool) \<Rightarrow> ('a \<Rightarrow> bool) \<Rightarrow> stored_policy list \<Rightarrow>
    'a res \<times> stored_policy list \<Rightarrow> bool" where
  "outcome reg own wrote rows = (\<lambda>(r, rows').
     row_change reg own rows rows' \<and> (case r of Inl _ \<Rightarrow> rows' = rows | Inr x \<Rightarrow> wrote x \<or> rows' = rows))"

lemma outcome_raise [simp]: "outcome reg own wrote rows (eff_raise e rows)"
  by (simp add: outcome_def eff_raise_def row_change.keep)

lemma outcome_lift [simp]: "outcome reg own wrote rows (eff_lift f rows)"
  by (simp add: outcome_def row_change.keep split: sum.split)

lemma outcome_bind_lift:
  assumes "\<And>x. f rows = Inr x \<Longrightarrow> outcome reg own wrote rows (k x rows)"
  shows "outcome reg own wrote rows (eff_bind (eff_lift f) k rows)"
  using assms by (cases "f rows") (simp_all add: eff_bind_def outcome_def row_change.keep)

lemma outcome_insert:
  assumes "own p" and "handler_ok reg p" and "wrote q"
  shows "outcome reg own wrote rows (eff_bind (insert_policy cksum p) (\<lambda>_. eff_return q) rows)"
proof -
  obtain r rows' where m: "insert_policy cksum p rows = (r, rows')" by fastforce
  show ?thesis
    using insert_policy_outcome [OF m] assms
    by (cases r) (auto simp: eff_bind_def m outcome_def eff_return_def intro: row_change.intros)
qed

lemma outcome_write:
  assumes "p \<in> set rows" and "own p" and "own q" and "sd_id q = sd_id p" and "handler_ok reg p \<Longrightarrow> handler_ok reg q"
    and "wrote x"
  shows "outcome reg own wrote rows (eff_bind (write_policy cksum q) (\<lambda>_. eff_return x) rows)"
proof -
  obtain r rows' where m: "write_policy cksum q rows = (r, rows')" by fastforce
  have "row_change reg own rows (map (\<lambda>x. if sd_id x = sd_id q then q else x) rows)"
    by (rule row_change.edit [OF assms(1-5)])
  then show ?thesis
    using write_policy_outcome [OF m] assms(6)
    by (cases r) (auto simp: eff_bind_def m outcome_def eff_return_def row_change.keep)
qed

lemma create_session_outcome:
  assumes "ptype = ''python'' \<longrightarrow> is_registered_handler reg handler"
  shows "outcome reg (session_own (normalize_uuid sid)) (\<lambda>_. True) rows
           (create_session_policy cksum now pid sid name ptype handler fp en rows)"
  unfolding create_session_policy_def Let_def
  using assms by (auto intro!: outcome_bind_lift outcome_insert simp: encode_policy_type_def bind_uuid_Inr
      normalize_uuid_def session_own_def handler_ok_def split: if_splits)

lemma create_default_outcome:
  assumes "ptype = ''python'' \<longrightarrow> is_registered_handler reg handler"
  shows "outcome reg default_own (\<lambda>_. True) rows
           (create_default_policy cksum now pid name ptype handler fp en created_by rows)"
  unfolding create_default_policy_def Let_def
  using assms by (auto intro!: outcome_bind_lift outcome_insert simp: encode_policy_type_def
      default_own_def handler_ok_def split: if_splits)

lemma update_session_outcome:
  assumes "rows_ok rows"
    and "\<And>h p. handler = Some h \<Longrightarrow> own_policy pid sid rows = Inr (Some p) \<Longrightarrow> sd_type p = ''python'' \<Longrightarrow>
           is_registered_handler reg h"
  shows "outcome reg (session_own (normalize_uuid sid)) (\<lambda>found. found \<noteq> None) rows
           (update_session_policy cksum now pid sid name handler en rows)"
  unfolding update_session_policy_def
proof (rule outcome_bind_lift)
  fix row assume row: "own_policy pid sid rows = Inr row"
  show "outcome reg (session_own (normalize_uuid sid)) (\<lambda>found. found \<noteq> None) rows
      ((case row of None \<Rightarrow> eff_return None | Some p \<Rightarrow> eff_bind (write_policy cksum (patched now name handler en p))
          (\<lambda>_. eff_return (Some (patched now name handler en p)))) rows)"
  proof (cases row)
    case (Some p)
    then show ?thesis
      using row own_policy_found [of pid sid rows p] assms
      by (auto intro!: outcome_write [where p = p] simp: session_own_def rows_ok_def handler_ok_def split: option.split)
  qed (simp add: outcome_def row_change.keep eff_return_def)
qed

lemma update_default_outcome:
  assumes "rows_ok rows"
    and "\<And>h p. handler = Some h \<Longrightarrow> default_policy pid rows = Inr (Some p) \<Longrightarrow> sd_type p = ''python'' \<Longrightarrow>
           is_registered_handler reg h"
  shows "outcome reg default_own (\<lambda>found. found \<noteq> None) rows
           (update_default_policy cksum now pid name handler en rows)"
  unfolding update_default_policy_def
proof (rule outcome_bind_lift)
  fix row assume row: "default_policy pid rows = Inr row"
  show "outcome reg default_own (\<lambda>found. found \<noteq> None) rows
      ((case row of None \<Rightarrow> eff_return None | Some p \<Rightarrow> eff_bind (eff_lift (\<lambda>rows. case name of None \<Rightarrow> Inr ()
          | Some n \<Rightarrow> if n \<noteq> sd_name p \<and> list_ex (\<lambda>q. sd_scope q = ''default'' \<and> cksum (sd_name q) = cksum n \<and> sd_id q \<noteq> sd_id p) rows
              then Inl (duplicate_default n) else Inr ())) (\<lambda>_. eff_bind (write_policy cksum (patched now name handler en p))
          (\<lambda>_. eff_return (Some (patched now name handler en p))))) rows)"
  proof (cases row)
    case (Some p)
    then show ?thesis
      using row default_policy_found [of pid rows p] assms
      by (auto intro!: outcome_bind_lift outcome_write [where p = p] simp: default_own_def rows_ok_def handler_ok_def
          split: option.split)
  qed (simp add: outcome_def row_change.keep eff_return_def)
qed

lemma delete_session_outcome:
  assumes "rows_ok rows"
  shows "outcome reg (session_own (normalize_uuid sid)) (\<lambda>_. True) rows (delete_session_policy pid sid rows)"
  unfolding delete_session_policy_def
  by (rule outcome_bind_lift)
     (use own_policy_found [of pid sid rows] assms in \<open>auto simp: outcome_def rows_ok_def session_own_def split: option.split
        intro: row_change.keep intro!: row_change.drop\<close>)

lemma delete_default_outcome:
  assumes "rows_ok rows"
  shows "outcome reg default_own (\<lambda>_. True) rows (delete_default_policy pid rows)"
  unfolding delete_default_policy_def
  by (rule outcome_bind_lift)
     (use default_policy_found [of pid rows] assms in \<open>auto simp: outcome_def rows_ok_def default_own_def split: option.split
        intro: row_change.keep intro!: row_change.drop\<close>)

subsection \<open>Lemmas: the routes\<close>

text \<open>What a route does to the environment: nothing, or one change of the table with its eviction.\<close>

definition policy_change :: "registry_entry dict \<Rightarrow> (stored_policy \<Rightarrow> bool) \<Rightarrow> (build_env \<Rightarrow> build_env) \<Rightarrow>
    build_env \<Rightarrow> build_env \<Rightarrow> bool" where
  "policy_change reg own evict env env' \<longleftrightarrow> env' = env \<or>
     (\<exists>rows rows'. be_policies env = Some rows \<and> row_change reg own rows rows' \<and>
        env' = evict (env\<lparr>be_policies := Some rows'\<rparr>))"

lemma policy_change_refl [simp]: "policy_change reg own evict env env"
  by (simp add: policy_change_def)

lemma policy_change_bind:
  assumes "pure_eff m" and "\<And>x. m env = (Inr x, env) \<Longrightarrow> policy_change reg own evict env (snd (k x env))"
  shows "policy_change reg own evict env (snd (eff_bind m k env))"
proof -
  obtain r t where "eff_bind m k env = (r, t)" by fastforce
  then show ?thesis using assms by (auto elim!: pure_bindE)
qed

lemma policy_change_commit:
  assumes "\<And>rows. be_policies env = Some rows \<Longrightarrow> outcome reg own wrote rows (m rows)"
    and "\<And>x env1. wrote x \<Longrightarrow> snd (k x env1) = evict env1"
    and "\<And>x env1. \<not> wrote x \<Longrightarrow> snd (k x env1) = env1"
  shows "policy_change reg own evict env (snd (eff_bind (on_policies m) k env))"
proof (cases "be_policies env")
  case (Some rows)
  obtain r rows' where m: "m rows = (r, rows')" by fastforce
  have same: "env\<lparr>be_policies := Some rows\<rparr> = env" using Some by simp
  show ?thesis
  proof (cases r)
    case (Inl e)
    then show ?thesis using assms(1) [OF Some] m Some
      by (simp add: outcome_def eff_bind_def on_policies_def same)
  next
    case (Inr x)
    then show ?thesis
      using assms(1) [OF Some] m Some same assms(2,3) [of x]
      by (cases "wrote x") (auto simp: outcome_def eff_bind_def on_policies_def policy_change_def)
  qed
qed (simp add: eff_bind_def on_policies_def)

lemma conflict_on_policies: "conflict_as msg (on_policies m) = on_policies (conflict_as msg m)"
  by (rule ext) (simp add: conflict_as_def on_policies_def split: option.split prod.split sum.split py_error.split)

lemma outcome_conflict:
  "outcome reg own wrote rows (m rows) \<Longrightarrow> outcome reg own wrote rows (conflict_as msg m rows)"
  by (auto simp: outcome_def conflict_as_def split: prod.splits sum.splits py_error.splits)

lemma handler_checked:
  assumes "check_new_handler api un lookup (Some h) env = (Inr (), env)" and "be_policies env = Some rows"
    and "lookup rows = (Inr (Some p), rows)" and "sd_type p = ''python''"
  shows "is_registered_handler (pa_registry api) h"
  using assms by (auto simp: check_new_handler_def eff_bind_def on_policies_def eff_raise_def split: if_splits)

lemma check_handler_registered:
  "check_handler api un h fp s = (Inr (), s) \<Longrightarrow> is_registered_handler (pa_registry api) h"
  by (auto simp: check_handler_def eff_raise_def split: if_splits)

lemmas route_defs = create_policy_route_def update_policy_route_def delete_policy_route_def
  create_default_route_def update_default_route_def delete_default_route_def

lemmas route_steps = evict_session_def evict_defaults_def eff_bind_def eff_return_def policy_or_404_def eff_raise_def

definition env_rows_ok :: "build_env \<Rightarrow> bool" where
  "env_rows_ok env \<longleftrightarrow> (\<forall>rows. be_policies env = Some rows \<longrightarrow> rows_ok rows)"

lemma create_policy_change:
  "policy_change (pa_registry api) (session_own (normalize_uuid sid)) (invalidate_session_policy_specs_cache sid) env
     (snd (create_policy_route api user now pid sid body env))"
  unfolding create_policy_route_def conflict_on_policies
proof ((rule policy_change_bind, (simp; fail))+, goal_cases)
  case (1 u1 u2 u3 u4)
  have "cr_type body = ''python'' \<longrightarrow> is_registered_handler (pa_registry api) (cr_handler body)"
    using 1(4) check_handler_registered by (auto split: if_splits)
  then show ?case
    by (intro policy_change_commit [where wrote = "\<lambda>_. True"] outcome_conflict create_session_outcome)
       (simp_all add: route_steps)
qed

lemma update_policy_change:
  assumes "env_rows_ok env"
  shows "policy_change (pa_registry api) (session_own (normalize_uuid sid)) (invalidate_session_policy_specs_cache sid) env
     (snd (update_policy_route api user now sid pid body env))"
  unfolding update_policy_route_def
proof ((rule policy_change_bind, (simp; fail))+, goal_cases)
  case (1 u1 u2)
  show ?case
  proof (rule policy_change_commit [where wrote = "\<lambda>found. found \<noteq> None"])
    fix rows assume rows: "be_policies env = Some rows"
    show "outcome (pa_registry api) (session_own (normalize_uuid sid)) (\<lambda>found. found \<noteq> None) rows
        (update_session_policy (pa_cksum api) now pid sid (ur_name body) (ur_handler body) (ur_enabled body) rows)"
    proof (rule update_session_outcome)
      show "rows_ok rows" using assms rows by (simp add: env_rows_ok_def)
      fix h p assume "ur_handler body = Some h" and "own_policy pid sid rows = Inr (Some p)" and "sd_type p = ''python''"
      then show "is_registered_handler (pa_registry api) h"
        using 1(2) rows handler_checked [where un = session_unregistered and lookup = "get_session_policy pid sid"]
        by (simp add: get_session_policy_def)
    qed
  qed (auto simp: route_steps)
qed

lemma delete_policy_change:
  assumes "env_rows_ok env"
  shows "policy_change (pa_registry api) (session_own (normalize_uuid sid)) (invalidate_session_policy_specs_cache sid) env
     (snd (delete_policy_route api user sid pid env))"
  unfolding delete_policy_route_def
  by (intro policy_change_bind policy_change_commit [where wrote = "\<lambda>_. True"] delete_session_outcome)
     (use assms in \<open>simp_all add: route_steps env_rows_ok_def\<close>)

lemma create_default_change:
  "policy_change (pa_registry api) default_own invalidate_default_policy_specs_cache env
     (snd (create_default_route api user now pid body env))"
  unfolding create_default_route_def conflict_on_policies
proof ((rule policy_change_bind, (simp; fail))+, goal_cases)
  case (1 u1 u2 u3)
  have "cr_type body = ''python'' \<longrightarrow> is_registered_handler (pa_registry api) (cr_handler body)"
    using 1(3) check_handler_registered by (auto simp: eff_raise_def split: if_splits)
  then show ?case
    by (intro policy_change_commit [where wrote = "\<lambda>_. True"] outcome_conflict create_default_outcome)
       (simp_all add: route_steps)
qed

lemma update_default_change:
  assumes "env_rows_ok env"
  shows "policy_change (pa_registry api) default_own invalidate_default_policy_specs_cache env
     (snd (update_default_route api user now pid body env))"
  unfolding update_default_route_def conflict_on_policies
proof ((rule policy_change_bind, (simp; fail))+, goal_cases)
  case (1 u1 u2)
  show ?case
  proof (rule policy_change_commit [where wrote = "\<lambda>found. found \<noteq> None"], rule outcome_conflict)
    fix rows assume rows: "be_policies env = Some rows"
    show "outcome (pa_registry api) default_own (\<lambda>found. found \<noteq> None) rows
        (update_default_policy (pa_cksum api) now pid (ur_name body) (ur_handler body) (ur_enabled body) rows)"
    proof (rule update_default_outcome)
      show "rows_ok rows" using assms rows by (simp add: env_rows_ok_def)
      fix h p assume "ur_handler body = Some h" and "default_policy pid rows = Inr (Some p)" and "sd_type p = ''python''"
      then show "is_registered_handler (pa_registry api) h"
        using 1(2) rows handler_checked [where un = default_unregistered and lookup = "get_default_policy pid"]
        by (simp add: get_default_policy_def)
    qed
  qed (auto simp: route_steps)
qed

lemma delete_default_change:
  assumes "env_rows_ok env"
  shows "policy_change (pa_registry api) default_own invalidate_default_policy_specs_cache env
     (snd (delete_default_route api user pid env))"
  unfolding delete_default_route_def
  by (intro policy_change_bind policy_change_commit [where wrote = "\<lambda>_. True"] delete_default_outcome)
     (use assms in \<open>simp_all add: route_steps env_rows_ok_def\<close>)

end
