(* ===== verification/Policy_Cache.thy ===== *)
theory Policy_Cache
  imports Policy_Admin
begin

text \<open>
  The caches of policy specs (\<open>_SESSION_POLICY_SPECS_CACHE\<close> and \<open>_DEFAULT_POLICY_SPECS_CACHE\<close> of
  \<open>src/omnigent/runtime/policies/builder.py\<close>) under the routes of \<open>Policy_Admin\<close>: the interface of such
  a cache as a locale, its two instances, the steps of a running server, and what holds after any
  sequence of them.
\<close>

subsection \<open>Caches over the table\<close>

text \<open>
  What both caches of specs promise: a load answers from the entry of its key or computes the value of
  the current rows and may store it, an eviction drops the entry of its key, and the value of a key
  depends only on the rows that are relevant to it.
\<close>

locale spec_cache =
  fixes cached :: "builder_caches \<Rightarrow> 'k \<Rightarrow> policy_spec list option"
    and current :: "stored_policy list \<Rightarrow> 'k \<Rightarrow> policy_spec list res"
    and load :: "'k \<Rightarrow> (build_env, policy_spec list) eff"
    and evict :: "'k \<Rightarrow> build_env \<Rightarrow> build_env"
    and relevant :: "'k \<Rightarrow> stored_policy \<Rightarrow> bool"
    and owned :: "'k \<Rightarrow> stored_policy \<Rightarrow> bool"
    and valid :: "'k \<Rightarrow> bool"
  assumes load_hit: "\<lbrakk>be_policies env = Some rows; cached (be_caches env) k = Some specs\<rbrakk> \<Longrightarrow> load k env = (Inr specs, env)"
    and load_miss: "\<lbrakk>be_policies env = Some rows; cached (be_caches env) k = None\<rbrakk> \<Longrightarrow> fst (load k env) = current rows k"
    and load_rows: "be_policies (snd (load k env)) = be_policies env"
    and load_stores: "\<lbrakk>be_policies env = Some rows; cached (be_caches (snd (load k env))) k' = Some specs\<rbrakk> \<Longrightarrow>
          cached (be_caches env) k' = Some specs \<or> k' = k \<and> current rows k = Inr specs"
    and evict_rows: "be_policies (evict k env) = be_policies env"
    and evict_drops: "cached (be_caches (evict k env)) k' = (if k' = k then None else cached (be_caches env) k')"
    and current_local: "\<lbrakk>valid k; filter (relevant k) rows' = filter (relevant k) rows\<rbrakk> \<Longrightarrow> current rows' k = current rows k"
    and owned_apart: "\<lbrakk>valid k; valid k'; k' \<noteq> k; owned k p\<rbrakk> \<Longrightarrow> \<not> relevant k' p"
begin

definition coherent :: "build_env \<Rightarrow> bool" where
  "coherent env \<longleftrightarrow> (\<forall>rows k specs. be_policies env = Some rows \<longrightarrow> cached (be_caches env) k = Some specs \<longrightarrow>
     valid k \<and> current rows k = Inr specs)"

lemma coherentD:
  "\<lbrakk>coherent env; be_policies env = Some rows; cached (be_caches env) k = Some specs\<rbrakk> \<Longrightarrow> valid k \<and> current rows k = Inr specs"
  by (simp add: coherent_def)

lemma load_current:
  assumes "coherent env" and "be_policies env = Some rows"
  shows "fst (load k env) = current rows k"
proof (cases "cached (be_caches env) k")
  case None
  then show ?thesis using load_miss assms(2) by simp
next
  case (Some specs)
  then show ?thesis using load_hit [OF assms(2)] coherentD [OF assms] by simp
qed

lemma load_keeps_coherent:
  assumes "coherent env" and "valid k"
  shows "coherent (snd (load k env))"
  unfolding coherent_def load_rows using load_stores assms by (metis coherentD)

lemma own_change_coherent:
  assumes "coherent env" and "be_policies env = Some rows" and "rows_ok rows" and "valid k"
    and "row_change reg (owned k) rows rows'"
  shows "coherent (evict k (env\<lparr>be_policies := Some rows'\<rparr>))"
  unfolding coherent_def evict_rows evict_drops
proof (intro allI impI)
  fix rows1 k' specs
  assume "be_policies (env\<lparr>be_policies := Some rows'\<rparr>) = Some rows1"
    and "(if k' = k then None else cached (be_caches (env\<lparr>be_policies := Some rows'\<rparr>)) k') = Some specs"
  then have "k' \<noteq> k" and old: "cached (be_caches env) k' = Some specs" and rows1: "rows1 = rows'"
    by (simp_all split: if_splits)
  moreover have v: "valid k'" and "current rows k' = Inr specs" using coherentD [OF assms(1,2) old] by simp_all
  moreover have "filter (relevant k') rows' = filter (relevant k') rows"
    by (rule row_change_filter [OF assms(5,3)]) (use owned_apart assms(4) v \<open>k' \<noteq> k\<close> in blast)
  ultimately show "valid k' \<and> current rows1 k' = Inr specs" by (metis current_local)
qed

lemma other_change_coherent:
  assumes "coherent env" and "be_policies env = Some rows" and "rows_ok rows"
    and "row_change reg own rows rows'" and "\<And>k p. valid k \<Longrightarrow> own p \<Longrightarrow> \<not> relevant k p"
    and "be_policies env' = Some rows'" and "cached (be_caches env') = cached (be_caches env)"
  shows "coherent env'"
  unfolding coherent_def
proof (intro allI impI)
  fix rows1 k specs assume r: "be_policies env' = Some rows1" and "cached (be_caches env') k = Some specs"
  then have "valid k \<and> current rows k = Inr specs" using coherentD [OF assms(1,2)] assms(7) by simp
  moreover from this have "filter (relevant k) rows' = filter (relevant k) rows"
    by (intro row_change_filter [OF assms(4,3)]) (use assms(5) in blast)
  moreover have "rows1 = rows'" using r assms(6) by simp
  ultimately show "valid k \<and> current rows1 k = Inr specs" by (metis current_local)
qed

lemma coherent_subset:
  assumes "coherent env" and "be_policies env' = be_policies env"
    and "\<And>k specs. cached (be_caches env') k = Some specs \<Longrightarrow> cached (be_caches env) k = Some specs"
  shows "coherent env'"
  using assms unfolding coherent_def by metis

end

definition session_cached :: "builder_caches \<Rightarrow> string \<Rightarrow> policy_spec list option" where
  "session_cached c cid = dict_get (bc_session_specs c) cid"

definition session_current :: "stored_policy list \<Rightarrow> string \<Rightarrow> policy_spec list res" where
  "session_current rows cid =
     res_bind (list_for_session rows cid) (\<lambda>stored. res_map stored_policy_to_spec (filter sd_enabled stored))"

definition default_cached :: "builder_caches \<Rightarrow> unit \<Rightarrow> policy_spec list option" where
  "default_cached c u = bc_default_specs c"

definition default_current :: "stored_policy list \<Rightarrow> unit \<Rightarrow> policy_spec list res" where
  "default_current rows u =
     res_map stored_policy_to_spec (filter (\<lambda>p. sd_type p = ''python'') (filter sd_enabled (list_defaults rows)))"

definition canonical_id :: "string \<Rightarrow> bool" where
  "canonical_id sid \<longleftrightarrow> uuid_to_hex sid = Some sid"

interpretation session_specs: spec_cache session_cached session_current load_session_policy_specs
    invalidate_session_policy_specs_cache "\<lambda>cid p. sd_session_id p = Some cid" session_own canonical_id
  by unfold_locales
     (auto simp: session_cached_def session_current_def load_session_policy_specs_def
        invalidate_session_policy_specs_cache_def list_for_session_def session_policies_def bind_uuid_def
        canonical_id_def session_own_def dict_get_def split: option.splits sum.splits if_splits)

interpretation default_specs: spec_cache default_cached default_current "\<lambda>_. load_default_policy_specs"
    "\<lambda>_. invalidate_default_policy_specs_cache" "\<lambda>_ p. sd_scope p = ''default''" "\<lambda>_. default_own" "\<lambda>_. True"
  by unfold_locales
     (auto simp: default_cached_def default_current_def load_default_policy_specs_def
        invalidate_default_policy_specs_cache_def list_defaults_def split: option.splits sum.splits if_splits)

subsection \<open>Administration steps\<close>

text \<open>
  The steps of a server that change the policy table or its caches, for clients that use the session
  ids \<open>ids\<close>: the mutating routes, the loads of the builder, the loss of cache entries (the bound and
  the time limit of the caches) and changes of the conversation tables.
\<close>

definition fewer_entries :: "builder_caches \<Rightarrow> builder_caches \<Rightarrow> bool" where
  "fewer_entries c c' \<longleftrightarrow>
     (\<forall>k specs. dict_get (bc_session_specs c') k = Some specs \<longrightarrow> dict_get (bc_session_specs c) k = Some specs) \<and>
     (\<forall>specs. bc_default_specs c' = Some specs \<longrightarrow> bc_default_specs c = Some specs)"

inductive policy_step :: "policy_api \<Rightarrow> string set \<Rightarrow> build_env \<Rightarrow> build_env \<Rightarrow> bool" for api ids where
  create_session: "sid \<in> ids \<Longrightarrow> policy_step api ids env (snd (create_policy_route api user now pid sid body env))"
| update_session: "sid \<in> ids \<Longrightarrow> policy_step api ids env (snd (update_policy_route api user now sid pid changes env))"
| delete_session: "sid \<in> ids \<Longrightarrow> policy_step api ids env (snd (delete_policy_route api user sid pid env))"
| create_default: "policy_step api ids env (snd (create_default_route api user now pid body env))"
| update_default: "policy_step api ids env (snd (update_default_route api user now pid changes env))"
| delete_default: "policy_step api ids env (snd (delete_default_route api user pid env))"
| load_session: "sid \<in> ids \<Longrightarrow> policy_step api ids env (snd (load_session_policy_specs sid env))"
| load_default: "policy_step api ids env (snd (load_default_policy_specs env))"
| expire: "fewer_entries (be_caches env) c \<Longrightarrow> policy_step api ids env (env\<lparr>be_caches := c\<rparr>)"
| conversations: "policy_step api ids env (env\<lparr>be_store := s\<rparr>)"

definition rows_inv :: "policy_api \<Rightarrow> build_env \<Rightarrow> bool" where
  "rows_inv api env \<longleftrightarrow> (\<forall>rows. be_policies env = Some rows \<longrightarrow>
     rows_ok rows \<and> (\<forall>p \<in> set rows. handler_ok (pa_registry api) p))"

lemma rows_inv_env_ok: "rows_inv api env \<Longrightarrow> env_rows_ok env"
  by (simp add: rows_inv_def env_rows_ok_def)

lemma rows_inv_change:
  assumes "rows_inv api env" and "policy_change (pa_registry api) own evict env env'"
    and "\<And>p. own p \<Longrightarrow> sd_scope p = ''default'' \<longleftrightarrow> sd_session_id p = None"
    and "\<And>e. be_policies (evict e) = be_policies e"
  shows "rows_inv api env'"
proof (cases "env' = env")
  case False
  then obtain rows rows' where r: "be_policies env = Some rows" "row_change (pa_registry api) own rows rows'"
      "env' = evict (env\<lparr>be_policies := Some rows'\<rparr>)"
    using assms(2) by (auto simp: policy_change_def)
  have "be_policies env' = Some rows'" using r(3) assms(4) by simp
  moreover have "rows_ok rows' \<and> (\<forall>p \<in> set rows'. handler_ok (pa_registry api) p)"
    using row_change_ok [OF r(2) _ _ assms(3)] assms(1) r(1) by (simp add: rows_inv_def)
  ultimately show ?thesis by (simp add: rows_inv_def)
qed (use assms(1) in simp)

lemma own_scopes:
  "session_own sid p \<Longrightarrow> sd_scope p = ''default'' \<longleftrightarrow> sd_session_id p = None"
  "default_own p \<Longrightarrow> sd_scope p = ''default'' \<longleftrightarrow> sd_session_id p = None"
  by (simp_all add: session_own_def default_own_def)

lemma policy_step_cases:
  assumes "policy_step api ids env env'" and "env_rows_ok env"
  obtains (session) sid where "sid \<in> ids" and "policy_change (pa_registry api) (session_own (normalize_uuid sid))
      (invalidate_session_policy_specs_cache sid) env env'"
  | (defaults) "policy_change (pa_registry api) default_own invalidate_default_policy_specs_cache env env'"
  | (load) sid where "sid \<in> ids" and "env' = snd (load_session_policy_specs sid env)"
  | (load_defaults) "env' = snd (load_default_policy_specs env)"
  | (other) "be_policies env' = be_policies env" and "fewer_entries (be_caches env) (be_caches env')"
  using assms(1)
  by cases (auto simp: fewer_entries_def intro: session create_policy_change update_policy_change [OF assms(2)]
      delete_policy_change [OF assms(2)] defaults create_default_change update_default_change [OF assms(2)]
      delete_default_change [OF assms(2)] load load_defaults other)

lemma policy_step_rows:
  assumes "policy_step api ids env env'" and "rows_inv api env"
  shows "rows_inv api env'"
  using assms(1) rows_inv_env_ok [OF assms(2)]
proof (cases rule: policy_step_cases)
  case session
  then show ?thesis using rows_inv_change [OF assms(2)] own_scopes session_specs.evict_rows by blast
next
  case defaults
  then show ?thesis using rows_inv_change [OF assms(2)] own_scopes default_specs.evict_rows by blast
qed (use assms(2) in \<open>simp_all add: rows_inv_def session_specs.load_rows default_specs.load_rows\<close>)






lemma policy_steps_rows:
  "(policy_step api ids)\<^sup>*\<^sup>* env env' \<Longrightarrow> rows_inv api env \<Longrightarrow> rows_inv api env'"
  by (induction rule: rtranclp_induct) (auto intro: policy_step_rows)


definition no_caches :: builder_caches where
  "no_caches = \<lparr>bc_session_specs = [], bc_default_specs = None, bc_owners = []\<rparr>"


subsection \<open>Properties\<close>

text \<open>
  C34. No sequence of requests stores a policy that runs unregistered code: whatever the
  clients send to the session and default policy routes, with whatever session ids, every stored python
  policy names a handler of the registry, so the builder never imports a path that a client chose.
\<close>

theorem stored_handlers_registered:
  assumes "(policy_step api ids)\<^sup>*\<^sup>* env env'" and "be_policies env = Some rows0" and "rows_ok rows0"
    and "\<forall>p \<in> set rows0. handler_ok (pa_registry api) p"
    and "be_policies env' = Some rows" and "p \<in> set rows" and "sd_type p = ''python''"
  shows "is_registered_handler (pa_registry api) (sd_handler p)"
proof -
  have "rows_inv api env" using assms(2-4) by (simp add: rows_inv_def)
  then have "rows_inv api env'" by (rule policy_steps_rows [OF assms(1)])
  then show ?thesis using assms(5-7) by (simp add: rows_inv_def handler_ok_def)
qed


subsection \<open>A server with one registered handler\<close>

definition demo_api :: policy_api where
  "demo_api = \<lparr>pa_registry = [(''guards.deny_all'', \<lparr>re_handler = ''guards.deny_all'', re_kind = ''callable'',
       re_name = ''deny_all'', re_description = [], re_params_schema = None, re_internal_only = False\<rparr>)],
     pa_cksum = id, pa_perms = False, pa_users = []\<rparr>"

definition demo_body :: create_request where
  "demo_body = \<lparr>cr_name = ''deny_all'', cr_type = ''python'', cr_handler = ''guards.deny_all'', cr_factory_params = None\<rparr>"

definition admin_env :: build_env where
  "admin_env = demo_env\<lparr>be_policies := Some []\<rparr>"

definition deny_row :: stored_policy where
  "deny_row = deny_all_row\<lparr>sd_id := demo_session_id\<rparr>"

lemma demo_fields [simp]:
  "cr_name demo_body = ''deny_all''" "cr_type demo_body = ''python''" "cr_handler demo_body = ''guards.deny_all''"
  "cr_factory_params demo_body = None" "pa_perms demo_api = False" "pa_cksum demo_api = id"
  by (simp_all add: demo_body_def demo_api_def)

lemma demo_body_ok: "validate_type_and_handler demo_body = Inr ()"
  by code_simp

lemma demo_check: "check_handler demo_api un ''guards.deny_all'' None s = (Inr (), s)"
  by (simp add: check_handler_def demo_api_def is_registered_handler_def dict_has_def
      validate_factory_params_def dict_get_def list_or_def eff_return_def)

lemma demo_create_default:
  "snd (create_default_route demo_api None 1 demo_session_id demo_body admin_env) =
     admin_env\<lparr>be_policies := Some [deny_row]\<rparr>"
proof -
  have "eff_bind (insert_policy id deny_row) (\<lambda>_. eff_return deny_row) [] = (Inr deny_row, [deny_row])"
    by (simp add: insert_policy_def eff_bind_def find_policy_def name_taken_def eff_return_def)
  then have "create_default_policy id 1 demo_session_id ''deny_all'' ''python'' ''guards.deny_all'' None True None [] =
      (Inr deny_row, [deny_row])"
    by (simp add: create_default_policy_def eff_bind_def encode_policy_type_def bind_uuid_def demo_session_id_hex
        deny_row_def deny_all_row_def stored_params_def list_or_def)
  then show ?thesis
    unfolding create_default_route_def
    by (simp add: demo_body_ok eff_bind_def require_admin_def demo_check eff_return_def conflict_as_def
        on_policies_def admin_env_def demo_env_def evict_defaults_def invalidate_default_policy_specs_cache_def)
qed

lemma demo_steps:
  "(policy_step demo_api {demo_session_id})\<^sup>*\<^sup>* admin_env (admin_env\<lparr>be_policies := Some [deny_row]\<rparr>)"
  using policy_step.create_default [of demo_api "{demo_session_id}" admin_env None 1 demo_session_id demo_body]
  unfolding demo_create_default by (rule r_into_rtranclp)

lemma stored_handlers_registered_witness:
  "is_registered_handler (pa_registry demo_api) (sd_handler deny_row)"
  using stored_handlers_registered [OF demo_steps, of "[]" "[deny_row]" deny_row]
  by (simp add: admin_env_def rows_ok_def) (simp add: deny_row_def deny_all_row_def)


text \<open>
  A request that names the session by its legacy id evicts the wrong key: the builder goes on with the
  specs it had cached before the policy was added.
\<close>

definition session_env :: build_env where
  "session_env = admin_env\<lparr>be_store := demo_store\<lparr>st_convs :=
     [(hd (st_convs demo_store))\<lparr>cv_id := demo_session_id, cv_root := demo_session_id\<rparr>]\<rparr>\<rparr>"

definition alias_id :: string where
  "alias_id = ''conv_'' @ demo_session_id"

lemma alias_id_hex: "uuid_to_hex alias_id = Some demo_session_id"
  by code_simp

definition alias_row :: stored_policy where
  "alias_row = deny_row\<lparr>sd_session_id := Some demo_session_id, sd_scope := ''session''\<rparr>"

lemma alias_create:
  "create_session_policy id 1 demo_session_id alias_id ''deny_all'' ''python'' ''guards.deny_all'' None True [] =
     (Inr (alias_row\<lparr>sd_session_id := Some alias_id\<rparr>), [alias_row])"
  by (simp add: create_session_policy_def eff_bind_def encode_policy_type_def bind_uuid_def demo_session_id_hex
      alias_id_hex alias_row_def deny_row_def deny_all_row_def stored_params_def list_or_def insert_policy_def
      find_policy_def name_taken_def eff_return_def Let_def)

lemma session_loaded:
  "load_session_policy_specs demo_session_id session_env =
     (Inr [], session_env\<lparr>be_caches := no_caches\<lparr>bc_session_specs := [(demo_session_id, [])]\<rparr>\<rparr>)"
  by (simp add: load_session_policy_specs_def session_env_def admin_env_def demo_env_def dict_get_def no_caches_def
      list_for_session_def bind_uuid_def demo_session_id_hex session_policies_def policy_order_def)

lemma stale_after_alias:
  defines "env1 \<equiv> snd (load_session_policy_specs demo_session_id session_env)"
  defines "env2 \<equiv> snd (create_policy_route demo_api None 1 demo_session_id alias_id demo_body env1)"
  shows "be_policies env2 = Some [alias_row] \<and>
         fst (load_session_policy_specs demo_session_id env2) = Inr [] \<and>
         fst (load_session_policy_specs demo_session_id (env2\<lparr>be_caches := no_caches\<rparr>)) =
           Inr [function_spec ''deny_all'' ''guards.deny_all'' None]"
proof -
  have ne: "demo_session_id \<noteq> alias_id" by (simp add: alias_id_def demo_session_id_def)
  have conv: "get_conversation (be_store env1) demo_session_id \<noteq> None"
    unfolding env1_def session_loaded by (simp add: session_env_def get_conversation_def)
  have rows: "be_policies env1 = Some []" unfolding env1_def session_loaded by (simp add: session_env_def admin_env_def)
  have "session_access demo_api None alias_id LEVEL_EDIT env1 = (Inr (), env1)"
    by (simp add: session_access_def require_access_def)
  then have env2: "env2 = invalidate_session_policy_specs_cache alias_id (env1\<lparr>be_policies := Some [alias_row]\<rparr>)"
    using conv by (auto simp: env2_def create_policy_route_def demo_body_ok eff_bind_def require_session_exists_def
        normalize_uuid_def alias_id_hex demo_check conflict_as_def on_policies_def rows alias_create evict_session_def
        eff_return_def)
  have spec: "stored_policy_to_spec alias_row = Inr (function_spec ''deny_all'' ''guards.deny_all'' None)" "sd_enabled alias_row"
    by (simp_all add: alias_row_def deny_row_def deny_all_row_def stored_policy_to_spec_def)
  have list: "list_for_session [alias_row] demo_session_id = Inr [alias_row]"
    by (simp add: list_for_session_def bind_uuid_def demo_session_id_hex session_policies_def policy_order_def alias_row_def)
  have caches: "dict_get (bc_session_specs (be_caches env2)) demo_session_id = Some []"
    unfolding env2 env1_def session_loaded using ne by (simp add: invalidate_session_policy_specs_cache_def dict_get_def)
  have "be_policies env2 = Some [alias_row]" by (simp add: env2 invalidate_session_policy_specs_cache_def)
  then show ?thesis
    using caches by (simp add: load_session_policy_specs_def no_caches_def dict_get_def list spec)
qed

end
