(* ===== verification/Elicitation.thy ===== *)
theory Elicitation
  imports Policy_Engine
begin

text \<open>
  The approval round trip of a pending decision (\<open>src/omnigent/runtime/policies/approval.py\<close>).

  The three callbacks are seams of the code: \<open>register\<close> and \<open>emit\<close> append to recorders of the
  state, the outcome of \<open>park\<close> is an argument (a timeout, or the verdict text, possibly missing).
  The decoder of the verdict text (\<open>json.loads\<close>) is an argument too, \<open>None\<close> for text that does
  not decode: the theorems hold for every decoder. The generated id is an argument.
\<close>

subsection \<open>Definitions\<close>

record elicitation_request =
  er_message :: string
  er_phase :: string
  er_policy_names :: "string list"
  er_content_preview :: string
  er_requested_schema :: "json dict"

definition er_policy_name :: "elicitation_request \<Rightarrow> string" where
  "er_policy_name r = (case er_policy_names r of [] \<Rightarrow> [] | p # _ \<Rightarrow> p)"

definition truncate_preview :: "string \<Rightarrow> nat \<Rightarrow> string" where
  "truncate_preview txt limit =
     (if length txt \<le> limit then txt else take limit txt @ '' [truncated]'')"

definition resolve_elicitation_mode :: "string option \<Rightarrow> string" where
  "resolve_elicitation_mode env =
     (let raw = strip (lower (case env of None \<Rightarrow> ''url'' | Some v \<Rightarrow> v)) in
      if raw = ''url'' \<or> raw = ''form'' then raw else ''url'')"

definition elicitation_params :: "string \<Rightarrow> elicitation_request \<Rightarrow> json dict" where
  "elicitation_params mode el =
     [(''mode'', JStr mode), (''message'', JStr (er_message el)),
      (''requestedSchema'', JDict (er_requested_schema el)), (''phase'', JStr (er_phase el)),
      (''policy_name'', JStr (er_policy_name el)), (''content_preview'', JStr (er_content_preview el))]"

definition build_elicitation_request_event ::
    "string \<Rightarrow> string \<Rightarrow> elicitation_request \<Rightarrow> string option \<Rightarrow> json" where
  "build_elicitation_request_event elicitation_mode elicitation_id el session_id =
     (let url_mode = session_id \<noteq> None \<and> elicitation_mode = ''url'';
          params = elicitation_params (if url_mode then ''url'' else ''form'') el;
          params = (if length (er_policy_names el) > 1
                    then params @ [(''policy_names'', JList (map JStr (er_policy_names el)))] else params);
          params = (if url_mode
                    then params @ [(''url'', JStr (''/approve/'' @ the session_id @ ''/'' @ elicitation_id))]
                    else params)
      in JDict [(''type'', JStr ''response.elicitation_request''), (''elicitation_id'', JStr elicitation_id),
                (''method'', JStr ''elicitation/create''), (''params'', JDict params)])"

text \<open>The value that \<open>build_elicitation_params_json\<close> serializes.\<close>

definition build_elicitation_params :: "elicitation_request \<Rightarrow> json" where
  "build_elicitation_params el = JDict (elicitation_params ''form'' el)"

definition resolve_ask_timeout :: "engine \<Rightarrow> policy_result \<Rightarrow> int" where
  "resolve_ask_timeout e result =
     (case spec_for e (deciding_policy result) of
        None \<Rightarrow> en_ask_timeout e
      | Some spec \<Rightarrow> (case sp_ask_timeout spec of None \<Rightarrow> en_ask_timeout e | Some t \<Rightarrow> t))"

definition verdict_action_is :: "string \<Rightarrow> (string \<Rightarrow> json option) \<Rightarrow> string option \<Rightarrow> bool" where
  "verdict_action_is action loads raw =
     (case raw of
        None \<Rightarrow> False
      | Some txt \<Rightarrow>
          (case loads txt of
             Some (JDict parsed) \<Rightarrow> dict_get parsed ''action'' = Some (JStr action)
           | _ \<Rightarrow> False))"

definition is_explicit_decline :: "(string \<Rightarrow> json option) \<Rightarrow> string option \<Rightarrow> bool" where
  "is_explicit_decline = verdict_action_is ''decline''"

definition parse_verdict :: "(string \<Rightarrow> json option) \<Rightarrow> string option \<Rightarrow> bool" where
  "parse_verdict = verdict_action_is ''accept''"

datatype park_outcome = ParkTimeout | ParkVerdict "string option"

record elicit_state =
  es_engine :: engine
  es_registered :: "(string \<times> string \<times> json) list"
  es_emitted :: "json list"
  es_parked :: "(string \<times> int) list"

definition elicitation_for :: "policy_result \<Rightarrow> phase \<Rightarrow> string \<Rightarrow> elicitation_request" where
  "elicitation_for result ph content_preview =
     \<lparr>er_message = str_or (pr_reason result) [], er_phase = phase_value ph,
      er_policy_names = (if list_or (pr_deciding_policies result) = [] then [[]]
                         else list_or (pr_deciding_policies result)),
      er_content_preview = truncate_preview content_preview 1024, er_requested_schema = []\<rparr>"

definition on_engine :: "(engine, 'a) eff \<Rightarrow> (elicit_state, 'a) eff" where
  "on_engine m = (\<lambda>st. case m (es_engine st) of (r, e) \<Rightarrow> (r, st\<lparr>es_engine := e\<rparr>))"

definition apply_approved :: "(string \<Rightarrow> rat option) \<Rightarrow> policy_result \<Rightarrow> (engine, unit) eff" where
  "apply_approved parse result =
     eff_bind (if list_or (pr_set_labels result) \<noteq> [] then apply_label_writes (list_or (pr_set_labels result))
               else eff_return ())
       (\<lambda>_. if list_or (pr_state_updates result) \<noteq> [] then apply_state_updates parse (list_or (pr_state_updates result))
            else eff_return ())"

definition announce :: "string \<Rightarrow> string \<Rightarrow> string \<Rightarrow> policy_result \<Rightarrow> elicitation_request \<Rightarrow> elicit_state \<Rightarrow> elicit_state" where
  "announce elicitation_mode elicitation_id task_id result el st =
     st\<lparr>es_registered := es_registered st @ [(elicitation_id, task_id, build_elicitation_params el)],
        es_emitted := es_emitted st @ [build_elicitation_request_event elicitation_mode elicitation_id el None],
        es_parked := es_parked st @ [(elicitation_id, resolve_ask_timeout (es_engine st) result)]\<rparr>"

definition await_elicitation ::
    "(string \<Rightarrow> rat option) \<Rightarrow> (string \<Rightarrow> json option) \<Rightarrow> string \<Rightarrow> string \<Rightarrow> string \<Rightarrow> policy_result \<Rightarrow> phase \<Rightarrow>
     string \<Rightarrow> park_outcome \<Rightarrow> (elicit_state, bool) eff" where
  "await_elicitation parse loads elicitation_mode elicitation_id task_id result ph content_preview outcome = (\<lambda>st.
     (let st = announce elicitation_mode elicitation_id task_id result (elicitation_for result ph content_preview) st in
      case outcome of
        ParkTimeout \<Rightarrow> (Inr False, st)
      | ParkVerdict raw \<Rightarrow>
          (if is_explicit_decline loads raw then
             (Inl (ElicitationDeclinedError (str_or (pr_reason result) []) (deciding_policy result)), st)
           else if parse_verdict loads raw then
             eff_bind (on_engine (apply_approved parse result)) (\<lambda>_. eff_return True) st
           else (Inr False, st))))"

subsection \<open>Lemmas\<close>

lemma announce_engine [simp]: "es_engine (announce md i t r el st) = es_engine st"
  by (simp add: announce_def)

lemma not_accept_and_decline: "parse_verdict loads raw \<Longrightarrow> \<not> is_explicit_decline loads raw"
  by (auto simp: parse_verdict_def is_explicit_decline_def verdict_action_is_def
      split: option.splits json.splits)

lemma apply_label_writes_Nil [simp]: "apply_label_writes [] = eff_return ()"
  by (rule ext) (simp add: apply_label_writes_def)

lemma apply_state_updates_Nil [simp]: "apply_state_updates parse [] = eff_return ()"
  by (simp add: apply_state_updates_def)

lemma list_or_opt_nonempty [simp]: "list_or (opt_nonempty xs) = xs"
  by (simp add: opt_nonempty_def)

lemma apply_approved_eq:
  "apply_approved parse result =
     eff_bind (apply_label_writes (list_or (pr_set_labels result)))
       (\<lambda>_. apply_state_updates parse (list_or (pr_state_updates result)))"
  unfolding apply_approved_def
  by (cases "list_or (pr_set_labels result) = []"; cases "list_or (pr_state_updates result) = []") simp_all

lemma composed_result_writes [simp]:
  "list_or (pr_set_labels (composed_result vs)) = all_labels vs"
  "list_or (pr_state_updates (composed_result vs)) = all_updates vs"
  by (auto simp: composed_result_def split: option.splits)

lemma await_not_accepted:
  assumes "case outcome of ParkTimeout \<Rightarrow> True | ParkVerdict raw \<Rightarrow> \<not> parse_verdict loads raw"
  shows "es_engine (snd (await_elicitation parse loads md i t result ph cp outcome st)) = es_engine st \<and>
         fst (await_elicitation parse loads md i t result ph cp outcome st) \<noteq> Inr True"
  using assms by (auto simp: await_elicitation_def Let_def split: park_outcome.splits)

lemma await_accepted:
  assumes "parse_verdict loads raw"
  shows "map_prod id es_engine (await_elicitation parse loads md i t result ph cp (ParkVerdict raw) st) =
           eff_bind (apply_approved parse result) (\<lambda>_. eff_return True) (es_engine st)"
proof -
  have "\<not> is_explicit_decline loads raw" by (rule not_accept_and_decline [OF assms])
  then have run: "await_elicitation parse loads md i t result ph cp (ParkVerdict raw) st =
      eff_bind (on_engine (apply_approved parse result)) (\<lambda>_. eff_return True)
        (announce md i t result (elicitation_for result ph cp) st)"
    using assms by (simp add: await_elicitation_def)
  show ?thesis
    unfolding run by (auto simp: eff_bind_def on_engine_def split: prod.splits sum.splits)
qed

text \<open>An evaluation that asks has written nothing yet.\<close>

lemma asking_writes_nothing:
  assumes "evaluate parse ctx read_only e = (Inr result, e1)" and "pr_action result = ASK"
  shows "e1 = e"
proof -
  have "composed_writes parse read_only (verdicts e (en_policies e) (inject e ctx)) = eff_return ()"
    using assms(2) evaluate_Inr(1) [OF assms(1)] by (simp add: composed_writes_def)
  then show ?thesis using evaluate_Inr(2) [OF assms(1)] by simp
qed

subsection \<open>Properties\<close>

text \<open>
  C4. After an evaluation that asks, a timeout, a missing or undecodable
  verdict, a cancellation or a decline (anything but an explicit accept) is not an approval, and
  engine and store are as they were before the evaluation.
\<close>

theorem refused_ask_leaves_no_trace:
  assumes "evaluate parse ctx read_only e = (Inr result, e1)" and "pr_action result = ASK"
    and "es_engine st = e1"
    and "case outcome of ParkTimeout \<Rightarrow> True | ParkVerdict raw \<Rightarrow> \<not> parse_verdict loads raw"
    and "await_elicitation parse loads md i t result ph cp outcome st = (r, st')"
  shows "es_engine st' = e \<and> r \<noteq> Inr True"
  using await_not_accepted [OF assms(4), of parse md i t result ph cp st] asking_writes_nothing [OF assms(1,2)]
    assms(3,5) by simp

definition demo_elicit :: elicit_state where
  "demo_elicit = \<lparr>es_engine = demo_engine [ask_policy], es_registered = [], es_emitted = [], es_parked = []\<rparr>"

lemma refused_ask_leaves_no_trace_witness:
  "es_engine (snd (await_elicitation (\<lambda>_. None) (\<lambda>_. None) ''url'' ''elicit_1'' ''task_1''
     (composed_result [(ask_policy, ask_result)]) TOOL_CALL ''rm'' (ParkVerdict (Some ''junk'')) demo_elicit)) =
     demo_engine [ask_policy]"
proof -
  obtain r st' where run: "await_elicitation (\<lambda>_. None) (\<lambda>_. None) ''url'' ''elicit_1'' ''task_1''
     (composed_result [(ask_policy, ask_result)]) TOOL_CALL ''rm'' (ParkVerdict (Some ''junk'')) demo_elicit = (r, st')"
    by fastforce
  have "es_engine demo_elicit = demo_engine [ask_policy]" by (simp add: demo_elicit_def)
  moreover have "case ParkVerdict (Some ''junk'') of ParkTimeout \<Rightarrow> True | ParkVerdict raw \<Rightarrow> \<not> parse_verdict (\<lambda>_. None) raw"
    by (simp add: parse_verdict_def verdict_action_is_def)
  ultimately show ?thesis
    using refused_ask_leaves_no_trace [OF demo_evaluate_ask demo_ask_decision _ _ run] run by simp
qed

text \<open>
  An accepted ask performs exactly the writes that an ALLOW decision with
  the same verdicts would have performed: the labels, then the state updates, of every policy that
  ran.
\<close>

theorem accepted_ask_writes_as_allow:
  assumes "evaluate parse ctx read_only e = (Inr result, e1)" and "pr_action result = ASK"
    and "es_engine st = e1" and "parse_verdict loads raw"
  defines "vs \<equiv> verdicts e (en_policies e) (inject e ctx)"
  shows "map_prod id es_engine
           (await_elicitation parse loads md i t result ph cp (ParkVerdict raw) st) =
         eff_bind (eff_bind (apply_label_writes (all_labels vs)) (\<lambda>_. apply_state_updates parse (all_updates vs)))
           (\<lambda>_. eff_return True) e"
proof -
  have result: "result = composed_result vs" unfolding vs_def by (rule evaluate_Inr(1) [OF assms(1)])
  have st: "es_engine st = e" using assms(3) asking_writes_nothing [OF assms(1,2)] by simp
  show ?thesis unfolding await_accepted [OF assms(4)] by (simp add: st apply_approved_eq result)
qed

lemma accepted_ask_writes_as_allow_witness:
  "dict_get (en_labels (es_engine (snd (await_elicitation (\<lambda>_. None)
       (\<lambda>_. Some (JDict [(''action'', JStr ''accept'')])) ''url'' ''elicit_1'' ''task_1''
       (composed_result [(ask_policy, ask_result)]) TOOL_CALL ''rm'' (ParkVerdict (Some ''ok'')) demo_elicit))))
     ''integrity'' = Some ''0''"
proof -
  let ?loads = "\<lambda>_ :: string. Some (JDict [(''action'', JStr ''accept'')])"
  have st: "es_engine demo_elicit = demo_engine [ask_policy]" by (simp add: demo_elicit_def)
  have acc: "parse_verdict ?loads (Some ''ok'')"
    by (simp add: parse_verdict_def verdict_action_is_def dict_get_def)
  have labels: "all_labels [(ask_policy, ask_result)] = [(''integrity'', ''0'')]"
    "all_updates [(ask_policy, ask_result)] = []"
    by (simp_all add: all_labels_def all_updates_def ask_result_def policy_result_of_def
        filter_writable_labels_def demo_spec_def dict_update_def)
  have "snd (map_prod id es_engine (await_elicitation (\<lambda>_. None) ?loads ''url'' ''elicit_1'' ''task_1''
       (composed_result [(ask_policy, ask_result)]) TOOL_CALL ''rm'' (ParkVerdict (Some ''ok'')) demo_elicit)) =
     snd (apply_label_writes [(''integrity'', ''0'')] (demo_engine [ask_policy]))"
    unfolding accepted_ask_writes_as_allow [OF demo_evaluate_ask [of "\<lambda>_. None" demo_ctx False] demo_ask_decision st acc]
    by (simp add: labels eff_bind_def split: prod.splits sum.splits)
  then show ?thesis
    by (simp add: apply_label_writes_def filter_schema_valid_def demo_engine_def policy_engine_def
        dict_get_def Let_def)
qed

end
