(* ===== verification/State_Counter.thy ===== *)
theory State_Counter
  imports Elicitation
begin

text \<open>
  Counters in the session state: what the writes of an engine (\<open>_apply_state_updates\<close> and its routing of
  shared keys, \<open>src/omnigent/runtime/policies/engine.py\<close>) do to a key that policies only increment. The
  locale \<open>state_counter\<close> is the contract of such a key; the policies that keep one interpret it.
\<close>

subsection \<open>Lemmas: updates that reach the session state\<close>

definition shared_keys :: "string set" where
  "shared_keys = {USER_DAILY_ASK_APPROVED_STATE_KEY, SESSION_COST_ASK_APPROVED_STATE_KEY, SESSION_COST_UNPRICED_APPROVED_KEY}"

definition kept :: "string \<Rightarrow> string \<Rightarrow> state_update \<Rightarrow> bool" where
  "kept cid rid u \<longleftrightarrow> su_key u \<noteq> USER_DAILY_ASK_APPROVED_STATE_KEY \<and>
     \<not> (su_key u \<in> {SESSION_COST_ASK_APPROVED_STATE_KEY, SESSION_COST_UNPRICED_APPROVED_KEY} \<and> rid \<noteq> cid)"

text \<open>What the routing of updates leaves alone: the policies, the ids and the keys that are not shared.\<close>

definition unshared_view :: "string \<Rightarrow> engine \<Rightarrow> policy list \<times> string \<times> string \<times> json option" where
  "unshared_view k e = (en_policies e, en_conversation_id e, en_root_conversation_id e, map_of (en_session_state e) k)"

lemma record_daily_unshared [simp]: "unshared_view k (record_user_daily_ask_approved parse v e) = unshared_view k e"
  by (simp add: record_user_daily_ask_approved_def unshared_view_def split: option.splits)

lemma record_root_unshared:
  assumes "su_key op \<noteq> k"
  shows "unshared_view k (snd (record_root_cost_ask_approved op e)) = unshared_view k e"
proof -
  have "map_of state' k = map_of state k" if "apply_one state op = Inr state'" for state state'
    using apply_one_frame [OF that] assms by auto
  then show ?thesis
    by (simp add: record_root_cost_ask_approved_def unshared_view_def Let_def split: sum.splits)
qed

lemma routed_kept: "su_key u \<noteq> USER_DAILY_ASK_APPROVED_STATE_KEY \<Longrightarrow>
    routed_to_root e u \<longleftrightarrow> \<not> kept (en_conversation_id e) (en_root_conversation_id e) u"
  by (auto simp: routed_to_root_def kept_def)

lemma route_updates_unshared:
  assumes "k \<notin> shared_keys" and "route_updates parse us acc e = (r, e')"
  shows "unshared_view k e' = unshared_view k e \<and>
         (\<forall>ops. r = Inr ops \<longrightarrow> ops = acc @ filter (kept (en_conversation_id e) (en_root_conversation_id e)) us)"
  using assms(2)
proof (induction us arbitrary: acc e)
  case Nil
  then show ?case by (auto simp: eff_return_def)
next
  case (Cons u us)
  let ?kept = "kept (en_conversation_id e) (en_root_conversation_id e)"
  consider (daily) "su_key u = USER_DAILY_ASK_APPROVED_STATE_KEY"
    | (shared) "su_key u \<noteq> USER_DAILY_ASK_APPROVED_STATE_KEY" "routed_to_root e u"
    | (plain) "su_key u \<noteq> USER_DAILY_ASK_APPROVED_STATE_KEY" "\<not> routed_to_root e u" by blast
  then show ?case
  proof cases
    case daily
    let ?e = "record_user_daily_ask_approved parse (su_value u) e"
    have v: "unshared_view k ?e = unshared_view k e" by simp
    then have ids: "en_conversation_id ?e = en_conversation_id e" "en_root_conversation_id ?e = en_root_conversation_id e"
      by (simp_all add: unshared_view_def)
    have "route_updates parse us acc ?e = (r, e')" using Cons.prems daily by simp
    from Cons.IH [OF this] show ?thesis unfolding ids v using daily by (simp add: kept_def)
  next
    case shared
    then have nk: "\<not> ?kept u" by (simp add: routed_kept)
    have "su_key u \<noteq> k" using shared assms(1) by (auto simp: routed_to_root_def shared_keys_def)
    obtain x e1 where m: "record_root_cost_ask_approved u e = (x, e1)" by fastforce
    then have v: "unshared_view k e1 = unshared_view k e"
      using record_root_unshared [OF \<open>su_key u \<noteq> k\<close>, of e] by simp
    then have ids: "en_conversation_id e1 = en_conversation_id e" "en_root_conversation_id e1 = en_root_conversation_id e"
      by (simp_all add: unshared_view_def)
    have run: "(case x of Inl err \<Rightarrow> (Inl err, e1) | Inr _ \<Rightarrow> route_updates parse us acc e1) = (r, e')"
      using Cons.prems shared m by (simp add: eff_bind_def)
    show ?thesis
    proof (cases x)
      case (Inl err)
      then show ?thesis using run v by auto
    next
      case (Inr y)
      then have "route_updates parse us acc e1 = (r, e')" using run by simp
      from Cons.IH [OF this] show ?thesis unfolding ids v using nk by simp
    qed
  next
    case plain
    then have "?kept u" by (simp add: routed_kept)
    moreover have "route_updates parse us (acc @ [u]) e = (r, e')" using Cons.prems plain by simp
    ultimately show ?thesis using Cons.IH [of "acc @ [u]" e] by simp
  qed
qed

lemma filter_kept_key: "k \<notin> shared_keys \<Longrightarrow> filter (\<lambda>u. su_key u = k) (filter (kept cid rid) us) = filter (\<lambda>u. su_key u = k) us"
  by (induction us) (auto simp: kept_def shared_keys_def)

text \<open>
  Runs of an engine: evaluations, the writes of an accepted question, and usage records. A question that
  was asked at any state of the run may be accepted at any other.
\<close>

inductive policy_run :: "engine \<Rightarrow> engine \<Rightarrow> bool" for e where
  start: "policy_run e e"
| evaluated: "policy_run e e1 \<Longrightarrow> evaluate parse ctx ro e1 = (r, e2) \<Longrightarrow> policy_run e e2"
| approved: "policy_run e e1 \<Longrightarrow> evaluate parse ctx ro e1 = (Inr res, e2) \<Longrightarrow> policy_run e e3 \<Longrightarrow>
    apply_approved parse' res e3 = (r', e4) \<Longrightarrow> policy_run e e4"
| used: "policy_run e e1 \<Longrightarrow> record_usage d e1 = (r', e2) \<Longrightarrow> policy_run e e2"

lemma record_usage_state:
  assumes "record_usage d e = (r, e')"
  shows "en_session_state e' = en_session_state e \<and> en_policies e' = en_policies e"
  using assms by (auto simp: record_usage_def Let_def split: prod.splits sum.splits option.splits)

lemma verdicts_dispatch:
  "v \<in> set (verdicts e ps ctx) \<Longrightarrow> \<exists>q c. q \<in> set ps \<and> v = (q, dispatch_policy q c)"
proof (induction ps arbitrary: ctx)
  case (Cons p ps)
  then show ?case by (fastforce simp: Let_def split: if_splits)
qed simp

subsection \<open>Counters\<close>

text \<open>
  A key of the session state that policies only increment, by amounts that are not negative. Whatever an
  engine does with their updates, the level never falls, and it rises by the sum of the amounts when the
  writes succeed.
\<close>

locale state_counter =
  fixes key :: string
  assumes unshared: "key \<notin> shared_keys"
begin

definition level :: "engine \<Rightarrow> json" where
  "level e = dict_get_or (en_session_state e) key (JInt 0)"

definition amount :: "state_update \<Rightarrow> int" where
  "amount u = (case su_value u of JInt i \<Rightarrow> i | _ \<Rightarrow> 0)"

definition gain :: "state_update list \<Rightarrow> int" where
  "gain us = sum_list (map amount (filter (\<lambda>u. su_key u = key) us))"

definition grows :: "state_update list \<Rightarrow> bool" where
  "grows us \<longleftrightarrow> (\<forall>u \<in> set us. su_key u = key \<longrightarrow> su_action u = INCREMENT \<and> (\<exists>i \<ge> 0. su_value u = JInt i))"

definition at_level :: "policy list \<Rightarrow> int \<Rightarrow> engine \<Rightarrow> bool" where
  "at_level ps n e \<longleftrightarrow> level e = JInt n \<and> en_policies e = ps"

lemma gain_simps [simp]:
  "gain [] = 0" "gain (u # us) = (if su_key u = key then amount u else 0) + gain us"
  "gain (us @ vs) = gain us + gain vs"
  by (simp_all add: gain_def)

lemma grows_simps [simp]:
  "grows []" "grows (us @ vs) \<longleftrightarrow> grows us \<and> grows vs" "grows (concat uss) \<longleftrightarrow> (\<forall>us \<in> set uss. grows us)"
  by (auto simp: grows_def)

lemma gain_nonneg: "grows us \<Longrightarrow> 0 \<le> gain us"
  unfolding gain_def by (intro sum_list_nonneg) (auto simp: grows_def amount_def)

lemma gain_member: "grows us \<Longrightarrow> u \<in> set us \<Longrightarrow> su_key u = key \<Longrightarrow> amount u \<le> gain us"
proof (induction us)
  case (Cons v us)
  then have "grows us" and "0 \<le> (if su_key v = key then amount v else 0)" by (auto simp: grows_def amount_def)
  then show ?case using Cons gain_nonneg [of us] by auto
qed simp

lemma level_cong: "unshared_view key e' = unshared_view key e \<Longrightarrow> at_level ps n e' = at_level ps n e"
  by (simp add: at_level_def level_def unshared_view_def dict_get_or_def)

lemma apply_one_level:
  assumes "apply_one (en_session_state e) u = Inr state" and "grows [u]" and "at_level ps n e"
  shows "at_level ps (n + gain [u]) (e\<lparr>en_session_state := state\<rparr>)"
proof (cases "su_key u = key")
  case True
  then obtain i where "su_action u = INCREMENT" "su_value u = JInt i" using assms(2) by (auto simp: grows_def)
  then show ?thesis
    using assms(1,3) True by (auto simp: apply_one_def at_level_def level_def amount_def dict_get_or_def)
next
  case False
  then show ?thesis
    using assms(3) apply_one_frame [OF assms(1), of key] by (simp add: at_level_def level_def dict_get_or_def)
qed

lemma apply_session_ops_level:
  assumes "apply_session_ops us e = (r, e')" and "grows us" and "at_level ps n e"
  shows "\<exists>m \<ge> n. at_level ps m e' \<and> (r = Inr () \<longrightarrow> m = n + gain us)"
  using assms
proof (induction us arbitrary: e n)
  case Nil
  then show ?case by (auto simp: eff_return_def)
next
  case (Cons u us)
  have g: "grows [u]" "grows us" using Cons.prems(2) by (simp_all add: grows_def)
  show ?case
  proof (cases "apply_one (en_session_state e) u")
    case (Inl err)
    then show ?thesis using Cons.prems by auto
  next
    case (Inr state)
    let ?e = "e\<lparr>en_session_state := state\<rparr>"
    have "apply_session_ops us ?e = (r, e')" using Cons.prems(1) Inr by simp
    from Cons.IH [OF this g(2) apply_one_level [OF Inr g(1) Cons.prems(3)]]
    obtain m where "n + gain [u] \<le> m" "at_level ps m e'" "r = Inr () \<longrightarrow> m = n + gain [u] + gain us" by blast
    then show ?thesis using gain_nonneg [OF g(1)] by (intro exI [of _ m]) simp
  qed
qed

lemma apply_state_updates_level:
  assumes "apply_state_updates parse us e = (r, e')" and "grows us" and "at_level ps n e"
  shows "\<exists>m \<ge> n. at_level ps m e' \<and> (r = Inr () \<longrightarrow> m = n + gain us)"
proof (cases "us = []")
  case True
  then show ?thesis using assms by (auto simp: apply_state_updates_def eff_return_def)
next
  case False
  obtain x e1 where route: "route_updates parse us [] e = (x, e1)" by fastforce
  note routed = route_updates_unshared [OF unshared route]
  have l1: "at_level ps n e1" using routed level_cong assms(3) by blast
  show ?thesis
  proof (cases x)
    case (Inl err)
    then have "r = Inl err" "e' = e1" using assms(1) False route by (simp_all add: apply_state_updates_def eff_bind_def)
    then show ?thesis using l1 by auto
  next
    case (Inr ops)
    then have ops: "ops = filter (kept (en_conversation_id e) (en_root_conversation_id e)) us" using routed by simp
    have g: "grows ops" using assms(2) by (auto simp: ops grows_def)
    have t: "gain ops = gain us" unfolding ops gain_def filter_kept_key [OF unshared] by (rule refl)
    obtain y e2 where run: "apply_session_ops ops e1 = (y, e2)" by fastforce
    from apply_session_ops_level [OF run g l1]
    obtain m where m: "n \<le> m" "at_level ps m e2" "y = Inr () \<longrightarrow> m = n + gain ops" by blast
    show ?thesis
    proof (cases "ops = []")
      case True
      then have "e' = e1" using assms(1) False route Inr by (simp add: apply_state_updates_def eff_bind_def eff_return_def)
      then show ?thesis using l1 t True by auto
    next
      case nonempty: False
      show ?thesis
      proof (cases y)
        case (Inl err)
        then have "r = Inl err" "e' = e2"
          using assms(1) False route Inr run nonempty by (simp_all add: apply_state_updates_def eff_bind_def \<open>x = Inr ops\<close>)
        then show ?thesis using m by auto
      next
        case (Inr z)
        then have "e' = e2\<lparr>en_store := set_session_state (en_conversation_id e2) (en_session_state e2) (en_store e2)\<rparr>"
          using assms(1) False route run nonempty by (auto simp: apply_state_updates_def eff_bind_def \<open>x = Inr ops\<close>)
        then have "at_level ps m e'" using m(2) by (simp add: at_level_def level_def)
        then show ?thesis using m t Inr by (intro exI [of _ m]) simp
      qed
    qed
  qed
qed

lemma apply_label_writes_level:
  assumes "apply_label_writes ls e = (r, e')" and "at_level ps n e"
  shows "r = Inr () \<and> at_level ps n e'"
  using assms by (auto simp: apply_label_writes_def at_level_def level_def Let_def split: if_splits)

lemma apply_approved_level:
  assumes "apply_approved parse res e = (r, e')" and "grows (list_or (pr_state_updates res))" and "at_level ps n e"
  shows "\<exists>m \<ge> n. at_level ps m e' \<and> (r = Inr () \<longrightarrow> m = n + gain (list_or (pr_state_updates res)))"
proof -
  obtain x e1 where l: "apply_label_writes (list_or (pr_set_labels res)) e = (x, e1)" by fastforce
  note labels = apply_label_writes_level [OF l assms(3)]
  have "apply_state_updates parse (list_or (pr_state_updates res)) e1 = (r, e')"
    using assms(1) labels l by (simp add: apply_approved_eq eff_bind_def)
  then show ?thesis using apply_state_updates_level assms(2) labels by blast
qed

lemma composed_writes_level:
  assumes "composed_writes parse read_only vs e = (r, e')" and "grows (all_updates vs)" and "at_level ps n e"
  shows "\<exists>m \<ge> n. at_level ps m e' \<and>
    (r = Inr () \<longrightarrow> m = n + (if read_only \<or> pr_action (composed_result vs) = ASK then 0 else gain (all_updates vs)))"
proof -
  consider (none) "read_only \<or> pr_action (composed_result vs) = ASK"
    | (deny) "\<not> (read_only \<or> pr_action (composed_result vs) = ASK)" "pr_action (composed_result vs) = DENY"
    | (allow) "\<not> (read_only \<or> pr_action (composed_result vs) = ASK)" "pr_action (composed_result vs) \<noteq> DENY" by blast
  then show ?thesis
  proof cases
    case none
    then show ?thesis using assms by (auto simp: composed_writes_def eff_return_def)
  next
    case deny
    obtain x e1 where s: "apply_state_updates parse (all_updates vs) e = (x, e1)" by fastforce
    from apply_state_updates_level [OF s assms(2,3)]
    obtain m where m: "n \<le> m" "at_level ps m e1" "x = Inr () \<longrightarrow> m = n + gain (all_updates vs)" by blast
    have run: "(case x of Inl err \<Rightarrow> (Inl err, e1) | Inr _ \<Rightarrow> apply_label_writes (all_labels vs) e1) = (r, e')"
      using assms(1) deny s by (simp add: composed_writes_def eff_bind_def)
    show ?thesis
    proof (cases x)
      case (Inl err)
      then show ?thesis using run m by auto
    next
      case (Inr z)
      then have "apply_label_writes (all_labels vs) e1 = (r, e')" using run by simp
      from apply_label_writes_level [OF this m(2)] show ?thesis using m Inr deny(1) by auto
    qed
  next
    case allow
    obtain x e1 where l: "apply_label_writes (all_labels vs) e = (x, e1)" by fastforce
    note labels = apply_label_writes_level [OF l assms(3)]
    have "apply_state_updates parse (all_updates vs) e1 = (r, e')"
      using assms(1) allow labels l by (simp add: composed_writes_def eff_bind_def)
    then have "\<exists>m \<ge> n. at_level ps m e' \<and> (r = Inr () \<longrightarrow> m = n + gain (all_updates vs))"
      using apply_state_updates_level assms(2) labels by blast
    then show ?thesis using allow(1) by auto
  qed
qed

lemma evaluate_level:
  assumes "evaluate parse ctx read_only e = (r, e')" and "at_level ps n e"
    and "\<forall>q \<in> set ps. \<forall>c. grows (list_or (pr_state_updates (dispatch_policy q c)))"
  defines "vs \<equiv> verdicts e ps (inject e ctx)"
  shows "grows (all_updates vs) \<and> (\<exists>m \<ge> n. at_level ps m e' \<and>
           (\<forall>res. r = Inr res \<longrightarrow> res = composed_result vs \<and>
              m = n + (if read_only \<or> pr_action res = ASK then 0 else gain (all_updates vs))))"
proof -
  have ps: "en_policies e = ps" using assms(2) by (simp add: at_level_def)
  have "\<exists>q c. q \<in> set ps \<and> v = (q, dispatch_policy q c)" if "v \<in> set vs" for v
    using that unfolding vs_def by (rule verdicts_dispatch)
  then have g: "grows (all_updates vs)" using assms(3) by (fastforce simp: all_updates_def)
  obtain x e1 where w: "composed_writes parse read_only vs e = (x, e1)" by fastforce
  have run: "e' = e1 \<and> r = (case x of Inl err \<Rightarrow> Inl err | Inr _ \<Rightarrow> Inr (composed_result vs))"
    using assms(1) w unfolding evaluate_eq ps vs_def [symmetric]
    by (cases x) (auto simp: eff_bind_def eff_return_def)
  from composed_writes_level [OF w g assms(2)]
  obtain m where "n \<le> m" "at_level ps m e1"
    "x = Inr () \<longrightarrow> m = n + (if read_only \<or> pr_action (composed_result vs) = ASK then 0 else gain (all_updates vs))" by blast
  then show ?thesis using g run by (intro conjI exI [of _ m]) (auto split: sum.splits)
qed

lemma policy_run_level:
  assumes "policy_run e e'" and "at_level ps n e"
    and "\<forall>q \<in> set ps. \<forall>c. grows (list_or (pr_state_updates (dispatch_policy q c)))"
  shows "\<exists>m \<ge> n. at_level ps m e'"
  using assms(1)
proof induction
  case start
  then show ?case using assms(2) by blast
next
  case (evaluated e1 parse ctx ro r e2)
  then show ?case using evaluate_level [OF evaluated(2) _ assms(3)] order_trans by metis
next
  case (approved e1 parse ctx ro res e2 e3 parse' r' e4)
  then obtain m k where "at_level ps m e1" and k: "at_level ps k e3" "n \<le> k" by blast
  then have "grows (list_or (pr_state_updates res))"
    using evaluate_level [OF approved(2) _ assms(3)] by (metis composed_result_writes(2))
  then show ?case using apply_approved_level [OF approved(4) _ k(1)] k(2) order_trans by metis
next
  case (used e1 d r' e2)
  then show ?case using record_usage_state [OF used(2)] by (auto simp: at_level_def level_def)
qed

end

end
