(* ===== verification/Safety_Policy.thy ===== *)
theory Safety_Policy
  imports Policy_Builder State_Counter
begin

text \<open>
  The safety policies of \<open>src/omnigent/policies/builtins/safety.py\<close>: the limit on tool calls of a session,
  the approval of file and shell tools, blocked skills and the enforced sandbox. The guard on adding
  policies is in \<open>Policy_Builder\<close>; the scan for personal data matches regular expressions and is not
  modelled. Strings of JSON values that are not text (\<open>repr\<close>) and the parser of numeric strings are
  arguments.
\<close>

subsection \<open>Limit on tool calls\<close>

definition unhashable :: "json \<Rightarrow> py_error" where
  "unhashable v = TypeError (''unhashable type: '' @ sq (type_name v))"


definition TOOL_CALL_COUNT_KEY :: string where
  "TOOL_CALL_COUNT_KEY = ''_policy_tool_call_count''"


subsection \<open>Approval of file and shell tools\<close>









text \<open>\<open>v in names\<close> for a set of strings: lists and dictionaries cannot be hashed.\<close>

definition in_names :: "json \<Rightarrow> string list \<Rightarrow> bool res" where
  "in_names v names =
     (case v of
        JStr s \<Rightarrow> Inr (s \<in> set names)
      | JList _ \<Rightarrow> Inl (unhashable v)
      | JDict _ \<Rightarrow> Inl (unhashable v)
      | _ \<Rightarrow> Inr False)"




subsection \<open>Blocked skills\<close>

definition SKILL_TOOLS :: "string list" where
  "SKILL_TOOLS = [''load_skill'', ''read_skill_file'']"

definition NATIVE_SKILL_TOOL :: string where
  "NATIVE_SKILL_TOOL = ''Skill''"

definition skill_blocked_response :: "string \<Rightarrow> raw_return" where
  "skill_blocked_response skill_name =
     RawDict [(''result'', JStr ''DENY''), (''reason'', JStr (''Skill '' @ sq skill_name @ '' is blocked by policy''))]"

definition check_skill :: "string list \<Rightarrow> json \<Rightarrow> raw_return res" where
  "check_skill blocked_lower skill_name =
     (if \<not> truthy skill_name then Inr ALLOW_RESPONSE
      else (case skill_name of
              JStr s \<Rightarrow> Inr (if lower s \<in> set blocked_lower then skill_blocked_response s else ALLOW_RESPONSE)
            | _ \<Rightarrow> Inl (no_attribute skill_name ''lower'')))"

definition slash_command :: "string \<Rightarrow> string" where
  "slash_command text = takeWhile (\<lambda>c. \<not> is_space c) (dropWhile is_space (tl text))"

definition block_skills :: "string list \<Rightarrow> policy_callable" where
  "block_skills blocked = (\<lambda>event config.
     (let blocked_lower = map lower blocked; event_type = dict_get_or event ''type'' JNull in
      if event_type = JStr ''tool_call'' then
        (case dict_get_or event ''data'' JNull of
           JDict data \<Rightarrow>
             (let tool = dict_get_or data ''name'' (JStr []) in
              case dict_get_or data ''arguments'' JNull of
                JDict args \<Rightarrow>
                  res_bind (in_names tool SKILL_TOOLS) (\<lambda>hit.
                    if hit then
                      check_skill blocked_lower
                        (dict_get_or args (if tool = JStr ''load_skill'' then ''name'' else ''skill_name'') JNull)
                    else if tool = JStr NATIVE_SKILL_TOOL then check_skill blocked_lower (dict_get_or args ''skill'' JNull)
                    else Inr ALLOW_RESPONSE)
              | _ \<Rightarrow> Inr ALLOW_RESPONSE)
         | _ \<Rightarrow> Inr ALLOW_RESPONSE)
      else if event_type = JStr ''request'' then
        (let text = (case dict_get_or event ''data'' JNull of JStr s \<Rightarrow> s | _ \<Rightarrow> []) in
         if startswith text ''/'' \<and> lower (slash_command text) \<in> set blocked_lower
         then Inr (skill_blocked_response (slash_command text)) else Inr ALLOW_RESPONSE)
      else Inr ALLOW_RESPONSE))"

subsection \<open>Sandbox enforcement\<close>

definition AGENT_START_TOOL :: string where
  "AGENT_START_TOOL = ''sys_agent_start''"

definition SANDBOX_OVERRIDE_KEYS :: "string list" where
  "SANDBOX_OVERRIDE_KEYS =
     [''type'', ''read_paths'', ''write_paths'', ''write_files'', ''allow_network'', ''cwd_allow_hidden'',
      ''env_passthrough'', ''egress_rules'', ''egress_allow_private_destinations'',
      ''cwd_hidden_scan_max_entries'', ''cwd_hidden_scan_overflow'']"

definition path_override :: "string \<Rightarrow> string list option \<Rightarrow> json dict" where
  "path_override key paths = (case paths of None \<Rightarrow> [] | Some ps \<Rightarrow> [(key, JList (map JStr ps))])"

definition sandbox_override ::
    "string \<Rightarrow> bool \<Rightarrow> string list option \<Rightarrow> string list option \<Rightarrow> string list option \<Rightarrow> json dict" where
  "sandbox_override sandbox_type allow_network write_paths read_paths env_passthrough =
     [(''type'', JStr sandbox_type), (''allow_network'', JBool allow_network)] @
     path_override ''write_paths'' write_paths @ path_override ''read_paths'' read_paths @
     path_override ''env_passthrough'' env_passthrough"

definition enforce_sandbox ::
    "string \<Rightarrow> bool \<Rightarrow> string list option \<Rightarrow> string list option \<Rightarrow> string list option \<Rightarrow> policy_callable" where
  "enforce_sandbox sandbox_type allow_network write_paths read_paths env_passthrough = (\<lambda>event config.
     (if dict_get_or event ''type'' JNull \<noteq> JStr ''tool_call'' then Inr ALLOW_RESPONSE
      else (case dict_get_or event ''data'' JNull of
              JDict data \<Rightarrow>
                (if dict_get_or data ''name'' (JStr []) \<noteq> JStr AGENT_START_TOOL then Inr ALLOW_RESPONSE
                 else
                   (let args = (case dict_get_or data ''arguments'' JNull of JDict a \<Rightarrow> a | _ \<Rightarrow> []);
                        sandbox = dict_get_or args ''sandbox'' JNull
                    in res_bind (case sandbox of
                                   JDict d \<Rightarrow> Inr d
                                 | _ \<Rightarrow> if truthy sandbox
                                       then Inl (TypeError (sq (type_name sandbox) @ '' object is not a mapping''))
                                       else Inr []) (\<lambda>current_sandbox.
                         let forced_sandbox =
                               filter (\<lambda>(k, v). k \<in> set SANDBOX_OVERRIDE_KEYS)
                                 (dict_update current_sandbox
                                    (sandbox_override sandbox_type allow_network write_paths read_paths env_passthrough))
                         in Inr (RawDict [(''result'', JStr ''ALLOW''),
                              (''data'', JDict [(''name'', JStr AGENT_START_TOOL),
                                 (''arguments'', JDict (dict_set ''sandbox'' (JDict forced_sandbox) args))])]))))
            | _ \<Rightarrow> Inr ALLOW_RESPONSE)))"

subsection \<open>Lemmas: guards\<close>


fun skill_watched :: "string list \<Rightarrow> phase \<Rightarrow> json \<Rightarrow> bool" where
  "skill_watched blocked TOOL_CALL x =
     (\<exists>d args key s. x = JDict d \<and> dict_get d ''arguments'' = Some (JDict args) \<and>
        (dict_get d ''name'', key) \<in> {(Some (JStr ''load_skill''), ''name''),
          (Some (JStr ''read_skill_file''), ''skill_name''), (Some (JStr ''Skill''), ''skill'')} \<and>
        dict_get args key = Some (JStr s) \<and> s \<noteq> [] \<and> lower s \<in> lower ` set blocked)"
| "skill_watched blocked REQUEST x =
     (\<exists>text. x = JStr (CHR ''/'' # text) \<and> lower (slash_command (CHR ''/'' # text)) \<in> lower ` set blocked)"
| "skill_watched blocked _ x = False"

lemma event_data [simp]: "dict_get_or (build_event ctx) ''data'' JNull = ctx_content ctx"
  by (simp add: build_event_def dict_get_or_def)

lemma dict_get_or_Some: "dict_get d k = Some v \<Longrightarrow> dict_get_or d k w = v"
  by (simp add: dict_get_def dict_get_or_def)


lemma dispatch_returns:
  assumes "callable_obj (build_event ctx) (policy_config spec) = Inr raw"
    and "coerce_to_policy_result str_of (sp_name spec) raw = Inr r"
  shows "dispatch_policy (function_policy str_of spec callable_obj) ctx = r"
  using assms by (simp add: dispatch_policy_def function_policy_def)

lemma decision_coerced:
  "coerce_to_policy_result str_of n (RawDict [(''result'', JStr ''ASK''), (''reason'', JStr reason)]) =
     Inr (policy_result_of ASK (Some reason))"
  "coerce_to_policy_result str_of n (RawDict [(''result'', JStr ''DENY''), (''reason'', JStr reason)]) =
     Inr (policy_result_of DENY (Some reason))"
  "coerce_to_policy_result str_of n ALLOW_RESPONSE = Inr (policy_result_of ALLOW None)"
proof -
  have "lower ''ASK'' = ''ask''" "lower ''DENY'' = ''deny''" "lower ''ALLOW'' = ''allow''" by code_simp+
  then show
    "coerce_to_policy_result str_of n (RawDict [(''result'', JStr ''ASK''), (''reason'', JStr reason)]) =
       Inr (policy_result_of ASK (Some reason))"
    "coerce_to_policy_result str_of n (RawDict [(''result'', JStr ''DENY''), (''reason'', JStr reason)]) =
       Inr (policy_result_of DENY (Some reason))"
    "coerce_to_policy_result str_of n ALLOW_RESPONSE = Inr (policy_result_of ALLOW None)"
    by (simp_all add: ALLOW_RESPONSE_def coerce_to_policy_result_def policy_result_from_dict_def dict_get_or_def
        text_of_def opt_text_of_def policy_action_of_def coerce_state_updates_def labels_of_def policy_result_of_def)
qed


lemma check_skill_blocks:
  "s \<noteq> [] \<Longrightarrow> lower s \<in> lower ` set blocked \<Longrightarrow> check_skill (map lower blocked) (JStr s) = Inr (skill_blocked_response s)"
  by (simp add: check_skill_def)

lemma block_skills_blocks:
  assumes "skill_watched blocked (ctx_phase ctx) (ctx_content ctx)"
  shows "\<exists>s. block_skills blocked (build_event ctx) config = Inr (skill_blocked_response s)"
proof (cases "ctx_phase ctx")
  case TOOL_CALL
  then obtain d args key s where x: "ctx_content ctx = JDict d" "dict_get d ''arguments'' = Some (JDict args)"
      "(dict_get d ''name'', key) \<in> {(Some (JStr ''load_skill''), ''name''),
          (Some (JStr ''read_skill_file''), ''skill_name''), (Some (JStr ''Skill''), ''skill'')}"
      "dict_get args key = Some (JStr s)" "s \<noteq> []" "lower s \<in> lower ` set blocked"
    using assms by (simp only: TOOL_CALL skill_watched.simps) blast
  have "block_skills blocked (build_event ctx) config = check_skill (map lower blocked) (JStr s)"
    using TOOL_CALL x(1,3,4) dict_get_or_Some [OF x(2)]
    by (auto simp: block_skills_def in_names_def SKILL_TOOLS_def NATIVE_SKILL_TOOL_def Let_def dict_get_or_Some)
  then show ?thesis using check_skill_blocks [OF x(5,6)] by auto
next
  case REQUEST
  then show ?thesis
    using assms by (auto simp: block_skills_def startswith_def Let_def)
qed (use assms in simp_all)

lemma block_skills_denies:
  assumes "skill_watched blocked (ctx_phase ctx) (ctx_content ctx)"
  shows "pr_action (dispatch_policy (function_policy str_of spec (block_skills blocked)) ctx) = DENY"
proof -
  obtain s where s: "block_skills blocked (build_event ctx) (policy_config spec) = Inr (skill_blocked_response s)"
    using block_skills_blocks [OF assms] by blast
  show ?thesis
    using dispatch_returns [where callable_obj = "block_skills blocked" and ctx = ctx, OF s]
    by (simp add: skill_blocked_response_def decision_coerced policy_result_of_def)
qed


interpretation skills_guard: payload_guard str_of "block_skills blocked" "\<lambda>ctx. skill_watched blocked (ctx_phase ctx)" DENY
    for str_of blocked
  by unfold_locales (simp_all add: block_skills_denies)

subsection \<open>Lemmas: the call counter\<close>

interpretation call_count: state_counter TOOL_CALL_COUNT_KEY
  by unfold_locales (simp add: shared_keys_def TOOL_CALL_COUNT_KEY_def USER_DAILY_ASK_APPROVED_STATE_KEY_def
      SESSION_COST_ASK_APPROVED_STATE_KEY_def SESSION_COST_UNPRICED_APPROVED_KEY_def)

definition call_increment :: state_update where
  "call_increment = \<lparr>su_key = TOOL_CALL_COUNT_KEY, su_action = INCREMENT, su_value = JInt 1\<rparr>"





lemma call_increment_grows [simp]:
  "call_count.grows [call_increment]" "call_count.amount call_increment = 1" "su_key call_increment = TOOL_CALL_COUNT_KEY"
  by (simp_all add: call_count.grows_def call_count.amount_def call_increment_def)

subsection \<open>Properties\<close>












text \<open>A blocked skill is denied on each of its loading paths, in any mixture of upper and lower case.\<close>

lemma blocked_skills_denied:
  assumes "function_policy str_of spec (block_skills blocked) \<in> set (en_policies e)" and "should_fire e spec ctx"
    and "skill_watched blocked (ctx_phase ctx) (ctx_content ctx)"
    and "\<forall>q \<in> set (en_policies e). \<forall>c. pr_data (dispatch_policy q c) = JNull \<or>
           skill_watched blocked (ctx_phase ctx) (pr_data (dispatch_policy q c))"
    and "evaluate parse ctx read_only e = (Inr r, e')"
  shows "pr_action r = DENY"
  using skills_guard.decides [OF assms(1,2) _ _ assms(5)] assms(3,4) by (simp add: deny_or_stricter inject_def)

lemma map_of_filter_keys: "map_of (filter (\<lambda>(k, v). P k) d) k = (if P k then map_of d k else None)"
  by (induction d) auto

text \<open>
  The sandbox policy rewrites every agent start to the configuration of the administrator: type and
  network access are the configured ones whatever the agent declared, declared settings that the
  policy leaves open are inherited, settings outside the known ones are dropped, and the other
  arguments of the call are kept.
\<close>

theorem sandbox_forced:
  assumes "ctx_phase ctx = TOOL_CALL" and "ctx_content ctx = JDict d"
    and "dict_get d ''name'' = Some (JStr AGENT_START_TOOL)" and "dict_get d ''arguments'' = Some (JDict args)"
    and "dict_get_or args ''sandbox'' (JDict []) = JDict declared"
  shows "\<exists>sandbox. pr_action (dispatch_policy (function_policy str_of spec (enforce_sandbox t net wp rp env)) ctx) = ALLOW \<and>
      pr_data (dispatch_policy (function_policy str_of spec (enforce_sandbox t net wp rp env)) ctx) =
        JDict [(''name'', JStr AGENT_START_TOOL), (''arguments'', JDict (dict_set ''sandbox'' (JDict sandbox) args))] \<and>
      dict_get sandbox ''type'' = Some (JStr t) \<and> dict_get sandbox ''allow_network'' = Some (JBool net) \<and>
      (\<forall>k. dict_get sandbox k = (if k \<notin> set SANDBOX_OVERRIDE_KEYS then None
          else case dict_get (sandbox_override t net wp rp env) k of Some v \<Rightarrow> Some v | None \<Rightarrow> dict_get declared k))"
proof -
  let ?over = "sandbox_override t net wp rp env"
  let ?sandbox = "filter (\<lambda>(k, v). k \<in> set SANDBOX_OVERRIDE_KEYS) (dict_update declared ?over)"
  have "(case dict_get_or args ''sandbox'' JNull of JDict s \<Rightarrow> Inr s
        | _ \<Rightarrow> if truthy (dict_get_or args ''sandbox'' JNull)
              then Inl (TypeError (sq (type_name (dict_get_or args ''sandbox'' JNull)) @ '' object is not a mapping''))
              else Inr []) = (Inr declared :: json dict res)"
    using assms(5) by (auto simp: dict_get_or_def split: option.splits)
  then have raw: "enforce_sandbox t net wp rp env (build_event ctx) (policy_config spec) =
      Inr (RawDict [(''result'', JStr ''ALLOW''), (''data'', JDict [(''name'', JStr AGENT_START_TOOL),
        (''arguments'', JDict (dict_set ''sandbox'' (JDict ?sandbox) args))])])"
    using assms(1,2) dict_get_or_Some [OF assms(3)] dict_get_or_Some [OF assms(4)]
    by (simp add: enforce_sandbox_def Let_def)
  have "lower ''ALLOW'' = ''allow''" by code_simp
  then have "coerce_to_policy_result str_of (sp_name spec) (RawDict [(''result'', JStr ''ALLOW''), (''data'', v)]) =
      Inr ((policy_result_of ALLOW None)\<lparr>pr_data := v\<rparr>)" for v
    by (simp add: coerce_to_policy_result_def policy_result_from_dict_def dict_get_or_def text_of_def opt_text_of_def
        policy_action_of_def coerce_state_updates_def labels_of_def policy_result_of_def)
  then have res: "dispatch_policy (function_policy str_of spec (enforce_sandbox t net wp rp env)) ctx =
      (policy_result_of ALLOW None)\<lparr>pr_data := JDict [(''name'', JStr AGENT_START_TOOL),
        (''arguments'', JDict (dict_set ''sandbox'' (JDict ?sandbox) args))]\<rparr>"
    by (intro dispatch_returns [where callable_obj = "enforce_sandbox t net wp rp env", OF raw])
  have over: "distinct (map fst ?over)" "dict_get ?over ''type'' = Some (JStr t)" "dict_get ?over ''allow_network'' = Some (JBool net)"
    by (auto simp: sandbox_override_def path_override_def dict_get_def split: option.splits)
  have get: "dict_get ?sandbox k = (if k \<notin> set SANDBOX_OVERRIDE_KEYS then None
      else case dict_get ?over k of Some v \<Rightarrow> Some v | None \<Rightarrow> dict_get declared k)" for k
    using map_of_dict_update [OF over(1)] by (simp add: dict_get_def map_of_filter_keys split: option.splits)
  show ?thesis
    using over(2,3) get by (intro exI [of _ ?sandbox]) (simp add: res policy_result_of_def SANDBOX_OVERRIDE_KEYS_def)
qed

definition start_ctx :: evaluation_context where
  "start_ctx = demo_ctx\<lparr>ctx_content := JDict [(''name'', JStr ''sys_agent_start''),
     (''arguments'', JDict [(''sandbox'', JDict [(''type'', JStr ''none''), (''debug'', JBool True)])])]\<rparr>"

lemma sandbox_forced_witness:
  "\<exists>sandbox. pr_data (dispatch_policy (function_policy (\<lambda>_. []) (demo_spec ''box'')
       (enforce_sandbox ''linux_bwrap'' False None None None)) start_ctx) =
     JDict [(''name'', JStr ''sys_agent_start''), (''arguments'', JDict [(''sandbox'', JDict sandbox)])] \<and>
   dict_get sandbox ''type'' = Some (JStr ''linux_bwrap'') \<and> dict_get sandbox ''debug'' = None"
proof -
  have "ctx_phase start_ctx = TOOL_CALL" "ctx_content start_ctx = JDict [(''name'', JStr AGENT_START_TOOL),
     (''arguments'', JDict [(''sandbox'', JDict [(''type'', JStr ''none''), (''debug'', JBool True)])])]"
    by (simp_all add: start_ctx_def demo_ctx_def AGENT_START_TOOL_def)
  from sandbox_forced [OF this, of "[(''sandbox'', JDict [(''type'', JStr ''none''), (''debug'', JBool True)])]"
      "[(''type'', JStr ''none''), (''debug'', JBool True)]" "\<lambda>_. []" "demo_spec ''box''" "''linux_bwrap''" False None None None]
  show ?thesis by (auto simp: dict_get_def dict_get_or_def AGENT_START_TOOL_def SANDBOX_OVERRIDE_KEYS_def)
qed

end
