(* ===== verification/Risk_Policy.thy ===== *)
theory Risk_Policy
  imports Safety_Policy
begin

text \<open>
  The risk score of a session (\<open>src/omnigent/policies/builtins/risk_score.py\<close>): tool calls and labelled
  results add points to a key of the session state, and guarded tools are escalated once the score has
  reached a threshold. \<open>json.loads\<close> and the parser of numeric strings are arguments.
\<close>

subsection \<open>Configuration\<close>

definition DEFAULT_RISK_STATE_KEY :: string where
  "DEFAULT_RISK_STATE_KEY = ''risk_score''"

definition DEFAULT_LABEL_KEYS :: "string list" where
  "DEFAULT_LABEL_KEYS = [''label_classification'', ''classification'', ''sensitivity'', ''sensitivity_label'', ''dlp_label'']"

definition MAX_RESULT_SCAN_DEPTH :: nat where
  "MAX_RESULT_SCAN_DEPTH = 20"

record risk_cfg =
  rc_threshold :: int
  rc_tool_points :: "int dict"
  rc_sensitive_labels :: "int dict"
  rc_guarded_tools :: "string list"
  rc_escalate_action :: string
  rc_initial_scores_by_actor :: "int dict"
  rc_state_key :: string
  rc_label_keys :: "string list"
  rc_reason :: string

subsection \<open>Tools\<close>




subsection \<open>Labels of results\<close>

definition parse_result_payload :: "(string \<Rightarrow> json option) \<Rightarrow> json \<Rightarrow> json" where
  "parse_result_payload loads data =
     (let inner = (case data of
                     JDict d \<Rightarrow> (case dict_get d ''result'' of Some v \<Rightarrow> v | None \<Rightarrow> data)
                   | _ \<Rightarrow> data)
      in case inner of
           JStr s \<Rightarrow> (case loads s of Some v \<Rightarrow> v | None \<Rightarrow> inner)
         | _ \<Rightarrow> inner)"

definition own_label :: "string list \<Rightarrow> string \<times> json \<Rightarrow> string list" where
  "own_label label_keys = (\<lambda>(key, nested).
     (case nested of
        JStr s \<Rightarrow> if key \<in> set label_keys \<and> strip s \<noteq> [] then [lower (strip s)] else []
      | _ \<Rightarrow> []))"

fun collect_labels :: "string list \<Rightarrow> nat \<Rightarrow> json \<Rightarrow> string list" where
  "collect_labels label_keys 0 payload = []"
| "collect_labels label_keys (Suc depth) (JDict d) =
     concat (map (\<lambda>(key, nested). own_label label_keys (key, nested) @ collect_labels label_keys depth nested) d)"
| "collect_labels label_keys (Suc depth) (JList xs) = concat (map (collect_labels label_keys depth) xs)"
| "collect_labels label_keys (Suc depth) _ = []"

subsection \<open>The score\<close>



definition increment_response :: "string \<Rightarrow> int \<Rightarrow> raw_return" where
  "increment_response state_key points =
     RawDict [(''result'', JStr ''ALLOW''),
       (''state_updates'', JList [JDict [(''key'', JStr state_key), (''action'', JStr ''increment''), (''value'', JInt points)]])]"



definition decide_tool_result :: "(string \<Rightarrow> json option) \<Rightarrow> json dict \<Rightarrow> risk_cfg \<Rightarrow> raw_return" where
  "decide_tool_result loads event cfg =
     (if rc_sensitive_labels cfg = [] then RawNone
      else (let payload = parse_result_payload loads (dict_get_or event ''data'' JNull);
                labels = collect_labels (rc_label_keys cfg) MAX_RESULT_SCAN_DEPTH payload;
                matched = List.map_filter (dict_get (rc_sensitive_labels cfg)) labels
            in if matched = [] then RawNone
               else increment_response (rc_state_key cfg) (Max (set matched))))"




subsection \<open>Lemmas: decisions\<close>


lemma actor_section [simp]:
  "get_dict (event_context ctx) ''actor'' = Inr (map (\<lambda>(k, v). (k, JStr v)) (list_or (ctx_actor ctx)))"
  by (simp add: event_context_def get_dict_def dict_get_or_def str_dict_json_def)







text \<open>What the policy writes: nothing, or one increment of its own key that is not negative.\<close>

definition risk_raw :: "risk_cfg \<Rightarrow> raw_return \<Rightarrow> bool" where
  "risk_raw cfg raw \<longleftrightarrow> raw = RawNone \<or>
     (\<exists>reason. raw = RawDict [(''result'', JStr (rc_escalate_action cfg)), (''reason'', JStr reason)]) \<or>
     (\<exists>p \<ge> 0. raw = increment_response (rc_state_key cfg) p)"

lemma risk_raw_intros [intro]:
  "risk_raw cfg RawNone" "risk_raw cfg (RawDict [(''result'', JStr (rc_escalate_action cfg)), (''reason'', JStr reason)])"
  "0 \<le> p \<Longrightarrow> risk_raw cfg (increment_response (rc_state_key cfg) p)"
  by (auto simp: risk_raw_def)








subsection \<open>Properties\<close>








text \<open>A label with negative points lowers the score: the result handler does not check the sign.\<close>

lemma negative_label_lowers_score:
  "decide_tool_result (\<lambda>_. None) [(''type'', JStr ''tool_result''), (''data'', JDict [(''classification'', JStr ''Public'')])]
     \<lparr>rc_threshold = 50, rc_tool_points = [], rc_sensitive_labels = [(''public'', - 10)], rc_guarded_tools = [],
      rc_escalate_action = ''ASK'', rc_initial_scores_by_actor = [], rc_state_key = ''risk_score'',
      rc_label_keys = DEFAULT_LABEL_KEYS, rc_reason = ''risk''\<rparr> =
   increment_response ''risk_score'' (- 10)"
  by code_simp

end
