(* ===== verification/Egress_Rules.thy ===== *)
theory Egress_Rules
  imports Prelude
begin

text \<open>
  The egress rules of the sandbox (\<open>src/omnigent/inner/egress/rules.py\<close>): the grammar of host names, the
  parser of the rule language, the matching of requests and the translation of path globs to regular
  expressions with its cache. A regular expression of this module is a list of atoms, and \<open>match_atoms\<close>
  is the search for a match of it between \<open>^\<close> and \<open>$\<close>.
\<close>

subsection \<open>Host names\<close>

definition dns_char :: "char \<Rightarrow> bool" where
  "dns_char c =
     (let n = (of_char c :: nat) in
      (65 \<le> n \<and> n \<le> 90) \<or> (97 \<le> n \<and> n \<le> 122) \<or> (48 \<le> n \<and> n \<le> 57) \<or> c = CHR ''.'' \<or> c = CHR ''-'')"

definition is_dns_safe_host :: "string \<Rightarrow> bool" where
  "is_dns_safe_host host \<longleftrightarrow> host \<noteq> [] \<and> list_all dns_char host"

subsection \<open>Path globs\<close>

text \<open>
  The parts \<open>.*\<close>, \<open>[^/]*\<close>, \<open>[^/]\<close> and an escaped character. Without \<open>DOTALL\<close> the dot does not match a
  newline, and \<open>$\<close> also matches before a newline that ends the text.
\<close>

datatype glob_atom = AnyText | AnySegment | OneChar | Lit char

function glob_atoms :: "string \<Rightarrow> glob_atom list" where
  "glob_atoms pattern =
     (case pattern of
        [] \<Rightarrow> []
      | c # cs \<Rightarrow>
          if c = CHR ''*''
          then (if cs \<noteq> [] \<and> hd cs = CHR ''*''
                then AnyText # glob_atoms (let rest = tl cs in if rest \<noteq> [] \<and> hd rest = CHR ''/'' then tl rest else rest)
                else AnySegment # glob_atoms cs)
          else if c = CHR ''?'' then OneChar # glob_atoms cs
          else Lit c # glob_atoms cs)"
  by auto
termination
  by (relation "measure length") (auto simp: Let_def)

fun match_atoms :: "glob_atom list \<Rightarrow> string \<Rightarrow> bool" where
  "match_atoms [] v = (v = [] \<or> v = [CHR 0x0A])"
| "match_atoms (Lit c # as) v = (case v of [] \<Rightarrow> False | x # v' \<Rightarrow> x = c \<and> match_atoms as v')"
| "match_atoms (OneChar # as) v = (case v of [] \<Rightarrow> False | x # v' \<Rightarrow> x \<noteq> CHR ''/'' \<and> match_atoms as v')"
| "match_atoms (AnySegment # as) [] = match_atoms as []"
| "match_atoms (AnySegment # as) (x # v) = (match_atoms as (x # v) \<or> x \<noteq> CHR ''/'' \<and> match_atoms (AnySegment # as) v)"
| "match_atoms (AnyText # as) [] = match_atoms as []"
| "match_atoms (AnyText # as) (x # v) = (match_atoms as (x # v) \<or> x \<noteq> CHR 0x0A \<and> match_atoms (AnyText # as) v)"

definition glob_match :: "string \<Rightarrow> string \<Rightarrow> bool" where
  "glob_match pattern value = match_atoms (glob_atoms pattern) value"

text \<open>The compiled expressions are kept in a dictionary of the module.\<close>

type_synonym glob_cache = "glob_atom list dict"

definition glob_to_regex :: "string \<Rightarrow> glob_cache \<Rightarrow> glob_atom list \<times> glob_cache" where
  "glob_to_regex pattern cache =
     (case dict_get cache pattern of
        Some regex \<Rightarrow> (regex, cache)
      | None \<Rightarrow> (let regex = glob_atoms pattern in (regex, dict_set pattern regex cache)))"

subsection \<open>Rules\<close>

record egress_rule =
  er_methods :: "string list"
  er_host_pattern :: string
  er_path_pattern :: string

definition method_matches :: "egress_rule \<Rightarrow> string \<Rightarrow> bool" where
  "method_matches r method \<longleftrightarrow> ''*'' \<in> set (er_methods r) \<or> upper method \<in> set (er_methods r)"

definition host_matches :: "egress_rule \<Rightarrow> string \<Rightarrow> bool" where
  "host_matches r host =
     (if \<not> is_dns_safe_host host then False
      else (let host = lower host; pattern = lower (er_host_pattern r) in
            if startswith pattern ''*.'' then endswith host (drop 1 pattern) \<or> host = drop 2 pattern
            else host = pattern))"

definition path_matches :: "egress_rule \<Rightarrow> string \<Rightarrow> bool" where
  "path_matches r path = glob_match (er_path_pattern r) (if startswith path ''/'' then path else ''/'' @ path)"

definition rule_matches :: "egress_rule \<Rightarrow> string \<Rightarrow> string \<Rightarrow> string \<Rightarrow> bool" where
  "rule_matches r method host path =
     (if \<not> method_matches r method then False
      else if \<not> host_matches r host then False
      else path_matches r path)"

definition check_request :: "egress_rule list \<Rightarrow> string \<Rightarrow> string \<Rightarrow> string \<Rightarrow> bool" where
  "check_request rules method host path = list_ex (\<lambda>r. rule_matches r method host path) rules"

definition check_host :: "egress_rule list \<Rightarrow> string \<Rightarrow> bool" where
  "check_host rules host = list_ex (\<lambda>r. host_matches r host) rules"

subsection \<open>The rule language\<close>

definition VALID_METHODS :: "string list" where
  "VALID_METHODS = [''GET'', ''HEAD'', ''POST'', ''PUT'', ''DELETE'', ''PATCH'', ''OPTIONS'', ''TRACE'', ''*'']"

text \<open>\<open>s.split(None, 1)\<close> of a stripped text; the second part is empty when there is only one word.\<close>

definition split_first :: "string \<Rightarrow> string \<times> string" where
  "split_first s = (takeWhile (\<lambda>c. \<not> is_space c) s, dropWhile is_space (dropWhile (\<lambda>c. \<not> is_space c) s))"

definition parse_rule :: "string \<Rightarrow> egress_rule res" where
  "parse_rule rule_str =
     (let rule_str = strip rule_str; (methods_str, url_part) = split_first rule_str in
      if rule_str = [] then Inl (ValueError ''Empty egress rule'')
      else if url_part = []
      then Inl (ValueError (''Egress rule must be '' @ sq ''METHODS host/path'' @ '', got: '' @ sq rule_str))
      else
        (let method_parts = map strip (split_char (CHR '','') methods_str) in
         if list_ex (\<lambda>m. m = []) method_parts
         then Inl (ValueError (''Empty HTTP method in rule: '' @ sq rule_str))
         else
           (let methods = map upper method_parts;
                bad = filter (\<lambda>m. m \<notin> set VALID_METHODS) methods in
            if methods = [] then Inl (ValueError (''No methods specified in rule: '' @ sq rule_str))
            else if bad \<noteq> []
            then Inl (ValueError (''Invalid HTTP method(s) frozenset({'' @ join '', '' (map sq bad) @ ''}) in rule: '' @ sq rule_str))
            else
              (let host_pattern = takeWhile (\<lambda>c. c \<noteq> CHR ''/'') url_part;
                   path_pattern = (if CHR ''/'' \<in> set url_part then dropWhile (\<lambda>c. c \<noteq> CHR ''/'') url_part else ''/**'') in
               if host_pattern = [] then Inl (ValueError (''Empty host in rule: '' @ sq rule_str))
               else Inr \<lparr>er_methods = methods, er_host_pattern = host_pattern,
                         er_path_pattern = (if startswith path_pattern ''/'' then path_pattern else ''/'' @ path_pattern)\<rparr>))))"

definition parse_rules :: "string list \<Rightarrow> egress_rule list res" where
  "parse_rules rule_strings = res_map parse_rule rule_strings"

subsection \<open>Lemmas: globs\<close>

declare glob_atoms.simps [simp del]

lemma glob_atoms_simps [simp]:
  "glob_atoms [] = []"
  "c \<notin> {CHR ''*'', CHR ''?''} \<Longrightarrow> glob_atoms (c # cs) = Lit c # glob_atoms cs"
  "glob_atoms (CHR ''?'' # cs) = OneChar # glob_atoms cs"
  by (subst glob_atoms.simps, simp)+

lemma glob_atoms_star:
  "glob_atoms (CHR ''*'' # CHR ''*'' # CHR ''/'' # cs) = AnyText # glob_atoms cs"
  "cs = [] \<or> hd cs \<noteq> CHR ''/'' \<Longrightarrow> glob_atoms (CHR ''*'' # CHR ''*'' # cs) = AnyText # glob_atoms cs"
  "cs = [] \<or> hd cs \<noteq> CHR ''*'' \<Longrightarrow> glob_atoms (CHR ''*'' # cs) = AnySegment # glob_atoms cs"
  by (subst glob_atoms.simps, auto)+

text \<open>A text without wildcards stands for itself.\<close>

definition literal :: "string \<Rightarrow> bool" where
  "literal s \<longleftrightarrow> CHR ''*'' \<notin> set s \<and> CHR ''?'' \<notin> set s"

lemma glob_atoms_literal: "literal s \<Longrightarrow> glob_atoms (s @ t) = map Lit s @ glob_atoms t"
  by (induction s) (auto simp: literal_def)


definition line_end :: "string \<Rightarrow> bool" where
  "line_end e \<longleftrightarrow> e = [] \<or> e = [CHR 0x0A]"


lemma split_off_first:
  "(\<exists>w u. x # v = w @ u \<and> c \<notin> set w \<and> Q u) \<longleftrightarrow> Q (x # v) \<or> x \<noteq> c \<and> (\<exists>w u. v = w @ u \<and> c \<notin> set w \<and> Q u)"
proof -
  have "(\<exists>w u. x # v = w @ u \<and> c \<notin> set w \<and> Q u) \<longleftrightarrow>
     (\<exists>u. x # v = u \<and> Q u) \<or> (\<exists>y w u. x # v = (y # w) @ u \<and> c \<notin> set (y # w) \<and> Q u)"
    by (metis append_Nil empty_iff list.set(1) neq_Nil_conv)
  then show ?thesis by auto
qed


lemma match_AnyText:
  "match_atoms (AnyText # as) v \<longleftrightarrow> (\<exists>w u. v = w @ u \<and> CHR 0x0A \<notin> set w \<and> match_atoms as u)"
  by (induction v) (simp_all add: split_off_first)




lemma match_literal: "match_atoms (map Lit s @ as) v \<longleftrightarrow> (\<exists>u. v = s @ u \<and> match_atoms as u)"
  by (induction s arbitrary: v) (auto split: list.splits)

text \<open>
  The cache holds, for each of its patterns, the expression of the pattern; a lookup keeps this and
  returns what compiling would.
\<close>

definition glob_cache_ok :: "glob_cache \<Rightarrow> bool" where
  "glob_cache_ok cache \<longleftrightarrow> (\<forall>pattern regex. dict_get cache pattern = Some regex \<longrightarrow> regex = glob_atoms pattern)"

lemma glob_to_regex_cached:
  assumes "glob_cache_ok cache"
  shows "fst (glob_to_regex pattern cache) = glob_atoms pattern"
    and "glob_cache_ok (snd (glob_to_regex pattern cache))"
  using assms by (auto simp: glob_cache_ok_def glob_to_regex_def dict_get_def Let_def split: option.splits)

subsection \<open>Lemmas: hosts\<close>

text \<open>The hosts of a pattern: a pattern with a leading wildcard covers a domain and its subdomains.\<close>

definition host_covers :: "string \<Rightarrow> string \<Rightarrow> bool" where
  "host_covers pattern host \<longleftrightarrow>
     (if take 2 pattern = ''*.''
      then lower host = lower (drop 2 pattern) \<or> (\<exists>sub. lower host = sub @ ''.'' @ lower (drop 2 pattern))
      else lower host = lower pattern)"

lemma lower_char_id: "lower_char c = d \<Longrightarrow> d \<in> {CHR ''*'', CHR ''.'', CHR ''/''} \<Longrightarrow> c = d"
proof -
  assume c: "lower_char c = d" "d \<in> {CHR ''*'', CHR ''.'', CHR ''/''}"
  have "lower_char c = c \<or> 97 \<le> (of_char (lower_char c) :: nat)"
    by (auto simp: lower_char_def Let_def)
  then show "c = d" using c by auto
qed

lemma lower_star: "startswith (lower p) ''*.'' \<longleftrightarrow> take 2 p = ''*.''"
proof -
  have star: "lower_char (CHR ''*'') = CHR ''*''" "lower_char (CHR ''.'') = CHR ''.''" by code_simp+
  show ?thesis
    by (cases p; cases "tl p") (auto simp: startswith_def lower_def star dest!: lower_char_id [OF sym])
qed

lemma lower_wildcard:
  assumes "take 2 p = ''*.''"
  shows "drop 1 (lower p) = ''.'' @ lower (drop 2 p)" and "drop 2 (lower p) = lower (drop 2 p)"
proof -
  have dot: "lower_char (CHR ''.'') = CHR ''.''" by code_simp
  show "drop 1 (lower p) = ''.'' @ lower (drop 2 p)"
    using assms dot by (cases p; cases "tl p") (auto simp: lower_def)
  show "drop 2 (lower p) = lower (drop 2 p)" by (simp add: lower_def drop_map)
qed

lemma host_matches_covers: "host_matches r host \<longleftrightarrow> is_dns_safe_host host \<and> host_covers (er_host_pattern r) host"
proof (cases "take 2 (er_host_pattern r) = ''*.''")
  case True
  then show ?thesis
    using lower_wildcard [OF True]
    by (auto simp: host_matches_def host_covers_def lower_star endswith_def suffix_def Let_def)
qed (simp add: host_matches_def host_covers_def lower_star Let_def)

lemma check_request_host: "check_request rules method host path \<Longrightarrow> check_host rules host"
  by (auto simp: check_request_def check_host_def list_ex_iff rule_matches_def split: if_splits)

lemma check_host_safe: "check_host rules host \<Longrightarrow> is_dns_safe_host host"
  by (auto simp: check_host_def list_ex_iff host_matches_covers)

subsection \<open>Lemmas: the rule language\<close>

lemma strip_ends:
  assumes "strip s \<noteq> []"
  shows "\<not> is_space (hd (strip s))" and "\<not> is_space (last (strip s))"
proof -
  define t where "t = dropWhile is_space s"
  have strip: "strip s = rev (dropWhile is_space (rev t))" by (simp add: strip_def t_def)
  then have rest: "dropWhile is_space (rev t) \<noteq> []" using assms by simp
  have "prefix (strip s) t" unfolding strip by (metis rev_rev_ident suffix_dropWhile suffix_to_prefix)
  then have "hd (strip s) = hd t" using assms by (metis hd_append2 prefix_def)
  moreover have "t \<noteq> []" using rest by auto
  ultimately show "\<not> is_space (hd (strip s))" using hd_dropWhile [of is_space s] by (simp add: t_def)
  show "\<not> is_space (last (strip s))" using hd_dropWhile [OF rest] by (simp add: strip last_rev)
qed

lemma strip_id:
  assumes "s \<noteq> []" "\<not> is_space (hd s)" "\<not> is_space (last s)"
  shows "strip s = s"
proof -
  have "dropWhile is_space s = s" using assms by (cases s) simp_all
  moreover have "dropWhile is_space (rev s) = rev s" using assms by (cases "rev s") (auto simp: last_rev)
  ultimately show ?thesis by (simp add: strip_def)
qed

lemma split_char_none: "c \<notin> set w \<Longrightarrow> split_char c w = [w]"
  by (induction w) auto

lemma split_char_sep: "c \<notin> set w \<Longrightarrow> split_char c (w @ c # s) = w # split_char c s"
  by (induction w) auto

lemma split_join:
  assumes "ws \<noteq> []" and "list_all (\<lambda>w. c \<notin> set w) ws"
  shows "split_char c (join [c] ws) = ws"
  using assms by (induction "[c]" ws rule: join.induct) (simp_all add: split_char_none split_char_sep)

text \<open>What a parsed rule is, and its text in the rule language.\<close>

definition rule_ok :: "egress_rule \<Rightarrow> bool" where
  "rule_ok r \<longleftrightarrow>
     er_methods r \<noteq> [] \<and> list_all (\<lambda>m. m \<in> set VALID_METHODS) (er_methods r) \<and>
     er_host_pattern r \<noteq> [] \<and> CHR ''/'' \<notin> set (er_host_pattern r) \<and> \<not> is_space (hd (er_host_pattern r)) \<and>
     startswith (er_path_pattern r) ''/'' \<and> \<not> is_space (last (er_path_pattern r))"

definition print_rule :: "egress_rule \<Rightarrow> string" where
  "print_rule r = join '','' (er_methods r) @ '' '' @ er_host_pattern r @ er_path_pattern r"

lemma valid_method:
  assumes "m \<in> set VALID_METHODS"
  shows "m \<noteq> [] \<and> CHR '','' \<notin> set m \<and> list_all (\<lambda>c. \<not> is_space c) m \<and> strip m = m \<and> upper m = m"
proof -
  have "list_all (\<lambda>m. m \<noteq> [] \<and> CHR '','' \<notin> set m \<and> list_all (\<lambda>c. \<not> is_space c) m \<and> strip m = m \<and> upper m = m) VALID_METHODS"
    by code_simp
  then show ?thesis using assms by (simp add: list_all_iff)
qed

lemma join_nonempty: "ws \<noteq> [] \<Longrightarrow> hd ws \<noteq> [] \<Longrightarrow> join sep ws \<noteq> [] \<and> hd (join sep ws) = hd (hd ws)"
  by (cases "(sep, ws)" rule: join.cases) auto

lemma join_all: "list_all P sep \<Longrightarrow> list_all (list_all P) ws \<Longrightarrow> list_all P (join sep ws)"
  by (induction sep ws rule: join.induct) auto

lemma split_first_at:
  assumes "list_all (\<lambda>c. \<not> is_space c) a" "b \<noteq> []" "\<not> is_space (hd b)"
  shows "split_first (a @ '' '' @ b) = (a, b)"
proof -
  have space: "is_space (CHR '' '')" by code_simp
  have "takeWhile (\<lambda>c. \<not> is_space c) (a @ '' '' @ b) = a" "dropWhile (\<lambda>c. \<not> is_space c) (a @ '' '' @ b) = '' '' @ b"
    using assms(1) space by (simp_all add: list_all_iff takeWhile_append2 dropWhile_append2)
  moreover have "dropWhile is_space ('' '' @ b) = b" using assms(2,3) space by (cases b) simp_all
  ultimately show ?thesis by (simp add: split_first_def)
qed

lemma split_first_snd:
  assumes "snd (split_first s) \<noteq> []"
  shows "\<not> is_space (hd (snd (split_first s)))" and "last (snd (split_first s)) = last s"
proof -
  define d where "d = dropWhile (\<lambda>c. \<not> is_space c) s"
  have u: "snd (split_first s) = dropWhile is_space d" by (simp add: split_first_def d_def)
  show "\<not> is_space (hd (snd (split_first s)))" using hd_dropWhile [of is_space d] assms u by simp
  have "suffix (snd (split_first s)) s" unfolding u d_def by (metis suffix_dropWhile suffix_order.trans)
  then show "last (snd (split_first s)) = last s" using assms by (metis last_appendR suffix_def)
qed

lemma split_at_slash:
  assumes "CHR ''/'' \<notin> set h" "startswith p ''/''"
  shows "takeWhile (\<lambda>c. c \<noteq> CHR ''/'') (h @ p) = h" "dropWhile (\<lambda>c. c \<noteq> CHR ''/'') (h @ p) = p"
proof -
  obtain q where "p = CHR ''/'' # q" using assms(2) by (auto simp: startswith_def prefix_def)
  then show "takeWhile (\<lambda>c. c \<noteq> CHR ''/'') (h @ p) = h" "dropWhile (\<lambda>c. c \<noteq> CHR ''/'') (h @ p) = p"
    using assms(1) by (induction h) auto
qed

lemma from_slash: "CHR ''/'' \<in> set s \<Longrightarrow> startswith (dropWhile (\<lambda>c. c \<noteq> CHR ''/'') s) ''/''"
  by (induction s) (auto simp: startswith_def)

lemma parse_rule_ok:
  assumes "parse_rule s = Inr r"
  shows "rule_ok r"
proof -
  define rs ms url where "rs = strip s" and "ms = fst (split_first rs)" and "url = snd (split_first rs)"
  have parsed: "rs \<noteq> []" "url \<noteq> []" "[] \<notin> set (map strip (split_char (CHR '','') ms))"
      "er_methods r = map upper (map strip (split_char (CHR '','') ms))" "er_methods r \<noteq> []"
      "filter (\<lambda>m. m \<notin> set VALID_METHODS) (er_methods r) = []"
      "er_host_pattern r = takeWhile (\<lambda>c. c \<noteq> CHR ''/'') url" "er_host_pattern r \<noteq> []"
      "er_path_pattern r = (if CHR ''/'' \<in> set url then dropWhile (\<lambda>c. c \<noteq> CHR ''/'') url else ''/**'')"
    using assms
    by (auto simp: parse_rule_def Let_def case_prod_beta rs_def ms_def url_def list_ex_iff
        filter_empty_conv startswith_def from_slash [unfolded startswith_def] split: if_splits)
  have ends: "\<not> is_space (hd url)" "\<not> is_space (last url)"
    using split_first_snd [of rs] strip_ends [of s] parsed(1,2) by (simp_all add: url_def rs_def)
  have host: "CHR ''/'' \<notin> set (er_host_pattern r)" "hd (er_host_pattern r) = hd url"
    using parsed(7,8) by (auto dest: set_takeWhileD) (metis hd_append2 takeWhile_dropWhile_id)
  have path: "startswith (er_path_pattern r) ''/'' \<and> \<not> is_space (last (er_path_pattern r))"
  proof (cases "CHR ''/'' \<in> set url")
    case True
    then have "dropWhile (\<lambda>c. c \<noteq> CHR ''/'') url \<noteq> []" by auto
    then have "last (dropWhile (\<lambda>c. c \<noteq> CHR ''/'') url) = last url" by (metis last_appendR takeWhile_dropWhile_id)
    then show ?thesis using True parsed(9) ends from_slash by simp
  next
    case False
    have "startswith ''/**'' ''/'' \<and> \<not> is_space (last ''/**'')" by code_simp
    then show ?thesis using False parsed(9) by simp
  qed
  show ?thesis
    using parsed(5,6,8) host path ends by (simp add: rule_ok_def list_all_iff filter_empty_conv)
qed

lemma parse_rule_error: "parse_rule s = Inl e \<Longrightarrow> \<exists>m. e = ValueError m"
  by (auto simp: parse_rule_def Let_def case_prod_beta split: if_splits)

lemma res_map_length: "res_map f xs = Inr ys \<Longrightarrow> length ys = length xs"
  by (induction xs arbitrary: ys) (auto simp: res_bind_Inr_iff)

lemma res_map_all: "res_map f xs = Inr ys \<Longrightarrow> (\<And>x y. f x = Inr y \<Longrightarrow> P y) \<Longrightarrow> list_all P ys"
  by (induction xs arbitrary: ys) (auto simp: res_bind_Inr_iff)

lemma res_map_error: "res_map f xs = Inl e \<Longrightarrow> \<exists>x \<in> set xs. f x = Inl e"
  by (induction xs) (auto simp: res_bind_def split: sum.splits)

subsection \<open>Properties\<close>

text \<open>
  C37. Parsing a list of rules gives one well-formed rule per text, or raises \<open>ValueError\<close>: the methods of
  a rule are known, its host pattern is a word without a slash, and its path pattern is absolute.
\<close>

theorem parsed_rules_typed:
  "case parse_rules rule_strings of
     Inr rules \<Rightarrow> length rules = length rule_strings \<and> list_all rule_ok rules
   | Inl e \<Rightarrow> \<exists>m. e = ValueError m"
proof (cases "parse_rules rule_strings")
  case (Inl e)
  then show ?thesis by (auto simp: parse_rules_def dest!: res_map_error parse_rule_error)
next
  case (Inr rules)
  then show ?thesis
    using res_map_length [of parse_rule] res_map_all [of parse_rule] parse_rule_ok by (auto simp: parse_rules_def)
qed

text \<open>
  C38. The text of a well-formed rule parses to the rule, so no two well-formed rules have the same text.
\<close>

theorem rule_text_round_trip:
  assumes "rule_ok r"
  shows "parse_rule (print_rule r) = Inr r"
proof -
  have ok: "er_methods r \<noteq> []" "\<forall>m \<in> set (er_methods r). m \<in> set VALID_METHODS" "er_host_pattern r \<noteq> []"
      "CHR ''/'' \<notin> set (er_host_pattern r)" "\<not> is_space (hd (er_host_pattern r))"
      "startswith (er_path_pattern r) ''/''" "\<not> is_space (last (er_path_pattern r))"
    using assms by (simp_all add: rule_ok_def list_all_iff)
  define ms url where "ms = join '','' (er_methods r)" and "url = er_host_pattern r @ er_path_pattern r"
  have path: "er_path_pattern r \<noteq> []" "CHR ''/'' \<in> set url"
    using ok(6) by (auto simp: startswith_def prefix_def url_def)
  have url: "url \<noteq> []" "\<not> is_space (hd url)" "\<not> is_space (last url)"
    using ok path by (simp_all add: url_def)
  have methods: "map strip (er_methods r) = er_methods r" "map upper (er_methods r) = er_methods r"
      "[] \<notin> set (er_methods r)" "list_all (\<lambda>w. CHR '','' \<notin> set w) (er_methods r)"
      "list_all (list_all (\<lambda>c. \<not> is_space c)) (er_methods r)"
    using ok(2) valid_method by (auto simp: list_all_iff map_idI)
  have "\<not> is_space (CHR '','')" by code_simp
  then have word: "list_all (\<lambda>c. \<not> is_space c) ms" using join_all methods(5) by (simp add: ms_def)
  have "hd (er_methods r) \<noteq> []" using ok(1) methods(3) by (metis list.set_sel(1))
  then have "ms \<noteq> []" using join_nonempty ok(1) by (simp add: ms_def)
  with word have ms: "ms \<noteq> []" "\<not> is_space (hd ms)" by (cases ms; simp)+
  have print: "print_rule r = ms @ '' '' @ url" by (simp add: print_rule_def ms_def url_def)
  then have "strip (print_rule r) = print_rule r" using ms url by (intro strip_id) simp_all
  moreover have "split_first (print_rule r) = (ms, url)" unfolding print using word url by (intro split_first_at)
  moreover have "split_char (CHR '','') ms = er_methods r" using split_join ok(1) methods(4) by (simp add: ms_def)
  moreover have "filter (\<lambda>m. m \<notin> set VALID_METHODS) (er_methods r) = []" using ok(2) by (simp add: filter_empty_conv)
  moreover note split_at_slash [OF ok(4,6)]
  ultimately show ?thesis
    using ok methods url path print by (simp add: parse_rule_def Let_def list_ex_iff url_def)
qed

definition demo_rule :: egress_rule where
  "demo_rule = \<lparr>er_methods = [''GET'', ''POST''], er_host_pattern = ''*.github.com'', er_path_pattern = ''/repos/**''\<rparr>"

lemma rule_text_round_trip_witness:
  "rule_ok demo_rule \<and> parse_rule ''GET,POST *.github.com/repos/**'' = Inr demo_rule"
proof -
  have ok: "rule_ok demo_rule" by code_simp
  have "print_rule demo_rule = ''GET,POST *.github.com/repos/**''" by code_simp
  then show ?thesis using rule_text_round_trip [OF ok] ok by simp
qed


text \<open>A path pattern that ends in \<open>/**\<close> after a literal prefix allows the paths below the prefix, and no other.\<close>

lemma prefix_rule_exact:
  assumes "literal p"
  shows "glob_match (p @ ''/**'') v \<longleftrightarrow> (\<exists>w e. v = p @ ''/'' @ w @ e \<and> CHR 0x0A \<notin> set w \<and> line_end e)"
proof -
  have "glob_atoms (p @ ''/**'') = map Lit (p @ ''/'') @ [AnyText]"
    using glob_atoms_literal [of "p @ ''/''" "''**''"] assms by (simp add: literal_def glob_atoms_star)
  then show ?thesis
    by (simp only: glob_match_def match_literal match_AnyText match_atoms.simps line_end_def append_assoc) auto
qed

text \<open>The slash after \<open>**\<close> is swallowed, so \<open>**\<close> may end in the middle of a segment.\<close>

lemma double_star_splits_segment: "glob_match ''/repos/**/issues'' ''/repos/evilissues''"
  by code_simp

text \<open>Segments are compared as text: a path that climbs out of the prefix is below it.\<close>

lemma dot_segments_not_resolved: "glob_match ''/repos/myorg/**'' ''/repos/myorg/../other/secret''"
  by code_simp

end
