(* ===== verification/Credential_Proxy.thy ===== *)
theory Credential_Proxy
  imports Egress_Rules Policy_Types
begin

text \<open>
  The credentials of a sandbox: the parser of the \<open>credential_proxy\<close> field
  (\<open>src/omnigent/spec/parser.py\<close>), which turns each entry into bindings of one credential to one host, and
  the resolution of secrets and minting of placeholders (\<open>src/omnigent/inner/credential_proxy.py\<close>).
  The checks of shapes by pydantic, the file system, the environment and the shell are arguments.
\<close>

subsection \<open>Data\<close>

definition DEFAULT_BASIC_USERNAME :: string where
  "DEFAULT_BASIC_USERNAME = ''x-access-token''"

definition GH_BASIC_DEFAULT_TARGETS :: "string list" where
  "GH_BASIC_DEFAULT_TARGETS = [''github.com'', ''api.github.com'']"

definition GH_TOKEN_ENV_VARS :: "string list" where
  "GH_TOKEN_ENV_VARS = [''GH_TOKEN'', ''GITHUB_TOKEN'']"

definition SYNTHETIC_CREDENTIAL_PREFIX :: string where
  "SYNTHETIC_CREDENTIAL_PREFIX = ''oa_cred_''"

record cred_source_spec =
  cs_kind :: string
  cs_env :: "string option"
  cs_path :: "string option"
  cs_command :: "string option"

record cred_entry =
  ce_host :: string
  ce_scheme :: string
  ce_source :: cred_source_spec
  ce_username :: "string option"
  ce_inject_env :: "string list"

record cred_source_model =
  csm_env :: "string option"
  csm_file :: "string option"
  csm_command :: "string option"

record cred_item =
  ci_type :: string
  ci_source :: cred_source_model
  ci_target :: "string option"
  ci_targets :: "string list option"
  ci_env :: "string option"
  ci_username :: "string option"

subsection \<open>Validation of one entry\<close>

text \<open>\<open>^[A-Za-z_][A-Za-z0-9_]*$\<close>; the dollar sign also matches before a newline that ends the text.\<close>

definition name_start :: "char \<Rightarrow> bool" where
  "name_start c = (let n = (of_char c :: nat) in (65 \<le> n \<and> n \<le> 90) \<or> (97 \<le> n \<and> n \<le> 122) \<or> n = 95)"

definition name_char :: "char \<Rightarrow> bool" where
  "name_char c \<longleftrightarrow> name_start c \<or> (let n = (of_char c :: nat) in 48 \<le> n \<and> n \<le> 57)"

definition env_var_name :: "string \<Rightarrow> bool" where
  "env_var_name s =
     (let body = (if s \<noteq> [] \<and> last s = CHR 0x0A then butlast s else s) in
      body \<noteq> [] \<and> name_start (hd body) \<and> list_all name_char (tl body))"

text \<open>A validator answers the message of the \<open>ValueError\<close> it raises, or nothing.\<close>

definition exactly_one_source :: "cred_source_model \<Rightarrow> string option" where
  "exactly_one_source m =
     (if length (filter (\<lambda>v. v \<noteq> None) [csm_env m, csm_file m, csm_command m]) \<noteq> 1
      then Some (''source must set exactly one of '' @ sq ''env'' @ '', '' @ sq ''file'' @ '', or '' @ sq ''command'')
      else if (case csm_env m of Some v \<Rightarrow> \<not> env_var_name v | None \<Rightarrow> False)
      then Some (''source '' @ sq ''env'' @ '' must be a POSIX environment variable name'')
      else if (case csm_file m of Some v \<Rightarrow> strip v = [] | None \<Rightarrow> False)
      then Some (''source '' @ sq ''file'' @ '' must be a non-empty path'')
      else if (case csm_command m of Some v \<Rightarrow> strip v = [] | None \<Rightarrow> False)
      then Some (''source '' @ sq ''command'' @ '' must be a non-empty command'')
      else None)"

definition env_is_posix :: "string option \<Rightarrow> string option" where
  "env_is_posix v =
     (case v of Some s \<Rightarrow> if env_var_name s then None else Some ''env must be a POSIX environment variable name''
      | None \<Rightarrow> None)"

definition username_nonempty :: "string option \<Rightarrow> string option" where
  "username_nonempty v = (if v = Some [] then Some ''username must be a non-empty string'' else None)"

definition check_target_cardinality :: "cred_item \<Rightarrow> string option" where
  "check_target_cardinality m =
     (let has_target = (ci_target m \<noteq> None); has_targets = (ci_targets m \<noteq> None) in
      if ci_targets m = Some [] then Some ''targets must be a non-empty list''
      else if ci_type m = ''gh_basic'' \<and> has_target \<and> has_targets
      then Some (''gh_basic accepts at most one of '' @ sq ''target'' @ '' or '' @ sq ''targets'')
      else if ci_type m \<noteq> ''gh_basic'' \<and> has_target = has_targets
      then Some (''must declare exactly one of '' @ sq ''target'' @ '' or '' @ sq ''targets'')
      else if ci_env m \<noteq> None \<and> ci_type m \<in> {''git_https'', ''gh_basic''}
      then Some (ci_type m @ '' does not accept an '' @ sq ''env'' @ '' injection shim'')
      else if ci_username m \<noteq> None \<and> ci_type m = ''https_bearer''
      then Some (''https_bearer does not accept a '' @ sq ''username'')
      else None)"

type_synonym field_errors = "(string list \<times> string) list"

definition value_error :: "string list \<Rightarrow> string option \<Rightarrow> field_errors" where
  "value_error loc m = (case m of None \<Rightarrow> [] | Some msg \<Rightarrow> [(loc, ''Value error, '' @ msg)])"

text \<open>The validators of the fields report together; the one of the whole entry runs when they are silent.\<close>

definition validate_item :: "(json \<Rightarrow> field_errors + cred_item) \<Rightarrow> json \<Rightarrow> field_errors + cred_item" where
  "validate_item decode raw =
     (case decode raw of
        Inl errors \<Rightarrow> Inl errors
      | Inr m \<Rightarrow>
          (let errors = value_error [''source''] (exactly_one_source (ci_source m)) @
                        value_error [''env''] (env_is_posix (ci_env m)) @
                        value_error [''username''] (username_nonempty (ci_username m));
               errors = (if errors = [] then value_error [] (check_target_cardinality m) else errors)
           in if errors = [] then Inr m else Inl errors))"

definition format_validation_error :: "field_errors \<Rightarrow> string" where
  "format_validation_error errors =
     join ''; '' (map (\<lambda>(loc, msg). (if join ''.'' loc = [] then ''(entry)'' else join ''.'' loc) @ '': '' @ msg) errors)"

definition to_spec :: "cred_source_model \<Rightarrow> cred_source_spec" where
  "to_spec m =
     (case csm_env m of
        Some v \<Rightarrow> \<lparr>cs_kind = ''env'', cs_env = Some v, cs_path = None, cs_command = None\<rparr>
      | None \<Rightarrow>
          (case csm_file m of
             Some v \<Rightarrow> \<lparr>cs_kind = ''file'', cs_env = None, cs_path = Some (strip v), cs_command = None\<rparr>
           | None \<Rightarrow> \<lparr>cs_kind = ''command'', cs_env = None, cs_path = None,
                      cs_command = map_option strip (csm_command m)\<rparr>))"

subsection \<open>Hosts of one entry\<close>

definition parse_credential_proxy_host :: "string \<Rightarrow> string \<Rightarrow> string res" where
  "parse_credential_proxy_host raw field_path =
     (if strip raw = []
      then Inl (OmnigentError (field_path @ '' must be a non-empty string (host or host/path), got '' @ sq raw))
      else (let host = lower (takeWhile (\<lambda>c. c \<noteq> CHR ''/'') (strip raw)) in
            if \<not> is_dns_safe_host host
            then Inl (OmnigentError (field_path @ '' host '' @ sq host @
                   '' must be an exact DNS hostname (letters/digits/dot/hyphen, no wildcards)''))
            else Inr host))"

definition item_path :: "nat \<Rightarrow> string" where
  "item_path index = ''os_env.sandbox.credential_proxy['' @ nat_str index @ '']''"

fun collect_hosts :: "(string \<times> string) list \<Rightarrow> string list \<Rightarrow> string list res" where
  "collect_hosts [] hosts = Inr hosts"
| "collect_hosts ((raw_target, field_path) # rest) hosts =
     res_bind (parse_credential_proxy_host raw_target field_path) (\<lambda>host.
       collect_hosts rest (if host \<in> set hosts then hosts else hosts @ [host]))"

definition resolve_credential_hosts :: "cred_item \<Rightarrow> nat \<Rightarrow> string list res" where
  "resolve_credential_hosts m index =
     (case ci_target m of
        Some t \<Rightarrow> collect_hosts [(t, item_path index @ ''.target'')] []
      | None \<Rightarrow>
          (case ci_targets m of
             None \<Rightarrow> Inl (OtherError ''AssertionError'')
           | Some ts \<Rightarrow>
               collect_hosts (map (\<lambda>(j, t). (t, item_path index @ ''.targets['' @ nat_str j @ '']'')) (enumerate 0 ts)) []))"

subsection \<open>Bindings\<close>

definition inject_list :: "cred_item \<Rightarrow> string list" where
  "inject_list m = (case ci_env m of Some v \<Rightarrow> [v] | None \<Rightarrow> [])"

definition basic_username :: "cred_item \<Rightarrow> string" where
  "basic_username m = str_or (ci_username m) DEFAULT_BASIC_USERNAME"

definition normalize_https_bearer :: "cred_item \<Rightarrow> cred_source_spec \<Rightarrow> nat \<Rightarrow> cred_entry list res" where
  "normalize_https_bearer m source index =
     res_bind (resolve_credential_hosts m index) (\<lambda>hosts.
       Inr (map (\<lambda>host. \<lparr>ce_host = host, ce_scheme = ''bearer'', ce_source = source, ce_username = None,
                         ce_inject_env = inject_list m\<rparr>) hosts))"

definition normalize_https_basic :: "cred_item \<Rightarrow> cred_source_spec \<Rightarrow> nat \<Rightarrow> cred_entry list res" where
  "normalize_https_basic m source index =
     res_bind (resolve_credential_hosts m index) (\<lambda>hosts.
       Inr (map (\<lambda>host. \<lparr>ce_host = host, ce_scheme = ''basic'', ce_source = source,
                         ce_username = Some (basic_username m), ce_inject_env = inject_list m\<rparr>) hosts))"

definition normalize_git_https :: "cred_item \<Rightarrow> cred_source_spec \<Rightarrow> nat \<Rightarrow> cred_entry list res" where
  "normalize_git_https m source index =
     res_bind (resolve_credential_hosts m index) (\<lambda>hosts.
       Inr (map (\<lambda>host. \<lparr>ce_host = host, ce_scheme = ''basic'', ce_source = source,
                         ce_username = Some (basic_username m), ce_inject_env = []\<rparr>) hosts))"

definition gh_entry :: "cred_source_spec \<Rightarrow> string \<Rightarrow> cred_entry" where
  "gh_entry source host =
     (if startswith host ''api.''
      then \<lparr>ce_host = host, ce_scheme = ''token'', ce_source = source, ce_username = None, ce_inject_env = GH_TOKEN_ENV_VARS\<rparr>
      else \<lparr>ce_host = host, ce_scheme = ''basic'', ce_source = source, ce_username = Some DEFAULT_BASIC_USERNAME,
            ce_inject_env = []\<rparr>)"

definition normalize_gh_basic :: "cred_item \<Rightarrow> cred_source_spec \<Rightarrow> nat \<Rightarrow> cred_entry list res" where
  "normalize_gh_basic m source index =
     res_bind (if ci_target m \<noteq> None \<or> ci_targets m \<noteq> None then resolve_credential_hosts m index
               else Inr GH_BASIC_DEFAULT_TARGETS) (\<lambda>hosts. Inr (map (gh_entry source) hosts))"

definition normalize_item :: "(json \<Rightarrow> field_errors + cred_item) \<Rightarrow> nat \<Rightarrow> json \<Rightarrow> cred_entry list res" where
  "normalize_item decode i raw =
     (case validate_item decode raw of
        Inl errors \<Rightarrow> Inl (OmnigentError (item_path i @ '' is invalid: '' @ format_validation_error errors))
      | Inr m \<Rightarrow>
          (let source = to_spec (ci_source m) in
           if ci_type m = ''gh_basic'' then normalize_gh_basic m source i
           else if ci_type m = ''https_bearer'' then normalize_https_bearer m source i
           else if ci_type m = ''https_basic'' then normalize_https_basic m source i
           else normalize_git_https m source i))"

fun check_hosts :: "string dict \<Rightarrow> cred_entry list \<Rightarrow> unit res" where
  "check_hosts seen_hosts [] = Inr ()"
| "check_hosts seen_hosts (entry # entries) =
     (case dict_get seen_hosts (lower (ce_host entry)) of
        Some first \<Rightarrow>
          Inl (OmnigentError (''os_env.sandbox.credential_proxy binds host '' @ sq (ce_host entry) @ '' more than once (also via '' @
            sq first @ ''); each host may be bound by at most one credential. Remove the duplicate entry.''))
      | None \<Rightarrow> check_hosts (dict_set (lower (ce_host entry)) (ce_host entry) seen_hosts) entries)"

definition parse_credential_proxy :: "(json \<Rightarrow> field_errors + cred_item) \<Rightarrow> json \<Rightarrow> cred_entry list option res" where
  "parse_credential_proxy decode raw =
     (case raw of
        JNull \<Rightarrow> Inr None
      | JList items \<Rightarrow>
          (if items = [] then Inr None
           else res_bind (res_map (\<lambda>(i, item). normalize_item decode i item) (enumerate 0 items)) (\<lambda>bindings.
             let entries = concat bindings in
             if entries = [] then Inr None
             else res_bind (check_hosts [] entries) (\<lambda>_. Inr (Some entries))))
      | _ \<Rightarrow> Inl (OmnigentError (''os_env.sandbox.credential_proxy must be a list, got '' @ type_name raw)))"

definition macos_unsupported_reason :: "cred_entry list option \<Rightarrow> string \<Rightarrow> string option" where
  "macos_unsupported_reason credential_proxy sandbox_type =
     (case credential_proxy of
        None \<Rightarrow> None
      | Some entries \<Rightarrow>
          if sandbox_type \<noteq> ''darwin_seatbelt'' \<or> \<not> list_ex (\<lambda>e. ce_scheme e = ''token'') entries then None
          else Some (''os_env.sandbox.credential_proxy type '' @ sq ''gh_basic'' @ '' does not work on macOS (sandbox.type=darwin_seatbelt). '' @
            sq ''gh_basic'' @ '' wires the GitHub CLI '' @ sq ''gh'' @
            '', which is a Go binary, and Go on macOS verifies TLS against the system keychain (Security.framework) and ignores SSL_CERT_FILE -- the environment variable the egress MITM proxy uses to publish its CA to sandboxed tools. '' @
            sq ''gh'' @ '' therefore rejects the proxy'' @ [CHR 0x27] @ ''s certificate and every '' @ sq ''gh'' @ '' call fails with '' @
            sq ''certificate is not trusted'' @ ''. Use sandbox.type=linux_bwrap (Go honors SSL_CERT_FILE on Linux), or use the '' @
            sq ''https_bearer'' @ '' / '' @ sq ''https_basic'' @
            '' primitives with a non-Go client (curl / python / node) that trusts the proxy CA on macOS.''))"

text \<open>The presets for other tools never fall under this refusal.\<close>

lemma macos_only_gh_basic:
  "list_all (\<lambda>e. ce_scheme e \<noteq> ''token'') entries \<Longrightarrow> macos_unsupported_reason (Some entries) sandbox_type = None"
  by (auto simp: macos_unsupported_reason_def list_all_iff list_ex_iff)

subsection \<open>Secrets and placeholders\<close>

record rewrite_rule =
  rr_host :: string
  rr_scheme :: string
  rr_real_secret :: string
  rr_synthetic :: "string option"
  rr_username :: "string option"

record cred_runtime =
  crt_helper_env_updates :: "string dict"
  crt_rewrites :: "rewrite_rule list"

text \<open>
  What the parent process reads: \<open>expanduser\<close>, the content of a file (nothing when the path is no file)
  and the exit status, output and errors of a command.
\<close>

record cred_host =
  ch_expanduser :: "string \<Rightarrow> string"
  ch_read_file :: "string \<Rightarrow> string res option"
  ch_run :: "string \<Rightarrow> string dict \<Rightarrow> (int \<times> string \<times> string) res"

definition resolve_secret :: "cred_host \<Rightarrow> string dict \<Rightarrow> cred_source_spec \<Rightarrow> string res" where
  "resolve_secret h parent_env source =
     (if cs_kind source = ''env'' then
        (if \<not> str_truthy (cs_env source) then Inl (ValueError (''credential_proxy env source requires an '' @ sq ''env'' @ '' name''))
         else (let name = the (cs_env source); value = strip (dict_get_or parent_env name []) in
               if value = [] then Inl (ValueError (''credential_proxy env source '' @ sq name @ '' is missing or empty''))
               else Inr value))
      else if cs_kind source = ''file'' then
        (if \<not> str_truthy (cs_path source) then Inl (ValueError (''credential_proxy file source requires a '' @ sq ''path''))
         else (let path = ch_expanduser h (the (cs_path source)) in
               case ch_read_file h path of
                 None \<Rightarrow> Inl (ValueError (''credential_proxy file source does not exist: '' @ path))
               | Some content \<Rightarrow>
                   res_bind content (\<lambda>text.
                     if strip text = [] then Inl (ValueError (''credential_proxy file source is empty: '' @ path))
                     else Inr (strip text))))
      else if cs_kind source = ''command'' then
        (if \<not> str_truthy (cs_command source)
         then Inl (ValueError (''credential_proxy command source requires a '' @ sq ''command''))
         else res_bind (ch_run h (the (cs_command source)) parent_env) (\<lambda>(returncode, stdout, stderr).
                if returncode \<noteq> 0
                then Inl (ValueError (''credential_proxy command source exited '' @ int_str returncode @
                       (if strip stderr = [] then [] else '': '' @ strip stderr)))
                else if strip stdout = [] then Inl (ValueError ''credential_proxy command source produced empty stdout'')
                else Inr (strip stdout)))
      else Inl (ValueError (''unsupported credential_proxy source kind: '' @ sq (cs_kind source))))"

text \<open>\<open>token n\<close> is the \<open>n\<close>-th result of \<open>secrets.token_urlsafe\<close>.\<close>

fun prepare_loop ::
    "cred_host \<Rightarrow> string dict \<Rightarrow> (nat \<Rightarrow> string) \<Rightarrow> nat \<Rightarrow> cred_entry list \<Rightarrow> cred_runtime \<Rightarrow> cred_runtime res" where
  "prepare_loop h parent_env token n [] runtime = Inr runtime"
| "prepare_loop h parent_env token n (entry # entries) runtime =
     res_bind (resolve_secret h parent_env (ce_source entry)) (\<lambda>real_secret.
       let inject = (ce_inject_env entry \<noteq> []);
           synthetic = SYNTHETIC_CREDENTIAL_PREFIX @ token n;
           updates = (if inject then fold (\<lambda>name env. dict_set name synthetic env) (ce_inject_env entry) (crt_helper_env_updates runtime)
                      else crt_helper_env_updates runtime);
           rule = \<lparr>rr_host = ce_host entry, rr_scheme = ce_scheme entry, rr_real_secret = real_secret,
                   rr_synthetic = (if inject then Some synthetic else None), rr_username = ce_username entry\<rparr>
       in prepare_loop h parent_env token (if inject then Suc n else n) entries
            \<lparr>crt_helper_env_updates = updates, crt_rewrites = crt_rewrites runtime @ [rule]\<rparr>)"

definition prepare_credential_proxy_runtime ::
    "cred_host \<Rightarrow> (nat \<Rightarrow> string) \<Rightarrow> cred_entry list option \<Rightarrow> string dict \<Rightarrow> cred_runtime res" where
  "prepare_credential_proxy_runtime h token spec parent_env =
     (let runtime = \<lparr>crt_helper_env_updates = [], crt_rewrites = []\<rparr> in
      case spec of
        None \<Rightarrow> Inr runtime
      | Some entries \<Rightarrow> prepare_loop h parent_env token 0 entries runtime)"

subsection \<open>Lemmas: bindings\<close>

lemma lower_idem [simp]: "lower (lower s) = lower s"
  by (simp add: lower_def lower_char_def Let_def)

text \<open>What one binding is: an exact host in lower case, a known scheme, and a user name for Basic.\<close>

definition entry_ok :: "cred_entry \<Rightarrow> bool" where
  "entry_ok e \<longleftrightarrow>
     is_dns_safe_host (ce_host e) \<and> lower (ce_host e) = ce_host e \<and>
     ce_scheme e \<in> {''basic'', ''bearer'', ''token''} \<and> (ce_scheme e = ''basic'' \<longrightarrow> str_truthy (ce_username e))"

definition host_ok :: "string \<Rightarrow> bool" where
  "host_ok host \<longleftrightarrow> is_dns_safe_host host \<and> lower host = host"

lemma parse_host_ok: "parse_credential_proxy_host raw field_path = Inr host \<Longrightarrow> host_ok host"
  by (auto simp: parse_credential_proxy_host_def host_ok_def Let_def split: if_splits)

lemma collect_hosts_ok: "collect_hosts ts hosts = Inr hs \<Longrightarrow> list_all host_ok hosts \<Longrightarrow> list_all host_ok hs"
proof (induction ts hosts rule: collect_hosts.induct)
  case (2 raw_target field_path rest hosts)
  then obtain host where host: "parse_credential_proxy_host raw_target field_path = Inr host"
      "collect_hosts rest (if host \<in> set hosts then hosts else hosts @ [host]) = Inr hs"
    by (auto simp: res_bind_Inr_iff)
  then show ?case using "2.IH" [OF host(2)] "2.prems"(2) parse_host_ok [OF host(1)] by (simp split: if_splits)
qed simp

lemma resolve_hosts_ok:
  assumes "resolve_credential_hosts m index = Inr hs"
  shows "list_all host_ok hs"
proof -
  obtain ts where "collect_hosts ts [] = Inr hs"
    using assms unfolding resolve_credential_hosts_def by (auto simp del: collect_hosts.simps split: option.splits)
  then show ?thesis by (rule collect_hosts_ok) simp
qed

lemma basic_username_nonempty: "basic_username m \<noteq> []"
  by (simp add: basic_username_def str_or_def DEFAULT_BASIC_USERNAME_def split: option.splits)

lemma gh_defaults_ok: "list_all host_ok GH_BASIC_DEFAULT_TARGETS"
  by code_simp

lemma normalize_item_ok:
  assumes "normalize_item decode i raw = Inr es"
  shows "list_all entry_ok es"
proof -
  obtain m where "validate_item decode raw = Inr m"
    using assms by (auto simp: normalize_item_def split: sum.splits)
  then have norm: "normalize_gh_basic m (to_spec (ci_source m)) i = Inr es \<or>
      normalize_https_bearer m (to_spec (ci_source m)) i = Inr es \<or>
      normalize_https_basic m (to_spec (ci_source m)) i = Inr es \<or>
      normalize_git_https m (to_spec (ci_source m)) i = Inr es"
    using assms by (auto simp: normalize_item_def Let_def split: if_splits)
  have user: "DEFAULT_BASIC_USERNAME \<noteq> []" by (simp add: DEFAULT_BASIC_USERNAME_def)
  show ?thesis
    using norm gh_defaults_ok resolve_hosts_ok user basic_username_nonempty
    by (auto simp: normalize_gh_basic_def normalize_https_bearer_def normalize_https_basic_def normalize_git_https_def
        res_bind_Inr_iff list_all_iff entry_ok_def host_ok_def gh_entry_def split: if_splits)
qed

lemma check_hosts_distinct:
  assumes "check_hosts seen es = Inr ()"
  shows "distinct (map (\<lambda>e. lower (ce_host e)) es) \<and> (\<forall>e \<in> set es. dict_get seen (lower (ce_host e)) = None)"
  using assms
proof (induction seen es rule: check_hosts.induct)
  case (2 seen entry entries)
  then have none: "dict_get seen (lower (ce_host entry)) = None" by (auto split: option.splits)
  then have rec: "distinct (map (\<lambda>e. lower (ce_host e)) entries)"
      "\<forall>e \<in> set entries. dict_get (dict_set (lower (ce_host entry)) (ce_host entry) seen) (lower (ce_host e)) = None"
    using 2 by simp_all
  then show ?case using none by (auto simp: dict_get_def split: if_splits)
qed simp

text \<open>What the rules of the proxy keep of the bindings they come from.\<close>

definition rewrite_of :: "cred_host \<Rightarrow> string dict \<Rightarrow> cred_entry \<Rightarrow> rewrite_rule \<Rightarrow> bool" where
  "rewrite_of h parent_env e r \<longleftrightarrow>
     resolve_secret h parent_env (ce_source e) = Inr (rr_real_secret r) \<and> rr_host r = ce_host e \<and> rr_scheme r = ce_scheme e \<and> rr_username r = ce_username e \<and>
     (rr_synthetic r = None \<longleftrightarrow> ce_inject_env e = []) \<and>
     (case rr_synthetic r of None \<Rightarrow> True | Some s \<Rightarrow> startswith s SYNTHETIC_CREDENTIAL_PREFIX)"

definition placeholders :: "(nat \<Rightarrow> string) \<Rightarrow> string set" where
  "placeholders token = (\<lambda>n. SYNTHETIC_CREDENTIAL_PREFIX @ token n) ` UNIV"

lemma dict_set_values: "snd ` set (dict_set k v d) \<subseteq> insert v (snd ` set d)"
  by (induction k v d rule: dict_set.induct) auto

lemma fold_dict_set_values:
  "snd ` set d \<subseteq> A \<Longrightarrow> v \<in> A \<Longrightarrow> snd ` set (fold (\<lambda>name env. dict_set name v env) names d) \<subseteq> A"
proof (induction names arbitrary: d)
  case (Cons name names)
  have "snd ` set (dict_set name v d) \<subseteq> A" using Cons.prems dict_set_values [of name v d] by blast
  then show ?case using Cons by simp
qed simp

lemma prepare_loop_result:
  assumes "prepare_loop h parent_env token n entries runtime = Inr rt"
    and "list_all2 (rewrite_of h parent_env) bound (crt_rewrites runtime)"
    and "snd ` set (crt_helper_env_updates runtime) \<subseteq> placeholders token"
  shows "list_all2 (rewrite_of h parent_env) (bound @ entries) (crt_rewrites rt) \<and>
    snd ` set (crt_helper_env_updates rt) \<subseteq> placeholders token"
  using assms
proof (induction entries arbitrary: n runtime bound)
  case (Cons entry entries)
  define inject synthetic where "inject = (ce_inject_env entry \<noteq> [])" and "synthetic = SYNTHETIC_CREDENTIAL_PREFIX @ token n"
  define updates where "updates =
      (if inject then fold (\<lambda>name env. dict_set name synthetic env) (ce_inject_env entry) (crt_helper_env_updates runtime)
       else crt_helper_env_updates runtime)"
  obtain real_secret where secret: "resolve_secret h parent_env (ce_source entry) = Inr real_secret"
    using Cons.prems(1) by (auto simp: res_bind_Inr_iff)
  define rule where "rule = \<lparr>rr_host = ce_host entry, rr_scheme = ce_scheme entry, rr_real_secret = real_secret,
      rr_synthetic = (if inject then Some synthetic else None), rr_username = ce_username entry\<rparr>"
  have rest: "prepare_loop h parent_env token (if inject then Suc n else n) entries
      \<lparr>crt_helper_env_updates = updates, crt_rewrites = crt_rewrites runtime @ [rule]\<rparr> = Inr rt"
    using Cons.prems(1) unfolding prepare_loop.simps secret res_bind_simps Let_def inject_def synthetic_def updates_def rule_def .
  have "rewrite_of h parent_env entry rule" by (simp add: rewrite_of_def secret rule_def inject_def synthetic_def)
  then have rules: "list_all2 (rewrite_of h parent_env) (bound @ [entry]) (crt_rewrites runtime @ [rule])"
    using Cons.prems(2) by (simp add: list_all2_appendI)
  have "synthetic \<in> placeholders token" by (auto simp: placeholders_def synthetic_def)
  then have "snd ` set updates \<subseteq> placeholders token"
    using Cons.prems(3) by (simp add: updates_def fold_dict_set_values)
  then show ?case using Cons.IH [OF rest, of "bound @ [entry]"] rules by simp
qed simp

lemma parsed_bindings:
  assumes "parse_credential_proxy decode raw = Inr (Some entries)"
  shows "entries \<noteq> [] \<and> distinct (map ce_host entries) \<and> list_all entry_ok entries"
proof -
  obtain bindings items where
    bindings: "res_map (\<lambda>(i, item). normalize_item decode i item) (enumerate 0 items) = Inr bindings"
      and entries: "entries = concat bindings" "entries \<noteq> []" "check_hosts [] entries = Inr ()"
    using assms by (auto simp: parse_credential_proxy_def Let_def res_bind_Inr_iff split: json.splits if_splits)
  have "list_all (list_all entry_ok) bindings"
    using bindings by (rule res_map_all) (auto dest: normalize_item_ok)
  then have ok: "list_all entry_ok entries" by (auto simp: entries(1) list_all_iff)
  then have "map (\<lambda>e. lower (ce_host e)) entries = map ce_host entries"
    by (simp add: list_all_iff entry_ok_def)
  then have "distinct (map ce_host entries)" using check_hosts_distinct [OF entries(3)] by metis
  then show ?thesis using entries(2) ok by simp
qed

subsection \<open>Properties\<close>

text \<open>
  Every accepted list of credentials gives at least one binding, no two bindings have the same host, and
  every binding is to one exact host in lower case, with a known scheme and a user name where Basic needs one.
\<close>

theorem credential_hosts_unique:
  assumes "parse_credential_proxy decode raw = Inr (Some entries)"
  shows "entries \<noteq> [] \<and> distinct (map ce_host entries) \<and> list_all entry_ok entries"
  using assms by (rule parsed_bindings)

definition demo_source :: cred_source_model where
  "demo_source = \<lparr>csm_env = Some ''GH_PAT'', csm_file = None, csm_command = None\<rparr>"

definition demo_item :: cred_item where
  "demo_item = \<lparr>ci_type = ''gh_basic'', ci_source = demo_source, ci_target = None, ci_targets = None,
     ci_env = None, ci_username = None\<rparr>"

definition demo_entries :: "cred_entry list" where
  "demo_entries = map (gh_entry (to_spec demo_source)) GH_BASIC_DEFAULT_TARGETS"

lemma credential_hosts_unique_witness:
  "parse_credential_proxy (\<lambda>_. Inr demo_item) (JList [JNull]) = Inr (Some demo_entries) \<and>
   map ce_host demo_entries = [''github.com'', ''api.github.com''] \<and> list_all entry_ok demo_entries"
proof -
  have parsed: "parse_credential_proxy (\<lambda>_. Inr demo_item) (JList [JNull]) = Inr (Some demo_entries)" by code_simp
  have "map ce_host demo_entries = [''github.com'', ''api.github.com'']" by code_simp
  then show ?thesis using credential_hosts_unique [OF parsed] parsed by simp
qed

text \<open>
  What reaches the environment of the sandbox are placeholders only, and the proxy gets one rule per
  binding with its host, scheme, user name and resolved secret; a rule has a placeholder exactly when its binding asks for one.
\<close>

theorem only_placeholders_injected:
  assumes "prepare_credential_proxy_runtime h token (Some entries) parent_env = Inr runtime"
  shows "snd ` set (crt_helper_env_updates runtime) \<subseteq> placeholders token \<and>
    list_all2 (rewrite_of h parent_env) entries (crt_rewrites runtime)"
  using prepare_loop_result [where bound = "[]"] assms by (force simp: prepare_credential_proxy_runtime_def Let_def)

definition demo_cred_host :: cred_host where
  "demo_cred_host = \<lparr>ch_expanduser = \<lambda>p. p, ch_read_file = \<lambda>p. None, ch_run = \<lambda>c e. Inl (OtherError [])\<rparr>"

definition demo_runtime :: cred_runtime where
  "demo_runtime = \<lparr>crt_helper_env_updates = [(''GH_TOKEN'', ''oa_cred_x''), (''GITHUB_TOKEN'', ''oa_cred_x'')],
     crt_rewrites = [\<lparr>rr_host = ''github.com'', rr_scheme = ''basic'', rr_real_secret = ''s3'', rr_synthetic = None,
                      rr_username = Some ''x-access-token''\<rparr>,
                     \<lparr>rr_host = ''api.github.com'', rr_scheme = ''token'', rr_real_secret = ''s3'',
                      rr_synthetic = Some ''oa_cred_x'', rr_username = None\<rparr>]\<rparr>"

lemma only_placeholders_injected_witness:
  "prepare_credential_proxy_runtime demo_cred_host (\<lambda>_. ''x'') (Some demo_entries) [(''GH_PAT'', '' s3 '')] = Inr demo_runtime \<and>
   list_all2 (rewrite_of demo_cred_host [(''GH_PAT'', '' s3 '')]) demo_entries (crt_rewrites demo_runtime)"
proof -
  have prepared: "prepare_credential_proxy_runtime demo_cred_host (\<lambda>_. ''x'') (Some demo_entries) [(''GH_PAT'', '' s3 '')] = Inr demo_runtime"
    by code_simp
  then show ?thesis using only_placeholders_injected [OF prepared] by simp
qed

text \<open>A resolved secret is not empty and has no white space at its ends.\<close>

lemma strip_idem [simp]: "strip (strip s) = strip s"
  by (cases "strip s = []") (simp_all add: strip_ends strip_id, simp add: strip_def)

lemma resolved_secret: "resolve_secret h parent_env source = Inr secret \<Longrightarrow> secret \<noteq> [] \<and> strip secret = secret"
  by (auto simp: resolve_secret_def Let_def res_bind_Inr_iff split: if_splits option.splits prod.splits)

text \<open>A name that ends in a newline passes the check of environment variable names.\<close>

lemma newline_in_variable_name: "env_var_name (''GH_PAT'' @ [CHR 0x0A])"
  by code_simp

end
