(* ===== verification/Egress_Proxy.thy ===== *)
theory Egress_Proxy
  imports Credential_Proxy
begin

text \<open>
  The proxy between a sandbox and the network (\<open>src/omnigent/inner/egress/proxy.py\<close>): the handling of one
  client connection, from its first line to the request that is forwarded. The state is what the client
  still sends and a trace of what the proxy did: lookups, connections, replies. The network is the
  argument \<open>world\<close>, whose resolver may answer each lookup differently. Request lines and headers are decoded
  as Latin-1, so here a character is a byte. \<open>urlparse\<close>, the header parser of the \<open>email\<close> package, \<open>base64\<close>,
  \<open>int\<close> on texts and the classification of addresses by \<open>ipaddress\<close> are the argument \<open>lib\<close>.
\<close>

subsection \<open>Latin-1 texts\<close>

definition latin_space :: "char \<Rightarrow> bool" where
  "latin_space c = (let n = (of_char c :: nat) in (9 \<le> n \<and> n \<le> 13) \<or> (28 \<le> n \<and> n \<le> 32) \<or> n = 133 \<or> n = 160)"

function latin_words :: "string \<Rightarrow> string list" where
  "latin_words s =
     (let t = dropWhile latin_space s in
      if t = [] then []
      else takeWhile (\<lambda>c. \<not> latin_space c) t # latin_words (dropWhile (\<lambda>c. \<not> latin_space c) t))"
  by auto
termination
proof (relation "measure length")
  fix s t assume t: "t = dropWhile latin_space s" "t \<noteq> []"
  then have "\<not> latin_space (hd t)" using hd_dropWhile by metis
  then have "length (dropWhile (\<lambda>c. \<not> latin_space c) t) < length t"
    using t(2) by (cases t) (simp_all add: le_imp_less_Suc length_dropWhile_le)
  also have "length t \<le> length s" using t(1) by (simp add: length_dropWhile_le)
  finally show "(dropWhile (\<lambda>c. \<not> latin_space c) t, s) \<in> measure length" by simp
qed simp

definition latin_strip :: "string \<Rightarrow> string" where
  "latin_strip s = rev (dropWhile latin_space (rev (dropWhile latin_space s)))"

text \<open>
  \<open>upper\<close>: the capitals of the micro sign and of the y with diaeresis are not Latin-1; no other capital is
  one of these two, so they stand for their capitals here, and a text with them has no Latin-1 encoding.
\<close>

definition latin_upper_char :: "char \<Rightarrow> string" where
  "latin_upper_char c =
     (let n = (of_char c :: nat) in
      if (97 \<le> n \<and> n \<le> 122) \<or> (224 \<le> n \<and> n \<le> 254 \<and> n \<noteq> 247) then [char_of (n - 32)]
      else if n = 223 then ''SS'' else [c])"

definition latin_upper :: "string \<Rightarrow> string" where
  "latin_upper s = concat (map latin_upper_char s)"

definition latin_encodable :: "string \<Rightarrow> bool" where
  "latin_encodable s \<longleftrightarrow> CHR 0xB5 \<notin> set s \<and> CHR 0xFF \<notin> set s"

definition utf8_char :: "char \<Rightarrow> string" where
  "utf8_char c =
     (let n = (of_char c :: nat) in
      if n < 128 then [c] else [char_of (192 + n div 64), char_of (128 + n mod 64)])"

definition utf8 :: "string \<Rightarrow> string" where
  "utf8 s = concat (map utf8_char s)"

definition utf8_upper :: "string \<Rightarrow> string" where
  "utf8_upper s =
     concat (map (\<lambda>c. if c = CHR 0xB5 then [CHR 0xCE, CHR 0x9C] else if c = CHR 0xFF then [CHR 0xC5, CHR 0xB8]
                      else utf8_char c) s)"

subsection \<open>Streams\<close>

text \<open>What a peer still sends; after its last byte an open stream makes a reader wait for its timeout.\<close>

record byte_stream =
  bs_bytes :: string
  bs_open :: bool

definition STREAM_LIMIT :: int where
  "STREAM_LIMIT = 65536"

definition HEADER_MAX :: int where
  "HEADER_MAX = 65536"

definition CRLF :: string where
  "CRLF = [CHR 0x0D, CHR 0x0A]"

definition readline :: "byte_stream \<Rightarrow> string res \<times> byte_stream" where
  "readline st =
     (let line = takeWhile (\<lambda>c. c \<noteq> CHR 0x0A) (bs_bytes st); n = length line in
      if STREAM_LIMIT < int n then (Inl (ValueError ''Separator is not found, and chunk exceed the limit''), st)
      else if n < length (bs_bytes st) then (Inr (take (Suc n) (bs_bytes st)), st\<lparr>bs_bytes := drop (Suc n) (bs_bytes st)\<rparr>)
      else if bs_open st then (Inl TimeoutError, st)
      else (Inr line, st\<lparr>bs_bytes := []\<rparr>))"

definition readexactly :: "int \<Rightarrow> byte_stream \<Rightarrow> string res \<times> byte_stream" where
  "readexactly n st =
     (if nat n \<le> length (bs_bytes st) then (Inr (take (nat n) (bs_bytes st)), st\<lparr>bs_bytes := drop (nat n) (bs_bytes st)\<rparr>)
      else if bs_open st then (Inl TimeoutError, st)
      else (Inl (OtherError ''IncompleteReadError''), st))"

lemma readline_shorter:
  assumes "readline st = (Inr line, st')" "line \<noteq> []"
  shows "length (bs_bytes st') < length (bs_bytes st)"
proof -
  have "bs_bytes st \<noteq> []" using assms by (auto simp: readline_def Let_def split: if_splits)
  then show ?thesis using assms by (auto simp: readline_def Let_def split: if_splits)
qed

function read_headers_loop :: "string \<Rightarrow> byte_stream \<Rightarrow> string res \<times> byte_stream" where
  "read_headers_loop buf st =
     (case readline st of
        (Inl e, st') \<Rightarrow> (Inl e, st')
      | (Inr line, st') \<Rightarrow>
          (let buf' = buf @ line in
           if line = CRLF \<or> line = [CHR 0x0A] \<or> line = [] then (Inr buf', st')
           else if HEADER_MAX < int (length buf') then (Inr buf', st')
           else read_headers_loop buf' st'))"
  by auto
termination
  by (relation "measure (\<lambda>(buf, st). length (bs_bytes st))") (auto intro: readline_shorter [OF sym])

definition read_headers :: "byte_stream \<Rightarrow> string res \<times> byte_stream" where
  "read_headers st = read_headers_loop [] st"

subsection \<open>The library and the network\<close>

record http_message =
  hm_headers :: "(string \<times> string) list"
  hm_payload :: string

record url_parts =
  up_hostname :: "string option"
  up_port :: "int option res"
  up_path :: string
  up_params :: string
  up_query :: string

record ip_addr =
  ip_version :: nat
  ip_number :: int
  ip_is_global :: bool
  ip_is_multicast :: bool

record stdlib =
  sl_int :: "string \<Rightarrow> int option"
  sl_parse_headers :: "string \<Rightarrow> http_message"
  sl_as_bytes :: "http_message \<Rightarrow> string"
  sl_b64decode :: "string \<Rightarrow> string option"
  sl_b64encode :: "string \<Rightarrow> string"
  sl_urlparse :: "string \<Rightarrow> url_parts option"
  sl_ip_address :: "string \<Rightarrow> ip_addr option"

datatype address_family = AF_INET | AF_INET6 | AF_OTHER

datatype dns_answer = DnsFails string | DnsRaises py_error | DnsInfos "(address_family \<times> string) list"

text \<open>A connection fails, breaks while the request is written, or answers chunks and perhaps ends with an exception.\<close>

datatype upstream = Unreachable string | WriteFails py_error | Answers "string list" "string option"

record world =
  w_resolve :: "nat \<Rightarrow> string \<Rightarrow> int \<Rightarrow> dns_answer"
  w_tls :: "byte_stream option"
  w_upstream :: "string \<Rightarrow> int \<Rightarrow> upstream"

record upstream_request =
  ur_target :: string
  ur_port :: int
  ur_server_name :: "string option"
  ur_line :: string
  ur_headers :: string
  ur_body :: string

text \<open>What the proxy does, in order. A dialled request is written once the connection is open.\<close>

datatype px_event =
    Looked_up string int
  | Tunnelled
  | Dialled upstream_request
  | Relayed string
  | Replied string

record px_state =
  xs_client :: byte_stream
  xs_tls :: byte_stream
  xs_lookups :: nat
  xs_trace :: "px_event list"

definition emit :: "px_event \<Rightarrow> (px_state, unit) eff" where
  "emit e = (\<lambda>s. (Inr (), s\<lparr>xs_trace := xs_trace s @ [e]\<rparr>))"

definition on_client :: "(byte_stream \<Rightarrow> 'a res \<times> byte_stream) \<Rightarrow> (px_state, 'a) eff" where
  "on_client f = (\<lambda>s. case f (xs_client s) of (r, st) \<Rightarrow> (r, s\<lparr>xs_client := st\<rparr>))"

definition on_tls :: "(byte_stream \<Rightarrow> 'a res \<times> byte_stream) \<Rightarrow> (px_state, 'a) eff" where
  "on_tls f = (\<lambda>s. case f (xs_tls s) of (r, st) \<Rightarrow> (r, s\<lparr>xs_tls := st\<rparr>))"

subsection \<open>The proxy\<close>

record egress_proxy =
  px_rules :: "egress_rule list"
  px_block_private :: bool
  px_expected_auth :: "string option"
  px_cred_by_host :: "rewrite_rule dict"
  px_cred_by_synthetic :: "rewrite_rule dict"

definition register_rewrite :: "rewrite_rule \<Rightarrow> rewrite_rule dict \<times> rewrite_rule dict \<Rightarrow> rewrite_rule dict \<times> rewrite_rule dict" where
  "register_rewrite rule = (\<lambda>(by_host, by_synthetic).
     (dict_set (lower (rr_host rule)) rule by_host,
      case rr_synthetic rule of None \<Rightarrow> by_synthetic | Some synthetic \<Rightarrow> dict_set synthetic rule by_synthetic))"

definition egress_proxy_init ::
    "stdlib \<Rightarrow> egress_rule list \<Rightarrow> bool \<Rightarrow> string option \<Rightarrow> rewrite_rule list option \<Rightarrow> egress_proxy" where
  "egress_proxy_init lib rules block_private_destinations auth_token credential_rewrites =
     (let (by_host, by_synthetic) = fold register_rewrite (list_or credential_rewrites) ([], []) in
      \<lparr>px_rules = rules, px_block_private = block_private_destinations,
       px_expected_auth = map_option (\<lambda>t. ''Basic '' @ sl_b64encode lib (''omnigent:'' @ t)) auth_token,
       px_cred_by_host = by_host, px_cred_by_synthetic = by_synthetic\<rparr>)"

subsection \<open>Replies\<close>

definition http_error :: "string \<Rightarrow> string \<Rightarrow> string \<Rightarrow> string" where
  "http_error status extra body =
     ''HTTP/1.1 '' @ status @ CRLF @ extra @ ''Content-Type: text/plain'' @ CRLF @ ''Content-Length: '' @ nat_str (length body) @ CRLF @
     ''Connection: close'' @ CRLF @ CRLF @ body"

definition send_forbidden :: "string \<Rightarrow> (px_state, unit) eff" where
  "send_forbidden message = emit (Replied (http_error ''403 Forbidden'' [] (''403 Forbidden: '' @ message @ CRLF)))"

definition send_bad_gateway :: "string \<Rightarrow> (px_state, unit) eff" where
  "send_bad_gateway message = emit (Replied (http_error ''502 Bad Gateway'' [] (''502 Bad Gateway: '' @ message @ CRLF)))"

definition send_gateway_timeout :: "string \<Rightarrow> (px_state, unit) eff" where
  "send_gateway_timeout message =
     emit (Replied (http_error ''504 Gateway Timeout'' [] (''504 Gateway Timeout: '' @ message @ CRLF)))"

definition AUTH_REQUIRED :: string where
  "AUTH_REQUIRED =
     http_error ''407 Proxy Authentication Required'' (''Proxy-Authenticate: Basic realm='' @ [CHR 0x22] @ ''omnigent'' @ [CHR 0x22] @ CRLF)
       (''407 Proxy Authentication Required'' @ CRLF)"

definition send_proxy_auth_required :: "(px_state, unit) eff" where
  "send_proxy_auth_required = emit (Replied AUTH_REQUIRED)"

subsection \<open>Proxy authentication\<close>

fun split_crlf :: "string \<Rightarrow> string list" where
  "split_crlf [] = [[]]"
| "split_crlf (c # cs) =
     (if c = CHR 0x0D \<and> cs \<noteq> [] \<and> hd cs = CHR 0x0A then [] # split_crlf (tl cs)
      else (case split_crlf cs of [] \<Rightarrow> [[c]] | w # ws \<Rightarrow> (c # w) # ws))"

definition PROXY_AUTH :: string where
  "PROXY_AUTH = ''proxy-authorization:''"

definition is_proxy_auth :: "string \<Rightarrow> bool" where
  "is_proxy_auth line \<longleftrightarrow> lower (take (length PROXY_AUTH) line) = PROXY_AUTH"

text \<open>\<open>bytes.strip\<close> knows the ASCII spaces only.\<close>

definition byte_space :: "char \<Rightarrow> bool" where
  "byte_space c = (let n = (of_char c :: nat) in (9 \<le> n \<and> n \<le> 13) \<or> n = 32)"

definition byte_strip :: "string \<Rightarrow> string" where
  "byte_strip s = rev (dropWhile byte_space (rev (dropWhile byte_space s)))"

definition check_proxy_auth :: "egress_proxy \<Rightarrow> string \<Rightarrow> bool" where
  "check_proxy_auth p headers_raw =
     (case px_expected_auth p of
        None \<Rightarrow> True
      | Some expected \<Rightarrow>
          (case find is_proxy_auth (split_crlf headers_raw) of
             None \<Rightarrow> False
           | Some line \<Rightarrow> byte_strip (drop (length PROXY_AUTH) line) = expected))"

definition strip_proxy_auth :: "string \<Rightarrow> string" where
  "strip_proxy_auth headers_raw = join CRLF (filter (\<lambda>line. \<not> is_proxy_auth line) (split_crlf headers_raw))"

subsection \<open>Headers\<close>

definition same_header :: "string \<Rightarrow> string \<Rightarrow> bool" where
  "same_header a b \<longleftrightarrow> lower a = lower b"

definition get_all :: "http_message \<Rightarrow> string \<Rightarrow> string list" where
  "get_all msg name = map snd (filter (\<lambda>(k, v). same_header k name) (hm_headers msg))"

definition del_header :: "string \<Rightarrow> http_message \<Rightarrow> http_message" where
  "del_header name msg = msg\<lparr>hm_headers := filter (\<lambda>(k, v). \<not> same_header k name) (hm_headers msg)\<rparr>"

definition add_header :: "string \<Rightarrow> string \<Rightarrow> http_message \<Rightarrow> http_message" where
  "add_header name v msg = msg\<lparr>hm_headers := hm_headers msg @ [(name, v)]\<rparr>"

definition parse_header_dict :: "stdlib \<Rightarrow> string \<Rightarrow> string dict" where
  "parse_header_dict lib raw =
     fold (\<lambda>(key, value) d. dict_set (lower key) value d) (hm_headers (sl_parse_headers lib raw)) []"

definition content_length :: "stdlib \<Rightarrow> string \<Rightarrow> int res" where
  "content_length lib raw =
     (case sl_int lib (dict_get_or (parse_header_dict lib raw) ''content-length'' ''0'') of
        None \<Rightarrow> Inl (ValueError ''invalid literal for int() with base 10'')
      | Some n \<Rightarrow> Inr n)"

definition force_connection_close :: "stdlib \<Rightarrow> string \<Rightarrow> string" where
  "force_connection_close lib headers_raw =
     sl_as_bytes lib (add_header ''Connection'' ''close''
       (del_header ''Keep-Alive'' (del_header ''Proxy-Connection'' (del_header ''Connection'' (sl_parse_headers lib headers_raw)))))"

subsection \<open>Credentials\<close>

text \<open>The \<open>email\<close> package refuses a new value of more than one line.\<close>

definition line_break :: "char \<Rightarrow> bool" where
  "line_break c = (let n = (of_char c :: nat) in (10 \<le> n \<and> n \<le> 13) \<or> (28 \<le> n \<and> n \<le> 30))"

definition multi_line :: "string \<Rightarrow> bool" where
  "multi_line v =
     (let rest = dropWhile (\<lambda>c. \<not> line_break c) v in
      rest \<noteq> [] \<and> rest \<noteq> CRLF \<and> tl rest \<noteq> [])"

definition set_header :: "string \<Rightarrow> string \<times> bool \<Rightarrow> http_message \<Rightarrow> http_message res" where
  "set_header name = (\<lambda>(v, fresh) msg.
     (if fresh \<and> multi_line v
      then Inl (ValueError ''Header values may not contain linefeed or carriage return characters'')
      else Inr (add_header name v msg)))"

fun set_headers :: "string \<Rightarrow> (string \<times> bool) list \<Rightarrow> http_message \<Rightarrow> http_message res" where
  "set_headers name [] msg = Inr msg"
| "set_headers name (v # vs) msg = res_bind (set_header name v msg) (set_headers name vs)"

definition format_real_auth :: "stdlib \<Rightarrow> rewrite_rule \<Rightarrow> string res" where
  "format_real_auth lib rule =
     (if rr_scheme rule = ''bearer'' then Inr (''Bearer '' @ rr_real_secret rule)
      else if rr_scheme rule = ''token'' then Inr (''token '' @ rr_real_secret rule)
      else if rr_scheme rule = ''basic'' then
        (case rr_username rule of
           None \<Rightarrow> Inl (ValueError (''basic credential rewrite for host '' @ sq (rr_host rule) @ '' is missing a username''))
         | Some username \<Rightarrow> Inr (''Basic '' @ sl_b64encode lib (username @ '':'' @ rr_real_secret rule)))
      else Inl (ValueError (''unsupported credential rewrite scheme: '' @ sq (rr_scheme rule))))"

text \<open>\<open>b64decode\<close> answers nothing for a text that is no base64 or whose bytes are no UTF-8.\<close>

definition extract_synthetic :: "stdlib \<Rightarrow> string \<Rightarrow> string option" where
  "extract_synthetic lib auth_value =
     (let lowered = lower auth_value;
          candidate =
            (if startswith lowered ''basic '' then
               (case sl_b64decode lib (strip (drop 6 auth_value)) of
                  None \<Rightarrow> None
                | Some decoded \<Rightarrow>
                    (case partition_char (CHR '':'') decoded of (user, sep, password) \<Rightarrow> if sep then Some password else None))
             else if startswith lowered ''bearer '' then Some (strip (drop 7 auth_value))
             else if startswith lowered ''token '' then Some (strip (drop 6 auth_value))
             else None)
      in case candidate of
           None \<Rightarrow> None
         | Some c \<Rightarrow> if startswith c SYNTHETIC_CREDENTIAL_PREFIX then Some c else None)"

text \<open>The values of the \<open>Authorization\<close> headers, with a mark on the new ones; nothing when a placeholder is refused.\<close>

fun rewrite_values :: "stdlib \<Rightarrow> egress_proxy \<Rightarrow> string \<Rightarrow> string list \<Rightarrow> (string \<times> bool) list option res" where
  "rewrite_values lib p host_key [] = Inr (Some [])"
| "rewrite_values lib p host_key (value # values) =
     (case extract_synthetic lib value of
        None \<Rightarrow> res_bind (rewrite_values lib p host_key values) (\<lambda>rest. Inr (map_option (Cons (value, False)) rest))
      | Some synthetic \<Rightarrow>
          (case dict_get (px_cred_by_synthetic p) synthetic of
             None \<Rightarrow> Inr None
           | Some rule \<Rightarrow>
               if rr_host rule \<noteq> host_key then Inr None
               else res_bind (format_real_auth lib rule) (\<lambda>real.
                      res_bind (rewrite_values lib p host_key values) (\<lambda>rest.
                        Inr (map_option (Cons (real, True)) rest)))))"

definition AUTH :: string where
  "AUTH = ''Authorization''"

text \<open>The headers to forward, and the reason to reject the request.\<close>

definition rewrite_authorization :: "stdlib \<Rightarrow> egress_proxy \<Rightarrow> string \<Rightarrow> string \<Rightarrow> (string \<times> string option) res" where
  "rewrite_authorization lib p host headers_raw =
     (if px_cred_by_host p = [] then Inr (headers_raw, None)
      else
        (let host_key = lower host;
             msg = sl_parse_headers lib headers_raw;
             existing = get_all msg AUTH
         in if existing \<noteq> [] then
              res_bind (rewrite_values lib p host_key existing) (\<lambda>rewritten.
                case rewritten of
                  None \<Rightarrow> Inr (headers_raw, Some ''synthetic credential is not allowed for this host'')
                | Some vs \<Rightarrow>
                    if list_ex snd vs
                    then res_bind (set_headers AUTH vs (del_header AUTH msg)) (\<lambda>m. Inr (sl_as_bytes lib m, None))
                    else Inr (headers_raw, None))
            else
              (case dict_get (px_cred_by_host p) host_key of
                 None \<Rightarrow> Inr (headers_raw, None)
               | Some host_rule \<Rightarrow>
                   res_bind (format_real_auth lib host_rule) (\<lambda>v.
                     res_bind (set_header AUTH (v, True) msg) (\<lambda>m. Inr (sl_as_bytes lib m, None))))))"

subsection \<open>Destinations\<close>

record ip_network =
  nw_version :: nat
  nw_number :: int
  nw_prefixlen :: nat
  nw_text :: string

definition CLOUD_TRAP_NETWORKS :: "ip_network list" where
  "CLOUD_TRAP_NETWORKS =
     [\<lparr>nw_version = 4, nw_number = 168 * 2 ^ 24 + 63 * 2 ^ 16 + 129 * 2 ^ 8 + 16, nw_prefixlen = 32, nw_text = ''168.63.129.16/32''\<rparr>]"

definition in_network :: "ip_addr \<Rightarrow> ip_network \<Rightarrow> bool" where
  "in_network addr net \<longleftrightarrow>
     ip_version addr = nw_version net \<and>
     (let host_bits = (if nw_version net = 4 then 32 else 128) - nw_prefixlen net in
      ip_number addr div 2 ^ host_bits = nw_number net div 2 ^ host_bits)"

definition address_text :: "address_family \<times> string \<Rightarrow> string option" where
  "address_text = (\<lambda>(family, ip).
     (case family of
        AF_INET \<Rightarrow> Some ip
      | AF_INET6 \<Rightarrow> Some (takeWhile (\<lambda>c. c \<noteq> CHR ''%'') ip)
      | AF_OTHER \<Rightarrow> None))"

text \<open>The dash of the messages is one character of three bytes.\<close>

definition blocked_because :: string where
  "blocked_because = '' '' @ [CHR 0xE2, CHR 0x80, CHR 0x94] @ '' blocked because egress_allow_private_destinations is False''"

fun pin_address :: "stdlib \<Rightarrow> string \<Rightarrow> (address_family \<times> string) list \<Rightarrow> string option \<Rightarrow> string option res" where
  "pin_address lib host [] pinned_ip = Inr pinned_ip"
| "pin_address lib host (info # infos) pinned_ip =
     (case address_text info of
        None \<Rightarrow> pin_address lib host infos pinned_ip
      | Some ip \<Rightarrow>
          (case sl_ip_address lib ip of
             None \<Rightarrow> Inl (PermissionError (''unparseable address '' @ sq ip @ '' for host '' @ sq host))
           | Some addr \<Rightarrow>
               if \<not> ip_is_global addr \<or> ip_is_multicast addr
               then Inl (PermissionError (''host '' @ sq host @ '' resolves to non-public address '' @ ip @ blocked_because))
               else (case find (in_network addr) CLOUD_TRAP_NETWORKS of
                       Some net \<Rightarrow>
                         Inl (PermissionError (''host '' @ sq host @ '' resolves to cloud-internal endpoint '' @ ip @
                           '' ('' @ nw_text net @ '')'' @ blocked_because))
                     | None \<Rightarrow> pin_address lib host infos (case pinned_ip of None \<Rightarrow> Some ip | Some _ \<Rightarrow> pinned_ip))))"

definition check_answer :: "stdlib \<Rightarrow> string \<Rightarrow> dns_answer \<Rightarrow> string option res" where
  "check_answer lib host answer =
     (case answer of
        DnsFails exc \<Rightarrow>
          Inl (PermissionError (''host '' @ sq host @ '' DNS resolution failed ('' @ exc @ '')'' @ blocked_because))
      | DnsRaises e \<Rightarrow> Inl e
      | DnsInfos infos \<Rightarrow>
          res_bind (pin_address lib host infos None) (\<lambda>pinned_ip.
            case pinned_ip of
              None \<Rightarrow> Inl (PermissionError (''host '' @ sq host @ '' resolved to no usable IPv4/IPv6 address'' @ blocked_because))
            | Some ip \<Rightarrow> Inr (Some ip)))"

definition assert_destination_allowed ::
    "stdlib \<Rightarrow> world \<Rightarrow> egress_proxy \<Rightarrow> string \<Rightarrow> int \<Rightarrow> (px_state, string option) eff" where
  "assert_destination_allowed lib w p host port =
     (if \<not> px_block_private p then eff_return None
      else eff_bind (emit (Looked_up host port)) (\<lambda>_ s.
             (check_answer lib host (w_resolve w (xs_lookups s) host port), s\<lparr>xs_lookups := Suc (xs_lookups s)\<rparr>)))"

text \<open>The check with the handler of \<open>PermissionError\<close> that its three callers share.\<close>

definition with_destination ::
    "stdlib \<Rightarrow> world \<Rightarrow> egress_proxy \<Rightarrow> string \<Rightarrow> int \<Rightarrow> (string option \<Rightarrow> (px_state, unit) eff) \<Rightarrow> (px_state, unit) eff" where
  "with_destination lib w p host port k =
     eff_bind
       (eff_try (eff_bind (assert_destination_allowed lib w p host port) (\<lambda>ip. eff_return (Some ip)))
          (\<lambda>e. case e of PermissionError m \<Rightarrow> eff_bind (send_forbidden m) (\<lambda>_. eff_return None) | _ \<Rightarrow> eff_raise e))
       (\<lambda>checked. case checked of None \<Rightarrow> eff_return () | Some pinned_ip \<Rightarrow> k pinned_ip)"

subsection \<open>Forwarding\<close>

definition relay_response :: "string list \<Rightarrow> string option \<Rightarrow> (px_state, nat \<times> string option) eff" where
  "relay_response chunks exc =
     (let body = concat (takeWhile (\<lambda>c. c \<noteq> []) chunks) in
      eff_bind (emit (Relayed body)) (\<lambda>_.
        eff_return (length body, if [] \<in> set chunks then None else exc)))"

definition exchange :: "world \<Rightarrow> string \<Rightarrow> upstream_request \<Rightarrow> (px_state, unit) eff" where
  "exchange w host q =
     eff_bind (emit (Dialled q)) (\<lambda>_.
       case w_upstream w (ur_target q) (ur_port q) of
         Unreachable exc \<Rightarrow> send_bad_gateway exc
       | WriteFails e \<Rightarrow> eff_raise e
       | Answers chunks exc \<Rightarrow>
           eff_bind (relay_response chunks exc) (\<lambda>(bytes_relayed, relay_exc).
             if bytes_relayed = 0
             then send_bad_gateway (''upstream '' @ host @ '':'' @ int_str (ur_port q) @ '' closed without response (cause='' @
                    (case relay_exc of None \<Rightarrow> ''EOF'' | Some name \<Rightarrow> name) @ '')'')
             else eff_return ()))"

definition request_line :: "string \<Rightarrow> string \<Rightarrow> string" where
  "request_line method path = method @ '' '' @ path @ '' HTTP/1.1'' @ CRLF"

text \<open>The rest of both kinds of request: credentials, one response per connection, and the exchange.\<close>

definition forward_request ::
    "stdlib \<Rightarrow> world \<Rightarrow> egress_proxy \<Rightarrow> string \<Rightarrow> int \<Rightarrow> string option \<Rightarrow> string option \<Rightarrow> string \<Rightarrow> string \<Rightarrow> string \<Rightarrow>
     (px_state, unit) eff" where
  "forward_request lib w p host port pinned_ip server_name line headers_raw body =
     eff_bind (eff_lift (\<lambda>_. rewrite_authorization lib p host headers_raw)) (\<lambda>(headers, error).
       case error of
         Some reason \<Rightarrow> send_forbidden reason
       | None \<Rightarrow>
           exchange w host \<lparr>ur_target = str_or pinned_ip host, ur_port = port, ur_server_name = server_name, ur_line = line,
             ur_headers = force_connection_close lib headers, ur_body = body\<rparr>)"

definition forward_https ::
    "stdlib \<Rightarrow> world \<Rightarrow> egress_proxy \<Rightarrow> string \<Rightarrow> int \<Rightarrow> string \<Rightarrow> string \<Rightarrow> string \<Rightarrow> (px_state, unit) eff" where
  "forward_https lib w p host port line headers_raw body =
     with_destination lib w p host port (\<lambda>pinned_ip.
       forward_request lib w p host port pinned_ip (Some host) line headers_raw body)"

definition read_body :: "((byte_stream \<Rightarrow> string res \<times> byte_stream) \<Rightarrow> (px_state, string) eff) \<Rightarrow> int \<Rightarrow> (px_state, string) eff" where
  "read_body on_stream n = (if 0 < n then on_stream (readexactly n) else eff_return [])"

subsection \<open>Plain HTTP\<close>

definition handle_http :: "stdlib \<Rightarrow> world \<Rightarrow> egress_proxy \<Rightarrow> string \<Rightarrow> string \<Rightarrow> string \<Rightarrow> (px_state, unit) eff" where
  "handle_http lib w p method url headers_raw =
     (case sl_urlparse lib url of
        None \<Rightarrow> send_forbidden ''host contains forbidden character''
      | Some parsed \<Rightarrow>
          eff_bind (eff_lift (\<lambda>_. up_port parsed)) (\<lambda>parsed_port.
            let host = str_or (up_hostname parsed) [];
                port = (case parsed_port of None \<Rightarrow> 80 | Some n \<Rightarrow> if n = 0 then 80 else n);
                path = (if up_path parsed = [] then ''/'' else up_path parsed) @
                       (if up_query parsed = [] then [] else ''?'' @ up_query parsed)
            in
              if \<not> is_dns_safe_host host then send_forbidden ''host contains forbidden character''
              else if \<not> check_request (px_rules p) method host path
              then send_forbidden (utf8_upper method @ '' http://'' @ host @ utf8 path @ '' denied by policy'')
              else
                with_destination lib w p host port (\<lambda>pinned_ip.
                  eff_bind (eff_lift (\<lambda>_. content_length lib headers_raw)) (\<lambda>n.
                  eff_bind (read_body on_client n) (\<lambda>body.
                    if \<not> latin_encodable method then eff_raise (OtherError ''UnicodeEncodeError'')
                    else forward_request lib w p host port pinned_ip None (request_line method path) headers_raw body)))))"

subsection \<open>CONNECT\<close>

definition parse_host_port :: "stdlib \<Rightarrow> string \<Rightarrow> int \<Rightarrow> string \<times> int" where
  "parse_host_port lib target default_port =
     (if CHR '':'' \<in> set target then
        (let port_str = rev (takeWhile (\<lambda>c. c \<noteq> CHR '':'') (rev target));
             host = rev (tl (dropWhile (\<lambda>c. c \<noteq> CHR '':'') (rev target)))
         in case sl_int lib port_str of Some n \<Rightarrow> (host, n) | None \<Rightarrow> (target, default_port))
      else (target, default_port))"

definition inner_request :: "stdlib \<Rightarrow> world \<Rightarrow> egress_proxy \<Rightarrow> string \<Rightarrow> int \<Rightarrow> (px_state, unit) eff" where
  "inner_request lib w p host port =
     eff_bind (on_tls readline) (\<lambda>inner_first.
       if inner_first = [] then eff_return ()
       else
         (let inner_line = latin_strip inner_first in
          if list_ex (\<lambda>c. (of_char c :: nat) < 32) inner_line
          then send_forbidden ''inner request line contains forbidden character''
          else
            (case latin_words inner_line of
               word # inner_path # _ \<Rightarrow>
                 (let inner_method = latin_upper word in
                  eff_bind (on_tls read_headers) (\<lambda>inner_headers_raw.
                    if \<not> check_request (px_rules p) inner_method host inner_path
                    then send_forbidden (utf8_upper inner_method @ '' https://'' @ host @ utf8 inner_path @ '' denied by policy'')
                    else
                      eff_bind (eff_lift (\<lambda>_. content_length lib inner_headers_raw)) (\<lambda>n.
                      eff_bind (read_body on_tls n) (\<lambda>body.
                        if \<not> latin_encodable inner_method then eff_raise (OtherError ''UnicodeEncodeError'')
                        else forward_https lib w p host port (request_line inner_method inner_path) inner_headers_raw body))))
             | _ \<Rightarrow> eff_return ())))"

definition handle_connect :: "stdlib \<Rightarrow> world \<Rightarrow> egress_proxy \<Rightarrow> string \<Rightarrow> (px_state, unit) eff" where
  "handle_connect lib w p target =
     (let (host, port) = parse_host_port lib target 443 in
      if \<not> is_dns_safe_host host then send_forbidden ''host contains forbidden character''
      else if \<not> check_host (px_rules p) host then send_forbidden (''Host '' @ sq host @ '' not allowed'')
      else
        with_destination lib w p host port (\<lambda>_.
          eff_bind (emit Tunnelled) (\<lambda>_.
            case w_tls w of
              None \<Rightarrow> eff_return ()
            | Some st \<Rightarrow>
                eff_bind (\<lambda>s. (Inr (), s\<lparr>xs_tls := st\<rparr>)) (\<lambda>_.
                  eff_try (inner_request lib w p host port) (\<lambda>e.
                    if e = TimeoutError
                    then send_gateway_timeout (''client sent no inner HTTP request to '' @ host @ '' within 30 s'')
                    else eff_return ())))))"

subsection \<open>One connection\<close>

text \<open>Every exception of a handler ends in closing the connection.\<close>

definition handle_client :: "stdlib \<Rightarrow> world \<Rightarrow> egress_proxy \<Rightarrow> (px_state, unit) eff" where
  "handle_client lib w p =
     eff_try
       (eff_bind (on_client readline) (\<lambda>first_line.
          if first_line = [] then eff_return ()
          else
            (case latin_words first_line of
               word # target # _ \<Rightarrow>
                 (let method = latin_upper word in
                  eff_bind (on_client read_headers) (\<lambda>headers.
                    if \<not> check_proxy_auth p headers then send_proxy_auth_required
                    else if method = ''CONNECT'' then handle_connect lib w p target
                    else handle_http lib w p method target (strip_proxy_auth headers)))
             | _ \<Rightarrow> eff_return ())))
       (\<lambda>e. eff_return ())"

subsection \<open>Lemmas: words and streams\<close>

declare latin_words.simps [simp del] read_headers_loop.simps [simp del]

text \<open>A text without white space, as the words of a request line are.\<close>

definition clean :: "string \<Rightarrow> bool" where
  "clean s \<longleftrightarrow> list_all (\<lambda>c. \<not> latin_space c) s"

lemma clean_words: "list_all clean (latin_words s)"
proof (induction s rule: latin_words.induct)
  case (1 s)
  have "clean (takeWhile (\<lambda>c. \<not> latin_space c) t)" for t by (auto simp: clean_def list_all_iff dest: set_takeWhileD)
  then show ?case using 1 by (subst latin_words.simps) (simp add: Let_def)
qed

lemma clean_upper_char: "\<not> latin_space c \<Longrightarrow> list_all (\<lambda>c. \<not> latin_space c) (latin_upper_char c)"
  by (auto simp: latin_upper_char_def latin_space_def Let_def)

lemma clean_upper: "clean s \<Longrightarrow> clean (latin_upper s)"
  by (induction s) (auto simp: clean_def latin_upper_def dest: clean_upper_char)

lemma clean_subset: "set s \<subseteq> set t \<Longrightarrow> clean t \<Longrightarrow> clean s"
  by (auto simp: clean_def list_all_iff)

lemma takeWhile_whole: "\<not> length (takeWhile P xs) < length xs \<Longrightarrow> takeWhile P xs = xs"
  by (metis linorder_not_less take_all takeWhile_eq_take)

lemma readline_prefix: "readline st = (Inr line, st') \<Longrightarrow> bs_bytes st = line @ bs_bytes st'"
  by (auto simp: readline_def Let_def takeWhile_whole split: if_splits)

lemma read_headers_prefix:
  "read_headers_loop buf st = (Inr h, st') \<Longrightarrow> \<exists>t. h = buf @ t \<and> bs_bytes st = t @ bs_bytes st'"
proof (induction buf st rule: read_headers_loop.induct)
  case (1 buf st)
  obtain line st1 where line: "readline st = (Inr line, st1)"
    using "1.prems" by (subst (asm) read_headers_loop.simps) (auto split: prod.splits sum.splits)
  then have step: "(let buf' = buf @ line in
       if line = CRLF \<or> line = [CHR 0x0A] \<or> line = [] then (Inr buf', st1)
       else if HEADER_MAX < int (length buf') then (Inr buf', st1)
       else read_headers_loop buf' st1) = (Inr h, st')"
    using "1.prems" by (subst (asm) read_headers_loop.simps) simp
  have "h = buf @ line \<and> st' = st1 \<or> (\<exists>t. h = (buf @ line) @ t \<and> bs_bytes st1 = t @ bs_bytes st')"
    using step "1.IH" [OF line [symmetric] refl refl] by (auto simp: Let_def split: if_splits)
  then show ?case using readline_prefix [OF line] by auto
qed

text \<open>What the documentation of the library promises of an empty address and of the parts of a URL.\<close>

definition library_ok :: "stdlib \<Rightarrow> bool" where
  "library_ok lib \<longleftrightarrow>
     sl_ip_address lib [] = None \<and>
     (\<forall>url parts. sl_urlparse lib url = Some parts \<longrightarrow> set (up_path parts) \<union> set (up_query parts) \<subseteq> set url)"

subsection \<open>Lemmas: what the proxy does\<close>

text \<open>An answer of the resolver all of whose usable addresses are public, and a destination the proxy may dial.\<close>

definition public_info :: "stdlib \<Rightarrow> address_family \<times> string \<Rightarrow> bool" where
  "public_info lib info \<longleftrightarrow>
     (case address_text info of
        None \<Rightarrow> True
      | Some ip \<Rightarrow>
          (case sl_ip_address lib ip of
             None \<Rightarrow> False
           | Some addr \<Rightarrow> ip_is_global addr \<and> \<not> ip_is_multicast addr \<and> \<not> list_ex (in_network addr) CLOUD_TRAP_NETWORKS))"

definition destination_ok :: "stdlib \<Rightarrow> world \<Rightarrow> egress_proxy \<Rightarrow> string \<Rightarrow> int \<Rightarrow> string \<Rightarrow> bool" where
  "destination_ok lib w p host port target \<longleftrightarrow>
     (if px_block_private p
      then \<exists>n infos. w_resolve w n host port = DnsInfos infos \<and> list_all (public_info lib) infos \<and>
             Some target \<in> address_text ` set infos
      else target = host)"

definition request_ok :: "stdlib \<Rightarrow> world \<Rightarrow> egress_proxy \<Rightarrow> upstream_request \<Rightarrow> bool" where
  "request_ok lib w p q \<longleftrightarrow>
     (\<exists>method host path raw headers.
        check_request (px_rules p) method host path \<and> ur_line q = request_line method path \<and> clean method \<and> clean path \<and>
        ur_server_name q \<in> {None, Some host} \<and> destination_ok lib w p host (ur_port q) (ur_target q) \<and>
        rewrite_authorization lib p host raw = Inr (headers, None) \<and> ur_headers q = force_connection_close lib headers)"

definition event_ok :: "stdlib \<Rightarrow> world \<Rightarrow> egress_proxy \<Rightarrow> px_event \<Rightarrow> bool" where
  "event_ok lib w p e =
     (case e of
        Looked_up host port \<Rightarrow> is_dns_safe_host host \<and> check_host (px_rules p) host
      | Dialled q \<Rightarrow> request_ok lib w p q
      | _ \<Rightarrow> True)"

definition trace_ok :: "stdlib \<Rightarrow> world \<Rightarrow> egress_proxy \<Rightarrow> px_state \<Rightarrow> bool" where
  "trace_ok lib w p s \<longleftrightarrow> list_all (event_ok lib w p) (xs_trace s)"

lemma emit_ok [preserves_intros]: "event_ok lib w p e \<Longrightarrow> preserves (trace_ok lib w p) (emit e)"
  by (simp add: preserves_def trace_ok_def emit_def)

lemma reads_ok [preserves_intros]:
  "preserves (trace_ok lib w p) (on_client f)"
  "preserves (trace_ok lib w p) (on_tls f)"
  "preserves (trace_ok lib w p) (read_body on_client n)"
  "preserves (trace_ok lib w p) (read_body on_tls n)"
  by (simp_all add: preserves_def trace_ok_def on_client_def on_tls_def read_body_def split: prod.splits)

lemma replies_ok [preserves_intros]:
  "preserves (trace_ok lib w p) (send_forbidden m)"
  "preserves (trace_ok lib w p) (send_bad_gateway m)"
  "preserves (trace_ok lib w p) (send_gateway_timeout m)"
  "preserves (trace_ok lib w p) send_proxy_auth_required"
  "preserves (trace_ok lib w p) (emit Tunnelled)"
  "preserves (trace_ok lib w p) (relay_response chunks exc)"
  by (auto simp: send_forbidden_def send_bad_gateway_def send_gateway_timeout_def send_proxy_auth_required_def
      relay_response_def Let_def event_ok_def intro!: preserves_intros)

lemma pin_address_public:
  "pin_address lib host infos pinned = Inr r \<Longrightarrow>
     list_all (public_info lib) infos \<and> (r = pinned \<or> r \<in> address_text ` set infos)"
proof (induction infos arbitrary: pinned)
  case (Cons info infos)
  show ?case
  proof (cases "address_text info")
    case None
    then show ?thesis using Cons by (auto simp: public_info_def)
  next
    case (Some ip)
    then obtain addr where addr: "sl_ip_address lib ip = Some addr" "ip_is_global addr" "\<not> ip_is_multicast addr"
        "find (in_network addr) CLOUD_TRAP_NETWORKS = None"
        "pin_address lib host infos (case pinned of None \<Rightarrow> Some ip | Some _ \<Rightarrow> pinned) = Inr r"
      using Cons.prems by (auto split: option.splits if_splits)
    then have "public_info lib info" using Some by (auto simp: public_info_def find_None_iff list_ex_iff)
    moreover have "(case pinned of None \<Rightarrow> Some ip | Some _ \<Rightarrow> pinned) \<in> {pinned, address_text info}"
      using Some by (cases pinned) simp_all
    ultimately show ?thesis using Cons.IH [OF addr(5)] by auto
  qed
qed simp

lemma assert_destination_ok:
  assumes "assert_destination_allowed lib w p host port s = (Inr pin, t)" and "sl_ip_address lib [] = None"
  shows "destination_ok lib w p host port (str_or pin host)"
proof (cases "px_block_private p")
  case True
  then have "check_answer lib host (w_resolve w (xs_lookups s) host port) = Inr pin"
    using assms(1) by (auto simp: assert_destination_allowed_def eff_bind_def emit_def)
  then obtain infos ip where infos: "w_resolve w (xs_lookups s) host port = DnsInfos infos"
      "pin_address lib host infos None = Inr (Some ip)" "pin = Some ip"
    by (auto simp: check_answer_def res_bind_Inr_iff split: dns_answer.splits option.splits)
  then have public: "list_all (public_info lib) infos" "Some ip \<in> address_text ` set infos"
    using pin_address_public by blast+
  then obtain info where "info \<in> set infos" "address_text info = Some ip" by (metis imageE)
  moreover from this have "public_info lib info" using public(1) by (simp add: list_all_iff)
  ultimately have "ip \<noteq> []" using assms(2) by (auto simp: public_info_def)
  then show ?thesis using infos public True by (auto simp: destination_ok_def str_or_def)
next
  case False
  then show ?thesis using assms(1) by (simp add: assert_destination_allowed_def destination_ok_def str_or_def)
qed

lemma with_destination_ok:
  assumes "sl_ip_address lib [] = None" and "check_host (px_rules p) host"
    and "\<And>pin. destination_ok lib w p host port (str_or pin host) \<Longrightarrow> preserves (trace_ok lib w p) (k pin)"
  shows "preserves (trace_ok lib w p) (with_destination lib w p host port k)"
  unfolding with_destination_def
proof (rule preserves_bind_result)
  have "event_ok lib w p (Looked_up host port)" using assms(2) check_host_safe by (auto simp: event_ok_def)
  then have "preserves (trace_ok lib w p) (assert_destination_allowed lib w p host port)"
    unfolding assert_destination_allowed_def
    by (auto intro!: preserves_intros) (simp add: preserves_def trace_ok_def)
  then show "preserves (trace_ok lib w p)
      (eff_try (eff_bind (assert_destination_allowed lib w p host port) (\<lambda>ip. eff_return (Some ip)))
        (\<lambda>e. case e of PermissionError m \<Rightarrow> eff_bind (send_forbidden m) (\<lambda>_. eff_return None) | _ \<Rightarrow> eff_raise e))"
    by (intro preserves_try preserves_bind preserves_return) (auto intro: preserves_intros split: py_error.split)
next
  fix checked s t
  assume run: "eff_try (eff_bind (assert_destination_allowed lib w p host port) (\<lambda>ip. eff_return (Some ip)))
        (\<lambda>e. case e of PermissionError m \<Rightarrow> eff_bind (send_forbidden m) (\<lambda>_. eff_return None) | _ \<Rightarrow> eff_raise e) s = (Inr checked, t)"
  show "preserves (trace_ok lib w p) (case checked of None \<Rightarrow> eff_return () | Some pinned_ip \<Rightarrow> k pinned_ip)"
  proof (cases checked)
    case (Some pin)
    then have "\<exists>u. assert_destination_allowed lib w p host port s = (Inr pin, u)"
      using run by (auto simp: eff_try_def eff_bind_def send_forbidden_def emit_def split: prod.splits sum.splits py_error.splits)
    then show ?thesis using assms(1,3) assert_destination_ok Some by auto
  qed (simp add: preserves_return)
qed

lemma exchange_ok:
  "request_ok lib w p q \<Longrightarrow> preserves (trace_ok lib w p) (exchange w host q)"
  unfolding exchange_def
  by (intro preserves_bind)
    (auto intro!: preserves_bind preserves_intros simp: event_ok_def split: upstream.split)

lemma forward_request_ok:
  assumes "check_request (px_rules p) method host path" "clean method" "clean path" "destination_ok lib w p host port (str_or pin host)"
    and "name \<in> {None, Some host}"
  shows "preserves (trace_ok lib w p)
    (forward_request lib w p host port pin name (request_line method path) headers_raw body)"
  unfolding forward_request_def
proof (rule preserves_bind_pure)
  fix r assume r: "rewrite_authorization lib p host headers_raw = Inr r"
  obtain headers error where he: "r = (headers, error)" by (cases r)
  show "preserves (trace_ok lib w p)
      (case r of (headers, error) \<Rightarrow> case error of Some reason \<Rightarrow> send_forbidden reason
       | None \<Rightarrow> exchange w host \<lparr>ur_target = str_or pin host, ur_port = port, ur_server_name = name,
           ur_line = request_line method path, ur_headers = force_connection_close lib headers, ur_body = body\<rparr>)"
  proof (cases error)
    case None
    then have "request_ok lib w p \<lparr>ur_target = str_or pin host, ur_port = port, ur_server_name = name,
        ur_line = request_line method path, ur_headers = force_connection_close lib headers, ur_body = body\<rparr>"
      unfolding request_ok_def
      using assms r he by (intro exI [of _ "method"] exI [of _ host] exI [of _ path] exI [of _ headers_raw] exI [of _ headers]) simp
    then show ?thesis using None he exchange_ok by simp
  qed (auto simp: he intro: replies_ok)
qed

lemma preserves_reraise: "preserves P (eff_raise e)"
  by simp

lemma handle_http_ok:
  assumes "library_ok lib" "clean method" "clean url"
  shows "preserves (trace_ok lib w p) (handle_http lib w p method url headers_raw)"
proof (cases "sl_urlparse lib url")
  case (Some parsed)
  then have "set (up_path parsed) \<union> set (up_query parsed) \<subseteq> set url" using assms(1) by (auto simp: library_ok_def)
  moreover have "clean ''/''" "clean ''?''" by code_simp+
  ultimately have clean: "clean ((if up_path parsed = [] then ''/'' else up_path parsed) @ (if up_query parsed = [] then [] else ''?'' @ up_query parsed))"
    using assms(3) by (auto simp: clean_def list_all_iff)
  have "sl_ip_address lib [] = None" using assms(1) by (simp add: library_ok_def)
  then show ?thesis unfolding handle_http_def Some option.case Let_def
    using assms(2) clean
    by (intro preserves_bind_pure preserves_if replies_ok with_destination_ok preserves_bind preserves_reraise
        forward_request_ok reads_ok)
      (auto dest: check_request_host)
qed (simp add: handle_http_def replies_ok)

lemma inner_request_ok:
  assumes "sl_ip_address lib [] = None"
  shows "preserves (trace_ok lib w p) (inner_request lib w p host port)"
proof -
  have "list_all clean ws \<Longrightarrow> preserves (trace_ok lib w p)
      (case ws of word # inner_path # _ \<Rightarrow>
         (let inner_method = latin_upper word in
          eff_bind (on_tls read_headers) (\<lambda>inner_headers_raw.
            if \<not> check_request (px_rules p) inner_method host inner_path
            then send_forbidden (utf8_upper inner_method @ '' https://'' @ host @ utf8 inner_path @ '' denied by policy'')
            else
              eff_bind (eff_lift (\<lambda>_. content_length lib inner_headers_raw)) (\<lambda>n.
              eff_bind (read_body on_tls n) (\<lambda>body.
                if \<not> latin_encodable inner_method then eff_raise (OtherError ''UnicodeEncodeError'')
                else forward_https lib w p host port (request_line inner_method inner_path) inner_headers_raw body))))
       | _ \<Rightarrow> eff_return ())" for ws
    unfolding Let_def forward_https_def
    by (auto split: list.split simp del: not_not
        intro!: preserves_bind preserves_if replies_ok reads_ok preserves_bind_pure with_destination_ok [OF assms]
          forward_request_ok clean_upper dest: check_request_host)
  then show ?thesis unfolding inner_request_def Let_def
    by (intro preserves_bind preserves_if replies_ok reads_ok preserves_return) (simp only: Let_def clean_words)
qed

lemma handle_connect_ok:
  assumes "sl_ip_address lib [] = None"
  shows "preserves (trace_ok lib w p) (handle_connect lib w p target)"
proof -
  have "preserves (trace_ok lib w p) (\<lambda>s. (Inr (), s\<lparr>xs_tls := st\<rparr>))" for st
    by (simp add: preserves_def trace_ok_def)
  then show ?thesis unfolding handle_connect_def Let_def
    by (auto split: prod.split option.split simp del: not_not
        intro!: preserves_if preserves_bind preserves_try replies_ok with_destination_ok [OF assms] inner_request_ok [OF assms])
qed

subsection \<open>Properties: forwarding\<close>

text \<open>
  C27. Whatever a client sends, and however the resolver answers, the proxy looks up only hosts that some rule
  allows, and dials only requests that some rule allows: the request line it writes is the method and path
  that were checked, without white space inside them, the name in the TLS handshake is the checked host, the headers are the checked ones
  with \<open>Connection: close\<close>, and with private destinations blocked the connection goes to an address of a
  lookup of this host all of whose usable addresses are public and no trap of a cloud provider.
  The library refuses the empty text as an address, and the parts of a URL are made of its characters.
\<close>

theorem forwarded_requests_authorised:
  assumes "library_ok lib" and "xs_trace s = []"
  shows "list_all (event_ok lib w p) (xs_trace (snd (handle_client lib w p s)))"
proof -
  have ip: "sl_ip_address lib [] = None" using assms(1) by (simp add: library_ok_def)
  have "preserves (trace_ok lib w p)
      (case ws of word # target # _ \<Rightarrow>
         (let method = latin_upper word in
          eff_bind (on_client read_headers) (\<lambda>headers.
            if \<not> check_proxy_auth p headers then send_proxy_auth_required
            else if method = ''CONNECT'' then handle_connect lib w p target
            else handle_http lib w p method target (strip_proxy_auth headers)))
       | _ \<Rightarrow> eff_return ())" if "list_all clean ws" for ws
    using that unfolding Let_def
    by (auto split: list.split simp del: not_not intro!: preserves_if preserves_bind replies_ok reads_ok
        handle_http_ok [OF assms(1)] handle_connect_ok [OF ip] clean_upper)
  then have "preserves (trace_ok lib w p) (handle_client lib w p)"
    unfolding handle_client_def
    by (intro preserves_try preserves_bind preserves_return reads_ok preserves_if) (simp only: clean_words)
  then show ?thesis using assms(2) by (simp add: preserves_def trace_ok_def)
qed

text \<open>A network for one request over plain HTTP: one public address, an upstream that answers.\<close>

definition demo_lib :: stdlib where
  "demo_lib =
     \<lparr>sl_int = \<lambda>t. if t = ''0'' then Some 0 else None,
      sl_parse_headers = \<lambda>raw. \<lparr>hm_headers = [], hm_payload = raw\<rparr>,
      sl_as_bytes = \<lambda>m. concat (map (\<lambda>(k, v). k @ '': '' @ v @ CRLF) (hm_headers m)) @ hm_payload m,
      sl_b64decode = \<lambda>t. Some t, sl_b64encode = \<lambda>t. t,
      sl_urlparse = \<lambda>url. Some \<lparr>up_hostname = Some ''api.github.com'', up_port = Inr None,
        up_path = dropWhile (\<lambda>c. c \<noteq> CHR ''/'') (drop 7 url), up_params = [], up_query = []\<rparr>,
      sl_ip_address = \<lambda>t. if t = [] then None
        else Some \<lparr>ip_version = 4, ip_number = 2354212870, ip_is_global = True, ip_is_multicast = False\<rparr>\<rparr>"

definition demo_world :: world where
  "demo_world = \<lparr>w_resolve = \<lambda>_ _ _. DnsInfos [(AF_INET, ''140.82.112.6'')], w_tls = None, w_upstream = \<lambda>_ _. Answers [''ok''] None\<rparr>"

definition demo_proxy :: egress_proxy where
  "demo_proxy = egress_proxy_init demo_lib [demo_rule] True None None"

definition demo_connection :: px_state where
  "demo_connection =
     \<lparr>xs_client = \<lparr>bs_bytes = ''GET http://api.github.com/repos/x HTTP/1.1'' @ CRLF @ CRLF, bs_open = True\<rparr>,
      xs_tls = \<lparr>bs_bytes = [], bs_open = False\<rparr>, xs_lookups = 0, xs_trace = []\<rparr>"

definition demo_request :: upstream_request where
  "demo_request = \<lparr>ur_target = ''140.82.112.6'', ur_port = 80, ur_server_name = None, ur_line = ''GET /repos/x HTTP/1.1'' @ CRLF,
     ur_headers = ''Connection: close'' @ CRLF @ CRLF, ur_body = []\<rparr>"

lemma demo_library_ok: "library_ok demo_lib"
  by (auto simp: library_ok_def demo_lib_def dest: set_dropWhileD in_set_dropD)

lemma forwarded_requests_authorised_witness:
  "xs_trace (snd (handle_client demo_lib demo_world demo_proxy demo_connection)) =
     [Looked_up ''api.github.com'' 80, Dialled demo_request, Relayed ''ok''] \<and>
   request_ok demo_lib demo_world demo_proxy demo_request"
proof -
  have trace: "xs_trace (snd (handle_client demo_lib demo_world demo_proxy demo_connection)) =
      [Looked_up ''api.github.com'' 80, Dialled demo_request, Relayed ''ok'']"
    by code_simp
  have "xs_trace demo_connection = []" by (simp add: demo_connection_def)
  then show ?thesis
    using forwarded_requests_authorised [OF demo_library_ok, of demo_connection demo_world demo_proxy] trace
    by (simp add: event_ok_def)
qed

subsection \<open>Properties: authentication\<close>

text \<open>
  With a token configured, a connection that does not present it gets the reply 407 or nothing: the proxy
  looks up no host, dials nothing and says nothing about its rules unless the header block that follows the
  first line of the client has a line with the expected value.
\<close>

theorem unauthenticated_refused:
  assumes "px_expected_auth p = Some expected" and "xs_trace s = []"
  shows "xs_trace (snd (handle_client lib w p s)) \<in> {[], [Replied AUTH_REQUIRED]} \<or>
    (\<exists>first headers rest line.
       bs_bytes (xs_client s) = first @ headers @ rest \<and> line \<in> set (split_crlf headers) \<and> is_proxy_auth line \<and>
       byte_strip (drop (length PROXY_AUTH) line) = expected)"
proof -
  obtain r st where first: "readline (xs_client s) = (r, st)" by (cases "readline (xs_client s)")
  obtain r' st' where headers: "read_headers st = (r', st')" by (cases "read_headers st")
  show ?thesis
  proof (cases "\<exists>f h. r = Inr f \<and> r' = Inr h \<and> check_proxy_auth p h")
    case True
    then obtain f h where ok: "r = Inr f" "r' = Inr h" "check_proxy_auth p h" by blast
    then obtain line where "line \<in> set (split_crlf h)" "is_proxy_auth line"
        "byte_strip (drop (length PROXY_AUTH) line) = expected"
      using assms(1) by (auto simp: check_proxy_auth_def find_Some_iff in_set_conv_nth split: option.splits)
    moreover have "bs_bytes (xs_client s) = f @ h @ bs_bytes st'"
      using readline_prefix first headers ok read_headers_prefix [of "[]" st h st'] by (auto simp: read_headers_def)
    ultimately show ?thesis by blast
  next
    case False
    then have "xs_trace (snd (handle_client lib w p s)) \<in> {[], [Replied AUTH_REQUIRED]}"
      using assms(2) first headers
      by (cases r; cases r') (auto simp: handle_client_def eff_try_def eff_bind_def on_client_def send_proxy_auth_required_def
          emit_def Let_def split: list.split)
    then show ?thesis by blast
  qed
qed

definition guarded_proxy :: egress_proxy where
  "guarded_proxy = egress_proxy_init demo_lib [demo_rule] True (Some ''t'') None"

lemma unauthenticated_refused_witness:
  "px_expected_auth guarded_proxy = Some ''Basic omnigent:t'' \<and>
   xs_trace (snd (handle_client demo_lib demo_world guarded_proxy demo_connection)) \<in> {[], [Replied AUTH_REQUIRED]}"
proof -
  have auth: "px_expected_auth guarded_proxy = Some ''Basic omnigent:t''" by code_simp
  have "xs_trace demo_connection = []" by (simp add: demo_connection_def)
  moreover have "xs_trace (snd (handle_client demo_lib demo_world guarded_proxy demo_connection)) = [Replied AUTH_REQUIRED]"
    by code_simp
  ultimately show ?thesis using unauthenticated_refused [OF auth, of demo_connection demo_lib demo_world] auth by simp
qed

text \<open>
  Lines are cut at CRLF only, so a \<open>Proxy-Authorization\<close> header after a bare line feed stays in the block, where
  the header parser finds it and forwards it.
\<close>

lemma bare_newline_keeps_token:
  "strip_proxy_auth (''X: y'' @ [CHR 0x0A] @ ''Proxy-Authorization: Basic t'' @ CRLF @ CRLF) =
     ''X: y'' @ [CHR 0x0A] @ ''Proxy-Authorization: Basic t'' @ CRLF @ CRLF"
  by code_simp

text \<open>The parameters of a URL are not part of the path that is checked and forwarded.\<close>

lemma url_parameters_dropped:
  assumes "sl_urlparse lib url = Some parsed" "sl_urlparse lib url' = Some (parsed\<lparr>up_params := params\<rparr>)"
  shows "handle_http lib w p method url' headers_raw = handle_http lib w p method url headers_raw"
  using assms by (simp add: handle_http_def)

end
