(* ===== verification/Egress_Credentials.thy ===== *)
theory Egress_Credentials
  imports Egress_Proxy
begin

text \<open>
  What the proxy does with credentials: which \<open>Authorization\<close> values may leave it, and the way of a
  credential from the configuration of a sandbox to the request it is attached to.
\<close>

subsection \<open>The tables of the proxy\<close>




definition proxy_of :: "stdlib \<Rightarrow> egress_rule list \<Rightarrow> bool \<Rightarrow> string option \<Rightarrow> rewrite_rule list \<Rightarrow> egress_proxy" where
  "proxy_of lib rules block auth bindings = egress_proxy_init lib rules block auth (Some bindings)"

lemma proxy_of_tables:
  "px_cred_by_host (proxy_of lib rules block auth bindings) = fst (fold register_rewrite bindings ([], []))"
  "px_cred_by_synthetic (proxy_of lib rules block auth bindings) = snd (fold register_rewrite bindings ([], []))"
  by (simp_all add: proxy_of_def egress_proxy_init_def case_prod_beta)


lemma fst_register: "fst (register_rewrite r t) = dict_set (lower (rr_host r)) r (fst t)"
  by (simp add: register_rewrite_def split: prod.splits)

lemma by_host_other:
  "k \<notin> (\<lambda>r. lower (rr_host r)) ` set rs \<Longrightarrow> dict_get (fst (fold register_rewrite rs t)) k = dict_get (fst t) k"
  by (induction rs arbitrary: t) (auto simp: fst_register dict_get_def)

lemma by_host_found:
  assumes "distinct (map (\<lambda>r. lower (rr_host r)) rs)" "r \<in> set rs"
  shows "dict_get (fst (fold register_rewrite rs t)) (lower (rr_host r)) = Some r"
  using assms
proof (induction rs arbitrary: t)
  case (Cons x rs)
  show ?case
  proof (cases "r = x")
    case True
    then have "lower (rr_host r) \<notin> (\<lambda>r. lower (rr_host r)) ` set rs" using Cons.prems(1) by simp
    then show ?thesis using True by (simp add: by_host_other) (simp add: fst_register dict_get_def)
  qed (use Cons in auto)
qed simp

lemma proxy_by_host:
  assumes "distinct (map (\<lambda>r. lower (rr_host r)) bindings)" "r \<in> set bindings"
  shows "dict_get (px_cred_by_host (proxy_of lib rules block auth bindings)) (lower (rr_host r)) = Some r"
  using by_host_found [OF assms] by (simp add: proxy_of_tables)


subsection \<open>Rewritten values\<close>








subsection \<open>Properties\<close>


lemma all2_left: "list_all2 P xs ys \<Longrightarrow> x \<in> set xs \<Longrightarrow> \<exists>y \<in> set ys. P x y"
  by (induction rule: list_all2_induct) auto







definition token_lib :: stdlib where
  "token_lib = demo_lib\<lparr>sl_parse_headers := \<lambda>raw. \<lparr>hm_headers = (if raw = [] then [] else [(''authorization'', raw)]), hm_payload = []\<rparr>\<rparr>"


text \<open>
  From configuration to request: for every binding of an accepted configuration whose secrets resolve, a request
  to the bound host without an \<open>Authorization\<close> header leaves the proxy with exactly one, the resolved secret of
  the binding in its scheme, in any spelling of the host; only a secret of several lines is refused, by the
  header library.
\<close>

theorem bound_host_gets_credential:
  assumes parsed: "parse_credential_proxy decode raw = Inr (Some entries)"
    and prepared: "prepare_credential_proxy_runtime h token (Some entries) parent_env = Inr runtime"
    and e: "e \<in> set entries" "lower host = ce_host e" and none: "get_all (sl_parse_headers lib headers) AUTH = []"
  shows "\<exists>rule v. rule \<in> set (crt_rewrites runtime) \<and> rewrite_of h parent_env e rule \<and> format_real_auth lib rule = Inr v \<and>
    rewrite_authorization lib (proxy_of lib rules block auth (crt_rewrites runtime)) host headers =
      (if multi_line v then Inl (ValueError ''Header values may not contain linefeed or carriage return characters'')
       else Inr (sl_as_bytes lib (add_header AUTH v (sl_parse_headers lib headers)), None))"
proof -
  have entries: "distinct (map ce_host entries)" "list_all entry_ok entries" using parsed_bindings [OF parsed] by simp_all
  have all: "list_all2 (rewrite_of h parent_env) entries (crt_rewrites runtime)"
    using prepare_loop_result [where bound = "[]"] prepared by (force simp: prepare_credential_proxy_runtime_def Let_def)
  have "list_all2 (\<lambda>e r. entry_ok e \<and> rewrite_of h parent_env e r) entries (crt_rewrites runtime)"
    using all entries(2) by (auto simp: list_all2_conv_all_nth list_all_length)
  then have hosts: "map (\<lambda>r. lower (rr_host r)) (crt_rewrites runtime) = map ce_host entries"
    by (induction rule: list_all2_induct) (auto simp: entry_ok_def rewrite_of_def)
  obtain rule where rule: "rule \<in> set (crt_rewrites runtime)" "rewrite_of h parent_env e rule" using all2_left [OF all e(1)] by blast
  have ok: "entry_ok e" using entries(2) e(1) by (simp add: list_all_iff)
  then obtain v where v: "format_real_auth lib rule = Inr v"
    using rule(2) by (auto simp: entry_ok_def rewrite_of_def format_real_auth_def str_truthy_def split: option.splits)
  have "dict_get (px_cred_by_host (proxy_of lib rules block auth (crt_rewrites runtime))) (lower (rr_host rule)) = Some rule"
    using proxy_by_host rule(1) hosts entries(1) by metis
  moreover have "lower (rr_host rule) = lower host" using ok rule(2) e(2) by (simp add: entry_ok_def rewrite_of_def)
  ultimately have "rewrite_authorization lib (proxy_of lib rules block auth (crt_rewrites runtime)) host headers =
      (if multi_line v then Inl (ValueError ''Header values may not contain linefeed or carriage return characters'')
       else Inr (sl_as_bytes lib (add_header AUTH v (sl_parse_headers lib headers)), None))"
    using none v by (auto simp: rewrite_authorization_def Let_def set_header_def dict_get_def)
  then show ?thesis using rule v by blast
qed

lemma bound_host_gets_credential_witness:
  "(\<exists>rule. rule \<in> set (crt_rewrites demo_runtime) \<and>
     rewrite_of demo_cred_host [(''GH_PAT'', '' s3 '')] (gh_entry (to_spec demo_source) ''github.com'') rule) \<and>
   rewrite_authorization token_lib (proxy_of token_lib [demo_rule] True None (crt_rewrites demo_runtime)) ''GitHub.com'' [] =
     Inr (''Authorization: Basic x-access-token:s3'' @ CRLF, None)"
proof -
  let ?e = "gh_entry (to_spec demo_source) ''github.com''"
  have parsed: "parse_credential_proxy (\<lambda>_. Inr demo_item) (JList [JNull]) = Inr (Some demo_entries)" by code_simp
  have prepared: "prepare_credential_proxy_runtime demo_cred_host (\<lambda>_. ''x'') (Some demo_entries) [(''GH_PAT'', '' s3 '')] = Inr demo_runtime"
    by code_simp
  have e: "?e \<in> set demo_entries" by (simp add: demo_entries_def GH_BASIC_DEFAULT_TARGETS_def)
  have host: "lower ''GitHub.com'' = ce_host ?e" by code_simp
  have none: "get_all (sl_parse_headers token_lib []) AUTH = []" by code_simp
  obtain rule v where "rule \<in> set (crt_rewrites demo_runtime)" "rewrite_of demo_cred_host [(''GH_PAT'', '' s3 '')] ?e rule"
      "format_real_auth token_lib rule = Inr v"
      "rewrite_authorization token_lib (proxy_of token_lib [demo_rule] True None (crt_rewrites demo_runtime)) ''GitHub.com'' [] =
        (if multi_line v then Inl (ValueError ''Header values may not contain linefeed or carriage return characters'')
         else Inr (sl_as_bytes token_lib (add_header AUTH v (sl_parse_headers token_lib [])), None))"
    using bound_host_gets_credential [OF parsed prepared e host none, of "[demo_rule]" True None] by blast
  moreover have "rewrite_authorization token_lib (proxy_of token_lib [demo_rule] True None (crt_rewrites demo_runtime)) ''GitHub.com'' [] =
     Inr (''Authorization: Basic x-access-token:s3'' @ CRLF, None)"
    by code_simp
  ultimately show ?thesis by blast
qed

end
