(* ===== verification/Shell_Parse.thy ===== *)
theory Shell_Parse
  imports Egress_Rules
begin

text \<open>
  The parsing of shell commands that the shell policies share (\<open>src/omnigent/policies/builtins/_shell.py\<close>):
  command substitutions, chaining operators, wrappers and interpreters, and the splitting of a segment into
  words by \<open>shlex.split\<close>, modelled after its state machine in POSIX mode.
\<close>

subsection \<open>Command substitutions\<close>

text \<open>The body of \<open>$(\<dots>)\<close> up to the parenthesis that closes it, and the text after it.\<close>

fun close_paren :: "nat \<Rightarrow> string \<Rightarrow> string \<times> string" where
  "close_paren depth [] = ([], [])"
| "close_paren depth (c # cs) =
     (if c = CHR '')'' \<and> depth \<le> 1 then ([], cs)
      else (let (body, rest) = close_paren (if c = CHR ''('' then Suc depth else if c = CHR '')'' then depth - 1 else depth) cs
            in (c # body, rest)))"

lemma close_paren_length: "length (fst (close_paren d s)) \<le> length s \<and> length (snd (close_paren d s)) \<le> length s"
  by (induction d s rule: close_paren.induct) (auto simp: case_prod_beta Let_def)

function extract_command_substitutions :: "string \<Rightarrow> string \<times> string list" where
  "extract_command_substitutions command =
     (case command of
        [] \<Rightarrow> ([], [])
      | ch # cs \<Rightarrow>
          if ch = CHR ''$'' \<and> cs \<noteq> [] \<and> hd cs = CHR ''(''
          then (let (outer, bodies) = extract_command_substitutions (snd (close_paren 1 (tl cs)))
                in ('' '' @ outer, fst (close_paren 1 (tl cs)) # bodies))
          else if ch = CHR 0x60 \<and> CHR 0x60 \<in> set cs
          then (let (outer, bodies) = extract_command_substitutions (tl (dropWhile (\<lambda>c. c \<noteq> CHR 0x60) cs))
                in ('' '' @ outer, takeWhile (\<lambda>c. c \<noteq> CHR 0x60) cs # bodies))
          else (let (outer, bodies) = extract_command_substitutions cs in (ch # outer, bodies)))"
  by auto
termination
proof (relation "measure length")
  fix command ch and cs :: string
  assume "command = ch # cs"
  moreover have "length (snd (close_paren 1 (tl cs))) \<le> length (tl cs)" using close_paren_length by blast
  moreover have "length (tl (dropWhile (\<lambda>c. c \<noteq> CHR 0x60) cs)) \<le> length cs"
    using length_dropWhile_le [of "\<lambda>c. c \<noteq> CHR 0x60" cs] by simp
  ultimately show "(snd (close_paren 1 (tl cs)), command) \<in> measure length"
      "(tl (dropWhile (\<lambda>c. c \<noteq> CHR 0x60) cs), command) \<in> measure length" "(cs, command) \<in> measure length"
    by auto
qed simp

declare extract_command_substitutions.simps [simp del]

subsection \<open>Segments\<close>

text \<open>\<open>re.split\<close> at \<open>&&\<close>, \<open>||\<close> and single operators.\<close>

fun split_operators :: "string \<Rightarrow> string list" where
  "split_operators [] = [[]]"
| "split_operators (c # cs) =
     (if c \<in> {CHR ''&'', CHR ''|''} \<and> cs \<noteq> [] \<and> hd cs = c then [] # split_operators (tl cs)
      else if c \<in> {CHR '';'', CHR ''|'', CHR 0x0A, CHR ''&''} then [] # split_operators cs
      else (case split_operators cs of [] \<Rightarrow> [[c]] | w # ws \<Rightarrow> (c # w) # ws))"

lemma extract_Cons:
  "extract_command_substitutions (ch # cs) =
     (if ch = CHR ''$'' \<and> cs \<noteq> [] \<and> hd cs = CHR ''(''
      then (let (outer, bodies) = extract_command_substitutions (snd (close_paren 1 (tl cs)))
            in ('' '' @ outer, fst (close_paren 1 (tl cs)) # bodies))
      else if ch = CHR 0x60 \<and> CHR 0x60 \<in> set cs
      then (let (outer, bodies) = extract_command_substitutions (tl (dropWhile (\<lambda>c. c \<noteq> CHR 0x60) cs))
            in ('' '' @ outer, takeWhile (\<lambda>c. c \<noteq> CHR 0x60) cs # bodies))
      else (let (outer, bodies) = extract_command_substitutions cs in (ch # outer, bodies)))"
  by (subst extract_command_substitutions.simps) simp

lemma extract_bodies_shorter: "b \<in> set (snd (extract_command_substitutions s)) \<Longrightarrow> length b < length s"
proof (induction s rule: extract_command_substitutions.induct)
  case (1 command)
  show ?case
  proof (cases command)
    case Nil
    then show ?thesis using "1.prems" by (simp add: extract_command_substitutions.simps)
  next
    case (Cons ch cs)
    have rest: "length (fst (close_paren 1 (tl cs))) \<le> length cs" "length (snd (close_paren 1 (tl cs))) \<le> length cs"
      using close_paren_length [of 1 "tl cs"] by (auto intro: le_trans)
    have tick: "length (takeWhile (\<lambda>c. c \<noteq> CHR 0x60) cs) \<le> length cs" "length (tl (dropWhile (\<lambda>c. c \<noteq> CHR 0x60) cs)) \<le> length cs"
      using length_dropWhile_le [of "\<lambda>c. c \<noteq> CHR 0x60" cs] by (auto simp: length_takeWhile_le)
    have "length b \<le> length cs"
      using "1.prems" 1(1,2,3) [OF Cons] rest tick unfolding Cons extract_Cons
      by (auto simp: Let_def case_prod_beta split: if_splits)
    then show ?thesis using Cons by simp
  qed
qed

function split_command_segments :: "string \<Rightarrow> string list" where
  "split_command_segments command =
     filter (\<lambda>seg. seg \<noteq> []) (map strip (split_operators (fst (extract_command_substitutions command)))) @
     concat (map split_command_segments (snd (extract_command_substitutions command)))"
  by auto
termination
  by (relation "measure length") (auto simp: extract_bodies_shorter)

declare split_command_segments.simps [simp del]

subsection \<open>Words\<close>

datatype shlex_state = Between | InWord | InQuote char | EscapeIn "char option"

text \<open>\<open>EscapeIn q\<close>: after a backslash, in a word or in the quotes \<open>q\<close>.\<close>

definition shlex_space :: "char \<Rightarrow> bool" where
  "shlex_space c \<longleftrightarrow> c \<in> {CHR '' '', CHR 0x09, CHR 0x0D, CHR 0x0A}"

definition shlex_quote :: "char \<Rightarrow> bool" where
  "shlex_quote c \<longleftrightarrow> c \<in> {CHR 0x27, CHR 0x22}"

definition BACKSLASH :: char where
  "BACKSLASH = CHR 0x5C"

fun shlex_loop :: "shlex_state \<Rightarrow> string \<Rightarrow> bool \<Rightarrow> string \<Rightarrow> string list res" where
  "shlex_loop Between token quoted [] = Inr []"
| "shlex_loop InWord token quoted [] = Inr (if token \<noteq> [] \<or> quoted then [token] else [])"
| "shlex_loop (InQuote q) token quoted [] = Inl (ValueError ''No closing quotation'')"
| "shlex_loop (EscapeIn q) token quoted [] = Inl (ValueError ''No escaped character'')"
| "shlex_loop Between token quoted (c # cs) =
     (if shlex_space c then shlex_loop Between [] False cs
      else if c = BACKSLASH then shlex_loop (EscapeIn None) [] False cs
      else if shlex_quote c then shlex_loop (InQuote c) [] False cs
      else shlex_loop InWord [c] False cs)"
| "shlex_loop (InQuote q) token quoted (c # cs) =
     (if c = q then shlex_loop InWord token True cs
      else if c = BACKSLASH \<and> q = CHR 0x22 then shlex_loop (EscapeIn (Some q)) token True cs
      else shlex_loop (InQuote q) (token @ [c]) True cs)"
| "shlex_loop (EscapeIn q) token quoted (c # cs) =
     (case q of
        None \<Rightarrow> shlex_loop InWord (token @ [c]) quoted cs
      | Some q' \<Rightarrow> shlex_loop (InQuote q') (token @ (if c = BACKSLASH \<or> c = q' then [c] else [BACKSLASH, c])) quoted cs)"
| "shlex_loop InWord token quoted (c # cs) =
     (if shlex_space c
      then (if token \<noteq> [] \<or> quoted then res_bind (shlex_loop Between [] False cs) (\<lambda>ws. Inr (token # ws))
            else shlex_loop Between [] False cs)
      else if shlex_quote c then shlex_loop (InQuote c) token quoted cs
      else if c = BACKSLASH then shlex_loop (EscapeIn None) token quoted cs
      else shlex_loop InWord (token @ [c]) quoted cs)"

definition shlex_split :: "string \<Rightarrow> string list res" where
  "shlex_split s = shlex_loop Between [] False s"

subsection \<open>Wrappers\<close>

definition CMD_WRAPPERS :: "string list" where
  "CMD_WRAPPERS = [''sudo'', ''env'', ''command'', ''time'', ''nohup'', ''exec'']"

definition FLAG_WRAPPERS :: "string list dict" where
  "FLAG_WRAPPERS =
     [(''timeout'', [''-s'', ''--signal'', ''-k'', ''--kill-after'']), (''nice'', [''-n'', ''--adjustment'']),
      (''stdbuf'', [''-i'', ''--input'', ''-o'', ''--output'', ''-e'', ''--error'']), (''setsid'', [])]"

definition DURATION_WRAPPERS :: "string list" where
  "DURATION_WRAPPERS = [''timeout'']"

definition SHELL_INTERPRETERS :: "string list" where
  "SHELL_INTERPRETERS = [''sh'', ''bash'', ''zsh'', ''dash'', ''ksh'']"

definition MAX_SHELL_NESTING :: nat where
  "MAX_SHELL_NESTING = 4"

definition is_letter :: "char \<Rightarrow> bool" where
  "is_letter c = (let n = (of_char c :: nat) in (65 \<le> n \<and> n \<le> 90) \<or> (97 \<le> n \<and> n \<le> 122))"

definition re_word_char :: "char \<Rightarrow> bool" where
  "re_word_char c \<longleftrightarrow> is_letter c \<or> c = CHR ''_'' \<or> (let n = (of_char c :: nat) in 48 \<le> n \<and> n \<le> 57)"

text \<open>\<open>[A-Za-z_][A-Za-z0-9_]*=.*\<close>, where the dot is no newline.\<close>

definition env_assignment :: "string \<Rightarrow> bool" where
  "env_assignment token =
     (let name = takeWhile re_word_char token; rest = dropWhile re_word_char token in
      name \<noteq> [] \<and> (is_letter (hd name) \<or> hd name = CHR ''_'') \<and> rest \<noteq> [] \<and> hd rest = CHR ''='' \<and> CHR 0x0A \<notin> set rest)"

text \<open>The words after the flags of a wrapper, and after its duration.\<close>

fun skip_flags :: "string list \<Rightarrow> string list \<Rightarrow> string list" where
  "skip_flags value_flags [] = []"
| "skip_flags value_flags (flag # tokens) =
     (if startswith flag ''-''
      then (if flag \<in> set value_flags \<and> tokens \<noteq> [] then skip_flags value_flags (tl tokens) else skip_flags value_flags tokens)
      else flag # tokens)"

definition skip_flag_wrapper_args :: "string list \<Rightarrow> bool \<Rightarrow> string list \<Rightarrow> string list" where
  "skip_flag_wrapper_args value_flags has_duration tokens =
     (let rest = skip_flags value_flags tokens in if has_duration then tl rest else rest)"

lemma skip_flags_length: "length (skip_flags vs ts) \<le> length ts"
proof (induction vs ts rule: skip_flags.induct)
  case (2 vs flag tokens)
  have "length (tl tokens) \<le> length tokens" by simp
  then show ?case using 2 by (auto intro: le_trans le_SucI)
qed simp

function real_invocation_tokens :: "string list \<Rightarrow> string list" where
  "real_invocation_tokens tokens =
     (case tokens of
        [] \<Rightarrow> []
      | token # rest \<Rightarrow>
          if token \<in> set CMD_WRAPPERS \<or> env_assignment token then real_invocation_tokens rest
          else (case dict_get FLAG_WRAPPERS token of
                  Some value_flags \<Rightarrow>
                    real_invocation_tokens (skip_flag_wrapper_args value_flags (token \<in> set DURATION_WRAPPERS) rest)
                | None \<Rightarrow> tokens))"
  by auto
termination
proof (relation "measure length")
  fix tokens token and rest :: "string list" and value_flags
  assume "tokens = token # rest"
  moreover have "length (skip_flag_wrapper_args value_flags d rest) \<le> length rest" for d
    using skip_flags_length [of value_flags rest] by (auto simp: skip_flag_wrapper_args_def Let_def)
  ultimately show "(skip_flag_wrapper_args value_flags (token \<in> set DURATION_WRAPPERS) rest, tokens) \<in> measure length"
    by (simp add: le_imp_less_Suc)
qed simp_all

declare real_invocation_tokens.simps [simp del]

subsection \<open>Interpreters\<close>

definition basename :: "string \<Rightarrow> string" where
  "basename s = rev (takeWhile (\<lambda>c. c \<noteq> CHR ''/'') (rev s))"

definition interpreter_c_flag :: "string \<Rightarrow> bool" where
  "interpreter_c_flag tok \<longleftrightarrow> tok \<noteq> [] \<and> hd tok = CHR ''-'' \<and> list_all is_letter (tl tok) \<and> CHR ''c'' \<in> set (tl tok)"

fun after_c_flag :: "string list \<Rightarrow> string option" where
  "after_c_flag (tok # next_tok # toks) = (if interpreter_c_flag tok then Some next_tok else after_c_flag (next_tok # toks))"
| "after_c_flag _ = None"

definition unwrap_shell_command :: "string list \<Rightarrow> string option" where
  "unwrap_shell_command tokens =
     (let head = basename (hd tokens) in
      if head \<in> set SHELL_INTERPRETERS then after_c_flag tokens
      else if head = ''eval'' then (if 1 < length tokens then Some (join '' '' (tl tokens)) else None)
      else None)"

subsection \<open>Searches and renderings\<close>

text \<open>
  \<open>re.search\<close> of a word that ends in a word character with \<open>\b\<close> after it; \<open>blocked\<close> says which character
  may not stand before it, and \<open>prev\<close> whether one does.
\<close>

fun find_word :: "(char \<Rightarrow> bool) \<Rightarrow> string \<Rightarrow> bool \<Rightarrow> string \<Rightarrow> bool" where
  "find_word blocked w prev [] = False"
| "find_word blocked w prev (c # cs) =
     (\<not> prev \<and> startswith (c # cs) w \<and>
        (let rest = drop (length w) (c # cs) in rest = [] \<or> \<not> re_word_char (hd rest)) \<or>
      find_word blocked w (blocked c) cs)"

definition search_word :: "string \<Rightarrow> string \<Rightarrow> bool" where
  "search_word w s = find_word re_word_char w False s"

text \<open>\<open>repr\<close> of a string of printable or ASCII characters.\<close>

definition hex_digit :: "nat \<Rightarrow> char" where
  "hex_digit n = char_of (if n < 10 then 48 + n else 87 + n)"

definition repr_char :: "char \<Rightarrow> char \<Rightarrow> string" where
  "repr_char quote c =
     (let n = (of_char c :: nat) in
      if c = quote \<or> c = BACKSLASH then [BACKSLASH, c]
      else if c = CHR 0x09 then [BACKSLASH, CHR ''t'']
      else if c = CHR 0x0A then [BACKSLASH, CHR ''n'']
      else if c = CHR 0x0D then [BACKSLASH, CHR ''r'']
      else if n < 32 \<or> n = 127 then [BACKSLASH, CHR ''x'', hex_digit (n div 16), hex_digit (n mod 16)]
      else [c])"

definition str_repr :: "string \<Rightarrow> string" where
  "str_repr s =
     (let quote = (if CHR 0x27 \<in> set s \<and> CHR 0x22 \<notin> set s then CHR 0x22 else CHR 0x27)
      in quote # concat (map (repr_char quote) s) @ [quote])"

definition repr_list :: "string list \<Rightarrow> string" where
  "repr_list xs = ''['' @ join '', '' (map str_repr xs) @ '']''"

subsection \<open>Lemmas\<close>

text \<open>Words without blanks, quotes and backslashes come back from the text they are joined to.\<close>

definition plain_word :: "string \<Rightarrow> bool" where
  "plain_word w \<longleftrightarrow> w \<noteq> [] \<and> list_all (\<lambda>c. \<not> shlex_space c \<and> \<not> shlex_quote c \<and> c \<noteq> BACKSLASH) w"

lemma shlex_plain:
  "list_all (\<lambda>c. \<not> shlex_space c \<and> \<not> shlex_quote c \<and> c \<noteq> BACKSLASH) w \<Longrightarrow>
     shlex_loop InWord token quoted (w @ rest) = shlex_loop InWord (token @ w) quoted rest"
  by (induction w arbitrary: token) simp_all

lemma shlex_word:
  assumes "plain_word w"
  shows "shlex_loop Between [] False (w @ rest) = shlex_loop InWord w False rest"
proof (cases w)
  case Nil
  then show ?thesis using assms by (simp add: plain_word_def)
next
  case (Cons c cs)
  then show ?thesis using assms shlex_plain [of cs "[c]" False rest] by (simp add: plain_word_def)
qed

lemma shlex_split_join: "list_all plain_word ws \<Longrightarrow> shlex_split (join '' '' ws) = Inr ws"
  unfolding shlex_split_def
proof (induction "'' ''" ws rule: join.induct)
  case (2 x)
  then show ?case using shlex_word [of x "[]"] by (simp add: plain_word_def)
next
  case (3 x y ys)
  have "shlex_space (CHR '' '')" by code_simp
  then show ?case using 3 shlex_word [of x "'' '' @ join '' '' (y # ys)"] by (simp add: plain_word_def)
qed simp

text \<open>What is left after the wrappers starts with no wrapper and no assignment.\<close>

lemma real_invocation_head:
  "real_invocation_tokens ts = t # rest \<Longrightarrow>
     t \<notin> set CMD_WRAPPERS \<and> \<not> env_assignment t \<and> dict_get FLAG_WRAPPERS t = None"
proof (induction ts rule: real_invocation_tokens.induct)
  case (1 tokens)
  then show ?case
    by (subst (asm) (3) real_invocation_tokens.simps) (auto split: list.splits if_splits option.splits)
qed

subsection \<open>Decisions\<close>

text \<open>A response of a policy on commands: its result and reason; \<open>None\<close> abstains.\<close>

type_synonym gate_response = "(string \<times> string) option"

definition rank :: "gate_response \<Rightarrow> nat" where
  "rank r = (case r of None \<Rightarrow> 1 | Some (result, _) \<Rightarrow> if result = ''DENY'' then 3 else if result = ''ASK'' then 2 else 1)"

definition worse :: "gate_response \<Rightarrow> gate_response \<Rightarrow> gate_response" where
  "worse current candidate = (if rank current < rank candidate then candidate else current)"

abbreviation worst_of :: "('a \<Rightarrow> gate_response) \<Rightarrow> gate_response \<Rightarrow> 'a list \<Rightarrow> gate_response" where
  "worst_of f \<equiv> foldl (\<lambda>worst x. worse worst (f x))"

definition decisive :: "gate_response \<Rightarrow> bool" where
  "decisive r \<longleftrightarrow> (case r of None \<Rightarrow> True | Some (result, _) \<Rightarrow> result \<in> {''DENY'', ''ASK''})"

definition denies :: "gate_response \<Rightarrow> bool" where
  "denies r \<longleftrightarrow> map_option fst r = Some ''DENY''"

lemma worst_of_keeps: "(\<And>x. P (f x)) \<Longrightarrow> P w \<Longrightarrow> P (worst_of f w xs)"
  by (induction xs arbitrary: w) (simp_all add: worse_def)

lemma worse_None: "decisive w \<Longrightarrow> decisive r \<Longrightarrow> worse w r = None \<longleftrightarrow> w = None \<and> r = None"
  by (cases r; cases w) (auto simp: worse_def rank_def decisive_def)

lemma worst_of_None:
  assumes "\<And>x. decisive (f x)"
  shows "decisive w \<Longrightarrow> worst_of f w xs = None \<longleftrightarrow> w = None \<and> (\<forall>x \<in> set xs. f x = None)"
proof (induction xs arbitrary: w)
  case (Cons x xs)
  have "decisive (worse w (f x))" using Cons.prems assms by (simp add: worse_def)
  then show ?case using Cons worse_None [OF Cons.prems assms] by simp
qed simp

lemma worse_denies: "denies (worse w r) \<longleftrightarrow> denies w \<or> denies r"
  by (cases r; cases w) (auto simp: worse_def rank_def denies_def split: if_splits)

lemma worst_of_denies: "denies (worst_of f w xs) \<longleftrightarrow> denies w \<or> (\<exists>x \<in> set xs. denies (f x))"
  by (induction xs arbitrary: w) (auto simp: worse_denies)

subsection \<open>Nested commands\<close>

text \<open>The command that a segment hands to another shell.\<close>

definition nested :: "string \<Rightarrow> string option" where
  "nested segment =
     (case shlex_split segment of
        Inl _ \<Rightarrow> None
      | Inr words \<Rightarrow>
          (let tokens = real_invocation_tokens words in if tokens = [] then None else unwrap_shell_command tokens))"

lemma nested_iff:
  "nested segment = Some command \<longleftrightarrow>
     (\<exists>words. shlex_split segment = Inr words \<and> real_invocation_tokens words \<noteq> [] \<and>
        unwrap_shell_command (real_invocation_tokens words) = Some command)"
  by (auto simp: nested_def Let_def split: sum.splits)

text \<open>The segments of a command and, through at most \<open>n\<close> shells, of the commands nested in it.\<close>

inductive reaches :: "nat \<Rightarrow> string \<Rightarrow> string \<Rightarrow> bool" where
  reaches_own: "segment \<in> set (split_command_segments command) \<Longrightarrow> reaches n command segment"
| reaches_inner: "outer \<in> set (split_command_segments command) \<Longrightarrow> nested outer = Some inner \<Longrightarrow>
    reaches n inner segment \<Longrightarrow> reaches (Suc n) command segment"

inductive_cases reaches_0E: "reaches 0 command segment"
inductive_cases reaches_SucE: "reaches (Suc n) command segment"

text \<open>
  The contract of a policy that walks a command in this way: what it finds with \<open>n\<close> levels left is what the segments
  hold themselves and what it finds in nested commands with one level less.
\<close>

locale command_walk =
  fixes found :: "nat \<Rightarrow> string \<Rightarrow> 'a \<Rightarrow> bool"
    and own :: "string \<Rightarrow> 'a \<Rightarrow> bool"
  assumes found_0: "\<not> found 0 command x"
    and found_Suc: "found (Suc n) command x \<longleftrightarrow>
      (\<exists>segment \<in> set (split_command_segments command).
         own segment x \<or> (\<exists>inner. nested segment = Some inner \<and> found n inner x))"
begin

lemma found_reaches: "found (Suc n) command x \<longleftrightarrow> (\<exists>segment. reaches n command segment \<and> own segment x)"
proof (induction n arbitrary: command)
  case 0
  then show ?case by (auto simp: found_Suc found_0 intro: reaches_own elim: reaches_0E)
next
  case (Suc n)
  show ?case unfolding found_Suc [of "Suc n"] Suc.IH by (blast intro: reaches.intros elim: reaches_SucE)
qed

lemma found_more: "found (Suc n) command x \<Longrightarrow> found (Suc (Suc n)) command x"
proof -
  have "reaches n command segment \<Longrightarrow> reaches (Suc n) command segment" for segment
    by (induction rule: reaches.induct) (auto intro: reaches.intros)
  then show "found (Suc n) command x \<Longrightarrow> found (Suc (Suc n)) command x" unfolding found_reaches by blast
qed

end

end
