(* ===== verification/Working_Dir.thy ===== *)
theory Working_Dir
  imports Safety_Policy Shell_Parse
begin

text \<open>
  The policy on working directories and git worktrees
  (\<open>src/omnigent/policies/builtins/working_dir.py\<close>): the classification of one invocation, the gate, and the
  evaluation of a whole command with its nested shells.
\<close>

subsection \<open>Directories\<close>

text \<open>\<open>os.path.normpath\<close> on POSIX; the stack holds the components in reverse.\<close>

definition norm_step :: "bool \<Rightarrow> string list \<Rightarrow> string \<Rightarrow> string list" where
  "norm_step absolute stack part =
     (if part = [] \<or> part = ''.'' then stack
      else if part \<noteq> ''..'' \<or> (\<not> absolute \<and> stack = []) \<or> (stack \<noteq> [] \<and> hd stack = ''..'') then part # stack
      else tl stack)"

definition normpath :: "string \<Rightarrow> string" where
  "normpath path =
     (if path = [] then ''.''
      else
        (let slashes = (if \<not> startswith path ''/'' then []
                        else if startswith path ''//'' \<and> \<not> startswith path ''///'' then ''//'' else ''/'');
             body = slashes @ join ''/'' (rev (foldl (norm_step (slashes \<noteq> [])) [] (split_char (CHR ''/'') path)))
         in if body = [] then ''.'' else body))"

definition normalize_dir :: "string \<Rightarrow> string" where
  "normalize_dir path = (if strip path \<noteq> [] then normpath (strip path) else [])"

definition normalize_dirs :: "string list option \<Rightarrow> string list" where
  "normalize_dirs dirs = filter (\<lambda>d. d \<noteq> []) (map normalize_dir (list_or dirs))"

definition is_under_allowed :: "string \<Rightarrow> string list \<Rightarrow> bool" where
  "is_under_allowed target allowed_dirs =
     (let norm = normalize_dir target in
      if norm = [] then False
      else list_ex (\<lambda>allowed. norm = allowed \<or> startswith norm (allowed @ ''/'')) allowed_dirs)"

subsection \<open>Classification\<close>

definition CD_COMMANDS :: "string list" where
  "CD_COMMANDS = [''cd'', ''chdir'', ''pushd'', ''popd'']"

definition WORKTREE_SWITCH_SUBCMDS :: "string list" where
  "WORKTREE_SWITCH_SUBCMDS = [''add'', ''move'', ''remove'']"

definition GIT_VALUE_OPTS :: "string list" where
  "GIT_VALUE_OPTS = [''-C'', ''-c'', ''--git-dir'', ''--work-tree'', ''--namespace'', ''--config-env'']"

definition DEFAULT_SHELL_TOOLS :: "string list" where
  "DEFAULT_SHELL_TOOLS = [''sys_os_shell'', ''Bash'']"

record dir_op =
  do_kind :: string
  do_target :: "string option"
  do_detail :: string

text \<open>The directory of the last \<open>-C\<close> and the positional words of a git command.\<close>

fun git_scan :: "string list \<Rightarrow> string option \<times> string list" where
  "git_scan [] = (None, [])"
| "git_scan [token] = (None, if startswith token ''-'' then [] else [token])"
| "git_scan (token # value # rest) =
     (if token \<in> set GIT_VALUE_OPTS
      then (let (c_path, positionals) = git_scan rest in
            (if token = ''-C'' \<and> c_path = None then Some value else c_path, positionals))
      else if startswith token ''-'' then git_scan (value # rest)
      else (let (c_path, positionals) = git_scan (value # rest) in (c_path, token # positionals)))"

definition classify_git :: "string list \<Rightarrow> bool \<Rightarrow> bool \<Rightarrow> dir_op option" where
  "classify_git tokens block_cd block_worktree =
     (let (c_path, positionals) = git_scan (tl tokens);
          action_word = (if 1 < length positionals then positionals ! 1 else [])
      in if block_worktree \<and> positionals \<noteq> [] \<and> hd positionals = ''worktree'' \<and> action_word \<in> set WORKTREE_SWITCH_SUBCMDS
         then Some \<lparr>do_kind = ''worktree'', do_target = None, do_detail = ''git worktree '' @ action_word\<rparr>
         else (case c_path of
                 Some path \<Rightarrow>
                   if block_cd then Some \<lparr>do_kind = ''cd'', do_target = Some path, do_detail = ''git -C '' @ path\<rparr> else None
               | None \<Rightarrow> None))"

definition classify_cd :: "string list \<Rightarrow> dir_op" where
  "classify_cd tokens =
     (let cmd = hd tokens;
          args = filter (\<lambda>token. \<not> startswith token ''-'') (tl tokens);
          target = (if args = [] then None else Some (hd args))
      in \<lparr>do_kind = ''cd'', do_target = target,
          do_detail = (if str_truthy target then cmd @ '' '' @ the target else cmd)\<rparr>)"

definition classify_segment :: "string list \<Rightarrow> bool \<Rightarrow> bool \<Rightarrow> dir_op option" where
  "classify_segment tokens block_cd block_worktree =
     (let head = dropWhile (\<lambda>c. c = CHR ''('') (hd tokens) in
      if head = ''git'' then classify_git (''git'' # tl tokens) block_cd block_worktree
      else if block_cd \<and> head \<in> set CD_COMMANDS then Some (classify_cd (head # tl tokens))
      else None)"

definition looks_like_dir_op :: "string \<Rightarrow> bool \<Rightarrow> bool \<Rightarrow> bool" where
  "looks_like_dir_op segment block_cd block_worktree =
     (if block_cd \<and> list_ex (\<lambda>w. search_word w segment) CD_COMMANDS then True
      else if search_word ''git'' segment
      then (if block_worktree \<and> search_word ''worktree'' segment then True
            else block_cd \<and> find_word (\<lambda>c. \<not> is_space c) ''-C'' False segment)
      else False)"

subsection \<open>Decisions\<close>

record wd_cfg =
  wd_block_cd :: bool
  wd_block_worktree :: bool
  wd_allowed :: "string list"
  wd_shell_tools :: "string list"
  wd_result_kind :: string

definition violation :: "wd_cfg \<Rightarrow> string \<Rightarrow> gate_response" where
  "violation cfg reason = Some (wd_result_kind cfg, reason)"

definition gate :: "wd_cfg \<Rightarrow> dir_op \<Rightarrow> gate_response" where
  "gate cfg op =
     (if do_kind op = ''worktree''
      then violation cfg (''Blocked: '' @ sq (do_detail op) @ '' switches git worktrees, which this policy forbids.'')
      else if wd_allowed cfg \<noteq> [] \<and> (case do_target op of Some t \<Rightarrow> is_under_allowed t (wd_allowed cfg) | None \<Rightarrow> False)
      then None
      else if wd_allowed cfg \<noteq> []
      then violation cfg (''Blocked: '' @ sq (do_detail op) @ '' changes the working directory outside the allowed directories '' @
             repr_list (sort (remdups (wd_allowed cfg))) @ ''.'')
      else violation cfg (''Blocked: '' @ sq (do_detail op) @ '' changes the working directory, which this policy forbids.''))"

text \<open>What one segment contributes; \<open>inner\<close> evaluates the command of a nested shell.\<close>

definition segment_response :: "wd_cfg \<Rightarrow> (string \<Rightarrow> gate_response) \<Rightarrow> string \<Rightarrow> gate_response" where
  "segment_response cfg inner segment =
     (case shlex_split segment of
        Inl _ \<Rightarrow>
          if looks_like_dir_op segment (wd_block_cd cfg) (wd_block_worktree cfg)
          then violation cfg (''Blocked: could not parse a shell command ('' @ str_repr (take 60 segment) @
                 '') that appears to switch directories or worktrees.'')
          else None
      | Inr words \<Rightarrow>
          (let tokens = real_invocation_tokens words in
           if tokens = [] then None
           else (case unwrap_shell_command tokens of
                   Some command \<Rightarrow> inner command
                 | None \<Rightarrow>
                     (case classify_segment tokens (wd_block_cd cfg) (wd_block_worktree cfg) of
                        Some op \<Rightarrow> gate cfg op
                      | None \<Rightarrow> None))))"

text \<open>The number is that of the levels of nesting left: \<open>MAX_SHELL_NESTING + 1 - depth\<close>.\<close>

primrec evaluate_command :: "wd_cfg \<Rightarrow> nat \<Rightarrow> string \<Rightarrow> gate_response" where
  "evaluate_command cfg 0 command = None"
| "evaluate_command cfg (Suc levels) command =
     foldl (\<lambda>worst segment. worse worst (segment_response cfg (evaluate_command cfg levels) segment)) None
       (split_command_segments command)"


definition wd_config :: "bool \<Rightarrow> bool \<Rightarrow> string list option \<Rightarrow> string \<Rightarrow> string list option \<Rightarrow> wd_cfg" where
  "wd_config block_cd block_worktree allowed_dirs action shell_tools =
     \<lparr>wd_block_cd = block_cd, wd_block_worktree = block_worktree, wd_allowed = normalize_dirs allowed_dirs,
      wd_shell_tools = (case shell_tools of None \<Rightarrow> DEFAULT_SHELL_TOOLS | Some ts \<Rightarrow> ts),
      wd_result_kind = (if action = ''deny'' then ''DENY'' else ''ASK'')\<rparr>"


subsection \<open>Lemmas: normalised paths\<close>

lemma norm_stack_absolute:
  assumes "list_all (\<lambda>c. c \<notin> {[], ''.'', ''..''} \<and> CHR ''/'' \<notin> set c) stack" "list_all (\<lambda>c. CHR ''/'' \<notin> set c) parts"
  shows "list_all (\<lambda>c. c \<notin> {[], ''.'', ''..''} \<and> CHR ''/'' \<notin> set c) (foldl (norm_step True) stack parts)"
  using assms
proof (induction parts arbitrary: stack)
  case (Cons part parts)
  have "list_all (\<lambda>c. c \<notin> {[], ''.'', ''..''} \<and> CHR ''/'' \<notin> set c) (norm_step True stack part)"
    using Cons.prems by (cases stack) (auto simp: norm_step_def)
  then show ?case using Cons by simp
qed simp

lemma split_char_parts: "list_all (\<lambda>w. c \<notin> set w) (split_char c s)"
  by (induction s) (auto split: list.splits)

text \<open>A normalised absolute path has no component that goes up.\<close>

lemma normpath_absolute:
  assumes "startswith path ''/''"
  shows "startswith (normpath path) ''/'' \<and> ''..'' \<notin> set (split_char (CHR ''/'') (normpath path))"
proof -
  define parts where "parts = rev (foldl (norm_step True) [] (split_char (CHR ''/'') path))"
  define slashes where "slashes = (if startswith path ''//'' \<and> \<not> startswith path ''///'' then ''//'' else ''/'')"
  have parts: "list_all (\<lambda>c. c \<notin> {[], ''.'', ''..''} \<and> CHR ''/'' \<notin> set c) parts"
    using norm_stack_absolute [of "[]"] split_char_parts by (simp add: parts_def)
  have "path \<noteq> []" using assms by (auto simp: startswith_def)
  then have norm: "normpath path = slashes @ join ''/'' parts"
    using assms by (simp add: normpath_def Let_def parts_def slashes_def)
  have "''..'' \<notin> set (split_char (CHR ''/'') (join ''/'' parts))"
  proof (cases "parts = []")
    case False
    then have "split_char (CHR ''/'') (join ''/'' parts) = parts"
      using parts by (intro split_join) (auto simp: list_all_iff)
    then show ?thesis using parts by (auto simp: list_all_iff)
  qed simp
  then have "''..'' \<notin> set (split_char (CHR ''/'') (slashes @ join ''/'' parts))" by (simp add: slashes_def)
  then show ?thesis by (simp add: norm slashes_def startswith_def)
qed

subsection \<open>Lemmas: commands\<close>

text \<open>A segment that the policy objects to by itself.\<close>

definition gated_segment :: "wd_cfg \<Rightarrow> string \<Rightarrow> bool" where
  "gated_segment cfg segment \<longleftrightarrow>
     (case shlex_split segment of
        Inl _ \<Rightarrow> looks_like_dir_op segment (wd_block_cd cfg) (wd_block_worktree cfg)
      | Inr words \<Rightarrow>
          (let tokens = real_invocation_tokens words in
           tokens \<noteq> [] \<and> unwrap_shell_command tokens = None \<and>
           (\<exists>op. classify_segment tokens (wd_block_cd cfg) (wd_block_worktree cfg) = Some op \<and> gate cfg op \<noteq> None)))"

definition kind_ok :: "wd_cfg \<Rightarrow> bool" where
  "kind_ok cfg \<longleftrightarrow> wd_result_kind cfg \<in> {''DENY'', ''ASK''}"

definition own_kind :: "wd_cfg \<Rightarrow> gate_response \<Rightarrow> bool" where
  "own_kind cfg r \<longleftrightarrow> (case r of None \<Rightarrow> True | Some (result, _) \<Rightarrow> result = wd_result_kind cfg)"

lemma own_decisive: "kind_ok cfg \<Longrightarrow> own_kind cfg r \<Longrightarrow> decisive r"
  by (auto simp: own_kind_def kind_ok_def decisive_def split: option.splits)

lemma own_kind_simps: "own_kind cfg None" "own_kind cfg (violation cfg reason)" "own_kind cfg (gate cfg op)"
  by (simp_all add: own_kind_def violation_def gate_def split: option.split)

lemma segment_own: "(\<And>c. own_kind cfg (inner c)) \<Longrightarrow> own_kind cfg (segment_response cfg inner segment)"
  by (auto simp: segment_response_def own_kind_simps Let_def split: sum.split option.split)

lemma evaluate_command_own: "kind_ok cfg \<Longrightarrow> own_kind cfg (evaluate_command cfg levels command)"
proof (induction levels arbitrary: command)
  case (Suc levels)
  have "own_kind cfg (segment_response cfg (evaluate_command cfg levels) x)" for x
    using Suc by (intro segment_own) blast
  then show ?case unfolding evaluate_command.simps
    by (rule worst_of_keeps [where P = "own_kind cfg"]) (rule own_kind_simps(1))
qed (simp add: own_kind_simps)


lemma segment_response_None:
  "segment_response cfg inner segment \<noteq> None \<longleftrightarrow>
     gated_segment cfg segment \<or> (\<exists>command. nested segment = Some command \<and> inner command \<noteq> None)"
  by (auto simp: segment_response_def gated_segment_def nested_def violation_def Let_def split: sum.split option.split)

lemma evaluate_command_walk:
  assumes "kind_ok cfg"
  shows "command_walk (\<lambda>n command (_ :: unit). evaluate_command cfg n command \<noteq> None) (\<lambda>segment _. gated_segment cfg segment)"
proof
  fix n command
  have own: "own_kind cfg (segment_response cfg (evaluate_command cfg n) x)" for x
    using assms by (intro segment_own evaluate_command_own)
  have "evaluate_command cfg (Suc n) command = None \<longleftrightarrow>
      (\<forall>segment \<in> set (split_command_segments command). segment_response cfg (evaluate_command cfg n) segment = None)"
    using worst_of_None [where f = "segment_response cfg (evaluate_command cfg n)" and w = None]
    by (simp add: own_decisive [OF assms own] own_decisive [OF assms own_kind_simps(1)])
  then show "evaluate_command cfg (Suc n) command \<noteq> None \<longleftrightarrow>
      (\<exists>segment \<in> set (split_command_segments command). gated_segment cfg segment \<or>
         (\<exists>inner. nested segment = Some inner \<and> evaluate_command cfg n inner \<noteq> None))"
    unfolding segment_response_None [symmetric] by metis
qed simp

lemma evaluate_command_reaches:
  assumes "kind_ok cfg"
  shows "evaluate_command cfg (Suc n) command \<noteq> None \<longleftrightarrow> (\<exists>segment. reaches n command segment \<and> gated_segment cfg segment)"
  by (rule command_walk.found_reaches [OF evaluate_command_walk [OF assms]])


definition wd_verdict :: "wd_cfg \<Rightarrow> policy_action" where
  "wd_verdict cfg = (if wd_result_kind cfg = ''DENY'' then DENY else ASK)"


lemma wd_config_ok:
  "kind_ok (wd_config block_cd block_worktree allowed_dirs action shell_tools)"
  "wd_verdict (wd_config block_cd block_worktree allowed_dirs action shell_tools) = (if action = ''deny'' then DENY else ASK)"
  by (simp_all add: kind_ok_def wd_verdict_def wd_config_def)

interpretation working_dir_walk: command_walk
    "\<lambda>n command (_ :: unit). evaluate_command (wd_config block_cd block_worktree allowed_dirs action shell_tools) n command \<noteq> None"
    "\<lambda>segment (_ :: unit). gated_segment (wd_config block_cd block_worktree allowed_dirs action shell_tools) segment"
    for block_cd block_worktree allowed_dirs action shell_tools
  by (rule evaluate_command_walk [OF wd_config_ok(1)])


lemma gate_cd_None:
  assumes "gate cfg op = None"
  shows "do_kind op \<noteq> ''worktree'' \<and>
    (\<exists>t dir. do_target op = Some t \<and> dir \<in> set (wd_allowed cfg) \<and>
       (normalize_dir t = dir \<or> startswith (normalize_dir t) (dir @ ''/'')) \<and>
       (startswith (strip t) ''/'' \<longrightarrow> ''..'' \<notin> set (split_char (CHR ''/'') (normalize_dir t))))"
proof -
  obtain t where t: "do_kind op \<noteq> ''worktree''" "do_target op = Some t" "is_under_allowed t (wd_allowed cfg)"
    using assms by (auto simp: gate_def violation_def split: if_splits option.splits)
  then obtain dir where dir: "dir \<in> set (wd_allowed cfg)" "normalize_dir t = dir \<or> startswith (normalize_dir t) (dir @ ''/'')"
    by (auto simp: is_under_allowed_def Let_def list_ex_iff split: if_splits)
  have "''..'' \<notin> set (split_char (CHR ''/'') (normalize_dir t))" if "startswith (strip t) ''/''"
    using normpath_absolute [OF that] that by (auto simp: normalize_dir_def startswith_def)
  then show ?thesis using t(1,2) dir by blast
qed

subsection \<open>Properties\<close>


definition demo_wd :: wd_cfg where
  "demo_wd = wd_config True True (Some [''/workspace'']) ''deny'' None"

lemma demo_wd_ok: "kind_ok demo_wd"
  by (simp add: demo_wd_def wd_config_ok)










text \<open>
  When the policy lets a command through, every directory change it can see in the command goes to an
  allowed directory or below one, and no worktree is switched; the path of an absolute target is compared
  after its components that go up are resolved.
\<close>

theorem allowed_commands_stay_inside:
  assumes "kind_ok cfg" and "evaluate_command cfg (Suc n) command = None"
    and "reaches n command segment" and "shlex_split segment = Inr words" and "tokens = real_invocation_tokens words"
    and "tokens \<noteq> []" and "unwrap_shell_command tokens = None"
    and "classify_segment tokens (wd_block_cd cfg) (wd_block_worktree cfg) = Some op"
  shows "do_kind op \<noteq> ''worktree'' \<and>
    (\<exists>t dir. do_target op = Some t \<and> dir \<in> set (wd_allowed cfg) \<and>
       (normalize_dir t = dir \<or> startswith (normalize_dir t) (dir @ ''/'')) \<and>
       (startswith (strip t) ''/'' \<longrightarrow> ''..'' \<notin> set (split_char (CHR ''/'') (normalize_dir t))))"
proof (rule gate_cd_None)
  have "\<not> gated_segment cfg segment" using evaluate_command_reaches [OF assms(1)] assms(2,3) by blast
  then show "gate cfg op = None" using assms(4-8) by (auto simp: gated_segment_def simp del: not_None_eq)
qed

lemma demo_inside:
  "evaluate_command demo_wd 5 ''ls && cd /workspace/b/../a'' = None"
  "split_command_segments ''ls && cd /workspace/b/../a'' = [''ls'', ''cd /workspace/b/../a'']"
  "shlex_split ''cd /workspace/b/../a'' = Inr [''cd'', ''/workspace/b/../a'']"
  "real_invocation_tokens [''cd'', ''/workspace/b/../a''] = [''cd'', ''/workspace/b/../a'']"
  "unwrap_shell_command [''cd'', ''/workspace/b/../a''] = None"
  "classify_segment [''cd'', ''/workspace/b/../a''] (wd_block_cd demo_wd) (wd_block_worktree demo_wd) =
     Some \<lparr>do_kind = ''cd'', do_target = Some ''/workspace/b/../a'', do_detail = ''cd /workspace/b/../a''\<rparr>"
  by code_simp+

lemma allowed_commands_stay_inside_witness:
  "\<exists>dir \<in> set (wd_allowed demo_wd). normalize_dir ''/workspace/b/../a'' = dir \<or>
     startswith (normalize_dir ''/workspace/b/../a'') (dir @ ''/'')"
proof -
  have "reaches 4 ''ls && cd /workspace/b/../a'' ''cd /workspace/b/../a''"
    by (rule reaches_own) (simp add: demo_inside(2))
  from allowed_commands_stay_inside [OF demo_wd_ok _ this demo_inside(3) demo_inside(4) [symmetric] _ demo_inside(5,6)]
  show ?thesis using demo_inside(1) by (simp add: eval_nat_numeral del: evaluate_command.simps) blast
qed

subsection \<open>What the policy does not see\<close>

text \<open>
  The module promises that a change of directory cannot be hidden by chaining or wrapping. The words of a compound
  command are not wrappers, so a group, a subshell with a blank, or a conditional hides it; so do an
  option of \<open>sudo\<close> or \<open>env\<close>, which is taken for the command, and a fifth level of nesting.
\<close>

lemma compound_commands_unseen:
  "evaluate_command demo_wd 5 ''{ cd /etc; }'' = None"
  "evaluate_command demo_wd 5 ''( cd /etc )'' = None"
  "evaluate_command demo_wd 5 ''if true; then cd /etc; fi'' = None"
  by code_simp+

lemma wrapper_flags_unseen: "evaluate_command demo_wd 5 ''sudo -u bob git worktree add ../wt'' = None"
  by code_simp

lemma deep_nesting_unseen: "evaluate_command demo_wd 5 ''eval eval eval eval eval cd /etc'' = None"
  by code_simp

text \<open>The root directory as an allowed directory allows only itself, not the directories below it.\<close>

lemma root_allows_only_itself: "normalize_dirs (Some [''/'']) = [''/'']" "\<not> is_under_allowed ''/etc'' [''/'']"
  by code_simp+

end
