(* ===== verification/Transcript.thy ===== *)
theory Transcript
  imports Conv_Store
begin

text \<open>
  The items of conversations in the store (\<open>src/omnigent/stores/conversation_store/sqlalchemy_store.py\<close>): appending
  with the position counter, paged listing, the newest messages of several conversations, and the loop that reads a whole
  transcript (\<open>fetch_all_items\<close> of \<open>src/omnigent/runtime/workflow.py\<close>).

  An append runs under the lock of its conversation row and in one transaction, so it is one step here and an
  exception leaves the store as it was. The generated item ids are arguments.
\<close>

subsection \<open>Appending\<close>

text \<open>\<open>coalesce(max(position), -1)\<close>\<close>

definition max_position :: "conv_store \<Rightarrow> string \<Rightarrow> int" where
  "max_position s cid =
     (let rows = filter (\<lambda>r. ci_conversation r = cid) (st_items s) in
      if rows = [] then -1 else Max (set (map ci_position rows)))"

definition next_position :: "conv_store \<Rightarrow> string \<Rightarrow> int" where
  "next_position s cid =
     (case Option.bind (get_conversation s cid) cv_next_position of
        Some n \<Rightarrow> n
      | None \<Rightarrow> max_position s cid + 1)"

definition item_key :: "item_row \<Rightarrow> string \<times> string \<times> int" where
  "item_key r = (ci_conversation r, ci_id r, ci_created_at r)"

definition new_row :: "string \<Rightarrow> int \<Rightarrow> int \<Rightarrow> string \<Rightarrow> new_item \<Rightarrow> string \<Rightarrow> item_row" where
  "new_row cid now position item_id item search =
     \<lparr>ci_id = item_id, ci_conversation = cid, ci_response_id = ni_response_id item, ci_created_at = now,
      ci_status = ''completed'', ci_position = position, ci_type = ni_type item, ci_data = ni_data item,
      ci_search_text = strip_nul_bytes search, ci_created_by = ni_created_by item\<rparr>"

fun append_loop ::
    "string \<Rightarrow> int \<Rightarrow> int \<Rightarrow> (string \<times> new_item) list \<Rightarrow> item_row list \<Rightarrow> (item_row list \<times> int \<times> conv_item list) res" where
  "append_loop cid now position [] rows = Inr (rows, position, [])"
| "append_loop cid now position ((item_id, item) # items) rows =
     res_bind (extract_search_text (ni_data item)) (\<lambda>search.
     res_bind (encode_item_type (ni_type item)) (\<lambda>_.
       (let row = new_row cid now position item_id item search in
        if item_key row \<in> set (map item_key rows)
        then Inl (IntegrityError ''UNIQUE constraint failed: conversation_items'')
        else res_bind (append_loop cid now (position + 1) items (rows @ [row])) (\<lambda>(rows', position', persisted).
               Inr (rows', position', to_item row # persisted)))))"

definition append_items :: "string \<Rightarrow> int \<Rightarrow> string list \<Rightarrow> new_item list \<Rightarrow> (conv_store, conv_item list) eff" where
  "append_items cid now ids items = (\<lambda>s.
     (case append_loop cid now (next_position s cid) (zip ids items) (st_items s) of
        Inl err \<Rightarrow> (Inl err, s)
      | Inr (rows, position, persisted) \<Rightarrow>
          (Inr persisted,
           update_conv cid (\<lambda>c. c\<lparr>cv_updated_at := now, cv_next_position := Some position\<rparr>) (s\<lparr>st_items := rows\<rparr>))))"

subsection \<open>Listing\<close>

record item_query =
  iq_limit :: nat
  iq_after :: "string option"
  iq_before :: "string option"
  iq_order :: string
  iq_type :: "string option"

text \<open>The keyword defaults of \<open>list_items\<close>.\<close>

definition item_query_default :: item_query where
  "item_query_default = \<lparr>iq_limit = 100, iq_after = None, iq_before = None, iq_order = ''asc'', iq_type = None\<rparr>"

definition item_position :: "conv_store \<Rightarrow> string \<Rightarrow> int option" where
  "item_position s item_id = map_option ci_position (find (\<lambda>r. ci_id r = item_id) (st_items s))"

text \<open>The comparison with the position of a cursor; with an unknown cursor it is \<open>NULL\<close>.\<close>

definition past_cursor :: "conv_store \<Rightarrow> string option \<Rightarrow> bool \<Rightarrow> item_row \<Rightarrow> bool" where
  "past_cursor s cursor beyond r =
     (if \<not> str_truthy cursor then True
      else (case item_position s (the cursor) of
              None \<Rightarrow> False
            | Some p \<Rightarrow> if beyond then p < ci_position r else ci_position r < p))"

definition list_items :: "conv_store \<Rightarrow> string \<Rightarrow> item_query \<Rightarrow> conv_item page res" where
  "list_items s cid q =
     res_bind (case iq_type q of None \<Rightarrow> Inr None | Some t \<Rightarrow> res_bind (encode_item_type t) (\<lambda>code. Inr (Some code))) (\<lambda>code.
       (let is_asc = (iq_order q = ''asc'');
            stmt = filter (\<lambda>r. ci_conversation r = cid \<and> opt_all (\<lambda>t. ci_type r = t) code) (st_items s);
            stmt = filter (past_cursor s (iq_after q) is_asc) stmt;
            stmt = filter (past_cursor s (iq_before q) (\<not> is_asc)) stmt;
            ordered = (if is_asc then sort_key ci_position stmt else rev (sort_key ci_position stmt));
            found = take (iq_limit q + 1) ordered;
            has_more = length found > iq_limit q;
            rows = (if has_more then take (iq_limit q) found else found);
            items = map to_item rows
        in Inr \<lparr>pg_data = items,
                pg_first_id = (if items = [] then None else Some (it_id (hd items))),
                pg_last_id = (if items = [] then None else Some (it_id (last items))),
                pg_has_more = has_more\<rparr>))"

text \<open>The newest messages per conversation, by the rank of a window function.\<close>

definition list_latest_message_items ::
    "conv_store \<Rightarrow> string list \<Rightarrow> int \<Rightarrow> conv_item list dict" where
  "list_latest_message_items s cids per_conversation_limit =
     map (\<lambda>cid. (cid,
        if per_conversation_limit \<le> 0 then []
        else map to_item (take (nat per_conversation_limit)
               (rev (sort_key ci_position (filter (\<lambda>r. ci_conversation r = cid \<and> ci_type r = ''message'') (st_items s)))))))
       (rev (remdups (rev cids)))"

subsection \<open>Reading a transcript\<close>

text \<open>The loop of \<open>fetch_all_items\<close>; \<open>None\<close> when it does not return.\<close>

partial_function (option) fetch_all_loop ::
    "conv_store \<Rightarrow> string \<Rightarrow> string option \<Rightarrow> conv_item list \<Rightarrow> conv_item list res option" where
  "fetch_all_loop s cid cursor all_items =
     (case list_items s cid (item_query_default\<lparr>iq_after := cursor\<rparr>) of
        Inl err \<Rightarrow> Some (Inl err)
      | Inr page \<Rightarrow>
          (let all_items' = all_items @ pg_data page in
           if \<not> pg_has_more page then Some (Inr all_items')
           else fetch_all_loop s cid (pg_last_id page) all_items'))"

definition fetch_all_items :: "conv_store \<Rightarrow> string \<Rightarrow> string option \<Rightarrow> conv_item list res option" where
  "fetch_all_items s cid after = fetch_all_loop s cid after []"

subsection \<open>Invariant of the items table\<close>

text \<open>
  Item ids are unique and not empty, positions are unique in a conversation and lie below its counter, and the type
  column names the class of the payload.
\<close>

definition items_ok :: "conv_store \<Rightarrow> bool" where
  "items_ok s \<longleftrightarrow>
     distinct (map ci_id (st_items s)) \<and> distinct (map (\<lambda>r. (ci_conversation r, ci_position r)) (st_items s)) \<and>
     (\<forall>r \<in> set (st_items s). ci_id r \<noteq> [] \<and> 0 \<le> ci_position r \<and> ci_type r = item_type_of (ci_data r)) \<and>
     (\<forall>c \<in> set (st_convs s). \<forall>n. cv_next_position c = Some n \<longrightarrow>
        0 \<le> n \<and> (\<forall>r \<in> set (st_items s). ci_conversation r = cv_id c \<longrightarrow> ci_position r < n))"

definition conv_rows :: "conv_store \<Rightarrow> string \<Rightarrow> item_row list" where
  "conv_rows s cid = sort_key ci_position (filter (\<lambda>r. ci_conversation r = cid) (st_items s))"

text \<open>The items of a conversation in order.\<close>

definition transcript :: "conv_store \<Rightarrow> string \<Rightarrow> conv_item list" where
  "transcript s cid = map to_item (conv_rows s cid)"

subsection \<open>Lemmas: order\<close>

lemma set_conv_rows: "set (conv_rows s cid) = {r \<in> set (st_items s). ci_conversation r = cid}"
  by (auto simp: conv_rows_def)

lemma distinct_map_filter_sort: "distinct (map f xs) \<Longrightarrow> distinct (map f (sort_key g (filter P xs)))"
  by (simp add: distinct_map inj_on_def)

lemma conv_rows_strict:
  assumes "items_ok s"
  shows "sorted_wrt (\<lambda>r r'. ci_position r < ci_position r') (conv_rows s cid)"
proof -
  have "distinct (map (\<lambda>r. (ci_conversation r, ci_position r)) (conv_rows s cid))"
    unfolding conv_rows_def by (rule distinct_map_filter_sort) (use assms in \<open>simp add: items_ok_def\<close>)
  then have "distinct (map ci_position (conv_rows s cid))"
    by (auto simp: distinct_map inj_on_def set_conv_rows)
  then have "sorted_wrt (<) (map ci_position (conv_rows s cid))"
    by (simp add: strict_sorted_iff conv_rows_def)
  then show ?thesis by (simp add: sorted_wrt_map)
qed

lemma insort_key_before:
  fixes f :: "'a \<Rightarrow> int"
  shows "\<forall>y \<in> set ys. f x \<le> f y \<Longrightarrow> insort_key f x (zs @ ys) = insort_key f x zs @ ys"
  by (induction zs) (simp_all add: insort_is_Cons)

lemma sort_key_append_after:
  fixes f :: "'a \<Rightarrow> int"
  assumes "sorted (map f ys)" and "\<And>x y. x \<in> set xs \<Longrightarrow> y \<in> set ys \<Longrightarrow> f x < f y"
  shows "sort_key f (xs @ ys) = sort_key f xs @ ys"
  using assms(2)
proof (induction xs)
  case Nil
  show ?case using sort_key_id_if_sorted [OF assms(1)] by simp
next
  case (Cons x xs)
  then show ?case by (simp add: insort_key_before less_imp_le)
qed

subsection \<open>Lemmas: appending\<close>

definition appended_row :: "string \<Rightarrow> int \<Rightarrow> string \<times> new_item \<Rightarrow> item_row \<Rightarrow> bool" where
  "appended_row cid now x r \<longleftrightarrow>
     ci_id r = fst x \<and> ci_conversation r = cid \<and> ci_response_id r = ni_response_id (snd x) \<and> ci_created_at r = now \<and>
     ci_status r = ''completed'' \<and> ci_type r = ni_type (snd x) \<and> ci_data r = ni_data (snd x) \<and>
     ci_created_by r = ni_created_by (snd x)"

lemma append_loop_rows:
  "append_loop cid now position xs rows = Inr (rows', position', persisted) \<Longrightarrow>
     \<exists>new. rows' = rows @ new \<and> position' = position + int (length xs) \<and> persisted = map to_item new \<and>
       list_all2 (appended_row cid now) xs new \<and> map ci_position new = map (\<lambda>i. position + int i) [0..<length xs]"
proof (induction xs arbitrary: position rows rows' position' persisted)
  case (Cons x xs)
  obtain item_id item where x: "x = (item_id, item)" by (cases x)
  obtain search rest where step: "append_loop cid now (position + 1) xs (rows @ [new_row cid now position item_id item search]) =
        Inr (rows', position', rest)" "persisted = to_item (new_row cid now position item_id item search) # rest"
    using Cons.prems by (auto simp: x res_bind_Inr_iff Let_def split: if_splits)
  obtain new where new: "rows' = (rows @ [new_row cid now position item_id item search]) @ new"
      "position' = position + 1 + int (length xs)" "rest = map to_item new" "list_all2 (appended_row cid now) xs new"
      "map ci_position new = map (\<lambda>i. position + 1 + int i) [0..<length xs]"
    using Cons.IH [OF step(1)] by blast
  have "map (\<lambda>i. position + int i) [0..<length (x # xs)] = position # map (\<lambda>i. position + 1 + int i) [0..<length xs]"
    by (simp add: upt_conv_Cons map_Suc_upt [symmetric] comp_def del: upt_Suc)
  moreover have "appended_row cid now x (new_row cid now position item_id item search)"
      "ci_position (new_row cid now position item_id item search) = position"
    by (simp_all add: x appended_row_def new_row_def)
  ultimately show ?case using new step(2)
    by (intro exI [of _ "new_row cid now position item_id item search # new"]) simp
qed simp

text \<open>A successful append puts its rows behind those of the conversation.\<close>

lemma append_items_run:
  assumes "append_items cid now ids items s = (Inr persisted, s')"
  obtains new where "st_items s' = st_items s @ new" "persisted = map to_item new"
    "list_all2 (appended_row cid now) (zip ids items) new"
    "map ci_position new = map (\<lambda>i. next_position s cid + int i) [0..<length (zip ids items)]"
    "s' = update_conv cid (\<lambda>c. c\<lparr>cv_updated_at := now, cv_next_position := Some (next_position s cid + int (length (zip ids items)))\<rparr>)
       (s\<lparr>st_items := st_items s @ new\<rparr>)"
proof -
  obtain rows position where loop: "append_loop cid now (next_position s cid) (zip ids items) (st_items s) = Inr (rows, position, persisted)"
      and s': "s' = update_conv cid (\<lambda>c. c\<lparr>cv_updated_at := now, cv_next_position := Some position\<rparr>) (s\<lparr>st_items := rows\<rparr>)"
    using assms by (auto simp: append_items_def split: sum.splits)
  obtain new where "rows = st_items s @ new" "position = next_position s cid + int (length (zip ids items))"
      "persisted = map to_item new" "list_all2 (appended_row cid now) (zip ids items) new"
      "map ci_position new = map (\<lambda>i. next_position s cid + int i) [0..<length (zip ids items)]"
    using append_loop_rows [OF loop] by blast
  then show thesis using s' by (intro that) (auto simp: update_conv_def)
qed

lemma append_items_fails: "append_items cid now ids items s = (Inl err, s') \<Longrightarrow> s' = s"
  by (auto simp: append_items_def split: sum.splits)

lemma next_position_above:
  assumes "items_ok s" and "r \<in> set (st_items s)" and "ci_conversation r = cid"
  shows "ci_position r < next_position s cid"
proof (cases "Option.bind (get_conversation s cid) cv_next_position")
  case None
  have "ci_position r \<le> Max (set (map ci_position (filter (\<lambda>r. ci_conversation r = cid) (st_items s))))"
    using assms(2,3) by (intro Max_ge) auto
  then show ?thesis using None assms(2,3) by (auto simp: next_position_def max_position_def Let_def filter_empty_conv)
next
  case (Some n)
  then show ?thesis
    using assms get_conversation_Some [of s cid] by (force simp: next_position_def items_ok_def bind_eq_Some_conv)
qed

lemma next_position_nonneg:
  assumes "items_ok s"
  shows "0 \<le> next_position s cid"
proof (cases "Option.bind (get_conversation s cid) cv_next_position")
  case None
  let ?rows = "filter (\<lambda>r. ci_conversation r = cid) (st_items s)"
  have "0 \<le> Max (set (map ci_position ?rows))" if "?rows \<noteq> []"
    using that assms by (subst Max_ge_iff) (auto simp: items_ok_def filter_empty_conv)
  then show ?thesis using None by (auto simp: next_position_def max_position_def Let_def)
next
  case (Some n)
  then show ?thesis
    using assms get_conversation_Some [of s cid] by (force simp: next_position_def items_ok_def bind_eq_Some_conv)
qed

lemma appended_conversation: "list_all2 (appended_row cid now) xs new \<Longrightarrow> \<forall>r \<in> set new. ci_conversation r = cid"
  by (induction rule: list_all2_induct) (simp_all add: appended_row_def)

lemma appended_columns:
  "list_all2 (appended_row cid now) xs new \<Longrightarrow>
     map ci_id new = map fst xs \<and> map ci_data new = map ni_data (map snd xs) \<and>
     map ci_type new = map ni_type (map snd xs) \<and> map ci_response_id new = map ni_response_id (map snd xs)"
  by (induction rule: list_all2_induct) (simp_all add: appended_row_def)

lemma append_items_ok:
  assumes ok: "items_ok s" and fresh: "distinct ids" "set ids \<inter> ci_id ` set (st_items s) = {}" "[] \<notin> set ids"
    and len: "length ids = length items" and typed: "\<forall>i \<in> set items. ni_type i = item_type_of (ni_data i)"
    and run: "append_items cid now ids items s = (Inr persisted, s')"
  shows "items_ok s'"
proof -
  obtain new where new: "st_items s' = st_items s @ new" "list_all2 (appended_row cid now) (zip ids items) new"
      "map ci_position new = map (\<lambda>i. next_position s cid + int i) [0..<length (zip ids items)]"
      "s' = update_conv cid (\<lambda>c. c\<lparr>cv_updated_at := now, cv_next_position := Some (next_position s cid + int (length (zip ids items)))\<rparr>)
       (s\<lparr>st_items := st_items s @ new\<rparr>)"
    using append_items_run [OF run] by metis
  have conv: "\<forall>r \<in> set new. ci_conversation r = cid" by (rule appended_conversation [OF new(2)])
  have cols: "map ci_id new = ids" "map ci_data new = map ni_data items" "map ci_type new = map ni_type items"
    using appended_columns [OF new(2)] len by (simp_all del: map_map)
  have pos: "\<forall>r \<in> set new. next_position s cid \<le> ci_position r \<and> ci_position r < next_position s cid + int (length ids)"
  proof
    fix r
    assume "r \<in> set new"
    then have "ci_position r \<in> set (map ci_position new)" by simp
    then show "next_position s cid \<le> ci_position r \<and> ci_position r < next_position s cid + int (length ids)"
      unfolding new(3) using len by auto
  qed
  have inj: "distinct (map ci_position new)" unfolding new(3) by (simp add: distinct_map inj_on_def)
  have "distinct (map (\<lambda>r. (ci_conversation r, ci_position r)) new)"
    using inj by (auto simp: distinct_map inj_on_def)
  moreover have "(ci_conversation r, ci_position r) \<noteq> (ci_conversation r', ci_position r')"
    if "r \<in> set (st_items s)" "r' \<in> set new" for r r'
    using next_position_above [OF ok that(1), of cid] bspec [OF conv that(2)] bspec [OF pos that(2)] by auto
  ultimately have d: "distinct (map (\<lambda>r. (ci_conversation r, ci_position r)) (st_items s @ new))"
    using ok by (fastforce simp: items_ok_def)
  have types: "\<forall>r \<in> set new. ci_type r = item_type_of (ci_data r)"
    using new(2) typed len by (auto simp: list_all2_conv_all_nth all_set_conv_all_nth appended_row_def)
  have new_ids: "ci_id ` set new = set ids" using arg_cong [OF cols(1), of set] by simp
  have "distinct (map ci_id (st_items s) @ ids)"
    using ok fresh by (simp add: items_ok_def Int_commute)
  then have ids: "distinct (map ci_id (st_items s @ new))" "\<forall>r \<in> set new. ci_id r \<noteq> []"
    using fresh(3) new_ids by (simp_all add: cols(1)) (metis imageI)
  have nonneg: "\<forall>r \<in> set new. 0 \<le> ci_position r" using pos next_position_nonneg [OF ok, of cid] by fastforce
  have counters: "0 \<le> n \<and> (\<forall>r \<in> set (st_items s @ new). ci_conversation r = cv_id c \<longrightarrow> ci_position r < n)"
    if c: "c \<in> set (st_convs s')" "cv_next_position c = Some n" for c n
  proof -
    obtain b where b: "b \<in> set (st_convs s)" "c = (if cv_id b = cid then
        b\<lparr>cv_updated_at := now, cv_next_position := Some (next_position s cid + int (length (zip ids items)))\<rparr> else b)"
      using c(1) unfolding new(4) by (auto simp: update_conv_def)
    show ?thesis
    proof (cases "cv_id b = cid")
      case True
      then show ?thesis using b(2) c(2) len pos next_position_above [OF ok] next_position_nonneg [OF ok] by force
    next
      case False
      then show ?thesis using b c(2) conv ok by (auto simp: items_ok_def)
    qed
  qed
  show ?thesis
    unfolding items_ok_def new(1) using d ids types nonneg counters ok by (auto simp: items_ok_def)
qed

lemma transcript_append:
  assumes ok: "items_ok s" and run: "append_items cid now ids items s = (Inr persisted, s')"
  shows "transcript s' cid' = transcript s cid' @ (if cid' = cid then persisted else [])"
proof -
  obtain new where new: "st_items s' = st_items s @ new" "persisted = map to_item new"
      "list_all2 (appended_row cid now) (zip ids items) new"
      "map ci_position new = map (\<lambda>i. next_position s cid + int i) [0..<length (zip ids items)]"
    using append_items_run [OF run] by metis
  have conv: "\<forall>r \<in> set new. ci_conversation r = cid" by (rule appended_conversation [OF new(3)])
  have "sorted (map ci_position new)" unfolding new(4) by (auto simp: sorted_iff_nth_mono)
  moreover have "ci_position x < ci_position y" if "x \<in> set (filter (\<lambda>r. ci_conversation r = cid) (st_items s))" "y \<in> set new" for x y
  proof -
    have "ci_position y \<in> set (map ci_position new)" using that(2) by simp
    then have "next_position s cid \<le> ci_position y" unfolding new(4) by auto
    then show ?thesis using next_position_above [OF ok, of x cid] that(1) by simp
  qed
  ultimately have "sort_key ci_position (filter (\<lambda>r. ci_conversation r = cid) (st_items s) @ new) =
      sort_key ci_position (filter (\<lambda>r. ci_conversation r = cid) (st_items s)) @ new"
    by (rule sort_key_append_after)
  then show ?thesis
    using conv by (auto simp: transcript_def conv_rows_def new(1,2) filter_True filter_False)
qed

subsection \<open>Lemmas: reading in pages\<close>

text \<open>The rows behind a cursor, in order; nothing is behind an unknown one.\<close>

definition rows_after :: "conv_store \<Rightarrow> string \<Rightarrow> string option \<Rightarrow> item_row list" where
  "rows_after s cid after = filter (past_cursor s after True) (conv_rows s cid)"

definition items_after :: "string \<Rightarrow> string option \<Rightarrow> conv_store \<Rightarrow> conv_item list" where
  "items_after cid after s = map to_item (rows_after s cid after)"

lemma past_cursor_None [simp]: "past_cursor s None beyond r"
  by (simp add: past_cursor_def)

lemma items_after_None [simp]: "items_after cid None s = transcript s cid"
  by (simp add: items_after_def rows_after_def transcript_def)

lemma it_id_to_item [simp]: "it_id (to_item r) = ci_id r"
  by (simp add: to_item_def)

lemma list_items_default:
  "list_items s cid (item_query_default\<lparr>iq_after := cursor\<rparr>) = Inr (page_of it_id 100 (items_after cid cursor s))"
proof -
  have rows: "sort_key ci_position (filter (past_cursor s None False) (filter (past_cursor s cursor True)
      (filter (\<lambda>r. ci_conversation r = cid \<and> opt_all (\<lambda>t. ci_type r = t) None) (st_items s)))) = rows_after s cid cursor"
    by (simp add: rows_after_def conv_rows_def filter_sort opt_all_def conj_commute)
  have page: "(let found = take (100 + 1) rs; has_more = length found > 100; rs' = (if has_more then take 100 found else found);
        items = map to_item rs'
      in \<lparr>pg_data = items, pg_first_id = (if items = [] then None else Some (it_id (hd items))),
          pg_last_id = (if items = [] then None else Some (it_id (last items))), pg_has_more = has_more\<rparr>) =
      page_of it_id 100 (map to_item rs)" for rs
    unfolding page_of_lookahead [symmetric] by (simp add: Let_def take_map [symmetric])
  show ?thesis
    unfolding list_items_def items_after_def page [symmetric] rows [symmetric]
    by (simp add: item_query_default_def Let_def)
qed

lemma item_position_row:
  "items_ok s \<Longrightarrow> r \<in> set (st_items s) \<Longrightarrow> item_position s (ci_id r) = Some (ci_position r)"
  unfolding item_position_def items_ok_def by (simp add: find_distinct_key)

lemma rows_after_page:
  assumes ok: "items_ok s" and n: "n \<le> length (rows_after s cid after)"
  shows "rows_after s cid (page_cursor ci_id after (rows_after s cid after) n) = drop n (rows_after s cid after)"
proof (cases n)
  case 0
  then show ?thesis by (simp add: page_cursor_def)
next
  case (Suc i)
  let ?F = "rows_after s cid after"
  let ?R = "\<lambda>r r'. ci_position r < ci_position r'"
  have i: "i < length ?F" using n Suc by simp
  then have mem: "?F ! i \<in> set ?F" by (rule nth_mem)
  then have row: "?F ! i \<in> set (st_items s)" and past: "past_cursor s after True (?F ! i)"
    by (auto simp: rows_after_def set_conv_rows)
  have "ci_id (?F ! i) \<noteq> []" using ok row by (simp add: items_ok_def)
  then have cursor: "past_cursor s (Some (ci_id (?F ! i))) True = ?R (?F ! i)"
    by (auto simp: fun_eq_iff past_cursor_def item_position_row [OF ok row])
  have up: "past_cursor s after True r" if "?R (?F ! i) r" for r
    using past that by (auto simp: past_cursor_def split: option.splits if_splits)
  have "filter (?R (?F ! i)) (conv_rows s cid) = filter (?R (?F ! i)) ?F"
    unfolding rows_after_def filter_filter by (rule filter_cong) (auto simp: up [unfolded rows_after_def])
  also have "\<dots> = drop (Suc i) ?F"
  proof (rule filter_after_sorted)
    show "sorted_wrt ?R ?F" unfolding rows_after_def by (rule sorted_wrt_filter) (rule conv_rows_strict [OF ok])
  qed (use i in auto)
  finally show ?thesis
    using Suc by (simp add: page_cursor_def rows_after_def [of s cid "Some x" for x] cursor)
qed

interpretation item_pages: paged_loop items_ok "\<lambda>s cursor. list_items s cid (item_query_default\<lparr>iq_after := cursor\<rparr>)"
    "\<lambda>s. fetch_all_loop s cid" "items_after cid after" it_id after 100 for cid after
proof
  show "(0::nat) < 100" by simp
  show "list_items s cid (item_query_default\<lparr>iq_after := page_cursor it_id after (items_after cid after s) n\<rparr>) =
      Inr (page_of it_id 100 (drop n (items_after cid after s)))"
    if "items_ok s" and "n \<le> length (items_after cid after s)" for s n
  proof -
    have n: "n \<le> length (rows_after s cid after)" using that(2) by (simp add: items_after_def)
    have "page_cursor it_id after (items_after cid after s) n = page_cursor ci_id after (rows_after s cid after) n"
      using n by (simp add: page_cursor_def items_after_def)
    then show ?thesis
      by (simp add: list_items_default items_after_def rows_after_page [OF that(1) n] drop_map)
  qed
qed (simp_all add: fetch_all_loop.simps Let_def)

lemma fetch_all_items_after:
  "items_ok s \<Longrightarrow> fetch_all_items s cid after = Some (Inr (items_after cid after s))"
  unfolding fetch_all_items_def by (rule item_pages.loop_complete)

lemma filter_upward_sorted:
  assumes "sorted_wrt R xs" and "\<And>x y. P x \<Longrightarrow> R x y \<Longrightarrow> P y"
  shows "\<exists>k. filter P xs = drop k xs"
  using assms(1)
proof (induction xs)
  case (Cons x xs)
  show ?case
  proof (cases "P x")
    case True
    then have "filter P (x # xs) = x # xs" using Cons.prems assms(2) by (auto simp: filter_id_conv)
    then show ?thesis by (metis drop0)
  next
    case False
    then show ?thesis using Cons by (metis drop_Suc_Cons filter.simps(2) sorted_wrt.simps(2))
  qed
qed simp

lemma items_after_drop:
  assumes "items_ok s"
  shows "\<exists>k. items_after cid after s = drop k (transcript s cid)"
proof -
  have "\<exists>k. rows_after s cid after = drop k (conv_rows s cid)"
    unfolding rows_after_def
    by (rule filter_upward_sorted [OF conv_rows_strict [OF assms]])
      (auto simp: past_cursor_def split: option.splits if_splits)
  then show ?thesis by (auto simp: items_after_def transcript_def drop_map)
qed

lemma items_after_id:
  assumes "items_ok s" and "i < length (transcript s cid)"
  shows "items_after cid (Some (it_id (transcript s cid ! i))) s = drop (Suc i) (transcript s cid)"
proof -
  have rows: "rows_after s cid None = conv_rows s cid" by (simp add: rows_after_def)
  have i: "i < length (conv_rows s cid)" using assms(2) by (simp add: transcript_def)
  then have "rows_after s cid (Some (ci_id (conv_rows s cid ! i))) = drop (Suc i) (conv_rows s cid)"
    using rows_after_page [OF assms(1), of "Suc i" cid None] by (simp add: rows page_cursor_def)
  then show ?thesis using i by (simp add: items_after_def transcript_def drop_map)
qed

subsection \<open>Properties\<close>

text \<open>
  C18. Appending extends the transcript of its conversation by the persisted items, in order and with their payloads, leaves
  every other transcript alone and keeps ids and positions unique below the counters.
\<close>

theorem append_extends_transcript:
  assumes "items_ok s" and "distinct ids" and "set ids \<inter> ci_id ` set (st_items s) = {}" and "[] \<notin> set ids"
    and "length ids = length items" and "\<forall>i \<in> set items. ni_type i = item_type_of (ni_data i)"
    and "append_items cid now ids items s = (Inr persisted, s')"
  shows "items_ok s' \<and> transcript s' cid' = transcript s cid' @ (if cid' = cid then persisted else []) \<and>
    map it_id persisted = ids \<and> map it_data persisted = map ni_data items"
proof -
  obtain new where new: "persisted = map to_item new" "list_all2 (appended_row cid now) (zip ids items) new"
    using append_items_run [OF assms(7)] by metis
  have "map it_id persisted = map ci_id new" "map it_data persisted = map ci_data new"
    by (simp_all add: new(1) to_item_def)
  then have "map it_id persisted = ids \<and> map it_data persisted = map ni_data items"
    using appended_columns [OF new(2)] assms(5) by (simp del: map_map)
  then show ?thesis using append_items_ok [OF assms] transcript_append [OF assms(1,7)] by simp
qed

definition demo_message :: new_item where
  "demo_message = \<lparr>ni_type = ''message'', ni_response_id = ''r'', ni_data = MessageData ''user'' [] None False False,
     ni_created_by = None\<rparr>"

lemma demo_append_run:
  "\<exists>persisted s'. append_items ''conv_1'' 9 [''m1'', ''m2''] [demo_message, demo_message] empty_store = (Inr persisted, s') \<and>
     items_ok empty_store \<and> transcript empty_store ''conv_1'' = []"
  by (simp add: append_items_def demo_message_def res_bind_def encode_item_type_def ITEM_TYPES_def Let_def item_key_def
      new_row_def empty_store_def items_ok_def transcript_def conv_rows_def)

lemma append_extends_transcript_witness:
  "\<exists>persisted s'. append_items ''conv_1'' 9 [''m1'', ''m2''] [demo_message, demo_message] empty_store = (Inr persisted, s') \<and>
     transcript s' ''conv_1'' = persisted \<and> map it_id persisted = [''m1'', ''m2'']"
proof -
  obtain persisted s' where run:
      "append_items ''conv_1'' 9 [''m1'', ''m2''] [demo_message, demo_message] empty_store = (Inr persisted, s')"
      and start: "items_ok empty_store" "transcript empty_store ''conv_1'' = []"
    using demo_append_run by blast
  show ?thesis
    using append_extends_transcript [OF start(1) _ _ _ _ _ run, of "''conv_1''"] run start(2)
    by (simp add: empty_store_def [THEN arg_cong, of st_items] demo_message_def)
qed

text \<open>
  C19. Reading a transcript page by page ends, without an error, with every item of the conversation once and in order; from
  the id of an item on it gives exactly the items behind it.
\<close>

theorem fetch_all_items_complete:
  assumes "items_ok s"
  shows "fetch_all_items s cid None = Some (Inr (transcript s cid)) \<and>
    (\<forall>i < length (transcript s cid).
       fetch_all_items s cid (Some (it_id (transcript s cid ! i))) = Some (Inr (drop (Suc i) (transcript s cid))))"
  using fetch_all_items_after [OF assms] items_after_id [OF assms] by simp

lemma fetch_all_items_complete_witness:
  "\<exists>persisted s'. append_items ''conv_1'' 9 [''m1'', ''m2''] [demo_message, demo_message] empty_store = (Inr persisted, s') \<and>
     fetch_all_items s' ''conv_1'' None = Some (Inr persisted) \<and>
     fetch_all_items s' ''conv_1'' (Some (it_id (persisted ! 0))) = Some (Inr (drop 1 persisted))"
proof -
  obtain persisted s' where run:
      "append_items ''conv_1'' 9 [''m1'', ''m2''] [demo_message, demo_message] empty_store = (Inr persisted, s')"
      and start: "items_ok empty_store" "transcript empty_store ''conv_1'' = []"
    using demo_append_run by blast
  have ok: "items_ok s'"
    using append_items_ok [OF start(1) _ _ _ _ _ run] by (simp add: empty_store_def [THEN arg_cong, of st_items] demo_message_def)
  have persisted: "transcript s' ''conv_1'' = persisted" using transcript_append [OF start(1) run] start(2) by simp
  obtain new where "persisted = map to_item new" "list_all2 (appended_row ''conv_1'' 9) (zip [''m1'', ''m2''] [demo_message, demo_message]) new"
    using append_items_run [OF run] by metis
  then have "0 < length persisted" by (auto dest: list_all2_lengthD)
  then show ?thesis using fetch_all_items_complete [OF ok, of "''conv_1''"] run persisted by auto
qed

text \<open>
  The one query for the newest messages of many conversations gives for each of them the page that a listing of its
  messages in descending order gives.
\<close>

theorem latest_messages_agree:
  assumes "cid \<in> set cids" and "0 < n"
  shows "\<exists>page. list_items s cid (item_query_default\<lparr>iq_type := Some ''message'', iq_order := ''desc'', iq_limit := n\<rparr>) = Inr page \<and>
    dict_get (list_latest_message_items s cids (int n)) cid = Some (pg_data page)"
proof -
  have "dict_get (list_latest_message_items s cids (int n)) cid =
      Some (map to_item (take n (rev (sort_key ci_position
        (filter (\<lambda>r. ci_conversation r = cid \<and> ci_type r = ''message'') (st_items s))))))"
    using assms by (simp add: list_latest_message_items_def dict_get_def map_of_map_restrict)
  then show ?thesis
    by (simp add: list_items_def item_query_default_def encode_item_type_def ITEM_TYPES_def opt_all_def res_bind_def Let_def
        min_def)
qed

lemma latest_messages_agree_witness:
  "dict_get (list_latest_message_items (empty_store\<lparr>st_items := [new_row ''conv_1'' 1 0 ''m1'' demo_message []]\<rparr>)
     [''conv_1''] (int 10)) ''conv_1'' \<noteq> None"
proof -
  have mem: "''conv_1'' \<in> set [''conv_1'']" and n: "0 < (10::nat)" by simp_all
  show ?thesis
    using latest_messages_agree [OF mem n, of "empty_store\<lparr>st_items := [new_row ''conv_1'' 1 0 ''m1'' demo_message []]\<rparr>"]
    by (metis option.distinct(1))
qed

end
