(* ===== verification/Compaction.thy ===== *)
theory Compaction
  imports Transcript
begin

text \<open>
  Compaction of the messages for the model (\<open>src/omnigent/runtime/compaction.py\<close>), with the construction of the prompt
  from the history (\<open>src/omnigent/runtime/prompt.py\<close>) and of the request for a summary
  (\<open>src/omnigent/llms/summarize.py\<close>).

  The token count, the model that writes the summary and the runner that may be asked instead are the fields of
  \<open>llm_env\<close>. Values are immutable here, so the deep copy of the messages is the identity. Events published on the
  session stream are collected in a list.
\<close>

subsection \<open>Prompt construction\<close>

definition append_framework_instructions :: "string option \<Rightarrow> string list \<Rightarrow> string option" where
  "append_framework_instructions instructions framework_instructions =
     (let parts = (if str_truthy instructions then [the instructions] else []) @
                  map strip (filter (\<lambda>i. strip i \<noteq> []) framework_instructions)
      in if parts = [] then None else Some (join ([CHR 0x0A, CHR 0x0A]) parts))"

record prompt_spec =
  sp_instructions :: "string option"
  sp_skills :: "(string \<times> string) list"

text \<open>\<open>any(schema.get("function", {}).get("name") == "load_skill")\<close>\<close>

fun has_load_skill :: "json dict list \<Rightarrow> bool res" where
  "has_load_skill [] = Inr False"
| "has_load_skill (schema # schemas) =
     (case dict_get_or schema ''function'' (JDict []) of
        JDict d \<Rightarrow> if dict_get d ''name'' = Some (JStr ''load_skill'') then Inr True else has_load_skill schemas
      | v \<Rightarrow> Inl (no_attribute v ''get''))"

definition build_instructions ::
    "prompt_spec \<Rightarrow> string option \<Rightarrow> json dict list \<Rightarrow> string list \<Rightarrow> string res" where
  "build_instructions spec per_request tool_schemas framework_instructions =
     res_bind (has_load_skill tool_schemas) (\<lambda>has.
       (let parts = (if str_truthy (sp_instructions spec) then [the (sp_instructions spec)] else []) @
              (if str_truthy per_request then [the per_request] else []) @
              (if sp_skills spec \<noteq> [] \<and> has
               then [join ([CHR 0x0A]) (''Available skills (use the load_skill tool to load one):'' #
                       map (\<lambda>(n, d). ''- '' @ n @ '': '' @ d) (sp_skills spec))]
               else []);
            base = (if parts = [] then ''You are a helpful assistant.'' else join ([CHR 0x0A, CHR 0x0A]) parts)
        in Inr (str_or (append_framework_instructions (Some base) framework_instructions) base)))"

definition strip_output_block :: "json dict \<Rightarrow> json dict" where
  "strip_output_block block =
     (if dict_get block ''type'' = Some (JStr ''output_text'') \<and> dict_has block ''annotations''
      then dict_pop ''annotations'' block else block)"

definition assertion_error :: py_error where
  "assertion_error = OtherError ''AssertionError''"

text \<open>The body of the loop of \<open>history_to_input_items\<close>: the message of an item, if it has one.\<close>

definition input_item :: "conv_item \<Rightarrow> json dict list res" where
  "input_item item =
     (if it_type item = ''message'' then
        (case it_data item of
           MessageData role content _ _ _ \<Rightarrow>
             Inr [[(''role'', JStr role), (''content'', JList (map (JDict \<circ> strip_output_block) content))]]
         | _ \<Rightarrow> Inl assertion_error)
      else if it_type item = ''function_call'' then
        (case it_data item of
           FunctionCallData _ name arguments call_id \<Rightarrow>
             Inr [[(''type'', JStr ''function_call''), (''call_id'', JStr call_id), (''name'', JStr name),
                   (''arguments'', JStr arguments)]]
         | _ \<Rightarrow> Inl assertion_error)
      else if it_type item = ''function_call_output'' then
        (case it_data item of
           FunctionCallOutputData call_id out \<Rightarrow>
             Inr [[(''type'', JStr ''function_call_output''), (''call_id'', JStr call_id), (''output'', JStr out)]]
         | _ \<Rightarrow> Inl assertion_error)
      else if it_type item = ''native_tool'' then
        (case it_data item of NativeToolData raw \<Rightarrow> Inr [raw] | _ \<Rightarrow> Inl assertion_error)
      else Inr [])"

fun history_to_input_items :: "conv_item list \<Rightarrow> json dict list res" where
  "history_to_input_items [] = Inr []"
| "history_to_input_items (item # items) =
     res_bind (input_item item) (\<lambda>ms. res_bind (history_to_input_items items) (\<lambda>rest. Inr (ms @ rest)))"

subsection \<open>The recent window\<close>

definition is_response_start :: "conv_item \<Rightarrow> bool" where
  "is_response_start item \<longleftrightarrow>
     (it_type item = ''message'' \<and> is_MessageData (it_data item) \<and> md_role (it_data item) = ''assistant'') \<or>
     it_type item = ''function_call''"

text \<open>The loop over the indices below \<open>i\<close>, from the last.\<close>

fun boundary_loop :: "conv_item list \<Rightarrow> int \<Rightarrow> int \<Rightarrow> nat \<Rightarrow> nat" where
  "boundary_loop history recent_window groups_seen 0 = 0"
| "boundary_loop history recent_window groups_seen (Suc i) =
     (if is_response_start (history ! i)
      then (if groups_seen + 1 \<ge> recent_window then i else boundary_loop history recent_window (groups_seen + 1) i)
      else boundary_loop history recent_window groups_seen i)"

definition find_recent_boundary :: "conv_item list \<Rightarrow> int \<Rightarrow> nat" where
  "find_recent_boundary history recent_window =
     (if recent_window \<le> 0 then length history else boundary_loop history recent_window 0 (length history))"

definition history_idx_to_msg_idx :: "conv_item list \<Rightarrow> nat \<Rightarrow> nat" where
  "history_idx_to_msg_idx history history_idx =
     length (filter (\<lambda>item. it_type item \<noteq> ''reasoning'') (take history_idx history))"

definition is_synthetic_id :: "string \<Rightarrow> bool" where
  "is_synthetic_id i \<longleftrightarrow> endswith i ''_user'' \<or> endswith i ''_assistant'' \<or> startswith i ''synthetic_''"

fun find_last_summarized_item_id :: "conv_item list \<Rightarrow> nat \<Rightarrow> string option" where
  "find_last_summarized_item_id history 0 = None"
| "find_last_summarized_item_id history (Suc i) =
     (if \<not> is_synthetic_id (it_id (history ! i)) then Some (it_id (history ! i))
      else find_last_summarized_item_id history i)"

subsection \<open>Layer 1: clearing\<close>

definition TOOL_RESULT_CLEARED :: string where
  "TOOL_RESULT_CLEARED = ''[Previous tool result cleared '' @ [CHR 0xE2, CHR 0x80, CHR 0x94] @ '' re-call tool if needed]''"

definition BINARY_CONTENT_CLEARED :: string where
  "BINARY_CONTENT_CLEARED =
     ''[binary content removed for context management '' @ [CHR 0xE2, CHR 0x80, CHR 0x94] @ '' use file_id to retrieve]''"

text \<open>The loops that change the messages before an index.\<close>

definition before_index :: "('a \<Rightarrow> 'a) \<Rightarrow> nat \<Rightarrow> 'a list \<Rightarrow> 'a list" where
  "before_index f protect_from messages = map f (take protect_from messages) @ drop protect_from messages"

definition clear_tool_result :: "json dict \<Rightarrow> json dict" where
  "clear_tool_result msg =
     (if dict_get msg ''type'' = Some (JStr ''function_call_output'')
      then dict_set ''output'' (JStr TOOL_RESULT_CLEARED) msg else msg)"

definition clear_tool_results :: "json dict list \<Rightarrow> nat \<Rightarrow> json dict list" where
  "clear_tool_results messages protect_from = before_index clear_tool_result protect_from messages"

text \<open>A change to every block of a content list that is a dictionary.\<close>

fun on_dict :: "(json dict \<Rightarrow> json dict) \<Rightarrow> json \<Rightarrow> json" where
  "on_dict f (JDict d) = JDict (f d)"
| "on_dict f v = v"

definition edit_content :: "(json dict \<Rightarrow> json dict) \<Rightarrow> json dict \<Rightarrow> json dict" where
  "edit_content f msg =
     (case dict_get msg ''content'' of
        Some (JList blocks) \<Rightarrow> dict_set ''content'' (JList (map (on_dict f) blocks)) msg
      | _ \<Rightarrow> msg)"

definition clear_binary_block :: "json dict \<Rightarrow> json dict" where
  "clear_binary_block block =
     (if dict_get block ''type'' \<in> {Some (JStr ''image''), Some (JStr ''file'')} \<and> dict_has block ''data''
      then dict_set ''data'' (JStr BINARY_CONTENT_CLEARED) block else block)"

definition clear_binary_content :: "json dict list \<Rightarrow> nat \<Rightarrow> json dict list" where
  "clear_binary_content messages protect_from = before_index (edit_content clear_binary_block) protect_from messages"

definition strip_output_annotations :: "json dict list \<Rightarrow> nat \<Rightarrow> json dict list" where
  "strip_output_annotations messages protect_from = before_index (edit_content strip_output_block) protect_from messages"

subsection \<open>Layer 2: summary\<close>

text \<open>
  A response of the model is the list of its output items: the \<open>content\<close> of each, if it has one, with the \<open>text\<close> of
  each block, if it has one.
\<close>

record llm_env =
  le_count :: "string \<Rightarrow> json dict list \<Rightarrow> int"
  le_create :: "string \<Rightarrow> json dict list \<Rightarrow> string \<Rightarrow> string option list option list res"
  le_runner :: "(json dict list \<Rightarrow> string \<Rightarrow> (string \<times> int) res) option"

definition bare_model :: "string \<Rightarrow> string" where
  "bare_model model = (if CHR ''/'' \<in> set model then tl (dropWhile (\<lambda>c. c \<noteq> CHR ''/'') model) else model)"

definition count_tokens :: "llm_env \<Rightarrow> json dict list \<Rightarrow> string \<Rightarrow> int" where
  "count_tokens env messages model = le_count env (bare_model model) messages"

definition SUMMARIZATION_BASE_PROMPT :: string where
  "SUMMARIZATION_BASE_PROMPT =
     ''Summarize the conversation above so that a future assistant can continue'' @ [CHR 0x0A] @
     ''the work without access to the original messages.'' @ [CHR 0x0A, CHR 0x0A] @
     ''Include: the user'' @ [CHR 0x27] @ ''s goals, key decisions and why they were made, tool'' @ [CHR 0x0A] @
     ''results that matter going forward (paths, values, errors), and any'' @ [CHR 0x0A] @
     ''outstanding commitments or next steps.'' @ [CHR 0x0A, CHR 0x0A] @
     ''Exclude: verbose tool output, redundant exchanges, and intermediate'' @ [CHR 0x0A] @
     ''reasoning that led to a final decision '' @ [CHR 0xE2, CHR 0x80, CHR 0x94] @ '' keep the decision, not the path.'' @
     [CHR 0x0A, CHR 0x0A] @
     ''Do not incorporate knowledge from outside this conversation. Do not'' @ [CHR 0x0A] @
     ''invent facts. Write in plain text with no markup.''"

definition SUMMARIZATION_TRIGGER_MESSAGE :: string where
  "SUMMARIZATION_TRIGGER_MESSAGE = ''Produce the summary now, following the instructions in the system message.''"

text \<open>The text of the first block of a text type, or what the fallback gives.\<close>

fun first_text_block :: "json list \<Rightarrow> string option" where
  "first_text_block [] = None"
| "first_text_block (block # blocks) =
     (case block of
        JDict d \<Rightarrow> if dict_get d ''type'' \<in> {Some (JStr ''input_text''), Some (JStr ''text'')}
                    then (case dict_get_or d ''text'' (JStr []) of JStr t \<Rightarrow> Some t | _ \<Rightarrow> Some [])
                    else first_text_block blocks
      | _ \<Rightarrow> first_text_block blocks)"

definition extract_first_text :: "json dict list \<Rightarrow> string" where
  "extract_first_text messages =
     (if messages = [] then []
      else (case dict_get (hd messages) ''content'' of
              Some (JList blocks) \<Rightarrow> (case first_text_block blocks of Some t \<Rightarrow> t | None \<Rightarrow> [])
            | Some (JStr s) \<Rightarrow> s
            | _ \<Rightarrow> []))"

definition SUMMARY_MARK :: string where
  "SUMMARY_MARK = ''[This is an automatically generated summary''"

definition build_summarization_prompt :: "json dict list \<Rightarrow> string" where
  "build_summarization_prompt messages =
     (if str_in SUMMARY_MARK (extract_first_text messages)
      then ''The conversation starts with a summary of earlier context. Incorporate it into your new summary '' @
           [CHR 0xE2, CHR 0x80, CHR 0x94] @ '' do not discard it.'' @ [CHR 0x0A, CHR 0x0A] @ SUMMARIZATION_BASE_PROMPT
      else SUMMARIZATION_BASE_PROMPT)"

definition build_summarization_input :: "json dict list \<Rightarrow> json dict list" where
  "build_summarization_input messages =
     (if messages \<noteq> [] \<and> dict_get (last messages) ''role'' = Some (JStr ''user'') then messages
      else messages @ [[(''role'', JStr ''user''), (''content'', JStr SUMMARIZATION_TRIGGER_MESSAGE)]])"

definition extract_summary_text :: "string option list option list \<Rightarrow> string" where
  "extract_summary_text resp = concat (map (\<lambda>txt. str_or txt []) (concat (map list_or resp)))"

definition summarize_history_uncached ::
    "llm_env \<Rightarrow> json dict list \<Rightarrow> string \<Rightarrow> (string \<times> int) res" where
  "summarize_history_uncached env messages model =
     res_bind (le_create env model (build_summarization_input messages) (build_summarization_prompt messages)) (\<lambda>resp.
       (let summary_text = extract_summary_text resp in
        Inr (summary_text,
             count_tokens env [[(''role'', JStr ''assistant''), (''content'', JStr summary_text)]] model)))"

definition summarize_history :: "llm_env \<Rightarrow> json dict list \<Rightarrow> string \<Rightarrow> (string \<times> int) res" where
  "summarize_history env messages model =
     (case le_runner env of
        Some post \<Rightarrow> post messages model
      | None \<Rightarrow> summarize_history_uncached env messages model)"

record summary_metadata =
  sm_text :: string
  sm_last_item_id :: string
  sm_model :: string
  sm_token_count :: int

definition run_layer2 ::
    "llm_env \<Rightarrow> json dict list \<Rightarrow> conv_item list \<Rightarrow> nat \<Rightarrow> nat \<Rightarrow> int \<Rightarrow> string \<Rightarrow> bool \<Rightarrow> summary_metadata option res" where
  "run_layer2 env messages history history_boundary msg_boundary budget model fail_on_error =
     (let to_summarize = take msg_boundary messages;
          to_summarize =
            (if count_tokens env to_summarize model > budget
             then clear_binary_content (clear_tool_results to_summarize (length to_summarize)) (length to_summarize)
             else to_summarize)
      in (case summarize_history env to_summarize model of
            Inl err \<Rightarrow> if fail_on_error then Inl err else Inr None
          | Inr (summary_text, token_count) \<Rightarrow>
              (case find_last_summarized_item_id history history_boundary of
                 None \<Rightarrow> Inr None
               | Some last_item_id \<Rightarrow>
                   Inr (Some \<lparr>sm_text = summary_text, sm_last_item_id = last_item_id, sm_model = model,
                              sm_token_count = token_count\<rparr>))))"

definition summary_request :: string where
  "summary_request =
     SUMMARY_MARK @ '' of the prior conversation context. The original messages are available but not included in this '' @
     ''prompt for brevity.]'' @ [CHR 0x0A, CHR 0x0A] @ ''Please provide a summary of our conversation so far.''"

definition summary_to_messages :: "summary_metadata \<Rightarrow> json dict list" where
  "summary_to_messages summary =
     [[(''role'', JStr ''user''), (''content'', JStr summary_request)],
      [(''role'', JStr ''assistant''), (''content'', JStr (sm_text summary))]]"

subsection \<open>Layer 3: truncation\<close>

text \<open>A value as an element of a Python set: numbers that are equal are one element, containers have no hash.\<close>

fun hash_key :: "json option \<Rightarrow> json option res" where
  "hash_key (Some (JBool b)) = Inr (Some (JFloat (if b then 1 else 0)))"
| "hash_key (Some (JInt i)) = Inr (Some (JFloat (of_int i)))"
| "hash_key (Some (JList xs)) = Inl (TypeError ''unhashable type: list'')"
| "hash_key (Some (JDict d)) = Inl (TypeError ''unhashable type: dict'')"
| "hash_key (Some JNull) = Inr None"
| "hash_key v = Inr v"

fun call_ids :: "json dict list \<Rightarrow> json option list res" where
  "call_ids [] = Inr []"
| "call_ids (m # ms) = res_bind (hash_key (dict_get m ''call_id'')) (\<lambda>k. res_bind (call_ids ms) (\<lambda>ks. Inr (k # ks)))"

definition is_call :: "json dict \<Rightarrow> bool" where
  "is_call m \<longleftrightarrow> dict_get m ''type'' = Some (JStr ''function_call'')"

definition is_call_output :: "json dict \<Rightarrow> bool" where
  "is_call_output m \<longleftrightarrow> dict_get m ''type'' = Some (JStr ''function_call_output'')"

definition pair_aware_drop_count :: "json dict list \<Rightarrow> nat res" where
  "pair_aware_drop_count messages =
     (if messages = [] then Inr 0
      else let call_count = length (takeWhile is_call messages) in
        if call_count = 0 then Inr 1
        else res_bind (call_ids (take call_count messages)) (\<lambda>calls.
          (let outputs = take call_count (drop call_count messages) in
           res_bind (call_ids (filter is_call_output outputs)) (\<lambda>output_ids.
             Inr (if length outputs = call_count \<and> set output_ids = set calls then call_count * 2 else 1)))))"

function truncate_oldest :: "llm_env \<Rightarrow> json dict list \<Rightarrow> int \<Rightarrow> string \<Rightarrow> json dict list res" where
  "truncate_oldest env messages budget model =
     (if messages \<noteq> [] \<and> count_tokens env messages model > budget
      then (case pair_aware_drop_count messages of
              Inl err \<Rightarrow> Inl err
            | Inr drop_count \<Rightarrow>
                if drop_count = 0 then Inr messages
                else truncate_oldest env (drop drop_count messages) budget model)
      else Inr messages)"
  by pat_completeness auto

termination
  by (relation "measure (\<lambda>(env, messages, budget, model). length messages)") auto

declare truncate_oldest.simps [simp del]

subsection \<open>The layers together\<close>

record compaction_config =
  cp_trigger_threshold :: rat
  cp_recent_window :: int

record compaction_result =
  cr_messages :: "json dict list"
  cr_summary_metadata :: "summary_metadata option"
  cr_total_tokens :: "int option"

datatype compaction_event =
    Compaction_In_Progress string string
  | Compaction_Completed string string int

text \<open>\<open>int(x)\<close> of a float\<close>

definition int_of_float :: "rat \<Rightarrow> int" where
  "int_of_float x = (if x < 0 then - \<lfloor>- x\<rfloor> else \<lfloor>x\<rfloor>)"

definition compaction_budget :: "compaction_config option \<Rightarrow> int \<Rightarrow> int \<Rightarrow> int" where
  "compaction_budget config context_window system_token_budget =
     int_of_float (of_int context_window * (case config of Some c \<Rightarrow> cp_trigger_threshold c | None \<Rightarrow> 4 / 5)) -
     system_token_budget"

definition layer1 :: "json dict list \<Rightarrow> nat \<Rightarrow> json dict list" where
  "layer1 messages msg_boundary =
     strip_output_annotations (clear_binary_content (clear_tool_results messages msg_boundary) msg_boundary) msg_boundary"

definition publish :: "string option \<Rightarrow> (string \<Rightarrow> compaction_event) \<Rightarrow> compaction_event list \<Rightarrow> compaction_event list" where
  "publish conversation_id event events =
     (if str_truthy conversation_id then events @ [event (the conversation_id)] else events)"

definition compact ::
    "llm_env \<Rightarrow> json dict list \<Rightarrow> conv_item list \<Rightarrow> compaction_config option \<Rightarrow> int \<Rightarrow> int \<Rightarrow> string \<Rightarrow> string \<Rightarrow> bool \<Rightarrow> bool \<Rightarrow>
       string option \<Rightarrow> (compaction_event list, compaction_result) eff" where
  "compact env messages history config context_window system_token_budget model task_id force fail_on_summary_error
       conversation_id = (\<lambda>events.
     (let recent_window = (case config of Some c \<Rightarrow> cp_recent_window c | None \<Rightarrow> 5);
          budget = compaction_budget config context_window system_token_budget;
          history_boundary = find_recent_boundary history recent_window;
          msg_boundary = history_idx_to_msg_idx history history_boundary;
          working = layer1 messages msg_boundary;
          l1_tokens = count_tokens env working model;
          layer3 = (\<lambda>working summary events.
            (case truncate_oldest env working budget model of
               Inl err \<Rightarrow> (Inl err, events)
             | Inr truncated \<Rightarrow>
                 (let l3_tokens = count_tokens env truncated model in
                  (Inr \<lparr>cr_messages = truncated, cr_summary_metadata = summary, cr_total_tokens = Some l3_tokens\<rparr>,
                   publish conversation_id (\<lambda>c. Compaction_Completed c task_id l3_tokens) events))))
      in if \<not> force \<and> l1_tokens \<le> budget
         then (Inr \<lparr>cr_messages = working, cr_summary_metadata = None, cr_total_tokens = Some l1_tokens\<rparr>, events)
         else
           (let events = publish conversation_id (\<lambda>c. Compaction_In_Progress c task_id) events in
            (case run_layer2 env working history history_boundary msg_boundary budget model fail_on_summary_error of
               Inl err \<Rightarrow> (Inl err, events)
             | Inr None \<Rightarrow> layer3 working None events
             | Inr (Some summary) \<Rightarrow>
                 (let compacted = summary_to_messages summary @ drop msg_boundary working;
                      compacted_tokens = count_tokens env compacted model
                  in if compacted_tokens \<le> budget
                     then (Inr \<lparr>cr_messages = compacted, cr_summary_metadata = Some summary,
                                cr_total_tokens = Some compacted_tokens\<rparr>,
                           publish conversation_id (\<lambda>c. Compaction_Completed c task_id compacted_tokens) events)
                     else layer3 compacted (Some summary) events)))))"

subsection \<open>Lemmas: prompt\<close>

text \<open>What the prompt is built from: typed items of content types.\<close>

definition content_item :: "conv_item \<Rightarrow> bool" where
  "content_item item \<longleftrightarrow> it_type item = item_type_of (it_data item) \<and> it_type item \<notin> set NON_CONTENT_ITEM_TYPES"

lemma input_item_content:
  "content_item item \<Longrightarrow> \<exists>ms. input_item item = Inr ms \<and> length ms = (if it_type item = ''reasoning'' then 0 else 1)"
  by (cases "it_data item") (auto simp: content_item_def NON_CONTENT_ITEM_TYPES_def input_item_def)

lemma history_to_input_items_append:
  "history_to_input_items (xs @ ys) =
     res_bind (history_to_input_items xs) (\<lambda>ms. res_bind (history_to_input_items ys) (\<lambda>ns. Inr (ms @ ns)))"
  by (induction xs) (simp_all add: res_bind_def split: sum.splits)

lemma history_to_input_items_content:
  "\<forall>item \<in> set items. content_item item \<Longrightarrow>
     \<exists>ms. history_to_input_items items = Inr ms \<and>
       length ms = length (filter (\<lambda>item. it_type item \<noteq> ''reasoning'') items)"
proof (induction items)
  case (Cons item items)
  obtain ms where ms: "input_item item = Inr ms" "length ms = (if it_type item = ''reasoning'' then 0 else 1)"
    using Cons.prems input_item_content by auto
  obtain ns where ns: "history_to_input_items items = Inr ns"
      "length ns = length (filter (\<lambda>item. it_type item \<noteq> ''reasoning'') items)"
    using Cons.IH Cons.prems by auto
  show ?case using ms ns by (simp add: res_bind_def)
qed simp

subsection \<open>Lemmas: the recent window\<close>

definition response_groups :: "conv_item list \<Rightarrow> nat" where
  "response_groups history = length (filter is_response_start history)"

lemma boundary_loop_groups:
  "g < w \<Longrightarrow> i \<le> length history \<Longrightarrow>
     boundary_loop history w g i \<le> i \<and>
     g + int (response_groups (drop (boundary_loop history w g i) (take i history))) =
       min w (g + int (response_groups (take i history))) \<and>
     (boundary_loop history w g i = 0 \<or> is_response_start (history ! boundary_loop history w g i))"
proof (induction i arbitrary: g)
  case 0
  then show ?case by (simp add: response_groups_def)
next
  case (Suc i)
  have next_item: "take (Suc i) history = take i history @ [history ! i]" using Suc.prems(2) by (simp add: take_Suc_conv_app_nth)
  show ?case
  proof (cases "is_response_start (history ! i) \<and> g + 1 \<ge> w")
    case True
    then have "drop i (take (Suc i) history) = [history ! i]" using Suc.prems(2) by (simp add: next_item)
    then show ?thesis using True Suc.prems by (simp add: response_groups_def next_item min_def)
  next
    case False
    let ?g = "if is_response_start (history ! i) then g + 1 else g"
    have loop: "boundary_loop history w g (Suc i) = boundary_loop history w ?g i" using False by auto
    have IH: "boundary_loop history w ?g i \<le> i \<and>
       ?g + int (response_groups (drop (boundary_loop history w ?g i) (take i history))) =
         min w (?g + int (response_groups (take i history))) \<and>
       (boundary_loop history w ?g i = 0 \<or> is_response_start (history ! boundary_loop history w ?g i))"
      by (rule Suc.IH) (use False Suc.prems in auto)
    then have "drop (boundary_loop history w ?g i) (take (Suc i) history) =
        drop (boundary_loop history w ?g i) (take i history) @ [history ! i]"
      using Suc.prems(2) by (simp add: next_item)
    then show ?thesis using IH unfolding loop next_item by (simp add: response_groups_def split: if_splits)
  qed
qed

lemma find_recent_boundary_le: "find_recent_boundary history w \<le> length history"
  using boundary_loop_groups [of 0 w "length history" history] by (simp add: find_recent_boundary_def)

subsection \<open>Lemmas: layer 1\<close>

lemma length_before_index [simp]: "length (before_index f n ms) = length ms"
  by (simp add: before_index_def)

lemma drop_before_index [simp]: "drop n (before_index f n ms) = drop n ms"
  by (cases "n \<le> length ms") (simp_all add: before_index_def)

lemma take_before_index [simp]: "take n (before_index f n ms) = map f (take n ms)"
  by (simp add: before_index_def min_def)

lemma dict_get_set: "dict_get (dict_set k v d) k' = (if k' = k then Some v else dict_get d k')"
  by (simp add: dict_get_def)

lemma edit_content_other: "k \<noteq> ''content'' \<Longrightarrow> dict_get (edit_content f m) k = dict_get m k"
  by (simp add: edit_content_def dict_get_set split: option.splits json.splits)

lemma clear_tool_result_other: "k \<noteq> ''output'' \<Longrightarrow> dict_get (clear_tool_result m) k = dict_get m k"
  by (simp add: clear_tool_result_def dict_get_set)

lemma layer1_parts:
  "take n (layer1 ms n) =
     map (edit_content strip_output_block \<circ> edit_content clear_binary_block \<circ> clear_tool_result) (take n ms)"
  "drop n (layer1 ms n) = drop n ms"
  by (simp_all add: layer1_def clear_tool_results_def clear_binary_content_def strip_output_annotations_def)

lemma length_layer1 [simp]: "length (layer1 ms n) = length ms"
  by (simp add: layer1_def clear_tool_results_def clear_binary_content_def strip_output_annotations_def)

lemma layer1_column:
  assumes "k \<notin> {''output'', ''content''}"
  shows "map (\<lambda>m. dict_get m k) (layer1 ms n) = map (\<lambda>m. dict_get m k) ms"
proof -
  have "map (\<lambda>m. dict_get m k) (take n (layer1 ms n)) = map (\<lambda>m. dict_get m k) (take n ms)"
    using assms unfolding layer1_parts by (simp add: edit_content_other clear_tool_result_other)
  then show ?thesis
    using layer1_parts(2) [of n ms] by (metis append_take_drop_id map_append)
qed

subsection \<open>Lemmas: truncation\<close>

text \<open>
  A message on its own, or the calls of one response followed by their outputs.
\<close>

definition call_batch :: "json dict list \<Rightarrow> bool" where
  "call_batch b \<longleftrightarrow>
     (\<exists>m. b = [m] \<and> \<not> is_call m) \<or>
     (\<exists>calls outs ks ks'. b = calls @ outs \<and> calls \<noteq> [] \<and> length outs = length calls \<and>
        (\<forall>m \<in> set calls. is_call m) \<and> (\<forall>m \<in> set outs. is_call_output m) \<and>
        call_ids calls = Inr ks \<and> call_ids outs = Inr ks' \<and> set ks' = set ks)"

lemma call_or_output: "is_call_output m \<Longrightarrow> \<not> is_call m"
  by (simp add: is_call_def is_call_output_def)

lemma drop_count_batch:
  assumes "call_batch b"
  shows "b \<noteq> [] \<and> pair_aware_drop_count (b @ rest) = Inr (length b)"
  using assms unfolding call_batch_def
proof (elim disjE exE conjE)
  fix m
  assume "b = [m]" and "\<not> is_call m"
  then show ?thesis by (simp add: pair_aware_drop_count_def)
next
  fix calls outs ks ks'
  assume b: "b = calls @ outs" "calls \<noteq> []" "length outs = length calls" "\<forall>m \<in> set calls. is_call m"
    "\<forall>m \<in> set outs. is_call_output m" "call_ids calls = Inr ks" "call_ids outs = Inr ks'" "set ks' = set ks"
  have "outs \<noteq> []" using b(2,3) by auto
  then have "takeWhile is_call (calls @ outs @ rest) = calls"
    using b(4,5) call_or_output [of "hd outs"] by (cases outs) (auto simp: takeWhile_append)
  moreover have "filter is_call_output outs = outs" using b(5) by (simp add: filter_True)
  ultimately show ?thesis using b by (simp add: pair_aware_drop_count_def res_bind_def)
qed

lemma truncate_step:
  assumes "call_batch b"
  shows "truncate_oldest env (b @ rest) budget model =
     (if count_tokens env (b @ rest) model > budget then truncate_oldest env rest budget model else Inr (b @ rest))"
  using drop_count_batch [OF assms, of rest] truncate_oldest.simps [of env "b @ rest" budget model] by simp

lemma truncate_fits:
  "truncate_oldest env ms budget model = Inr r \<Longrightarrow> r = [] \<or> count_tokens env r model \<le> budget"
proof (induction env ms budget model rule: truncate_oldest.induct)
  case (1 env ms budget model)
  show ?case
  proof (cases "ms \<noteq> [] \<and> count_tokens env ms model > budget")
    case False
    then show ?thesis using "1.prems" truncate_oldest.simps [of env ms budget model] by auto
  next
    case True
    then obtain n where n: "pair_aware_drop_count ms = Inr n"
      using "1.prems" truncate_oldest.simps [of env ms budget model] by (cases "pair_aware_drop_count ms") auto
    have "n \<noteq> 0"
      using n True by (auto simp: pair_aware_drop_count_def Let_def res_bind_Inr_iff split: if_splits)
    then show ?thesis
      using "1.IH" [OF True n] "1.prems" True n truncate_oldest.simps [of env ms budget model] by simp
  qed
qed

subsection \<open>Lemmas: the layers together\<close>

lemma compact_result:
  assumes "compact env ms history config window sys model task force fail_on_error cid events = (Inr r, events')"
  shows "let budget = compaction_budget config window sys in
    cr_total_tokens r = Some (count_tokens env (cr_messages r) model) \<and>
    (cr_messages r = [] \<or> count_tokens env (cr_messages r) model \<le> budget) \<and>
    (\<forall>m. cr_summary_metadata r = Some m \<longrightarrow>
       find_last_summarized_item_id history
         (find_recent_boundary history (case config of Some c \<Rightarrow> cp_recent_window c | None \<Rightarrow> 5)) = Some (sm_last_item_id m)) \<and>
    (\<exists>published. events' = events @ published \<and>
       (published = [] \<or> published = [Compaction_In_Progress (the cid) task,
          Compaction_Completed (the cid) task (count_tokens env (cr_messages r) model)]))"
proof -
  let ?budget = "compaction_budget config window sys"
  let ?h = "find_recent_boundary history (case config of Some c \<Rightarrow> cp_recent_window c | None \<Rightarrow> 5)"
  let ?b = "history_idx_to_msg_idx history ?h"
  let ?working = "layer1 ms ?b"
  show ?thesis
  proof (cases "\<not> force \<and> count_tokens env ?working model \<le> ?budget")
    case True
    then have "r = \<lparr>cr_messages = ?working, cr_summary_metadata = None,
        cr_total_tokens = Some (count_tokens env ?working model)\<rparr> \<and> events' = events"
      using assms unfolding compact_def Let_def by (simp only: if_True simp_thms prod.inject sum.inject)
    then show ?thesis using True by (simp add: Let_def)
  next
    case False
    obtain summary where l2: "run_layer2 env ?working history ?h ?b ?budget model fail_on_error = Inr summary"
      using assms False unfolding compact_def Let_def
      by (cases "run_layer2 env ?working history ?h ?b ?budget model fail_on_error")
        (simp_all only: if_False sum.case prod.inject sum.simps simp_thms)
    have last: "find_last_summarized_item_id history ?h = Some (sm_last_item_id m)" if "summary = Some m" for m
      using l2 that unfolding run_layer2_def Let_def by (auto split: sum.splits option.splits if_splits)
    show ?thesis
      using assms False l2 last
      unfolding compact_def Let_def publish_def
      by (auto split: sum.splits option.splits if_splits dest: truncate_fits)
  qed
qed

lemma compact_covers:
  assumes "compact env ms history config window sys model task force fail_on_error cid events = (Inr r, events')"
    and "cr_summary_metadata r = Some m"
  shows "find_last_summarized_item_id history
    (find_recent_boundary history (case config of Some c \<Rightarrow> cp_recent_window c | None \<Rightarrow> 5)) = Some (sm_last_item_id m)"
  using compact_result [OF assms(1)] assms(2) by (simp add: Let_def)

subsection \<open>Properties\<close>

text \<open>
  Layer 1 keeps the messages of the recent window as they are and the calls, outputs and roles of all others in
  place: only the bodies of old tool results and old content blocks change, and no old tool result keeps its body.
\<close>

theorem layer1_clears_old_only:
  "drop n (layer1 ms n) = drop n ms \<and> length (layer1 ms n) = length ms \<and>
   (\<forall>k. k \<notin> {''output'', ''content''} \<longrightarrow> map (\<lambda>m. dict_get m k) (layer1 ms n) = map (\<lambda>m. dict_get m k) ms) \<and>
   (\<forall>m \<in> set (take n (layer1 ms n)). is_call_output m \<longrightarrow> dict_get m ''output'' = Some (JStr TOOL_RESULT_CLEARED))"
proof (intro conjI allI impI ballI)
  fix m
  assume "m \<in> set (take n (layer1 ms n))" and out: "is_call_output m"
  then obtain raw where m: "m = edit_content strip_output_block (edit_content clear_binary_block (clear_tool_result raw))"
    by (auto simp: layer1_parts)
  then have "is_call_output raw"
    using out by (simp add: is_call_output_def edit_content_other clear_tool_result_other)
  then show "dict_get m ''output'' = Some (JStr TOOL_RESULT_CLEARED)"
    by (simp add: m edit_content_other clear_tool_result_def is_call_output_def dict_get_set)
qed (simp_all add: layer1_parts layer1_column)

definition demo_messages :: "json dict list" where
  "demo_messages =
     [[(''role'', JStr ''user''), (''content'', JStr ''go'')],
      [(''type'', JStr ''function_call''), (''call_id'', JStr ''a'')],
      [(''type'', JStr ''function_call''), (''call_id'', JStr ''b'')],
      [(''type'', JStr ''function_call_output''), (''call_id'', JStr ''a''), (''output'', JStr ''x'')],
      [(''type'', JStr ''function_call_output''), (''call_id'', JStr ''b''), (''output'', JStr ''y'')],
      [(''role'', JStr ''assistant''), (''content'', JStr ''done'')]]"

lemma layer1_clears_old_only_witness:
  "map (\<lambda>m. dict_get m ''type'') (layer1 demo_messages 4) = map (\<lambda>m. dict_get m ''type'') demo_messages"
  using layer1_clears_old_only [of 4 demo_messages] by simp


text \<open>
  C22. The index of a history item is mapped to the index of its message: the messages built from the items before the
  boundary are exactly those before the mapped index, so what is summarised and what is kept split at the same place.
\<close>

theorem message_boundary_exact:
  assumes "\<forall>item \<in> set history. content_item item"
  shows "\<exists>ms. history_to_input_items history = Inr ms \<and>
    history_to_input_items (take b history) = Inr (take (history_idx_to_msg_idx history b) ms) \<and>
    history_to_input_items (drop b history) = Inr (drop (history_idx_to_msg_idx history b) ms)"
proof -
  obtain before where before: "history_to_input_items (take b history) = Inr before"
      "length before = history_idx_to_msg_idx history b"
    using history_to_input_items_content [of "take b history"] assms
    by (auto simp: history_idx_to_msg_idx_def dest: in_set_takeD)
  obtain rest where rest: "history_to_input_items (drop b history) = Inr rest"
    using history_to_input_items_content [of "drop b history"] assms by (auto dest: in_set_dropD)
  have "history_to_input_items history = Inr (before @ rest)"
    using history_to_input_items_append [of "take b history" "drop b history"] before(1) rest by (simp add: res_bind_def)
  then show ?thesis using before rest by simp
qed

definition example_item :: "string \<Rightarrow> item_data \<Rightarrow> conv_item" where
  "example_item i d = \<lparr>it_id = i, it_type = item_type_of d, it_status = ''completed'', it_response_id = ''r'',
     it_created_at = 0, it_data = d, it_created_by = None\<rparr>"

definition demo_history :: "conv_item list" where
  "demo_history = [example_item ''msg_1'' (MessageData ''user'' [] None False False),
     example_item ''rs_1'' (ReasoningData ''a'' [] None None), example_item ''fc_1'' (FunctionCallData ''a'' ''f'' ''{}'' ''x''),
     example_item ''fc_2'' (FunctionCallData ''a'' ''f'' ''{}'' ''y''), example_item ''fo_1'' (FunctionCallOutputData ''x'' ''1''),
     example_item ''fo_2'' (FunctionCallOutputData ''y'' ''2'')]"

lemma message_boundary_exact_witness:
  "\<exists>ms. history_to_input_items demo_history = Inr ms \<and> history_to_input_items (drop 3 demo_history) = Inr (drop 2 ms)"
proof -
  have "\<forall>item \<in> set demo_history. content_item item"
    by (simp add: demo_history_def example_item_def content_item_def NON_CONTENT_ITEM_TYPES_def)
  moreover have "history_idx_to_msg_idx demo_history 3 = 2"
    by (simp add: history_idx_to_msg_idx_def demo_history_def example_item_def)
  ultimately show ?thesis using message_boundary_exact [of demo_history 3] by (auto simp only:)
qed

text \<open>
  C20. Truncation of a prompt of whole batches (a message, or the calls of a response with all their outputs) drops the
  fewest batches after which the rest fits the budget, and nothing else: no call loses its output or the reverse.
\<close>

theorem truncation_drops_whole_batches:
  assumes "\<forall>b \<in> set batches. call_batch b"
  shows "\<exists>n. truncate_oldest env (concat batches) budget model = Inr (concat (drop n batches)) \<and>
    (n < length batches \<longrightarrow> count_tokens env (concat (drop n batches)) model \<le> budget) \<and>
    (\<forall>k < n. k < length batches \<longrightarrow> budget < count_tokens env (concat (drop k batches)) model)"
  using assms
proof (induction batches)
  case Nil
  show ?case by (simp add: truncate_oldest.simps)
next
  case (Cons b batches)
  have step: "truncate_oldest env (concat (b # batches)) budget model =
      (if count_tokens env (concat (b # batches)) model > budget then truncate_oldest env (concat batches) budget model
       else Inr (concat (b # batches)))"
    using truncate_step [of b env "concat batches"] Cons.prems by simp
  show ?case
  proof (cases "count_tokens env (concat (b # batches)) model > budget")
    case False
    then show ?thesis using step by (intro exI [of _ 0]) simp
  next
    case True
    obtain n where n: "truncate_oldest env (concat batches) budget model = Inr (concat (drop n batches))"
        "n < length batches \<longrightarrow> count_tokens env (concat (drop n batches)) model \<le> budget"
        "\<forall>k < n. k < length batches \<longrightarrow> budget < count_tokens env (concat (drop k batches)) model"
      using Cons.IH Cons.prems by auto
    have "budget < count_tokens env (concat (drop k (b # batches))) model" if "k < Suc n" "k < length (b # batches)" for k
      using that n(3) True by (cases k) simp_all
    then show ?thesis
      using step True n(1,2) by (intro exI [of _ "Suc n"]) simp
  qed
qed

definition example_env :: llm_env where
  "example_env = \<lparr>le_count = \<lambda>_ ms. int (length ms), le_create = \<lambda>_ _ _. Inr [Some [Some ''summary'']], le_runner = None\<rparr>"

definition demo_batches :: "json dict list list" where
  "demo_batches = [take 1 demo_messages, take 4 (drop 1 demo_messages), drop 5 demo_messages]"

lemma truncation_drops_whole_batches_witness:
  "\<exists>n. truncate_oldest example_env (concat demo_batches) 3 ''m'' = Inr (concat (drop n demo_batches))"
proof -
  have parallel: "call_batch (take 4 (drop 1 demo_messages))"
    unfolding call_batch_def
    by (rule disjI2, rule exI [of _ "take 2 (drop 1 demo_messages)"], rule exI [of _ "take 2 (drop 3 demo_messages)"],
        rule exI [of _ "[Some (JStr ''a''), Some (JStr ''b'')]"], rule exI [of _ "[Some (JStr ''a''), Some (JStr ''b'')]"])
      (simp add: demo_messages_def is_call_def is_call_output_def dict_get_def res_bind_def)
  have "\<forall>b \<in> set demo_batches. call_batch b"
    using parallel by (simp add: demo_batches_def) (simp add: call_batch_def demo_messages_def is_call_def dict_get_def)
  from truncation_drops_whole_batches [OF this, of example_env 3 "''m''"] show ?thesis by blast
qed

text \<open>
  C15. A compaction that returns reports the token count of its messages, and they fit the budget or there are none left;
  a summary names an item of the history before the recent window as the last one it covers. The events published on the
  way are none, or the start followed by the end with the same count.
\<close>

theorem compact_fits:
  assumes "compact env ms history config window sys model task force fail_on_error cid events = (Inr r, events')"
  shows "let budget = compaction_budget config window sys in
    cr_total_tokens r = Some (count_tokens env (cr_messages r) model) \<and>
    (cr_messages r = [] \<or> count_tokens env (cr_messages r) model \<le> budget) \<and>
    (\<forall>m. cr_summary_metadata r = Some m \<longrightarrow>
       find_last_summarized_item_id history
         (find_recent_boundary history (case config of Some c \<Rightarrow> cp_recent_window c | None \<Rightarrow> 5)) = Some (sm_last_item_id m)) \<and>
    (\<exists>published. events' = events @ published \<and>
       (published = [] \<or> published = [Compaction_In_Progress (the cid) task,
          Compaction_Completed (the cid) task (count_tokens env (cr_messages r) model)]))"
  by (rule compact_result [OF assms])

definition demo_summary :: summary_metadata where
  "demo_summary = \<lparr>sm_text = ''summary'', sm_last_item_id = ''fc_1'', sm_model = ''m'', sm_token_count = 1\<rparr>"

definition demo_prompt :: "json dict list" where
  "demo_prompt =
     [[(''role'', JStr ''user''), (''content'', JList [])],
      [(''type'', JStr ''function_call''), (''call_id'', JStr ''x''), (''name'', JStr ''f''), (''arguments'', JStr ''{}'')],
      [(''type'', JStr ''function_call''), (''call_id'', JStr ''y''), (''name'', JStr ''f''), (''arguments'', JStr ''{}'')],
      [(''type'', JStr ''function_call_output''), (''call_id'', JStr ''x''), (''output'', JStr ''1'')],
      [(''type'', JStr ''function_call_output''), (''call_id'', JStr ''y''), (''output'', JStr ''2'')]]"

definition demo_config :: compaction_config where
  "demo_config = \<lparr>cp_trigger_threshold = 1 / 2, cp_recent_window = 1\<rparr>"

lemma demo_prompt_of_history: "history_to_input_items demo_history = Inr demo_prompt"
  by (simp add: demo_history_def example_item_def demo_prompt_def input_item_def res_bind_def)

lemma demo_boundary: "find_recent_boundary demo_history 1 = 3" "history_idx_to_msg_idx demo_history 3 = 2"
  by (simp_all add: find_recent_boundary_def demo_history_def example_item_def is_response_start_def
      history_idx_to_msg_idx_def eval_nat_numeral)

lemma demo_last_id: "find_last_summarized_item_id demo_history 3 = Some ''fc_1''"
  by (simp add: demo_history_def example_item_def is_synthetic_id_def startswith_def endswith_def suffix_def eval_nat_numeral)

lemma demo_layer2:
  "run_layer2 example_env working demo_history 3 2 budget ''m'' fail_on_error = Inr (Some demo_summary)"
  by (simp add: run_layer2_def demo_last_id demo_summary_def summarize_history_def summarize_history_uncached_def
      example_env_def count_tokens_def res_bind_def extract_summary_text_def list_or_def str_or_def Let_def)

lemma demo_compact:
  "compact example_env demo_prompt demo_history (Some demo_config) 20 0 ''m'' ''t'' True True (Some ''conv_1'') [] =
     (Inr \<lparr>cr_messages = summary_to_messages demo_summary @ drop 2 demo_prompt,
           cr_summary_metadata = Some demo_summary, cr_total_tokens = Some 5\<rparr>,
      [Compaction_In_Progress ''conv_1'' ''t'', Compaction_Completed ''conv_1'' ''t'' 5])"
  unfolding compact_def Let_def
  by (simp add: demo_config_def demo_boundary demo_layer2 layer1_parts publish_def str_truthy_def)
    (simp add: compaction_budget_def int_of_float_def count_tokens_def example_env_def summary_to_messages_def demo_prompt_def)

lemma compact_fits_witness:
  "int (length (summary_to_messages demo_summary @ drop 2 demo_prompt)) \<le> compaction_budget (Some demo_config) 20 0"
  using compact_fits [OF demo_compact] by (simp add: Let_def count_tokens_def example_env_def summary_to_messages_def)

text \<open>
  The recent window counts every call as a response of its own, so its boundary can fall between the parallel calls of
  one response: then the summary replaces the first call and its output is sent to the model without it.
\<close>

lemma recent_window_splits_parallel_calls:
  "\<exists>r events. compact example_env demo_prompt demo_history (Some demo_config) 20 0 ''m'' ''t'' True True (Some ''conv_1'') [] =
       (Inr r, events) \<and>
     (\<exists>m \<in> set (cr_messages r). is_call_output m \<and> dict_get m ''call_id'' = Some (JStr ''x'')) \<and>
     \<not> (\<exists>m \<in> set (cr_messages r). is_call m \<and> dict_get m ''call_id'' = Some (JStr ''x''))"
  by (intro exI, rule conjI [OF demo_compact])
    (simp add: summary_to_messages_def demo_prompt_def is_call_def is_call_output_def dict_get_def)

text \<open>Truncation drops one call alone when the calls in front do not all have their outputs.\<close>

lemma truncation_orphans_output:
  "truncate_oldest example_env (take 3 (drop 1 demo_prompt)) 2 ''m'' = Inr (take 2 (drop 2 demo_prompt))"
  by (simp add: truncate_oldest.simps pair_aware_drop_count_def demo_prompt_def example_env_def count_tokens_def is_call_def
      is_call_output_def dict_get_def res_bind_def eval_nat_numeral Let_def)

end
