(* ===== verification/History_Reload.thy ===== *)
theory History_Reload
  imports Compaction Py_Format
begin

text \<open>
  The history a turn starts from and the compaction command (\<open>src/omnigent/runtime/workflow.py\<close>, with
  \<open>compaction_to_history_items\<close> of \<open>src/omnigent/runtime/compaction.py\<close>): the latest compaction item of the
  conversation, the items after the last one its summary covers, and the item that a compaction appends.

  Loading follows cursors until there are no more pages, so it returns an option, \<open>None\<close> for a loop that does not end.
\<close>

subsection \<open>The history behind a compaction item\<close>

text \<open>The arguments of \<open>MessageData\<close> as they come from a dictionary.\<close>

fun block_dicts :: "json list \<Rightarrow> json dict list res" where
  "block_dicts [] = Inr []"
| "block_dicts (JDict d # blocks) = res_bind (block_dicts blocks) (\<lambda>ds. Inr (d # ds))"
| "block_dicts (_ # _) = Inl (ValidationError ''Input should be a valid dictionary'')"

definition message_data_of :: "json \<Rightarrow> json \<Rightarrow> item_data res" where
  "message_data_of role content =
     (case role of
        JStr r \<Rightarrow> (case content of
                     JList blocks \<Rightarrow> res_bind (block_dicts blocks) (\<lambda>ds. message_data r ds None False False)
                   | _ \<Rightarrow> Inl (ValidationError ''Input should be a valid list''))
      | _ \<Rightarrow> Inl (ValidationError ''Input should be a valid string''))"

definition compacted_item :: "conv_item \<Rightarrow> nat \<Rightarrow> json dict \<Rightarrow> conv_item res" where
  "compacted_item item i msg =
     res_bind (message_data_of (dict_get_or msg ''role'' (JStr ''user'')) (dict_get_or msg ''content'' (JList []))) (\<lambda>payload.
       (case dict_get_or msg ''type'' (JStr ''message'') of
          JStr t \<Rightarrow> conversation_item (it_id item @ ''_compacted_'' @ int_str (int i)) t ''completed'' (it_response_id item)
                      (it_created_at item) payload None
        | _ \<Rightarrow> Inl (ValidationError ''Input should be a valid string'')))"

fun compacted_items :: "conv_item \<Rightarrow> nat \<Rightarrow> json dict list \<Rightarrow> conv_item list res" where
  "compacted_items item i [] = Inr []"
| "compacted_items item i (msg # msgs) =
     res_bind (compacted_item item i msg) (\<lambda>x. res_bind (compacted_items item (i + 1) msgs) (\<lambda>xs. Inr (x # xs)))"

definition text_block :: "string \<Rightarrow> string \<Rightarrow> json dict" where
  "text_block block_type txt = [(''type'', JStr block_type), (''text'', JStr txt)]"

definition compaction_to_history_items :: "conv_item \<Rightarrow> conv_item list res" where
  "compaction_to_history_items item =
     (case it_data item of
        CompactionData summary last_item_id model token_count messages window_id \<Rightarrow>
          if list_or messages \<noteq> [] then compacted_items item 0 (list_or messages)
          else res_bind (message_data ''user'' [text_block ''input_text'' summary_request] None False False) (\<lambda>user_data.
               res_bind (conversation_item (it_id item @ ''_user'') ''message'' ''completed'' (it_response_id item)
                           (it_created_at item) user_data None) (\<lambda>user_item.
               res_bind (message_data ''assistant'' [text_block ''output_text'' summary] model False False) (\<lambda>assistant_data.
               res_bind (conversation_item (it_id item @ ''_assistant'') ''message'' ''completed'' (it_response_id item)
                           (it_created_at item) assistant_data None) (\<lambda>assistant_item.
                 Inr [user_item, assistant_item]))))
      | _ \<Rightarrow> Inl assertion_error)"

text \<open>\<open>list_items(conversation_id, type="compaction", order="desc", limit=1)\<close>\<close>

definition latest_compaction_query :: item_query where
  "latest_compaction_query = item_query_default\<lparr>iq_type := Some ''compaction'', iq_order := ''desc'', iq_limit := 1\<rparr>"

definition find_latest_compaction_item :: "conv_store \<Rightarrow> string \<Rightarrow> conv_item option res" where
  "find_latest_compaction_item s cid =
     res_bind (list_items s cid latest_compaction_query) (\<lambda>page.
       Inr (if pg_data page = [] then None else Some (hd (pg_data page))))"

record loaded_history =
  lh_items :: "conv_item list"
  lh_last_compaction_created_at :: "int option"

definition content_items :: "conv_item list \<Rightarrow> conv_item list" where
  "content_items items = filter (\<lambda>item. it_type item \<notin> set NON_CONTENT_ITEM_TYPES) items"

definition load_after :: "conv_store \<Rightarrow> string \<Rightarrow> string option \<Rightarrow> (conv_item list \<Rightarrow> loaded_history res) \<Rightarrow> loaded_history res option" where
  "load_after s cid after k =
     (case fetch_all_items s cid after of None \<Rightarrow> None | Some r \<Rightarrow> Some (res_bind r k))"

definition load_initial_history :: "conv_store \<Rightarrow> string \<Rightarrow> loaded_history res option" where
  "load_initial_history s cid =
     (let all_items = load_after s cid None (\<lambda>items.
            Inr \<lparr>lh_items = content_items items, lh_last_compaction_created_at = None\<rparr>)
      in (case find_latest_compaction_item s cid of
            Inl err \<Rightarrow> Some (Inl err)
          | Inr None \<Rightarrow> all_items
          | Inr (Some item) \<Rightarrow>
              (case it_data item of
                 CompactionData summary last_id model token_count messages window_id \<Rightarrow>
                   if summary = [] \<or> last_id = [] \<or> startswith last_id ''synthetic_'' then all_items
                   else load_after s cid (Some last_id) (\<lambda>recent_items.
                          res_bind (compaction_to_history_items item) (\<lambda>front.
                            Inr \<lparr>lh_items = front @ content_items recent_items,
                                 lh_last_compaction_created_at = Some (it_created_at item)\<rparr>))
               | _ \<Rightarrow> Some (Inl assertion_error))))"

subsection \<open>Persisting a compaction\<close>

definition maybe_persist_compaction_item ::
    "summary_metadata \<Rightarrow> string \<Rightarrow> string \<Rightarrow> int \<Rightarrow> string \<Rightarrow> (conv_store, unit) eff" where
  "maybe_persist_compaction_item summary task_id cid now item_id = (\<lambda>s.
     if sm_text summary = [] \<or> sm_last_item_id summary = [] \<or> startswith (sm_last_item_id summary) ''synthetic_''
     then (Inr (), s)
     else (case list_items s cid latest_compaction_query of
             Inl err \<Rightarrow> (Inl err, s)
           | Inr existing \<Rightarrow>
               if pg_data existing \<noteq> [] \<and> it_response_id (hd (pg_data existing)) = task_id then (Inr (), s)
               else (case new_conversation_item ''compaction'' task_id
                            (CompactionData (sm_text summary) (sm_last_item_id summary) (Some (sm_model summary))
                               (sm_token_count summary) None None) None of
                       Inl err \<Rightarrow> (Inl err, s)
                     | Inr item \<Rightarrow> eff_bind (append_items cid now [item_id] [item]) (\<lambda>_. eff_return ()) s)))"

definition route_bare_model_for_compaction :: "string \<Rightarrow> string" where
  "route_bare_model_for_compaction model =
     (if CHR ''/'' \<in> set model then model
      else if startswith model ''databricks-'' then ''databricks/'' @ model
      else if startswith model ''claude-'' then ''anthropic/'' @ model
      else model)"

definition apply_request_model_override :: "string \<Rightarrow> string option \<Rightarrow> string" where
  "apply_request_model_override model model_override = (case model_override of None \<Rightarrow> model | Some m \<Rightarrow> m)"

text \<open>
  The services around the command: the references in content blocks that are resolved, and the window of a model.
\<close>

record compaction_services =
  cs_llm :: llm_env
  cs_resolve :: "conv_item list \<Rightarrow> conv_item list"
  cs_context_window :: "string \<Rightarrow> int"

record compaction_request =
  cq_task_id :: string
  cq_conversation_id :: string
  cq_spec :: prompt_spec
  cq_compaction :: "compaction_config option"
  cq_model :: string
  cq_instructions :: "string option"
  cq_tool_schemas :: "json dict list"
  cq_model_override :: "string option"
  cq_preserve_recent_window :: "int option"
  cq_now :: int
  cq_item_id :: string

definition prepare_messages ::
    "compaction_services \<Rightarrow> prompt_spec \<Rightarrow> conv_item list \<Rightarrow> string option \<Rightarrow> json dict list \<Rightarrow> string \<Rightarrow> (json dict list \<times> int) res" where
  "prepare_messages srv spec history instructions tool_schemas model =
     res_bind (build_instructions spec instructions tool_schemas []) (\<lambda>sys_instructions.
     res_bind (history_to_input_items (cs_resolve srv history)) (\<lambda>messages.
       Inr (messages,
            count_tokens (cs_llm srv) [[(''role'', JStr ''system''), (''content'', JStr sys_instructions)]] model)))"

definition effective_compaction_config :: "compaction_request \<Rightarrow> compaction_config option" where
  "effective_compaction_config q =
     (case cq_preserve_recent_window q of
        None \<Rightarrow> cq_compaction q
      | Some n \<Rightarrow> Some \<lparr>cp_trigger_threshold = (case cq_compaction q of Some c \<Rightarrow> cp_trigger_threshold c | None \<Rightarrow> 4 / 5),
                       cp_recent_window = max (n - 1) 0\<rparr>)"

definition no_persisted_summary :: py_error where
  "no_persisted_summary = OmnigentError (''Compaction did not produce a persisted summary. The conversation was '' @
     ''left unchanged; check server logs for the summarization failure.'')"

definition compact_conversation_now ::
    "compaction_services \<Rightarrow> compaction_request \<Rightarrow> conv_store \<Rightarrow> compaction_event list \<Rightarrow>
       (compaction_result res \<times> conv_store \<times> compaction_event list) option" where
  "compact_conversation_now srv q s events =
     (let cid = cq_conversation_id q in
      (case load_initial_history s cid of
         None \<Rightarrow> None
       | Some (Inl err) \<Rightarrow> Some (Inl err, s, events)
       | Some (Inr loaded) \<Rightarrow>
           let history = lh_items loaded in
           if history = []
           then Some (Inr \<lparr>cr_messages = [], cr_summary_metadata = None, cr_total_tokens = None\<rparr>, s, events)
           else
             let model = route_bare_model_for_compaction (apply_request_model_override (cq_model q) (cq_model_override q)) in
             Some (case prepare_messages srv (cq_spec q) history (cq_instructions q) (cq_tool_schemas q) model of
                Inl err \<Rightarrow> (Inl err, s, events)
              | Inr (messages, sys_tokens) \<Rightarrow>
                  (case compact (cs_llm srv) messages history (effective_compaction_config q) (cs_context_window srv model)
                          sys_tokens model (cq_task_id q) True True (Some cid) events of
                     (Inl err, events') \<Rightarrow> (Inl err, s, events')
                   | (Inr result, events') \<Rightarrow>
                       (case cr_summary_metadata result of
                          None \<Rightarrow> (Inl no_persisted_summary, s, events')
                        | Some summary \<Rightarrow>
                            (case maybe_persist_compaction_item summary (cq_task_id q) cid (cq_now q) (cq_item_id q) s of
                               (Inl err, s') \<Rightarrow> (Inl err, s', events')
                             | (Inr _, s') \<Rightarrow> (Inr result, s', events')))))))"

subsection \<open>Lemmas: the latest compaction item\<close>

lemma it_type_to_item [simp]: "it_type (to_item r) = ci_type r"
  by (simp add: to_item_def)

lemma latest_compaction_page:
  "\<exists>page. list_items s cid latest_compaction_query = Inr page \<and>
     pg_data page = take 1 (rev (filter (\<lambda>i. it_type i = ''compaction'') (transcript s cid)))"
proof -
  have "filter (\<lambda>i. it_type i = ''compaction'') (transcript s cid) =
      map to_item (sort_key ci_position (filter (\<lambda>r. ci_conversation r = cid \<and> opt_all (\<lambda>t. ci_type r = t) (Some ''compaction''))
        (st_items s)))"
    by (simp add: transcript_def conv_rows_def filter_map comp_def filter_sort opt_all_def conj_commute)
  then show ?thesis
    by (simp add: list_items_def latest_compaction_query_def item_query_default_def encode_item_type_def ITEM_TYPES_def
        res_bind_def Let_def rev_map take_map min_def)
qed

lemma find_latest_compaction:
  "find_latest_compaction_item s cid =
     Inr (let found = filter (\<lambda>i. it_type i = ''compaction'') (transcript s cid) in
          if found = [] then None else Some (last found))"
proof -
  obtain page where page: "list_items s cid latest_compaction_query = Inr page"
      "pg_data page = take 1 (rev (filter (\<lambda>i. it_type i = ''compaction'') (transcript s cid)))"
    using latest_compaction_page by blast
  show ?thesis
    unfolding find_latest_compaction_item_def page(1) Let_def
    by (cases "filter (\<lambda>i. it_type i = ''compaction'') (transcript s cid)" rule: rev_cases) (simp_all add: res_bind_def page(2))
qed

subsection \<open>Lemmas: the shape of a loaded history\<close>


text \<open>Compaction items with a summary only, as the compaction command writes them.\<close>

definition summaries_only :: "conv_store \<Rightarrow> string \<Rightarrow> bool" where
  "summaries_only s cid \<longleftrightarrow>
     (\<forall>r \<in> set (st_items s). ci_conversation r = cid \<longrightarrow> is_CompactionData (ci_data r) \<longrightarrow>
        list_or (cd_compacted_messages (ci_data r)) = [])"

definition real_ids :: "conv_store \<Rightarrow> string \<Rightarrow> bool" where
  "real_ids s cid \<longleftrightarrow> (\<forall>r \<in> set (st_items s). ci_conversation r = cid \<longrightarrow> \<not> is_synthetic_id (ci_id r))"




lemma endswith_append [simp]: "endswith (s @ p) p"
  by (simp add: endswith_def suffix_def)










subsection \<open>Properties\<close>


definition example_row :: "string \<Rightarrow> int \<Rightarrow> item_data \<Rightarrow> item_row" where
  "example_row i position d = \<lparr>ci_id = i, ci_conversation = ''conv_1'', ci_response_id = ''r'', ci_created_at = 5,
     ci_status = ''completed'', ci_position = position, ci_type = item_type_of d, ci_data = d, ci_search_text = [],
     ci_created_by = None\<rparr>"

definition demo_rows :: "item_row list" where
  "demo_rows = [example_row ''m1'' 0 (MessageData ''user'' [] None False False),
     example_row ''m2'' 1 (MessageData ''assistant'' [] (Some ''a'') False False),
     example_row ''e1'' 2 (ErrorData ''llm'' ''c'' ''m''), example_row ''m3'' 3 (MessageData ''user'' [] None False False)]"

definition demo_items_store :: conv_store where
  "demo_items_store = empty_store\<lparr>st_items := demo_rows\<rparr>"


lemma demo_items_ok: "items_ok demo_items_store" "summaries_only demo_items_store cid" "real_ids demo_items_store cid"
  by (simp_all add: items_ok_def demo_items_store_def empty_store_def demo_rows_def example_row_def summaries_only_def
      real_ids_def is_synthetic_id_def startswith_def endswith_def suffix_def)








text \<open>
  C21. The compaction command always returns, and when it fails the conversation is unchanged.
\<close>

theorem compact_command_returns:
  assumes "items_ok s"
  shows "\<exists>r s' events'. compact_conversation_now srv q s events = Some (r, s', events') \<and> (\<forall>err. r = Inl err \<longrightarrow> s' = s)"
proof -
  have "load_after s cid after k \<noteq> None" for cid after k
    by (simp add: load_after_def fetch_all_items_after [OF assms])
  then have "load_initial_history s cid \<noteq> None" for cid
    by (simp add: load_initial_history_def find_latest_compaction Let_def split: item_data.splits)
  then obtain loaded where loaded: "load_initial_history s (cq_conversation_id q) = Some loaded" by blast
  have "s' = s" if "maybe_persist_compaction_item m task cid now i s = (Inl err, s')" for m task cid now i err s'
    using that
    by (auto simp: maybe_persist_compaction_item_def eff_bind_def eff_return_def split: if_splits sum.splits prod.splits
        dest: append_items_fails)
  then show ?thesis
    by (simp add: compact_conversation_now_def loaded Let_def split: sum.splits prod.splits option.splits)
qed


definition demo_services :: compaction_services where
  "demo_services = \<lparr>cs_llm = example_env, cs_resolve = (\<lambda>items. items), cs_context_window = (\<lambda>_. 20)\<rparr>"

definition example_request :: compaction_request where
  "example_request = \<lparr>cq_task_id = ''t'', cq_conversation_id = ''conv_1'', cq_spec = \<lparr>sp_instructions = None, sp_skills = []\<rparr>,
     cq_compaction = None, cq_model = ''m'', cq_instructions = None, cq_tool_schemas = [], cq_model_override = None,
     cq_preserve_recent_window = Some 1, cq_now = 9, cq_item_id = ''c1''\<rparr>"






lemma compact_command_returns_witness:
  "\<exists>r s' events'. compact_conversation_now demo_services example_request demo_items_store [] = Some (r, s', events') \<and>
     (\<forall>err. r = Inl err \<longrightarrow> s' = demo_items_store)"
  by (rule compact_command_returns [OF demo_items_ok(1)])

subsection \<open>Defects\<close>

text \<open>A compacted message of the assistant cannot be turned into an item, so the history of its conversation fails to load.\<close>

lemma compacted_assistant_message_fails:
  assumes "it_data item = CompactionData summary last_id model token_count (Some [msg]) window_id"
    and "dict_get msg ''role'' = Some (JStr ''assistant'')"
  shows "\<exists>err. compaction_to_history_items item = Inl err"
  using assms
  by (auto simp: compaction_to_history_items_def list_or_def compacted_item_def message_data_of_def message_data_def
      dict_get_def dict_get_or_def res_bind_def split: json.splits sum.splits)

text \<open>With an id as the cursor that no item has, every item is hidden, whenever it was appended.\<close>

lemma unknown_cursor_hides_items:
  assumes "items_ok s" and "i \<noteq> []" and "i \<notin> ci_id ` set (st_items s)"
  shows "fetch_all_items s cid (Some i) = Some (Inr [])"
proof -
  have "item_position s i = None"
    using assms(3) by (auto simp: item_position_def find_None_iff)
  then show ?thesis
    using assms(2) by (simp add: fetch_all_items_after [OF assms(1)] items_after_def rows_after_def past_cursor_def str_truthy_def)
qed

text \<open>The ids of replayed compacted messages count as stored ones.\<close>

lemma compacted_id_not_synthetic:
  "\<not> is_synthetic_id ''c1_compacted_0''"
  by (simp add: is_synthetic_id_def startswith_def endswith_def suffix_def)

text \<open>An empty summary is reported as a success of the command and nothing is persisted.\<close>

lemma empty_summary_not_persisted:
  "sm_text m = [] \<Longrightarrow> maybe_persist_compaction_item m task cid now i s = (Inr (), s)"
  by (simp add: maybe_persist_compaction_item_def)

end
