(* ===== verification/Session_Store.thy ===== *)
theory Session_Store
  imports Transcript Policy_Store
begin

text \<open>
  The life of sessions in the conversation store (\<open>src/omnigent/stores/conversation_store/sqlalchemy_store.py\<close>):
  creation with an agent of their own, the bindings of the metadata row, updates, fork, switch of the agent and deletion
  of a subtree. A transaction is one step here: an exception in it leaves what earlier transactions have committed.
  Generated ids and the clock are arguments. The policy table is the one of the policy store.
\<close>

subsection \<open>Label keys\<close>

definition UI_MODE_LABEL_KEY :: string where "UI_MODE_LABEL_KEY = ''omnigent.ui''"
definition WRAPPER_LABEL_KEY :: string where "WRAPPER_LABEL_KEY = ''omnigent.wrapper''"
definition FORK_SOURCE_LABEL_KEY :: string where "FORK_SOURCE_LABEL_KEY = ''omnigent.fork.source_id''"
definition FORK_SOURCE_EXTERNAL_SESSION_LABEL_KEY :: string where
  "FORK_SOURCE_EXTERNAL_SESSION_LABEL_KEY = ''omnigent.fork.source_external_session_id''"
definition FORK_CARRY_HISTORY_LABEL_KEY :: string where "FORK_CARRY_HISTORY_LABEL_KEY = ''omnigent.fork.carry_history''"
definition SWITCH_PREVIOUS_BUILTIN_LABEL_KEY :: string where
  "SWITCH_PREVIOUS_BUILTIN_LABEL_KEY = ''omnigent.switch.previous_builtin_id''"
definition CODEX_NATIVE_BYPASS_SANDBOX_LABEL_KEY :: string where
  "CODEX_NATIVE_BYPASS_SANDBOX_LABEL_KEY = ''omnigent.codex_native.bypass_sandbox''"

definition INSTANCE_SCOPED_LABEL_KEYS :: "string list" where
  "INSTANCE_SCOPED_LABEL_KEYS =
     [''omnigent.claude_native.bridge_id'', ''omnigent.codex_native.bridge_id'', ''omnigent.last_context_tokens'',
      ''omnigent.last_context_window'', CODEX_NATIVE_BYPASS_SANDBOX_LABEL_KEY]"

definition IMPORT_PROVENANCE_LABEL_KEYS :: "string list" where
  "IMPORT_PROVENANCE_LABEL_KEYS = [''omnigent.import.source'', ''omnigent.import.external_session_id'']"

subsection \<open>Rows\<close>

definition unique_failed :: "string \<Rightarrow> py_error" where
  "unique_failed table = IntegrityError (''UNIQUE constraint failed: '' @ table)"

definition lookup_error :: "string \<Rightarrow> py_error" where
  "lookup_error cid = OtherError (''LookupError: conversation not found: '' @ sq cid)"


definition empty_meta :: conv_meta where
  "empty_meta = \<lparr>cm_session_state = [], cm_session_usage = [], cm_host_id = None, cm_workspace = None, cm_git_branch = None,
     cm_runner_id = None, cm_external_session_id = None, cm_terminal_launch_args = None\<rparr>"

definition blank_conversation :: "string \<Rightarrow> nat \<Rightarrow> int \<Rightarrow> conversation" where
  "blank_conversation cid rowid now =
     \<lparr>cv_id = cid, cv_rowid = rowid, cv_created_at = now, cv_updated_at = now, cv_title = [], cv_parent = None,
      cv_root = cid, cv_agent_id = None, cv_archived = False, cv_model_override = None, cv_reasoning_effort = None,
      cv_cost_control_mode = None, cv_harness_override = None, cv_next_position = Some 0, cv_meta = None\<rparr>"

text \<open>The unique index on the parent and the title; top-level conversations are exempt.\<close>

definition title_taken :: "conv_store \<Rightarrow> string \<Rightarrow> string option \<Rightarrow> string \<Rightarrow> bool" where
  "title_taken s cid parent title \<longleftrightarrow>
     parent \<noteq> None \<and> (\<exists>c \<in> set (st_convs s). cv_id c \<noteq> cid \<and> cv_parent c = parent \<and> cv_title c = title)"

definition insert_row :: "conversation \<Rightarrow> (conv_store, unit) eff" where
  "insert_row c = (\<lambda>s.
     if get_conversation s (cv_id c) \<noteq> None \<or> title_taken s (cv_id c) (cv_parent c) (cv_title c)
     then (Inl (unique_failed ''conversations''), s)
     else (Inr (), s\<lparr>st_convs := st_convs s @ [c]\<rparr>))"

definition new_session_agent_row :: "string \<Rightarrow> string \<Rightarrow> string \<Rightarrow> string option \<Rightarrow> int \<Rightarrow> agent_row" where
  "new_session_agent_row agent_id agent_name bundle_location description now =
     \<lparr>ag_id = agent_id, ag_name = agent_name, ag_kind = ''session'', ag_bundle_location = bundle_location,
      ag_description = description, ag_created_at = now\<rparr>"

definition get_agent :: "conv_store \<Rightarrow> string \<Rightarrow> agent_row option" where
  "get_agent s agent_id = find (\<lambda>a. ag_id a = agent_id) (st_agents s)"

subsection \<open>Creation with an agent\<close>

record new_session =
  ns_conversation_id :: string
  ns_rowid :: nat
  ns_now :: int
  ns_agent :: agent_row
  ns_title :: "string option"
  ns_labels :: "string dict option"
  ns_reasoning_effort :: "string option"
  ns_workspace :: "string option"
  ns_terminal_launch_args :: "string list option"
  ns_parent :: "string option"
  ns_runner_id :: "string option"

definition new_session_conversation_row :: "new_session \<Rightarrow> string option \<Rightarrow> conversation" where
  "new_session_conversation_row a root_id =
     (let title = (if str_truthy (ns_parent a) \<and> \<not> str_truthy (ns_title a)
                   then Some (''untitled:'' @ ns_conversation_id a) else ns_title a)
      in (blank_conversation (ns_conversation_id a) (ns_rowid a) (ns_now a))
           \<lparr>cv_title := str_or title [], cv_parent := ns_parent a, cv_root := str_or root_id (ns_conversation_id a),
            cv_agent_id := Some (ag_id (ns_agent a)), cv_reasoning_effort := ns_reasoning_effort a\<rparr>)"

definition new_session_metadata_row :: "new_session \<Rightarrow> conv_meta" where
  "new_session_metadata_row a =
     empty_meta\<lparr>cm_runner_id := ns_runner_id a, cm_workspace := ns_workspace a,
                cm_terminal_launch_args := ns_terminal_launch_args a\<rparr>"

definition create_session_with_agent :: "new_session \<Rightarrow> (conv_store, string \<times> string) eff" where
  "create_session_with_agent a = (\<lambda>s.
     (let cid = ns_conversation_id a;
          root = (case ns_parent a of
                    None \<Rightarrow> Inr None
                  | Some p \<Rightarrow> (case get_conversation s p of
                                 None \<Rightarrow> Inl (ConversationNotFoundError (''parent conversation '' @ sq p @ '' does not exist''))
                               | Some c \<Rightarrow> Inr (Some (cv_root c))))
      in (case root of
            Inl err \<Rightarrow> (Inl err, s)
          | Inr root_id \<Rightarrow>
              (case insert_row (new_session_conversation_row a root_id) s of
                 (Inl err, s1) \<Rightarrow> (Inl err, s1)
               | (Inr _, s1) \<Rightarrow>
                   (let s2 = (if list_or (ns_labels a) \<noteq> [] then upsert_labels cid (list_or (ns_labels a)) s1 else s1)
                    in if get_agent s2 (ag_id (ns_agent a)) \<noteq> None then (Inl (unique_failed ''agents''), s2)
                       else (Inr (cid, ag_id (ns_agent a)),
                             (update_conv cid (\<lambda>c. c\<lparr>cv_meta := Some (new_session_metadata_row a)\<rparr>) s2)
                               \<lparr>st_agents := st_agents s2 @ [ns_agent a]\<rparr>))))))"

subsection \<open>Bindings\<close>

definition meta_of :: "conv_store \<Rightarrow> string \<Rightarrow> conv_meta option" where
  "meta_of s cid = Option.bind (get_conversation s cid) cv_meta"

definition set_runner_id :: "string \<Rightarrow> string \<Rightarrow> conv_store \<Rightarrow> bool \<times> conv_store" where
  "set_runner_id cid runner_id s =
     (case meta_of s cid of
        None \<Rightarrow> (False, s)
      | Some m \<Rightarrow> if cm_runner_id m = None then (True, update_meta cid (\<lambda>m. m\<lparr>cm_runner_id := Some runner_id\<rparr>) s)
                  else (False, s))"









definition list_conversations_by_runner_id :: "conv_store \<Rightarrow> string \<Rightarrow> conversation list" where
  "list_conversations_by_runner_id s runner_id =
     filter (\<lambda>c. Option.bind (cv_meta c) cm_runner_id = Some runner_id) (st_convs s)"

subsection \<open>Updates\<close>






subsection \<open>Fork\<close>

record fork_request =
  fq_source :: string
  fq_new_id :: string
  fq_rowid :: nat
  fq_now :: int
  fq_item_id :: "nat \<Rightarrow> string"
  fq_title :: "string option"
  fq_agent_id :: "string option"
  fq_cloned_agent_name :: "string option"
  fq_cloned_agent_bundle_location :: "string option"
  fq_cloned_agent_description :: "string option"
  fq_copy_model_settings :: bool
  fq_copy_terminal_launch_args :: bool
  fq_carry_history_into_native :: bool
  fq_resume_source_native_session :: bool
  fq_presentation_labels :: "string dict option"
  fq_up_to_response_id :: "string option"

definition fork_title :: "fork_request \<Rightarrow> conversation \<Rightarrow> string" where
  "fork_title q source =
     (case fq_title q of
        Some t \<Rightarrow> t
      | None \<Rightarrow> if cv_title source \<noteq> [] then ''Fork of '' @ cv_title source
                else ''Fork of '' @ take 16 (fq_source q) @ [CHR 0xE2, CHR 0x80, CHR 0xA6])"

definition fork_row :: "fork_request \<Rightarrow> conversation \<Rightarrow> conversation" where
  "fork_row q source =
     (let keep = (\<lambda>v. if fq_copy_model_settings q then v else None)
      in (blank_conversation (fq_new_id q) (fq_rowid q) (fq_now q))
           \<lparr>cv_title := fork_title q source,
            cv_agent_id := (if fq_agent_id q \<noteq> None then fq_agent_id q else cv_agent_id source),
            cv_reasoning_effort := keep (cv_reasoning_effort source),
            cv_model_override := keep (cv_model_override source),
            cv_harness_override := keep (cv_harness_override source)\<rparr>)"

text \<open>The position of the last item of a response.\<close>

definition response_cutoff :: "conv_store \<Rightarrow> string \<Rightarrow> string \<Rightarrow> int option" where
  "response_cutoff s cid response_id =
     (let rows = filter (\<lambda>r. ci_conversation r = cid \<and> ci_response_id r = response_id) (st_items s) in
      if rows = [] then None else Some (Max (set (map ci_position rows))))"

definition fork_cutoff :: "fork_request \<Rightarrow> conv_store \<Rightarrow> int option res" where
  "fork_cutoff q s =
     (case fq_up_to_response_id q of
        None \<Rightarrow> Inr None
      | Some response_id \<Rightarrow>
          (case response_cutoff s (fq_source q) response_id of
             None \<Rightarrow> Inl (ValueError (''response not found in conversation '' @ sq (fq_source q) @ '': '' @ sq response_id))
           | Some cutoff \<Rightarrow> Inr (Some cutoff)))"

definition fork_truncated :: "fork_request \<Rightarrow> int option \<Rightarrow> conv_store \<Rightarrow> bool" where
  "fork_truncated q cutoff s = (case cutoff of None \<Rightarrow> False | Some p \<Rightarrow> p < max_position s (fq_source q))"

definition fork_source_rows :: "fork_request \<Rightarrow> int option \<Rightarrow> conv_store \<Rightarrow> item_row list" where
  "fork_source_rows q cutoff s =
     sort_key ci_position (filter (\<lambda>r. ci_conversation r = fq_source q \<and> opt_all (\<lambda>p. ci_position r \<le> p) cutoff) (st_items s))"

definition fork_item :: "fork_request \<Rightarrow> nat \<Rightarrow> item_row \<Rightarrow> item_row" where
  "fork_item q i src =
     src\<lparr>ci_id := fq_item_id q i, ci_conversation := fq_new_id q, ci_created_at := fq_now q, ci_position := int i\<rparr>"

fun fork_items :: "fork_request \<Rightarrow> nat \<Rightarrow> item_row list \<Rightarrow> item_row list \<Rightarrow> item_row list res" where
  "fork_items q i [] table = Inr table"
| "fork_items q i (src # srcs) table =
     (if item_key (fork_item q i src) \<in> set (map item_key table) then Inl (unique_failed ''conversation_items'')
      else fork_items q (i + 1) srcs (table @ [fork_item q i src]))"

definition fork_labels :: "fork_request \<Rightarrow> bool \<Rightarrow> conv_meta option \<Rightarrow> string dict \<Rightarrow> string dict" where
  "fork_labels q truncated meta source_labels =
     (let labels = filter (\<lambda>(k, v). k \<notin> set INSTANCE_SCOPED_LABEL_KEYS \<union> set IMPORT_PROVENANCE_LABEL_KEYS) source_labels;
          workspace = Option.bind meta cm_workspace;
          ext = Option.bind meta cm_external_session_id;
          labels = (if workspace \<noteq> None then dict_set FORK_SOURCE_LABEL_KEY (fq_source q) labels else labels);
          labels = (if str_truthy ext \<and> \<not> truncated \<and> fq_resume_source_native_session q
                    then dict_set FORK_SOURCE_EXTERNAL_SESSION_LABEL_KEY (the ext) labels else labels);
          labels = (if fq_carry_history_into_native q then dict_set FORK_CARRY_HISTORY_LABEL_KEY ''1'' labels else labels)
      in (case fq_presentation_labels q of
            None \<Rightarrow> labels
          | Some presentation \<Rightarrow>
              dict_update (dict_pop WRAPPER_LABEL_KEY (dict_pop UI_MODE_LABEL_KEY labels)) presentation))"

definition fork_conversation :: "fork_request \<Rightarrow> (conv_store, string) eff" where
  "fork_conversation q = (\<lambda>s.
     let cid = fq_new_id q; meta = meta_of s (fq_source q) in
     case get_conversation s (fq_source q) of
       None \<Rightarrow> (Inl (lookup_error (fq_source q)), s)
     | Some source \<Rightarrow>
         (case insert_row (fork_row q source) s of
            (Inl err, _) \<Rightarrow> (Inl err, s)
          | (Inr _, s1) \<Rightarrow>
              (case fork_cutoff q s of
                 Inl err \<Rightarrow> (Inl err, s)
               | Inr cutoff \<Rightarrow>
                   let rows = fork_source_rows q cutoff s in
                   (case fork_items q 0 rows (st_items s) of
                      Inl err \<Rightarrow> (Inl err, s)
                    | Inr table \<Rightarrow>
                        if fq_cloned_agent_bundle_location q \<noteq> None \<and> (fq_agent_id q = None \<or> fq_cloned_agent_name q = None)
                        then (Inl (OtherError ''AssertionError''), s)
                        else
                          (let labels = fork_labels q (fork_truncated q cutoff s) meta (fetch_labels s (fq_source q));
                               s2 = update_conv cid (\<lambda>c. c\<lparr>cv_next_position := Some (int (length rows))\<rparr>)
                                      (s1\<lparr>st_items := table\<rparr>);
                               s3 = (if labels \<noteq> [] then upsert_labels cid labels s2 else s2);
                               args = (if fq_copy_terminal_launch_args q then Option.bind meta cm_terminal_launch_args else None);
                               s4 = update_conv cid (\<lambda>c. c\<lparr>cv_meta := Some (empty_meta\<lparr>cm_terminal_launch_args := args\<rparr>)\<rparr>) s3
                           in if fq_cloned_agent_bundle_location q = None then (Inr cid, s4)
                              else if get_agent s3 (the (fq_agent_id q)) \<noteq> None then (Inl (unique_failed ''agents''), s3)
                              else (Inr cid, s4\<lparr>st_agents := st_agents s4 @
                                     [new_session_agent_row (the (fq_agent_id q)) (the (fq_cloned_agent_name q))
                                        (the (fq_cloned_agent_bundle_location q)) (fq_cloned_agent_description q) (fq_now q)]\<rparr>))))))"

subsection \<open>Switch of the agent\<close>

record switch_request =
  sw_conversation_id :: string
  sw_now :: int
  sw_new_agent_id :: string
  sw_new_agent_name :: string
  sw_new_agent_bundle_location :: string
  sw_new_agent_description :: "string option"
  sw_copy_model_settings :: bool
  sw_carry_history_into_native :: bool
  sw_presentation_labels :: "string dict"
  sw_previous_builtin_id :: "string option"

definition switch_drop_keys :: "switch_request \<Rightarrow> string list" where
  "switch_drop_keys q =
     INSTANCE_SCOPED_LABEL_KEYS @ [FORK_SOURCE_LABEL_KEY, FORK_SOURCE_EXTERNAL_SESSION_LABEL_KEY, UI_MODE_LABEL_KEY,
       WRAPPER_LABEL_KEY, SWITCH_PREVIOUS_BUILTIN_LABEL_KEY] @
     (if sw_carry_history_into_native q then [] else [FORK_CARRY_HISTORY_LABEL_KEY])"

definition switch_upserts :: "switch_request \<Rightarrow> string dict" where
  "switch_upserts q =
     (let upserts = sw_presentation_labels q;
          upserts = (if sw_carry_history_into_native q then dict_set FORK_CARRY_HISTORY_LABEL_KEY ''1'' upserts else upserts)
      in (case sw_previous_builtin_id q of
            None \<Rightarrow> upserts | Some b \<Rightarrow> dict_set SWITCH_PREVIOUS_BUILTIN_LABEL_KEY b upserts))"

definition delete_labels :: "string \<Rightarrow> string list \<Rightarrow> conv_store \<Rightarrow> conv_store" where
  "delete_labels cid keys s =
     s\<lparr>st_labels := dict_set cid (filter (\<lambda>(k, v). k \<notin> set keys) (fetch_labels s cid)) (st_labels s)\<rparr>"

definition switch_row :: "switch_request \<Rightarrow> conversation \<Rightarrow> conversation" where
  "switch_row q c =
     c\<lparr>cv_agent_id := Some (sw_new_agent_id q),
       cv_model_override := (if sw_copy_model_settings q then cv_model_override c else None),
       cv_reasoning_effort := (if sw_copy_model_settings q then cv_reasoning_effort c else None),
       cv_harness_override := None, cv_updated_at := sw_now q\<rparr>"

definition delete_session_agent :: "string option \<Rightarrow> conv_store \<Rightarrow> conv_store" where
  "delete_session_agent agent_id s =
     s\<lparr>st_agents := filter (\<lambda>a. \<not> (Some (ag_id a) = agent_id \<and> ag_kind a = ''session'')) (st_agents s)\<rparr>"

definition switch_conversation_agent :: "switch_request \<Rightarrow> (conv_store, conversation) eff" where
  "switch_conversation_agent q = (\<lambda>s.
     let cid = sw_conversation_id q in
     case get_conversation s cid of
       None \<Rightarrow> (Inl (lookup_error cid), s)
     | Some row \<Rightarrow>
         (let s1 = delete_labels cid (switch_drop_keys q) (update_conv cid (switch_row q) s);
              s2 = (if switch_upserts q \<noteq> [] then upsert_labels cid (switch_upserts q) s1 else s1);
              s3 = delete_session_agent (cv_agent_id row) s2
          in if get_agent s3 (sw_new_agent_id q) \<noteq> None then (Inl (unique_failed ''agents''), s2)
             else
               (let s4 = s3\<lparr>st_agents := st_agents s3 @
                      [new_session_agent_row (sw_new_agent_id q) (sw_new_agent_name q) (sw_new_agent_bundle_location q)
                         (sw_new_agent_description q) (sw_now q)]\<rparr>;
                    s5 = update_meta cid (\<lambda>m. m\<lparr>cm_external_session_id := None, cm_terminal_launch_args := None\<rparr>) s4
                in (case get_conversation s5 cid of None \<Rightarrow> Inl (lookup_error cid) | Some c \<Rightarrow> Inr c, s5))))"

subsection \<open>Deletion\<close>

text \<open>
  The recursive query: each round adds the children of the rows of the round before. On a tree it ends after at most as
  many rounds as there are rows.
\<close>

fun subtree_rounds :: "nat \<Rightarrow> conversation list \<Rightarrow> string list \<Rightarrow> string list" where
  "subtree_rounds 0 cs level = level"
| "subtree_rounds (Suc n) cs level =
     (if level = [] then []
      else level @ subtree_rounds n cs
        (map cv_id (concat (map (\<lambda>i. filter (\<lambda>c. cv_parent c = Some i) cs) level))))"

definition subtree_ids :: "conv_store \<Rightarrow> string \<Rightarrow> string list" where
  "subtree_ids s cid =
     subtree_rounds (length (st_convs s)) (st_convs s) (map cv_id (filter (\<lambda>c. cv_id c = cid) (st_convs s)))"

definition agent_refs :: "conversation list \<Rightarrow> string list" where
  "agent_refs cs = List.map_filter cv_agent_id cs"

definition bound_agent_ids :: "conv_store \<Rightarrow> string list \<Rightarrow> string list" where
  "bound_agent_ids s ids =
     (let candidates = agent_refs (filter (\<lambda>c. cv_id c \<in> set ids) (st_convs s));
          surviving_refs = agent_refs (filter (\<lambda>c. cv_id c \<notin> set ids) (st_convs s))
      in filter (\<lambda>a. a \<notin> set surviving_refs) candidates)"

definition delete_conversation ::
    "string \<Rightarrow> conv_store \<times> stored_policy list \<Rightarrow> bool \<times> conv_store \<times> stored_policy list" where
  "delete_conversation cid sp =
     (let (s, policies) = sp in
      if get_conversation s cid = None then (False, s, policies)
      else
        (let ids = subtree_ids s cid;
             agents = bound_agent_ids s ids;
             s1 = s\<lparr>st_items := filter (\<lambda>r. ci_conversation r \<notin> set ids) (st_items s),
                    st_labels := filter (\<lambda>(c, ls). c \<notin> set ids) (st_labels s),
                    st_convs := filter (\<lambda>c. cv_id c \<notin> set ids) (st_convs s)\<rparr>;
             s2 = s1\<lparr>st_comments := filter (\<lambda>(c, txt). c \<notin> set ids) (st_comments s1),
                     st_permissions := filter (\<lambda>p. pm_conversation p \<notin> set ids) (st_permissions s1),
                     st_agents := filter (\<lambda>a. \<not> (ag_id a \<in> set agents \<and> ag_kind a = ''session'')) (st_agents s1)\<rparr>
         in (True, s2, filter (\<lambda>p. \<forall>i \<in> set ids. sd_session_id p \<noteq> Some i) policies)))"

subsection \<open>Invariant of the session tables\<close>

definition parent_edges :: "conversation list \<Rightarrow> (string \<times> string) set" where
  "parent_edges cs = {(p, n). \<exists>c \<in> set cs. cv_parent c = Some p \<and> cv_id c = n}"

text \<open>The conversation and all its descendants.\<close>

definition subtree_of :: "conversation list \<Rightarrow> string \<Rightarrow> string set" where
  "subtree_of cs cid = (parent_edges cs)\<^sup>* `` {cid}"

text \<open>
  Rows hang in spawn trees, every one reachable from its root; items are consistent; a conversation is bound to an agent
  that exists.
\<close>

definition agents_ok :: "conv_store \<Rightarrow> bool" where
  "agents_ok s \<longleftrightarrow> (\<forall>c \<in> set (st_convs s). \<forall>a. cv_agent_id c = Some a \<longrightarrow> a \<in> ag_id ` set (st_agents s))"

definition rooted :: "conv_store \<Rightarrow> bool" where
  "rooted s \<longleftrightarrow> (\<forall>c \<in> set (st_convs s). cv_id c \<in> subtree_of (st_convs s) (cv_root c))"

definition sessions_ok :: "conv_store \<Rightarrow> bool" where
  "sessions_ok s \<longleftrightarrow> store_ok s \<and> rooted s \<and> items_ok s \<and> agents_ok s"

subsection \<open>Lemmas: the recursive query\<close>

lemma finite_parent_edges: "finite (parent_edges cs)" "card (parent_edges cs) \<le> length cs"
proof -
  have sub: "parent_edges cs \<subseteq> (\<lambda>c. (the (cv_parent c), cv_id c)) ` set cs"
    by (force simp: parent_edges_def)
  then show "finite (parent_edges cs)" by (rule finite_subset) simp
  have "card (parent_edges cs) \<le> card ((\<lambda>c. (the (cv_parent c), cv_id c)) ` set cs)"
    using sub by (rule card_mono [rotated]) simp
  also have "\<dots> \<le> length cs" using card_image_le [of "set cs"] card_length [of cs] by (metis List.finite_set le_trans)
  finally show "card (parent_edges cs) \<le> length cs" .
qed

lemma subtree_rounds_set:
  "set (subtree_rounds n cs level) = (\<Union>k \<le> n. (parent_edges cs ^^ k) `` set level)"
proof (induction n arbitrary: level)
  case 0
  then show ?case by simp
next
  case (Suc n)
  have children: "set (map cv_id (concat (map (\<lambda>i. filter (\<lambda>c. cv_parent c = Some i) cs) level))) = parent_edges cs `` set level"
    by (auto simp: parent_edges_def)
  have step: "(parent_edges cs ^^ k) `` (parent_edges cs `` A) = (parent_edges cs ^^ Suc k) `` A" for k A
    by (simp add: relcomp_Image [symmetric] relpow_commute)
  have "(\<Union>k \<le> Suc n. (parent_edges cs ^^ k) `` set level) =
      set level \<union> (\<Union>k \<le> n. (parent_edges cs ^^ Suc k) `` set level)"
    unfolding atMost_Suc_eq_insert_0 by simp
  then show ?case
    using Suc.IH children by (cases "level = []") (simp_all add: step del: relpow.simps(2))
qed

lemma subtree_ids_set:
  assumes "get_conversation s cid \<noteq> None"
  shows "set (subtree_ids s cid) = subtree_of (st_convs s) cid"
proof -
  let ?R = "parent_edges (st_convs s)"
  have start: "set (map cv_id (filter (\<lambda>c. cv_id c = cid) (st_convs s))) = {cid}"
    using assms by (auto simp: get_conversation_None)
  have "(\<Union>k \<le> length (st_convs s). (?R ^^ k) `` {cid}) = ?R\<^sup>* `` {cid}"
  proof (rule equalityI)
    show "(\<Union>k \<le> length (st_convs s). (?R ^^ k) `` {cid}) \<subseteq> ?R\<^sup>* `` {cid}" by (auto dest: relpow_imp_rtrancl)
    show "?R\<^sup>* `` {cid} \<subseteq> (\<Union>k \<le> length (st_convs s). (?R ^^ k) `` {cid})"
      using rtrancl_finite_eq_relpow [OF finite_parent_edges(1) [of "st_convs s"]] finite_parent_edges(2) [of "st_convs s"]
      by (force intro: le_trans)
  qed
  then show ?thesis unfolding subtree_ids_def subtree_rounds_set start subtree_of_def .
qed


lemma subtree_step_up:
  "n \<in> subtree_of cs cid \<Longrightarrow> n \<noteq> cid \<Longrightarrow> \<exists>p \<in> subtree_of cs cid. (p, n) \<in> parent_edges cs"
  by (auto simp: subtree_of_def elim: rtranclE)



lemma same_id_same_row:
  "store_ok s \<Longrightarrow> c \<in> set (st_convs s) \<Longrightarrow> d \<in> set (st_convs s) \<Longrightarrow> cv_id c = cv_id d \<Longrightarrow> c = d"
  by (auto simp: store_ok_def distinct_map inj_on_def)


text \<open>What deletion leaves of every table.\<close>

lemma delete_conversation_tables:
  assumes "get_conversation s cid \<noteq> None" and "delete_conversation cid (s, ps) = (r, s', ps')"
  shows "r \<and> st_convs s' = filter (\<lambda>c. cv_id c \<notin> subtree_of (st_convs s) cid) (st_convs s) \<and>
    st_items s' = filter (\<lambda>i. ci_conversation i \<notin> subtree_of (st_convs s) cid) (st_items s) \<and>
    st_labels s' = filter (\<lambda>(c, ls). c \<notin> subtree_of (st_convs s) cid) (st_labels s) \<and>
    st_permissions s' = filter (\<lambda>p. pm_conversation p \<notin> subtree_of (st_convs s) cid) (st_permissions s) \<and>
    st_comments s' = filter (\<lambda>(c, txt). c \<notin> subtree_of (st_convs s) cid) (st_comments s) \<and>
    ps' = filter (\<lambda>p. \<forall>i \<in> subtree_of (st_convs s) cid. sd_session_id p \<noteq> Some i) ps \<and>
    st_agents s' = filter (\<lambda>a. \<not> (ag_kind a = ''session'' \<and>
      ag_id a \<in> set (agent_refs (filter (\<lambda>c. cv_id c \<in> subtree_of (st_convs s) cid) (st_convs s))) \<and>
      ag_id a \<notin> set (agent_refs (filter (\<lambda>c. cv_id c \<notin> subtree_of (st_convs s) cid) (st_convs s))))) (st_agents s)"
proof -
  have "(if get_conversation s cid = None then P else Q) = Q" for P Q :: "bool \<times> conv_store \<times> stored_policy list"
    by (rule if_not_P [OF assms(1)])
  then show ?thesis
    using assms(2) subtree_ids_set [OF assms(1)]
    by (auto simp: delete_conversation_def Let_def bound_agent_ids_def conj_ac intro!: filter_cong)
qed

lemma mem_agent_refs: "a \<in> set (agent_refs cs) \<longleftrightarrow> (\<exists>c \<in> set cs. cv_agent_id c = Some a)"
  by (force simp: agent_refs_def List.map_filter_def)



subsection \<open>Lemmas: new rows\<close>








lemma sessions_ok_cong:
  assumes "st_convs s' = st_convs s" and "st_items s' = st_items s" and "st_agents s' = st_agents s"
  shows "sessions_ok s' = sessions_ok s"
  using assms by (simp add: sessions_ok_def store_ok_def rooted_def items_ok_def agents_ok_def)









lemma insert_row_cases:
  assumes "insert_row c s = (r, s')"
  obtains err where "r = Inl err" "s' = s"
  | "r = Inr ()" "get_conversation s (cv_id c) = None" "s' = s\<lparr>st_convs := st_convs s @ [c]\<rparr>"
proof (cases "get_conversation s (cv_id c) \<noteq> None \<or> title_taken s (cv_id c) (cv_parent c) (cv_title c)")
  case True
  then have "r = Inl (unique_failed ''conversations'') \<and> s' = s" using assms by (auto simp: insert_row_def)
  then show thesis using that(1) by blast
next
  case False
  then have "r = Inr () \<and> get_conversation s (cv_id c) = None \<and> s' = s\<lparr>st_convs := st_convs s @ [c]\<rparr>"
    using assms by (auto simp: insert_row_def)
  then show thesis by (intro that(2)) simp_all
qed

lemma get_agent_Some: "get_agent s a \<noteq> None \<longleftrightarrow> a \<in> ag_id ` set (st_agents s)"
  by (auto simp: get_agent_def find_None_iff)


subsection \<open>Lemmas: fork\<close>

lemma update_conv_last:
  assumes "get_conversation s cid = None" and "cv_id c = cid"
  shows "map (\<lambda>d. if cv_id d = cid then f d else d) (st_convs s @ [c]) = st_convs s @ [f c]"
proof -
  have "map (\<lambda>d. if cv_id d = cid then f d else d) (st_convs s) = st_convs s"
    by (rule map_idI) (use assms(1) in \<open>metis get_conversation_None imageI\<close>)
  then show ?thesis using assms(2) by simp
qed

text \<open>The items that a fork adds, in order.\<close>

fun forked :: "fork_request \<Rightarrow> nat \<Rightarrow> item_row list \<Rightarrow> item_row list" where
  "forked q i [] = []"
| "forked q i (src # srcs) = fork_item q i src # forked q (i + 1) srcs"

lemma fork_items_rows: "fork_items q i rows table = Inr table' \<Longrightarrow> table' = table @ forked q i rows"
  by (induction rows arbitrary: i table) (force split: if_splits)+

lemma forked_nth: "k < length rows \<Longrightarrow> forked q i rows ! k = fork_item q (i + k) (rows ! k)"
  by (induction rows arbitrary: i k) (auto simp: nth_Cons split: nat.splits)

lemma length_forked [simp]: "length (forked q i rows) = length rows"
  by (induction rows arbitrary: i) simp_all

lemma forked_mem: "r \<in> set (forked q i rows) \<Longrightarrow> \<exists>k src. src \<in> set rows \<and> i \<le> k \<and> k < i + length rows \<and> r = fork_item q k src"
proof (induction rows arbitrary: i)
  case (Cons src rows)
  show ?case
  proof (cases "r = fork_item q i src")
    case True
    then show ?thesis by (intro exI [of _ i] exI [of _ src]) simp
  next
    case False
    then obtain k src' where "src' \<in> set rows" "i + 1 \<le> k" "k < i + 1 + length rows" "r = fork_item q k src'"
      using Cons.IH [of "i + 1"] Cons.prems by auto
    then show ?thesis by (intro exI [of _ k] exI [of _ src']) simp
  qed
qed simp


lemma forked_positions: "map ci_position (forked q i rows) = map int [i..<i + length rows]"
  by (rule nth_equalityI) (simp_all add: forked_nth fork_item_def)

lemma fetch_labels_upsert:
  "fetch_labels (upsert_labels cid upd s) c =
     (if c = cid then dict_update (fetch_labels s cid) (upsert_rows upd) else fetch_labels s c)"
  by (simp add: upsert_labels_def fetch_labels_def dict_get_or_def)

definition fork_meta :: "fork_request \<Rightarrow> conv_store \<Rightarrow> conv_meta" where
  "fork_meta q s = empty_meta\<lparr>cm_terminal_launch_args :=
     (if fq_copy_terminal_launch_args q then Option.bind (meta_of s (fq_source q)) cm_terminal_launch_args else None)\<rparr>"

lemma fork_run:
  assumes "fork_conversation q s = (r, s')"
  obtains err where "r = Inl err" "s' = s"
  | source cutoff m extra where
      "get_conversation s (fq_source q) = Some source" "get_conversation s (fq_new_id q) = None"
      "fork_cutoff q s = Inr cutoff"
      "st_convs s' = st_convs s @ [(fork_row q source)
         \<lparr>cv_next_position := Some (int (length (fork_source_rows q cutoff s))), cv_meta := m\<rparr>]"
      "st_items s' = st_items s @ forked q 0 (fork_source_rows q cutoff s)"
      "\<And>c. fetch_labels s' c =
         (if c = fq_new_id q \<and> fork_labels q (fork_truncated q cutoff s) (meta_of s (fq_source q)) (fetch_labels s (fq_source q)) \<noteq> []
          then dict_update (fetch_labels s c) (upsert_rows
            (fork_labels q (fork_truncated q cutoff s) (meta_of s (fq_source q)) (fetch_labels s (fq_source q))))
          else fetch_labels s c)"
      "st_agents s' = st_agents s @ extra"
      "fq_cloned_agent_bundle_location q \<noteq> None \<Longrightarrow> \<exists>a. fq_agent_id q = Some a \<and> a \<in> ag_id ` set (st_agents s')"
      "r = Inr (fq_new_id q) \<and> m = Some (fork_meta q s) \<or> (\<exists>err. r = Inl err)"
proof (cases "get_conversation s (fq_source q)")
  case None
  then have "r = Inl (lookup_error (fq_source q)) \<and> s' = s" using assms by (auto simp: fork_conversation_def Let_def)
  then show ?thesis using that(1) by blast
next
  case (Some source)
  let ?c = "fork_row q source"
  have cid: "cv_id ?c = fq_new_id q" by (simp add: fork_row_def blank_conversation_def Let_def)
  obtain r1 s1 where ins: "insert_row ?c s = (r1, s1)" by fastforce
  then show ?thesis
  proof (cases rule: insert_row_cases)
    case (1 err)
    then have "r = Inl err \<and> s' = s" using assms Some ins by (auto simp: fork_conversation_def Let_def)
    then show ?thesis using that(1) by blast
  next
    case 2
    have new: "get_conversation s (fq_new_id q) = None" using 2(2) by (simp add: cid)
    show ?thesis
    proof (cases "fork_cutoff q s")
      case (Inl err)
      then have "r = Inl err \<and> s' = s" using assms Some ins 2(1) by (auto simp: fork_conversation_def Let_def)
      then show ?thesis using that(1) by blast
    next
      case (Inr cutoff)
      define rows where "rows = fork_source_rows q cutoff s"
      define labels where "labels = fork_labels q (fork_truncated q cutoff s) (meta_of s (fq_source q)) (fetch_labels s (fq_source q))"
      show ?thesis
      proof (cases "fork_items q 0 rows (st_items s)")
        case (Inl err)
        then have "r = Inl err \<and> s' = s" using assms Some ins 2(1) Inr by (auto simp: fork_conversation_def Let_def rows_def)
        then show ?thesis using that(1) by blast
      next
        case items: (Inr table)
        have table: "table = st_items s @ forked q 0 rows" by (rule fork_items_rows [OF items])
        define s2 where "s2 = update_conv (fq_new_id q) (\<lambda>c. c\<lparr>cv_next_position := Some (int (length rows))\<rparr>) (s1\<lparr>st_items := table\<rparr>)"
        define s3 where "s3 = (if labels \<noteq> [] then upsert_labels (fq_new_id q) labels s2 else s2)"
        define s4 where "s4 = update_conv (fq_new_id q) (\<lambda>c. c\<lparr>cv_meta := Some (fork_meta q s)\<rparr>) s3"
        let ?location = "fq_cloned_agent_bundle_location q"
        have result: "fork_conversation q s =
          (if ?location \<noteq> None \<and> (fq_agent_id q = None \<or> fq_cloned_agent_name q = None) then (Inl (OtherError ''AssertionError''), s)
           else if ?location = None then (Inr (fq_new_id q), s4)
           else if get_agent s3 (the (fq_agent_id q)) \<noteq> None then (Inl (unique_failed ''agents''), s3)
           else (Inr (fq_new_id q), s4\<lparr>st_agents := st_agents s4 @
                  [new_session_agent_row (the (fq_agent_id q)) (the (fq_cloned_agent_name q)) (the ?location)
                     (fq_cloned_agent_description q) (fq_now q)]\<rparr>))"
          unfolding fork_conversation_def Let_def
          by (simp only: Some option.case sum.case prod.case ins [unfolded 2(1)] Inr rows_def [symmetric] items labels_def [symmetric]
              s2_def [symmetric] s3_def [symmetric] fork_meta_def [symmetric] s4_def [symmetric])
        let ?c2 = "?c\<lparr>cv_next_position := Some (int (length rows))\<rparr>"
        have s3: "st_convs s3 = st_convs s @ [?c2]" "st_items s3 = st_items s @ forked q 0 rows" "st_agents s3 = st_agents s"
          using update_conv_last [OF new cid] by (simp_all add: s3_def s2_def 2(3) update_conv_def upsert_labels_def table)
        have s4: "st_convs s4 = st_convs s @ [?c2\<lparr>cv_meta := Some (fork_meta q s)\<rparr>]" "st_items s4 = st_items s3" "st_agents s4 = st_agents s"
            "st_labels s4 = st_labels s3"
          using update_conv_last [OF new, of ?c2] cid by (simp_all add: s4_def update_conv_def s3)
        have lab: "fetch_labels s3 c = (if c = fq_new_id q \<and> labels \<noteq> [] then dict_update (fetch_labels s c) (upsert_rows labels)
            else fetch_labels s c)" for c
          by (simp add: s3_def fetch_labels_upsert) (simp add: s2_def update_conv_def 2(3) fetch_labels_def)
        have lab4: "fetch_labels (s4\<lparr>st_agents := x\<rparr>) c = fetch_labels s3 c" "fetch_labels s4 c = fetch_labels s3 c" for c x
          by (simp_all add: fetch_labels_def s4)
        consider (assertion) "fork_conversation q s = (Inl (OtherError ''AssertionError''), s)"
          | (plain) "?location = None" "fork_conversation q s = (Inr (fq_new_id q), s4)"
          | (taken) a where "fq_agent_id q = Some a" "get_agent s3 a \<noteq> None" "fork_conversation q s = (Inl (unique_failed ''agents''), s3)"
          | (clone) a g where "fq_agent_id q = Some a" "ag_id g = a"
              "fork_conversation q s = (Inr (fq_new_id q), s4\<lparr>st_agents := st_agents s4 @ [g]\<rparr>)"
        proof (cases "?location \<noteq> None \<and> fq_agent_id q \<noteq> None \<and> fq_cloned_agent_name q \<noteq> None")
          case False
          then show thesis using result assertion plain by (cases ?location) auto
        next
          case True
          then obtain b a n where ids: "?location = Some b" "fq_agent_id q = Some a" "fq_cloned_agent_name q = Some n" by auto
          show thesis
          proof (cases "get_agent s3 a = None")
            case True
            then show thesis
              using result ids by (intro clone [of a "new_session_agent_row a n b (fq_cloned_agent_description q) (fq_now q)"])
                (simp_all add: new_session_agent_row_def)
          next
            case False
            then show thesis using result ids by (intro taken [of a]) simp_all
          qed
        qed
        then show ?thesis
        proof cases
          case assertion
          then have "r = Inl (OtherError ''AssertionError'') \<and> s' = s" using assms by auto
          then show ?thesis using that(1) by blast
        next
          case plain
          then have s': "r = Inr (fq_new_id q)" "s' = s4" using assms by auto
          show ?thesis
            by (rule that(2) [OF Some new Inr, where m = "Some (fork_meta q s)" and extra = "[]"])
              (simp_all add: s' s3 s4 lab lab4 plain(1) rows_def [symmetric] labels_def [symmetric])
        next
          case (taken a)
          then have s': "r = Inl (unique_failed ''agents'')" "s' = s3" using assms by auto
          have "a \<in> ag_id ` set (st_agents s)" using taken(2) get_agent_Some [of s3 a] by (simp add: s3)
          then show ?thesis
            by (intro that(2) [OF Some new Inr, where m = None and extra = "[]"])
              (simp_all add: s' s3 lab taken(1) rows_def [symmetric] labels_def [symmetric]
                fork_row_def blank_conversation_def Let_def)
        next
          case (clone a g)
          then have s': "r = Inr (fq_new_id q)" "s' = s4\<lparr>st_agents := st_agents s4 @ [g]\<rparr>" using assms by auto
          show ?thesis
            by (rule that(2) [OF Some new Inr, where m = "Some (fork_meta q s)" and extra = "[g]"])
              (simp_all add: s' s3 s4 lab lab4 clone(1,2) rows_def [symmetric] labels_def [symmetric])
        qed
      qed
    qed
  qed
qed

lemma fork_row_fields:
  "cv_id (fork_row q c) = fq_new_id q" "cv_rowid (fork_row q c) = fq_rowid q" "cv_parent (fork_row q c) = None"
  "cv_root (fork_row q c) = fq_new_id q"
  "cv_agent_id (fork_row q c) = (if fq_agent_id q \<noteq> None then fq_agent_id q else cv_agent_id c)"
  by (simp_all add: fork_row_def blank_conversation_def Let_def)







lemma filter_up_to_sorted:
  fixes f :: "'a \<Rightarrow> int"
  assumes "sorted_wrt (\<lambda>x y. f x < f y) xs" and "j < length xs"
  shows "filter (\<lambda>x. f x \<le> f (xs ! j)) xs = take (Suc j) xs"
proof -
  have split: "xs = take (Suc j) xs @ drop (Suc j) xs" by simp
  have low: "\<forall>x \<in> set (take (Suc j) xs). f x \<le> f (xs ! j)"
  proof
    fix x
    assume "x \<in> set (take (Suc j) xs)"
    then obtain i where "i \<le> j" "x = xs ! i" using assms(2) by (auto simp: in_set_conv_nth less_Suc_eq_le)
    then show "f x \<le> f (xs ! j)"
      using sorted_wrt_nth_less [OF assms(1), of i j] assms(2) by (cases "i = j") auto
  qed
  have high: "\<forall>x \<in> set (drop (Suc j) xs). \<not> f x \<le> f (xs ! j)"
  proof
    fix x
    assume "x \<in> set (drop (Suc j) xs)"
    then obtain k where k: "k < length (drop (Suc j) xs)" "x = drop (Suc j) xs ! k" by (auto simp: in_set_conv_nth)
    define i where "i = Suc j + k"
    have "j < i" "i < length xs" "x = xs ! i" using k by (auto simp: i_def)
    then show "\<not> f x \<le> f (xs ! j)" using sorted_wrt_nth_less [OF assms(1), of j i] by simp
  qed
  have "filter (\<lambda>x. f x \<le> f (xs ! j)) (take (Suc j) xs @ drop (Suc j) xs) = take (Suc j) xs"
    unfolding filter_append using low high by (simp add: filter_True filter_False)
  then show ?thesis by simp
qed

lemma fork_source_rows_prefix:
  assumes ok: "items_ok s" and cutoff: "fork_cutoff q s = Inr cutoff"
  shows "\<exists>n. fork_source_rows q cutoff s = take n (conv_rows s (fq_source q)) \<and>
    (case fq_up_to_response_id q of
       None \<Rightarrow> n = length (conv_rows s (fq_source q))
     | Some r \<Rightarrow> 0 < n \<and> n \<le> length (conv_rows s (fq_source q)) \<and> ci_response_id (conv_rows s (fq_source q) ! (n - 1)) = r \<and>
         (\<forall>i. n \<le> i \<longrightarrow> i < length (conv_rows s (fq_source q)) \<longrightarrow> ci_response_id (conv_rows s (fq_source q) ! i) \<noteq> r))"
proof (cases "fq_up_to_response_id q")
  case None
  then have "cutoff = None" using cutoff by (simp add: fork_cutoff_def)
  then show ?thesis using None by (simp add: fork_source_rows_def conv_rows_def opt_all_def)
next
  case (Some rid)
  let ?T = "conv_rows s (fq_source q)"
  let ?rs = "filter (\<lambda>r. ci_conversation r = fq_source q \<and> ci_response_id r = rid) (st_items s)"
  let ?P = "ci_position ` set ?rs"
  obtain p where p2: "response_cutoff s (fq_source q) rid = Some p"
    using cutoff Some by (cases "response_cutoff s (fq_source q) rid") (auto simp: fork_cutoff_def)
  then have p: "cutoff = Some p" "response_cutoff s (fq_source q) rid = Some p"
    using cutoff Some by (simp_all add: fork_cutoff_def)
  then have ne: "?rs \<noteq> []" and Max: "p = Max ?P"
    by (auto simp: response_cutoff_def Let_def split: if_splits)
  have "p \<in> ?P" unfolding Max by (rule Max_in) (use ne in \<open>auto simp: filter_empty_conv\<close>)
  then obtain x where x: "x \<in> set (st_items s)" "ci_conversation x = fq_source q" "ci_response_id x = rid" "ci_position x = p"
    by auto
  then have "x \<in> set ?T" by (simp add: set_conv_rows)
  then obtain j where j: "j < length ?T" "?T ! j = x" by (auto simp: in_set_conv_nth)
  have strict: "sorted_wrt (\<lambda>r r'. ci_position r < ci_position r') ?T" by (rule conv_rows_strict [OF ok])
  have pj: "ci_position (?T ! j) = p" using j(2) x(4) by simp
  have "fork_source_rows q cutoff s = filter (\<lambda>r. ci_position r \<le> p) ?T"
    unfolding fork_source_rows_def conv_rows_def filter_sort filter_filter p(1)
    by (rule arg_cong [of _ _ "sort_key ci_position"], rule filter_cong) (auto simp: opt_all_def)
  also have "\<dots> = filter (\<lambda>r. ci_position r \<le> ci_position (?T ! j)) ?T" by (simp only: pj)
  also have "\<dots> = take (Suc j) ?T" by (rule filter_up_to_sorted [OF strict j(1)])
  finally have rows: "fork_source_rows q cutoff s = take (Suc j) ?T" .
  have "ci_response_id (?T ! i) \<noteq> rid" if "Suc j \<le> i" "i < length ?T" for i
  proof
    assume r: "ci_response_id (?T ! i) = rid"
    have "?T ! i \<in> set ?T" using that(2) by simp
    then have "ci_position (?T ! i) \<in> ?P" using r by (auto simp: set_conv_rows)
    then have "ci_position (?T ! i) \<le> p" unfolding Max by (rule Max_ge [rotated]) simp
    moreover have "ci_position (?T ! j) < ci_position (?T ! i)" using sorted_wrt_nth_less [OF strict, of j i] that by simp
    ultimately show False using j(2) x(4) by simp
  qed
  then show ?thesis using rows j x(3) Some by (intro exI [of _ "Suc j"]) simp
qed

definition item_content :: "conv_item \<Rightarrow> string \<times> string \<times> string \<times> item_data \<times> string option" where
  "item_content i = (it_type i, it_status i, it_response_id i, it_data i, it_created_by i)"

lemma forked_content: "map (item_content \<circ> to_item) (forked q i rows) = map (item_content \<circ> to_item) rows"
  by (induction rows arbitrary: i) (simp_all add: fork_item_def item_content_def to_item_def)

lemma forked_rows:
  assumes "\<forall>r \<in> set (st_items s). ci_conversation r \<noteq> fq_new_id q" and "st_items s' = st_items s @ forked q 0 rows"
  shows "conv_rows s' (fq_new_id q) = forked q 0 rows"
    and "cid \<noteq> fq_new_id q \<Longrightarrow> conv_rows s' cid = conv_rows s cid"
proof -
  have conv: "\<forall>r \<in> set (forked q 0 rows). ci_conversation r = fq_new_id q"
    using forked_mem by (force simp: fork_item_def)
  have "sorted (map ci_position (forked q 0 rows))" by (simp add: forked_positions sorted_iff_nth_mono)
  then have "sort_key ci_position (forked q 0 rows) = forked q 0 rows" by (rule sort_key_id_if_sorted)
  then show "conv_rows s' (fq_new_id q) = forked q 0 rows"
    using assms conv by (simp add: conv_rows_def filter_False filter_True)
  show "conv_rows s' cid = conv_rows s cid" if "cid \<noteq> fq_new_id q"
    using that conv by (simp add: conv_rows_def assms(2) filter_False)
qed

lemma find_appended: "find P (xs @ ys) = (case find P xs of None \<Rightarrow> find P ys | Some x \<Rightarrow> Some x)"
  by (induction xs) auto

lemma dict_update_keys: "fst ` set (dict_update d upd) = fst ` set d \<union> fst ` set upd"
  unfolding dict_update_def
proof (induction upd arbitrary: d)
  case (Cons kv upd)
  then show ?case using dict_set_keys [of "fst kv" "snd kv" d] by (simp add: case_prod_beta Cons.IH [unfolded case_prod_beta])
qed simp

lemma dict_pop_keys: "fst ` set (dict_pop k d) = fst ` set d - {k}"
  by (force simp: dict_pop_def)

lemmas label_keys = UI_MODE_LABEL_KEY_def WRAPPER_LABEL_KEY_def FORK_SOURCE_LABEL_KEY_def
  FORK_SOURCE_EXTERNAL_SESSION_LABEL_KEY_def FORK_CARRY_HISTORY_LABEL_KEY_def SWITCH_PREVIOUS_BUILTIN_LABEL_KEY_def
  CODEX_NATIVE_BYPASS_SANDBOX_LABEL_KEY_def INSTANCE_SCOPED_LABEL_KEYS_def

lemma fork_label_keys:
  "fst ` set (fork_labels q truncated meta labels) \<subseteq>
     (fst ` set labels - set INSTANCE_SCOPED_LABEL_KEYS) \<union>
     {FORK_SOURCE_LABEL_KEY, FORK_SOURCE_EXTERNAL_SESSION_LABEL_KEY, FORK_CARRY_HISTORY_LABEL_KEY} \<union>
     (case fq_presentation_labels q of None \<Rightarrow> {} | Some presentation \<Rightarrow> fst ` set presentation)"
  unfolding fork_labels_def Let_def
  by (cases "fq_presentation_labels q") (auto simp: dict_set_keys dict_update_keys dict_pop_keys)

lemma fork_labels_instance:
  assumes "k \<in> set INSTANCE_SCOPED_LABEL_KEYS"
    and "\<forall>labels. fq_presentation_labels q = Some labels \<longrightarrow> set (map fst labels) \<inter> set INSTANCE_SCOPED_LABEL_KEYS = {}"
  shows "k \<notin> fst ` set (fork_labels q truncated meta labels)"
proof -
  have "k \<notin> {FORK_SOURCE_LABEL_KEY, FORK_SOURCE_EXTERNAL_SESSION_LABEL_KEY, FORK_CARRY_HISTORY_LABEL_KEY}"
    using assms(1) by (auto simp: label_keys)
  then show ?thesis
    using fork_label_keys [of q truncated meta labels] assms by (cases "fq_presentation_labels q") auto
qed

subsection \<open>Histories of the session tables\<close>




subsection \<open>Properties\<close>


text \<open>
  C12. Deleting a conversation removes it with all its descendants, and every item, label, comment, permission and policy
  of theirs, and nothing else; a session agent goes exactly when only deleted conversations were bound to it.
\<close>

theorem delete_removes_subtree:
  assumes "get_conversation s cid \<noteq> None" and "delete_conversation cid (s, ps) = (r, s', ps')"
  shows "let D = subtree_of (st_convs s) cid in
    r \<and> st_convs s' = filter (\<lambda>c. cv_id c \<notin> D) (st_convs s) \<and>
    st_items s' = filter (\<lambda>i. ci_conversation i \<notin> D) (st_items s) \<and>
    st_labels s' = filter (\<lambda>(c, ls). c \<notin> D) (st_labels s) \<and>
    st_permissions s' = filter (\<lambda>p. pm_conversation p \<notin> D) (st_permissions s) \<and>
    st_comments s' = filter (\<lambda>(c, txt). c \<notin> D) (st_comments s) \<and>
    ps' = filter (\<lambda>p. \<forall>i \<in> D. sd_session_id p \<noteq> Some i) ps \<and>
    (\<forall>a. a \<in> set (st_agents s') \<longleftrightarrow> a \<in> set (st_agents s) \<and> \<not> (ag_kind a = ''session'' \<and>
       (\<exists>c \<in> set (st_convs s). cv_id c \<in> D \<and> cv_agent_id c = Some (ag_id a)) \<and>
       \<not> (\<exists>c \<in> set (st_convs s). cv_id c \<notin> D \<and> cv_agent_id c = Some (ag_id a))))"
  using delete_conversation_tables [OF assms] by (auto simp: Let_def mem_agent_refs)

text \<open>
  C17. A fork holds the content of the source's transcript up to the last item of the chosen response, or all of it, in the
  same order; the source and every other conversation keep their rows, labels and transcripts.
\<close>

theorem fork_copies_prefix:
  assumes "items_ok s" and "\<forall>r \<in> set (st_items s). ci_conversation r \<noteq> fq_new_id q"
    and "fork_conversation q s = (Inr cid, s')"
  shows "\<exists>n. cid = fq_new_id q \<and>
    map item_content (transcript s' cid) = map item_content (take n (transcript s (fq_source q))) \<and>
    (case fq_up_to_response_id q of
       None \<Rightarrow> n = length (transcript s (fq_source q))
     | Some r \<Rightarrow> 0 < n \<and> n \<le> length (transcript s (fq_source q)) \<and> it_response_id (transcript s (fq_source q) ! (n - 1)) = r \<and>
         (\<forall>i. n \<le> i \<longrightarrow> i < length (transcript s (fq_source q)) \<longrightarrow> it_response_id (transcript s (fq_source q) ! i) \<noteq> r)) \<and>
    (\<forall>c. c \<noteq> cid \<longrightarrow> transcript s' c = transcript s c \<and> get_conversation s' c = get_conversation s c \<and>
       fetch_labels s' c = fetch_labels s c)"
  using assms(3)
proof (cases rule: fork_run)
  case (2 source cutoff m extra)
  let ?rows = "fork_source_rows q cutoff s"
  let ?T = "conv_rows s (fq_source q)"
  have cid: "cid = fq_new_id q" using 2(9) by auto
  obtain n where n: "?rows = take n ?T"
      "case fq_up_to_response_id q of None \<Rightarrow> n = length ?T
       | Some r \<Rightarrow> 0 < n \<and> n \<le> length ?T \<and> ci_response_id (?T ! (n - 1)) = r \<and>
           (\<forall>i. n \<le> i \<longrightarrow> i < length ?T \<longrightarrow> ci_response_id (?T ! i) \<noteq> r)"
    using fork_source_rows_prefix [OF assms(1) 2(3)] by blast
  have content: "map item_content (transcript s' cid) = map item_content (take n (transcript s (fq_source q)))"
    by (simp add: cid transcript_def forked_rows(1) [OF assms(2) 2(5)] forked_content n(1) take_map [symmetric])
  have bound: "case fq_up_to_response_id q of None \<Rightarrow> n = length (transcript s (fq_source q))
     | Some r \<Rightarrow> 0 < n \<and> n \<le> length (transcript s (fq_source q)) \<and> it_response_id (transcript s (fq_source q) ! (n - 1)) = r \<and>
         (\<forall>i. n \<le> i \<longrightarrow> i < length (transcript s (fq_source q)) \<longrightarrow> it_response_id (transcript s (fq_source q) ! i) \<noteq> r)"
    using n(2) by (cases "fq_up_to_response_id q") (auto simp: transcript_def to_item_def)
  have others: "transcript s' c = transcript s c \<and> get_conversation s' c = get_conversation s c \<and> fetch_labels s' c = fetch_labels s c"
    if "c \<noteq> cid" for c
    using that forked_rows(2) [OF assms(2) 2(5), of c] 2(6) [of c]
    by (auto simp: cid transcript_def get_conversation_def 2(4) find_appended fork_row_fields split: option.splits)
  show ?thesis using cid content bound others by blast
qed simp

text \<open>
  C11. A fork never takes over what belongs to the running instance of its source: it has no runner, host, workspace,
  native session or session state, and no label of the instance, among them the switch that bypasses the sandbox.
\<close>

theorem fork_drops_instance_state:
  assumes "fetch_labels s (fq_new_id q) = []"
    and "\<forall>labels. fq_presentation_labels q = Some labels \<longrightarrow> set (map fst labels) \<inter> set INSTANCE_SCOPED_LABEL_KEYS = {}"
    and "fork_conversation q s = (Inr cid, s')"
  shows "(\<forall>k \<in> set INSTANCE_SCOPED_LABEL_KEYS. dict_get (fetch_labels s' cid) k = None) \<and>
    (\<exists>m. meta_of s' cid = Some m \<and> cm_runner_id m = None \<and> cm_host_id m = None \<and> cm_workspace m = None \<and>
       cm_external_session_id m = None \<and> cm_session_state m = [] \<and> cm_session_usage m = [])"
  using assms(3)
proof (cases rule: fork_run)
  case (2 source cutoff m extra)
  have cid: "cid = fq_new_id q" and m: "m = Some (fork_meta q s)" using 2(9) by auto
  let ?labels = "fork_labels q (fork_truncated q cutoff s) (meta_of s (fq_source q)) (fetch_labels s (fq_source q))"
  have "get_conversation s' cid = Some ((fork_row q source)
      \<lparr>cv_next_position := Some (int (length (fork_source_rows q cutoff s))), cv_meta := m\<rparr>)"
    using 2(2) by (simp add: get_conversation_def 2(4) find_appended cid fork_row_fields)
  then have meta: "meta_of s' cid = Some (fork_meta q s)" by (simp add: meta_of_def m)
  have "dict_get (fetch_labels s' cid) k = None" if k: "k \<in> set INSTANCE_SCOPED_LABEL_KEYS" for k
  proof -
    have "k \<notin> fst ` set (upsert_rows ?labels)"
      using fork_labels_instance [OF k assms(2)] by (force simp: upsert_rows_def)
    then have "k \<notin> fst ` set (fetch_labels s' cid)"
      using 2(6) [of cid] assms(1) by (simp add: cid dict_update_keys)
    then show ?thesis by (simp add: dict_get_def map_of_eq_None_iff)
  qed
  then show ?thesis using meta by (simp add: fork_meta_def empty_meta_def)
qed simp

fun runner_race :: "string \<Rightarrow> string list \<Rightarrow> conv_store \<Rightarrow> bool list \<times> conv_store" where
  "runner_race cid [] s = ([], s)"
| "runner_race cid (r # rs) s =
     (let (won, s1) = set_runner_id cid r s; (wins, s2) = runner_race cid rs s1 in (won # wins, s2))"

lemma runner_race_lost:
  "meta_of s cid = Some m \<Longrightarrow> cm_runner_id m \<noteq> None \<Longrightarrow> runner_race cid rs s = (replicate (length rs) False, s)"
  by (induction rs) (auto simp: set_runner_id_def)

lemma meta_of_update_meta: "meta_of (update_meta cid f s) cid = map_option f (meta_of s cid)"
  by (cases "get_conversation s cid") (simp_all add: meta_of_def)

text \<open>
  However many runners try to claim a session without one, in any order, exactly the first attempt wins and the session
  stays with it.
\<close>

theorem first_runner_wins:
  assumes "meta_of s cid = Some m" and "cm_runner_id m = None"
  shows "\<exists>s'. runner_race cid (r # rs) s = (True # replicate (length rs) False, s') \<and>
    map_option cm_runner_id (meta_of s' cid) = Some (Some r)"
proof -
  let ?s = "update_meta cid (\<lambda>m. m\<lparr>cm_runner_id := Some r\<rparr>) s"
  have "meta_of ?s cid = Some (m\<lparr>cm_runner_id := Some r\<rparr>)" by (simp add: meta_of_update_meta assms(1))
  then have "runner_race cid rs ?s = (replicate (length rs) False, ?s)" by (rule runner_race_lost) simp
  then show ?thesis
    using assms by (intro exI [of _ ?s]) (simp add: set_runner_id_def meta_of_update_meta)
qed

definition demo_row_of :: "string \<Rightarrow> nat \<Rightarrow> string option \<Rightarrow> string \<Rightarrow> string \<Rightarrow> conversation" where
  "demo_row_of cid rowid parent tree agent =
     (blank_conversation cid rowid 1)\<lparr>cv_parent := parent, cv_root := tree, cv_agent_id := Some agent, cv_next_position := None,
       cv_meta := Some empty_meta\<rparr>"

definition demo_sessions :: conv_store where
  "demo_sessions = empty_store
     \<lparr>st_convs := [demo_row_of ''p'' 1 None ''p'' ''a'', demo_row_of ''c'' 2 (Some ''p'') ''p'' ''a'', demo_row_of ''o'' 3 None ''o'' ''b''],
      st_labels := [(''p'', [(''omnigent.codex_native.bypass_sandbox'', ''1''), (''k'', ''v'')])],
      st_items := [new_row ''p'' 1 0 ''m1'' demo_message [], new_row ''p'' 1 1 ''m2'' demo_message []],
      st_agents := [new_session_agent_row ''a'' ''n'' ''loc'' None 1, new_session_agent_row ''b'' ''n'' ''loc'' None 1]\<rparr>"

lemma first_runner_wins_witness:
  "\<exists>s'. runner_race ''p'' [''r1'', ''r2'', ''r3''] demo_sessions = ([True, False, False], s')"
proof -
  have m: "meta_of demo_sessions ''p'' = Some empty_meta" "cm_runner_id empty_meta = None"
    by (simp_all add: meta_of_def get_conversation_def demo_sessions_def demo_row_of_def blank_conversation_def empty_meta_def)
  show ?thesis using first_runner_wins [OF m, of "''r1''" "[''r2'', ''r3'']"] by (auto simp del: runner_race.simps)
qed

definition demo_new_session :: new_session where
  "demo_new_session = \<lparr>ns_conversation_id = ''s'', ns_rowid = 1, ns_now = 1,
     ns_agent = new_session_agent_row ''a'' ''n'' ''loc'' None 1, ns_title = None, ns_labels = None, ns_reasoning_effort = None,
     ns_workspace = None, ns_terminal_launch_args = None, ns_parent = None, ns_runner_id = None\<rparr>"


lemma delete_removes_subtree_witness:
  "map cv_id (st_convs (fst (snd (delete_conversation ''p'' (demo_sessions, []))))) = [''o'']"
proof -
  have found: "get_conversation demo_sessions ''p'' \<noteq> None"
    by (simp add: get_conversation_def demo_sessions_def demo_row_of_def blank_conversation_def)
  obtain r s' ps' where run: "delete_conversation ''p'' (demo_sessions, []) = (r, s', ps')" by (metis prod_cases3)
  let ?D = "subtree_of (st_convs demo_sessions) ''p''"
  have "set (subtree_ids demo_sessions ''p'') = {''p'', ''c''}"
    by (simp add: subtree_ids_def demo_sessions_def demo_row_of_def blank_conversation_def eval_nat_numeral)
  then have D: "?D = {''p'', ''c''}" using subtree_ids_set [OF found] by simp
  have "st_convs s' = filter (\<lambda>c. cv_id c \<notin> ?D) (st_convs demo_sessions)"
    using delete_removes_subtree [OF found run] by (simp add: Let_def)
  then show ?thesis by (simp add: run D) (simp add: demo_sessions_def demo_row_of_def blank_conversation_def)
qed

definition demo_fork :: fork_request where
  "demo_fork = \<lparr>fq_source = ''p'', fq_new_id = ''f'', fq_rowid = 4, fq_now = 9, fq_item_id = (\<lambda>i. replicate (Suc i) CHR ''x''),
     fq_title = None, fq_agent_id = None, fq_cloned_agent_name = None, fq_cloned_agent_bundle_location = None,
     fq_cloned_agent_description = None, fq_copy_model_settings = True, fq_copy_terminal_launch_args = True,
     fq_carry_history_into_native = False, fq_resume_source_native_session = True, fq_presentation_labels = None,
     fq_up_to_response_id = Some ''r''\<rparr>"

lemma demo_fork_run: "\<exists>s'. fork_conversation demo_fork demo_sessions = (Inr ''f'', s')"
  by (simp add: fork_conversation_def Let_def insert_row_def title_taken_def fork_cutoff_def response_cutoff_def
      fork_source_rows_def opt_all_def item_key_def fork_item_def new_row_def demo_message_def
      demo_fork_def demo_sessions_def demo_row_of_def empty_store_def get_conversation_def fork_row_def blank_conversation_def)

lemma demo_sessions_items: "items_ok demo_sessions" "\<forall>r \<in> set (st_items demo_sessions). ci_conversation r \<noteq> fq_new_id demo_fork"
    "fetch_labels demo_sessions (fq_new_id demo_fork) = []"
  by (simp_all add: items_ok_def demo_sessions_def empty_store_def new_row_def demo_message_def demo_row_of_def
      blank_conversation_def demo_fork_def fetch_labels_def dict_get_or_def)

lemma fork_copies_prefix_witness:
  "\<exists>s' n. fork_conversation demo_fork demo_sessions = (Inr ''f'', s') \<and>
     map item_content (transcript s' ''f'') = map item_content (take n (transcript demo_sessions ''p''))"
proof -
  obtain s' where run: "fork_conversation demo_fork demo_sessions = (Inr ''f'', s')" using demo_fork_run by blast
  have "fq_source demo_fork = ''p''" by (simp add: demo_fork_def)
  then show ?thesis using fork_copies_prefix [OF demo_sessions_items(1,2) run] run by metis
qed

lemma fork_drops_instance_state_witness:
  "\<exists>s'. fork_conversation demo_fork demo_sessions = (Inr ''f'', s') \<and>
     dict_get (fetch_labels s' ''f'') CODEX_NATIVE_BYPASS_SANDBOX_LABEL_KEY = None"
proof -
  obtain s' where run: "fork_conversation demo_fork demo_sessions = (Inr ''f'', s')" using demo_fork_run by blast
  have none: "\<forall>labels. fq_presentation_labels demo_fork = Some labels \<longrightarrow> set (map fst labels) \<inter> set INSTANCE_SCOPED_LABEL_KEYS = {}"
    by (simp add: demo_fork_def)
  have "CODEX_NATIVE_BYPASS_SANDBOX_LABEL_KEY \<in> set INSTANCE_SCOPED_LABEL_KEYS" by (simp add: INSTANCE_SCOPED_LABEL_KEYS_def)
  then show ?thesis using fork_drops_instance_state [OF demo_sessions_items(3) none run] run by blast
qed

subsection \<open>Defects\<close>

text \<open>The switch of one conversation deletes a session agent that another one is still bound to.\<close>

lemma switch_deletes_shared_agent:
  "agents_ok demo_sessions \<and>
   \<not> agents_ok (snd (switch_conversation_agent \<lparr>sw_conversation_id = ''p'', sw_now = 5, sw_new_agent_id = ''z'',
       sw_new_agent_name = ''n'', sw_new_agent_bundle_location = ''loc'', sw_new_agent_description = None,
       sw_copy_model_settings = True, sw_carry_history_into_native = False, sw_presentation_labels = [],
       sw_previous_builtin_id = None\<rparr> demo_sessions))"
  by (simp add: agents_ok_def switch_conversation_agent_def Let_def delete_labels_def switch_upserts_def switch_row_def
      delete_session_agent_def get_agent_def update_conv_def update_meta_def new_session_agent_row_def
      demo_sessions_def demo_row_of_def get_conversation_def blank_conversation_def empty_store_def)

text \<open>Creation with an agent is two transactions: the conversation stays when the agent cannot be inserted.\<close>

lemma create_session_not_atomic:
  "\<exists>err s'. create_session_with_agent demo_new_session
       (empty_store\<lparr>st_agents := [new_session_agent_row ''a'' ''n'' ''loc'' None 0]\<rparr>) = (Inl err, s') \<and>
     get_conversation s' ''s'' \<noteq> None"
  by (simp add: create_session_with_agent_def Let_def demo_new_session_def insert_row_def title_taken_def get_agent_def
      new_session_conversation_row_def get_conversation_def blank_conversation_def empty_store_def list_or_def
      new_session_agent_row_def)

end
