(* ===== verification/Spec2Isabelle.thy ===== *)
theory Spec2Isabelle
  imports Service Policy_Cache Risk_Policy Egress_Credentials Working_Dir Github History_Reload Session_Store
begin

text \<open>
  OmniSci is a science service (\<open>src/science/omnisci\<close>) on top of an agent harness
  (\<open>src/omnigent\<close>). The service keeps tasks, research-log entries, reviews, issues, runs,
  artifacts and approvals in a document table per type, asks an operator before protected actions,
  and runs jobs on compute providers. The harness runs agent sessions and passes every request, tool
  call and result through an engine of guardrail policies, whose decisions depend on labels, session
  state and the money spent by the session tree, and which parks a session on a question to the user
  when a policy asks. This development models those two cores and proves what makes them correct.

  \<^bold>\<open>Conventions.\<close> A call that may raise returns \<open>py_error + 'a\<close> (\<open>Inl\<close> the exception), a stateful
  one maps a state to such a result and a new state, so that a raise keeps what was written before
  it. Dictionaries are association lists in insertion order, Python integers are \<open>int\<close>, amounts and
  durations exact rationals, strings byte lists. Random ids, clock readings, digests and the
  renderings of floats are arguments; so are packages outside the repository and code reached by a
  dotted path. Theory \<open>Prelude\<close> holds these types with the rules that the proofs use (preservation,
  Hoare-style triples and exception frames of effects, dictionaries, strings); \<open>Py_Format\<close> the number
  formats.

  \<^bold>\<open>The science service.\<close>
  \<^item> \<open>Schemas\<close>: the data classes and enumerations of \<open>domain/schemas.py\<close>. The locale \<open>wire_enum\<close>
    states the round trip of an enumeration and its wire names and is interpreted for each of them.
  \<^item> \<open>Repository\<close>: the tables of \<open>domain/repository.py\<close>. The locale \<open>repo_table\<close> is the contract of
    one table (what add, update and get return, ids, frames), interpreted for all seven;
    \<open>db_ok\<close> is the database invariant.
  \<^item> \<open>Records\<close>: tasks, research log, reviews and issues of \<open>service.py\<close>, with the evidence gate on
    finishing a task, the issue fingerprint and the reopening of a known issue.
  \<^item> \<open>Approvals\<close>: requests, resolution, revocation and the gate \<open>_require_approval\<close>; the state machine
    \<open>approval_trans\<close> of one approval and the steps \<open>approval_step\<close> of the component; one-time
    approvals are spent once, denials and revocations are final.
  \<^item> \<open>Compute\<close>, \<open>Local_Compute\<close>: the execution specification with its canonical JSON and hash; the
    locale \<open>compute_provider\<close> is the contract of a provider and is interpreted for the local
    subprocess provider of \<open>compute/local.py\<close>, whose submit is also interleaved with concurrent
    cancellations (\<open>local_step\<close>).
  \<^item> \<open>Jobs\<close>: submission with its approval policy and deduplication, reconciliation, output collection,
    listing and cancellation, over any providers that meet the contract.
  \<^item> \<open>Service\<close>: all operations interleaved over one database, and the invariant they keep together.

  \<^bold>\<open>The guardrail engine.\<close>
  \<^item> \<open>Policy_Types\<close>: phases, actions (ordered by strictness), selectors, labels, specs, contexts,
    results and the interpreter of state updates (\<open>spec/types.py\<close>, \<open>policies/types.py\<close>).
  \<^item> \<open>Conv_Entities\<close>: conversations, conversation items and their JSON forms (\<open>entities/conversation.py\<close>,
    \<open>db/db_models.py\<close>).
  \<^item> \<open>Conv_Store\<close>: the conversation store (\<open>stores/conversation_store/sqlalchemy_store.py\<close>): rows with
    their metadata and labels, creation, update, cursor listing, usage counters, permissions, daily
    cost. The locale \<open>store_column\<close> is the contract of a metadata column, interpreted for the session
    state and the usage; \<open>paged_loop\<close> is the contract of a loop over cursor pages, interpreted for
    the load of a session tree and for the load of a transcript.
  \<^item> \<open>Transcript\<close>: the items of a conversation: append with the allocation of positions, the listing by
    cursor with its filters, the latest messages of many conversations, the search rows.
  \<^item> \<open>Session_Store\<close>: creation of a session with its agent, the runner, host and native-session bindings,
    updates, fork, agent switch and the deletion of a session with its descendants and orphaned agents;
    \<open>sessions_ok\<close> is the invariant that all of them keep along any history of operations.
  \<^item> \<open>Usage_Seed\<close>: the paged load of a session tree, the walk to its descendants and the usage sums
    (\<open>runtime/policies/builder.py\<close>).
  \<^item> \<open>Compaction\<close>: the three layers that shorten a prompt: old tool results cleared, older messages
    replaced by a summary, oldest batches dropped (\<open>runtime/compaction.py\<close>).
  \<^item> \<open>History_Reload\<close>: the compaction item, the history that the next turn loads from it and the
    \<open>compact\<close> command (\<open>runtime/compaction.py\<close>, \<open>runtime/workflow.py\<close>); the theorems join it to the transcript.
  \<^item> \<open>Policy_Engine\<close>: selector and condition gates, dispatch, composition, label and state writes and
    usage recording (\<open>runtime/policies/engine.py\<close>). \<open>verdicts\<close> and \<open>composed_result\<close> are the reference
    specification that the evaluation loop refines; \<open>engine_step\<close> the runs of an engine.
  \<^item> \<open>Elicitation\<close>: the round trip of a question to the user (\<open>runtime/policies/approval.py\<close>).
  \<^item> \<open>Function_Policy\<close>: events and the coercion of what a callable returns (\<open>policies/function.py\<close>).
  \<^item> \<open>Cost_Policy\<close>: the budgets of \<open>policies/builtins/cost.py\<close>; the locale \<open>budget_reader\<close> is what the
    gate needs of a spend, interpreted for the session, daily and sub-agent budgets.
  \<^item> \<open>Policy_Builder\<close>: the engine built for a conversation from session, root, agent, database and
    server policies, with its caches and seeds and the guard on \<open>sys_add_policy\<close>.
  \<^item> \<open>Policy_Store\<close>: the stored policies of sessions and of the server, with the normalisation of ids
    (\<open>stores/policy_store/sqlalchemy_store.py\<close>, \<open>db/db_models.py\<close>).
  \<^item> \<open>Access\<close>: users, grants and the authorisation of the routes, which walks to the root session
    (\<open>stores/permission_store/sqlalchemy_store.py\<close>, \<open>server/permissions.py\<close>,
    \<open>server/routes/_auth_helpers.py\<close>).
  \<^item> \<open>Policy_Admin\<close>: the registry of handlers, request bodies and the routes that change stored policies
    (\<open>policies/registry.py\<close>, \<open>server/routes/session_policies.py\<close>, \<open>default_policies.py\<close>).
  \<^item> \<open>Policy_Cache\<close>: the locale \<open>spec_cache\<close>, what both caches of specs promise, interpreted for the
    session and the default cache; the steps of a server over table and caches.
  \<^item> \<open>State_Counter\<close>: the locale \<open>state_counter\<close>, a key of the session state that only grows over any
    sequence of evaluated and approved events, for the policies that count.
  \<^item> \<open>Safety_Policy\<close>: the call limit, the approval of file and shell tools, blocked skills and the
    forced sandbox (\<open>policies/builtins/safety.py\<close>).
  \<^item> \<open>Risk_Policy\<close>: the risk score and the escalation of guarded tools
    (\<open>policies/builtins/risk_score.py\<close>).
  \<^item> \<open>Egress_Rules\<close>: the rules of the sandbox network, their language and the matching of requests
    (\<open>inner/egress/rules.py\<close>).
  \<^item> \<open>Credential_Proxy\<close>: the credentials of a sandbox, from the configuration (\<open>spec/parser.py\<close>) to resolved
    secrets and placeholders (\<open>inner/credential_proxy.py\<close>).
  \<^item> \<open>Egress_Proxy\<close>: the handling of one connection of a sandbox as effects on a trace of lookups,
    connections and replies (\<open>inner/egress/proxy.py\<close>). \<open>Egress_Credentials\<close>: which credentials leave it.
  \<^item> \<open>Shell_Parse\<close>: the parsing of shell commands for the policies on them (\<open>policies/builtins/_shell.py\<close>).
    \<open>Working_Dir\<close>: the policy on directories and worktrees (\<open>policies/builtins/working_dir.py\<close>); the relation
    \<open>reaches\<close> is the declarative reading of the recursion through nested shells, whose fuel is the
    code's own limit of nesting, and the locale \<open>command_walk\<close> its contract. \<open>Github\<close>: the policy on GitHub
    tools and on \<open>git\<close> and \<open>gh\<close> commands (\<open>policies/builtins/github.py\<close>).

  The last section of this theory follows one budget checkpoint through all of them: the budget
  asks, the user accepts, and the whole session tree goes on.

  \<^bold>\<open>Bounds and termination.\<close> The walk to the descendants of a conversation and the dropping of
  oldest batches are total by measures. The paged load of a session tree and of a transcript
  and the walk of an access check to the root session are \<open>partial_function\<close>s whose value \<open>None\<close> is an endless loop;
  the loads are proved to return every live row of a consistent store and every item of a consistent
  transcript, the walk to return on every forest of conversations. The deletion of a subtree runs as many rounds as the store
  has rows (\<open>subtree_rounds\<close>), which is enough because a chain of parents repeats no row
  (\<open>subtree_ids_set\<close>). The nesting limit of the shell parser is the limit of the code.

  \<^bold>\<open>Not modelled.\<close> The remote and batch providers, object storage, skill installation and the front
  ends of the science service; the session routes, runner, harness bridges, command line and REPL of the
  harness, which are input, output and processes around the cores above; the scan for
  personal data and the built-in policies for CEL, Google, routing, orchestration and the context size, which
  are callables behind the interface of \<open>Function_Policy\<close>; full-text search, the import of foreign
  transcripts, project lists and the liveness columns of conversations; tracing and logging; the resolution of a
  dotted path to code, prompt classifiers, token counters and the price catalog, which are arguments. The payload of an item is
  stored as a value and not as its text, and ids are taken in their normal form.
\<close>

section \<open>A budget checkpoint from question to approval\<close>










end
